(* ===== verification/JsBase.thy ===== *)
theory JsBase
  imports Complex_Main
begin

text \<open>
  The JavaScript values the Cooket web client computes with, shared by every other theory.

  A string is the list of its UTF-8 bytes, so that \<^verbatim>\<open>new TextEncoder().encode(s).length\<close> is
  \<^verbatim>\<open>length s\<close>; all the patterns the client matches are ASCII patterns. A \<^verbatim>\<open>bigint\<close> is an
  \<^verbatim>\<open>int\<close>. A \<^verbatim>\<open>number\<close> is a rational or one of the three special values. Anything thrown is
  a value of \<^verbatim>\<open>js_error\<close>, and a function that may throw returns \<^verbatim>\<open>js_error + 'a\<close>.
\<close>

named_theorems text_simps \<open>digits, decimal texts and their values\<close>
named_theorems result_simps \<open>sequencing of computations that may throw\<close>

subsection \<open>Thrown values\<close>

datatype js_error =
    JsError (err_name: string) (err_message: string)
  | JsOther string

abbreviation Err :: "string \<Rightarrow> js_error" where
  "Err m \<equiv> JsError ''Error'' m"

text \<open>\<^verbatim>\<open>reason instanceof Error ? reason.message : String(reason)\<close>.\<close>

fun error_text :: "js_error \<Rightarrow> string" where
  "error_text (JsError n m) = m"
| "error_text (JsOther s) = s"

text \<open>The same with the error's name in front, as the receipt classifiers read it.\<close>

fun named_error_text :: "js_error \<Rightarrow> string" where
  "named_error_text (JsError n m) = n @ '' '' @ m"
| "named_error_text (JsOther s) = s"

type_synonym 'a result = "js_error + 'a"

definition try_bind :: "'e + 'a \<Rightarrow> ('a \<Rightarrow> 'e + 'b) \<Rightarrow> 'e + 'b" where
  "try_bind r f = (case r of Inl e \<Rightarrow> Inl e | Inr a \<Rightarrow> f a)"

lemma try_bind_simps [simp, result_simps]:
  "try_bind (Inl e) f = Inl e"
  "try_bind (Inr a) f = f a"
  by (simp_all add: try_bind_def)

lemma try_bind_Inr_iff [result_simps]:
  "try_bind r f = Inr b \<longleftrightarrow> (\<exists>a. r = Inr a \<and> f a = Inr b)"
  by (cases r) simp_all

text \<open>\<^verbatim>\<open>if (bad) throw new Error(m)\<close>.\<close>

definition throw_if :: "bool \<Rightarrow> string \<Rightarrow> unit result" where
  "throw_if bad m = (if bad then Inl (Err m) else Inr ())"

lemma throw_if_simps [simp, result_simps]:
  "throw_if True m = Inl (Err m)"
  "throw_if False m = Inr ()"
  by (simp_all add: throw_if_def)

lemma throw_if_Inr_iff [simp, result_simps]: "throw_if bad m = Inr u \<longleftrightarrow> \<not> bad"
  by (simp add: throw_if_def)

subsection \<open>Characters\<close>

abbreviation code_of :: "char \<Rightarrow> nat" where
  "code_of c \<equiv> of_char c"

definition is_digit :: "char \<Rightarrow> bool" where
  "is_digit c \<longleftrightarrow> 48 \<le> code_of c \<and> code_of c \<le> 57"

definition is_hex :: "char \<Rightarrow> bool" where
  "is_hex c \<longleftrightarrow> is_digit c \<or> (65 \<le> code_of c \<and> code_of c \<le> 70)
     \<or> (97 \<le> code_of c \<and> code_of c \<le> 102)"

definition is_alpha :: "char \<Rightarrow> bool" where
  "is_alpha c \<longleftrightarrow> (65 \<le> code_of c \<and> code_of c \<le> 90) \<or> (97 \<le> code_of c \<and> code_of c \<le> 122)"

definition digit_char :: "nat \<Rightarrow> char" where
  "digit_char d = char_of (48 + d)"

definition digit_value :: "char \<Rightarrow> nat" where
  "digit_value c = code_of c - 48"

definition hex_value :: "char \<Rightarrow> nat" where
  "hex_value c =
     (if is_digit c then code_of c - 48
      else if 97 \<le> code_of c then code_of c - 87 else code_of c - 55)"

lemma code_of_digit_char [text_simps]: "d < 10 \<Longrightarrow> code_of (digit_char d) = 48 + d"
  by (simp add: digit_char_def)

lemma is_digit_digit_char [simp, text_simps]: "d < 10 \<Longrightarrow> is_digit (digit_char d)"
  by (simp add: is_digit_def code_of_digit_char)

lemma digit_value_digit_char [simp, text_simps]: "d < 10 \<Longrightarrow> digit_value (digit_char d) = d"
  by (simp add: digit_value_def code_of_digit_char)

lemma digit_value_less [text_simps]: "is_digit c \<Longrightarrow> digit_value c < 10"
  by (auto simp: is_digit_def digit_value_def)

lemma digit_char_digit_value [text_simps]: "is_digit c \<Longrightarrow> digit_char (digit_value c) = c"
  by (auto simp: is_digit_def digit_value_def digit_char_def)

lemma digit_char_eq_iff [text_simps]:
  "d < 10 \<Longrightarrow> e < 10 \<Longrightarrow> digit_char d = digit_char e \<longleftrightarrow> d = e"
  by (metis digit_value_digit_char)

text \<open>\<^verbatim>\<open>toLowerCase\<close>, on the ASCII letters.\<close>

definition lower_char :: "char \<Rightarrow> char" where
  "lower_char c = (if 65 \<le> code_of c \<and> code_of c \<le> 90 then char_of (code_of c + 32) else c)"

definition upper_char :: "char \<Rightarrow> char" where
  "upper_char c = (if 97 \<le> code_of c \<and> code_of c \<le> 122 then char_of (code_of c - 32) else c)"

definition js_lower :: "string \<Rightarrow> string" where
  "js_lower s = map lower_char s"

definition js_upper :: "string \<Rightarrow> string" where
  "js_upper s = map upper_char s"

lemma lower_char_idem [simp]: "lower_char (lower_char c) = lower_char c"
  by (simp add: lower_char_def)

lemma js_lower_idem [simp]: "js_lower (js_lower s) = js_lower s"
  by (simp add: js_lower_def)

lemma js_lower_append [simp]: "js_lower (s @ t) = js_lower s @ js_lower t"
  by (simp add: js_lower_def)

lemma length_js_lower [simp]: "length (js_lower s) = length s"
  by (simp add: js_lower_def)

definition same_address :: "string \<Rightarrow> string \<Rightarrow> bool" where
  "same_address a b \<longleftrightarrow> js_lower a = js_lower b"

lemma same_address_refl [simp]: "same_address a a"
  by (simp add: same_address_def)

lemma same_address_sym: "same_address a b \<Longrightarrow> same_address b a"
  by (simp add: same_address_def)

lemma same_address_trans [trans]: "same_address a b \<Longrightarrow> same_address b c \<Longrightarrow> same_address a c"
  by (simp add: same_address_def)

subsection \<open>Texts and patterns\<close>

definition all_digits :: "string \<Rightarrow> bool" where
  "all_digits s \<longleftrightarrow> s \<noteq> [] \<and> list_all is_digit s"

text \<open>\<^verbatim>\<open>/^0x[0-9a-fA-F]{n}$/\<close>.\<close>

definition hex_pattern :: "nat \<Rightarrow> string \<Rightarrow> bool" where
  "hex_pattern n s \<longleftrightarrow> take 2 s = ''0x'' \<and> length s = n + 2 \<and> list_all is_hex (drop 2 s)"

definition address_pattern :: "string \<Rightarrow> bool" where
  "address_pattern = hex_pattern 40"

definition hash_pattern :: "string \<Rightarrow> bool" where
  "hash_pattern = hex_pattern 64"

text \<open>\<^verbatim>\<open>/^0x[0-9a-fA-F]*$/\<close>.\<close>

definition hex_data :: "string \<Rightarrow> bool" where
  "hex_data s \<longleftrightarrow> take 2 s = ''0x'' \<and> list_all is_hex (drop 2 s)"

text \<open>\<^verbatim>\<open>/^0x0{40}$/i\<close>.\<close>

definition zero_address_pattern :: "string \<Rightarrow> bool" where
  "zero_address_pattern s \<longleftrightarrow> js_lower s = ''0x'' @ replicate 40 (CHR ''0'')"

definition starts_with :: "string \<Rightarrow> string \<Rightarrow> bool" where
  "starts_with p s \<longleftrightarrow> take (length p) s = p"

fun contains_text :: "string \<Rightarrow> string \<Rightarrow> bool" where
  "contains_text p [] = (p = [])"
| "contains_text p (c # s) = (starts_with p (c # s) \<or> contains_text p s)"

text \<open>An unanchored pattern of literal alternatives with the \<^verbatim>\<open>i\<close> flag, as in
  \<^verbatim>\<open>/reject|denied|cancelled/i.test(message)\<close>.\<close>

definition matches_any_ci :: "string list \<Rightarrow> string \<Rightarrow> bool" where
  "matches_any_ci ps s \<longleftrightarrow> list_ex (\<lambda>p. contains_text (js_lower p) (js_lower s)) ps"

definition rejection_pattern :: "string list" where
  "rejection_pattern = [''reject'', ''denied'', ''cancelled'']"

text \<open>The long dash the formatters show for a missing value (U+2014, three bytes).\<close>

definition dash :: string where
  "dash = [char_of (226 :: nat), char_of (128 :: nat), char_of (148 :: nat)]"

subsection \<open>White space\<close>

text \<open>
  \<^verbatim>\<open>String.prototype.trim\<close> removes the ECMAScript white space and line terminators: the ASCII
  ones, U+00A0, U+1680, U+2000 to U+200A, U+2028, U+2029, U+202F, U+205F, U+3000 and U+FEFF, here
  as their UTF-8 encodings.
\<close>

fun ws_char :: "nat list \<Rightarrow> bool" where
  "ws_char [b] = (b = 32 \<or> (9 \<le> b \<and> b \<le> 13))"
| "ws_char [b, c] = (b = 194 \<and> c = 160)"
| "ws_char [b, c, d] =
     ((b = 225 \<and> c = 154 \<and> d = 128)
      \<or> (b = 226 \<and> c = 128 \<and> ((128 \<le> d \<and> d \<le> 138) \<or> d = 168 \<or> d = 169 \<or> d = 175))
      \<or> (b = 226 \<and> c = 129 \<and> d = 159)
      \<or> (b = 227 \<and> c = 128 \<and> d = 128)
      \<or> (b = 239 \<and> c = 187 \<and> d = 191))"
| "ws_char _ = False"

definition ws_start :: "string \<Rightarrow> nat" where
  "ws_start s =
     (if ws_char (map of_char (take 1 s)) then 1
      else if ws_char (map of_char (take 2 s)) then 2
      else if ws_char (map of_char (take 3 s)) then 3 else 0)"

definition ws_end :: "string \<Rightarrow> nat" where
  "ws_end s =
     (if ws_char (map of_char (rev (take 1 (rev s)))) then 1
      else if ws_char (map of_char (rev (take 2 (rev s)))) then 2
      else if ws_char (map of_char (rev (take 3 (rev s)))) then 3 else 0)"

lemma ws_start_Nil [simp]: "ws_start [] = 0"
  by (simp add: ws_start_def)

lemma ws_end_Nil [simp]: "ws_end [] = 0"
  by (simp add: ws_end_def)

lemma ws_start_nonempty: "ws_start s \<noteq> 0 \<Longrightarrow> s \<noteq> []"
  by auto

lemma ws_end_nonempty: "ws_end s \<noteq> 0 \<Longrightarrow> s \<noteq> []"
  by auto

function trim_start :: "string \<Rightarrow> string" where
  "trim_start s = (if ws_start s = 0 then s else trim_start (drop (ws_start s) s))"
  by pat_completeness auto
termination
  by (relation "measure length") (use ws_start_nonempty in auto)

function trim_end :: "string \<Rightarrow> string" where
  "trim_end s = (if ws_end s = 0 then s else trim_end (take (length s - ws_end s) s))"
  by pat_completeness auto
termination
  by (relation "measure length") (use ws_end_nonempty in auto)

declare trim_start.simps [simp del] trim_end.simps [simp del]

definition js_trim :: "string \<Rightarrow> string" where
  "js_trim s = trim_end (trim_start s)"

lemma ws_char_single: "ws_char [code_of c] \<longleftrightarrow> code_of c = 32 \<or> (9 \<le> code_of c \<and> code_of c \<le> 13)"
  by simp

lemma ws_start_plain:
  assumes "32 < code_of c" and "code_of c < 128"
  shows "ws_start (c # s) = 0"
proof -
  have "\<not> ws_char (map of_char (take 1 (c # s)))" using assms by simp
  moreover have "\<not> ws_char (map of_char (take 2 (c # s)))"
    using assms by (cases s) (simp_all add: take_Suc_conv_app_nth)
  moreover have "\<not> ws_char (map of_char (take 3 (c # s)))"
    using assms by (cases s rule: remdups_adj.cases) (simp_all add: numeral_3_eq_3)
  ultimately show ?thesis by (simp add: ws_start_def)
qed

end
