(* ===== verification/JsNumber.thy ===== *)
theory JsNumber
  imports JsBase
begin

text \<open>
  Decimal texts, \<^verbatim>\<open>bigint\<close> and \<^verbatim>\<open>number\<close> of JavaScript, and JSON values: the conversions
  the client uses at its borders (\<^verbatim>\<open>BigInt(text)\<close>, \<^verbatim>\<open>toString()\<close>,
  \<^verbatim>\<open>padStart\<close>, \<^verbatim>\<open>replace(/0+$/, '')\<close>, \<^verbatim>\<open>Number.isSafeInteger\<close>), with the laws
  that relate a text to the number it stands for.
\<close>

subsection \<open>Decimal digits\<close>

fun nat_text :: "nat \<Rightarrow> string" where
  "nat_text n = (if n < 10 then [digit_char n] else nat_text (n div 10) @ [digit_char (n mod 10)])"

declare nat_text.simps [simp del]

definition digits_value :: "string \<Rightarrow> nat" where
  "digits_value s = foldl (\<lambda>v c. 10 * v + digit_value c) 0 s"

lemma digits_value_Nil [simp, text_simps]: "digits_value [] = 0"
  by (simp add: digits_value_def)

lemma digits_value_snoc [simp, text_simps]:
  "digits_value (s @ [c]) = 10 * digits_value s + digit_value c"
  by (simp add: digits_value_def)

lemma digits_value_append [text_simps]:
  "digits_value (s @ t) = digits_value s * 10 ^ length t + digits_value t"
proof (induction t rule: rev_induct)
  case (snoc c t)
  have "digits_value (s @ t @ [c]) = digits_value ((s @ t) @ [c])" by simp
  also have "\<dots> = 10 * digits_value (s @ t) + digit_value c" by (rule digits_value_snoc)
  finally show ?case using snoc by (simp add: algebra_simps)
qed simp

lemma digits_value_Cons [text_simps]:
  "digits_value (c # s) = digit_value c * 10 ^ length s + digits_value s"
  using digits_value_append[of "[c]" s] digits_value_snoc[of "[]" c] by simp

lemma digits_value_less:
  "list_all is_digit s \<Longrightarrow> digits_value s < 10 ^ length s"
proof (induction s rule: rev_induct)
  case (snoc c s)
  then have "digits_value s < 10 ^ length s" and "digit_value c < 10"
    by (auto simp: digit_value_less)
  then show ?case by simp
qed simp

lemma digits_value_nat_text [simp, text_simps]: "digits_value (nat_text n) = n"
proof (induction n rule: nat_text.induct)
  case (1 n)
  show ?case
  proof (cases "n < 10")
    case True
    then show ?thesis using digits_value_snoc[of "[]" "digit_char n"]
      by (simp add: nat_text.simps[of n])
  next
    case False
    then show ?thesis using "1.IH" by (simp add: nat_text.simps[of n])
  qed
qed

lemma nat_text_nonempty [simp]: "nat_text n \<noteq> []"
  by (subst nat_text.simps) simp

lemma nat_text_digits [simp, text_simps]: "list_all is_digit (nat_text n)"
proof (induction n rule: nat_text.induct)
  case (1 n)
  then show ?case by (subst nat_text.simps) simp
qed

lemma all_digits_nat_text [simp, text_simps]: "all_digits (nat_text n)"
  by (simp add: all_digits_def)

lemma nat_text_inj [simp]: "nat_text m = nat_text n \<longleftrightarrow> m = n"
  by (metis digits_value_nat_text)

lemma digit_char_numeral [simp, text_simps]:
  "digit_char 0 = CHR ''0''" "digit_char 1 = CHR ''1''" "digit_char 2 = CHR ''2''"
  "digit_char 3 = CHR ''3''" "digit_char 4 = CHR ''4''" "digit_char 5 = CHR ''5''"
  "digit_char 6 = CHR ''6''" "digit_char 7 = CHR ''7''" "digit_char 8 = CHR ''8''"
  "digit_char 9 = CHR ''9''" "digit_char (Suc 0) = CHR ''1''"
  by code_simp+

lemma nat_text_0 [simp]: "nat_text 0 = ''0''"
  by (simp add: nat_text.simps)

lemma nat_text_hd_zero: "hd (nat_text n) = CHR ''0'' \<longleftrightarrow> n = 0"
proof (induction n rule: nat_text.induct)
  case (1 n)
  show ?case
  proof (cases "n < 10")
    case True
    have "digit_char n = digit_char 0 \<longleftrightarrow> n = 0" using True by (rule digit_char_eq_iff) simp
    then show ?thesis using True by (simp add: nat_text.simps[of n])
  next
    case False
    then have "n div 10 \<noteq> 0" by simp
    with 1 False show ?thesis by (simp add: nat_text.simps[of n])
  qed
qed

lemma nat_text_length_le: "n < 10 ^ k \<Longrightarrow> 0 < k \<Longrightarrow> length (nat_text n) \<le> k"
proof (induction n arbitrary: k rule: nat_text.induct)
  case (1 n)
  show ?case
  proof (cases "n < 10")
    case True
    then show ?thesis using 1 by (simp add: nat_text.simps[of n])
  next
    case False
    with 1 have "k \<noteq> 1" by auto
    with 1 obtain j where k: "k = Suc j" "0 < j" by (cases k) auto
    then have "n div 10 < 10 ^ j" using 1 by auto
    with 1 False k show ?thesis by (simp add: nat_text.simps[of n])
  qed
qed

text \<open>\<^verbatim>\<open>bigint.toString()\<close>.\<close>

definition int_text :: "int \<Rightarrow> string" where
  "int_text i = (if i < 0 then ''-'' @ nat_text (nat (- i)) else nat_text (nat i))"

lemma int_text_nonneg: "0 \<le> i \<Longrightarrow> int_text i = nat_text (nat i)"
  by (simp add: int_text_def)

lemma digits_value_int_text [simp]: "0 \<le> i \<Longrightarrow> digits_value (int_text i) = nat i"
  by (simp add: int_text_def)

lemma all_digits_int_text [simp]: "0 \<le> i \<Longrightarrow> all_digits (int_text i)"
  by (simp add: int_text_def)

lemma int_text_nonempty [simp]: "int_text i \<noteq> []"
  by (simp add: int_text_def)

lemma minus_not_digit [simp]: "\<not> is_digit (CHR ''-'')"
  by (simp add: is_digit_def)

lemma int_text_inj [simp]: "int_text i = int_text j \<longleftrightarrow> i = j"
proof -
  have digit: "is_digit (hd (nat_text n))" for n
    using nat_text_digits[of n] nat_text_nonempty[of n] by (cases "nat_text n") auto
  have *: "nat_text n \<noteq> CHR ''-'' # s" for n s
    using digit[of n] by (metis list.sel(1) minus_not_digit)
  show ?thesis using * *[symmetric] by (auto simp: int_text_def eq_nat_nat_iff)
qed

subsection \<open>BigInt(text)\<close>

text \<open>
  \<^verbatim>\<open>BigInt(s)\<close> trims its argument; the empty text is 0; a \<^verbatim>\<open>0x\<close>, \<^verbatim>\<open>0o\<close> or
  \<^verbatim>\<open>0b\<close> prefix selects a base; otherwise an optional sign and decimal digits. \<^verbatim>\<open>None\<close> is
  the SyntaxError it throws for any other text.
\<close>

definition base_value :: "nat \<Rightarrow> string \<Rightarrow> nat" where
  "base_value b s = foldl (\<lambda>v c. b * v + hex_value c) 0 s"

definition digits_below :: "nat \<Rightarrow> string \<Rightarrow> bool" where
  "digits_below b s \<longleftrightarrow> s \<noteq> [] \<and> list_all (\<lambda>c. is_hex c \<and> hex_value c < b) s"

definition js_bigint :: "string \<Rightarrow> int option" where
  "js_bigint s =
     (let t = js_trim s; p = js_lower (take 2 t); r = drop 2 t in
      if t = [] then Some 0
      else if p = ''0x'' then (if digits_below 16 r then Some (int (base_value 16 r)) else None)
      else if p = ''0o'' then (if digits_below 8 r then Some (int (base_value 8 r)) else None)
      else if p = ''0b'' then (if digits_below 2 r then Some (int (base_value 2 r)) else None)
      else if all_digits t then Some (int (digits_value t))
      else if hd t = CHR ''-'' \<and> all_digits (tl t) then Some (- int (digits_value (tl t)))
      else if hd t = CHR ''+'' \<and> all_digits (tl t) then Some (int (digits_value (tl t)))
      else None)"

lemma digit_code: "is_digit c \<Longrightarrow> 32 < code_of c \<and> code_of c < 128"
  by (simp add: is_digit_def)

lemma trim_start_digits: "all_digits s \<Longrightarrow> trim_start s = s"
  by (cases s) (auto simp: all_digits_def trim_start.simps ws_start_plain digit_code)

lemma ws_end_digit:
  assumes "is_digit c"
  shows "ws_end (s @ [c]) = 0"
proof -
  note d = assms[unfolded is_digit_def]
  have 1: "\<not> ws_char (map of_char (rev (take 1 (rev (s @ [c])))))" using d by simp
  have 2: "\<not> ws_char (map of_char (rev (take 2 (rev (s @ [c])))))"
    using d by (cases "rev s") (simp_all add: take_Suc_conv_app_nth)
  have 3: "\<not> ws_char (map of_char (rev (take 3 (rev (s @ [c])))))"
    using d by (cases "rev s" rule: remdups_adj.cases) (auto simp: numeral_3_eq_3)
  show ?thesis unfolding ws_end_def using 1 2 3 by presburger
qed

lemma trim_end_digits: "all_digits s \<Longrightarrow> trim_end s = s"
  by (cases s rule: rev_cases) (auto simp: all_digits_def trim_end.simps ws_end_digit)

lemma js_trim_digits [simp, text_simps]: "all_digits s \<Longrightarrow> js_trim s = s"
  by (simp add: js_trim_def trim_start_digits trim_end_digits)

lemma lower_digit: "is_digit c \<Longrightarrow> lower_char c = c"
  by (simp add: is_digit_def lower_char_def)

lemma js_bigint_digits [simp, text_simps]:
  assumes "all_digits s"
  shows "js_bigint s = Some (int (digits_value s))"
proof -
  have s: "s \<noteq> []" "list_all is_digit s" using assms by (auto simp: all_digits_def)
  have "js_lower (take 2 s) \<noteq> [CHR ''0'', x]" if "\<not> is_digit x" for x
  proof
    assume eq: "js_lower (take 2 s) = [CHR ''0'', x]"
    have "list_all is_digit (js_lower (take 2 s))"
      using s(2) by (cases s rule: remdups_adj.cases) (auto simp: js_lower_def lower_digit numeral_2_eq_2)
    with eq that show False by simp
  qed
  then show ?thesis using assms s
    by (simp add: js_bigint_def Let_def is_digit_def)
qed

text \<open>\<^verbatim>\<open>BigInt(n.toString())\<close> gives \<^verbatim>\<open>n\<close> back, for the amounts the client handles.\<close>

lemma js_bigint_int_text [simp, text_simps]: "0 \<le> i \<Longrightarrow> js_bigint (int_text i) = Some i"
  by (simp add: int_text_nonneg)

text \<open>\<^verbatim>\<open>a / b\<close> on \<^verbatim>\<open>bigint\<close>: truncation toward zero; callers pass a nonzero divisor.\<close>

definition big_div :: "int \<Rightarrow> int \<Rightarrow> int" where
  "big_div a b = sgn a * sgn b * (\<bar>a\<bar> div \<bar>b\<bar>)"

lemma big_div_nonneg [simp]: "0 \<le> a \<Longrightarrow> 0 < b \<Longrightarrow> big_div a b = a div b"
  by (cases "a = 0") (simp_all add: big_div_def)

lemma big_div_zero [simp]: "big_div 0 b = 0"
  by (simp add: big_div_def)

subsection \<open>Padding and stripping zeros\<close>

definition pad_start :: "nat \<Rightarrow> string \<Rightarrow> string" where
  "pad_start n s = replicate (n - length s) (CHR ''0'') @ s"

definition strip_zeros :: "string \<Rightarrow> string" where
  "strip_zeros s = rev (dropWhile (\<lambda>c. c = CHR ''0'') (rev s))"

lemma length_pad_start [simp]: "length (pad_start n s) = max n (length s)"
  by (simp add: pad_start_def)

lemma digit_value_zero [simp]: "digit_value (CHR ''0'') = 0"
  by (simp add: digit_value_def)

lemma is_digit_zero [simp]: "is_digit (CHR ''0'')"
  by (simp add: is_digit_def)

lemma digits_value_zeros [simp, text_simps]: "digits_value (replicate k (CHR ''0'')) = 0"
  by (induction k) (simp_all add: digits_value_Cons)

lemma digits_value_pad_start [simp, text_simps]: "digits_value (pad_start n s) = digits_value s"
  by (simp add: pad_start_def digits_value_append)

lemma list_all_pad_start [simp]: "list_all is_digit (pad_start n s) = list_all is_digit s"
  by (auto simp: pad_start_def list_all_iff)

lemma strip_zeros_split: "\<exists>k. s = strip_zeros s @ replicate k (CHR ''0'')"
proof -
  let ?z = "takeWhile (\<lambda>c. c = CHR ''0'') (rev s)"
  have "?z = replicate (length ?z) (CHR ''0'')"
    by (metis (full_types) replicate_eqI set_takeWhileD)
  moreover have "s = rev (?z @ dropWhile (\<lambda>c. c = CHR ''0'') (rev s))" by simp
  ultimately have "s = strip_zeros s @ replicate (length ?z) (CHR ''0'')"
    unfolding strip_zeros_def by (metis rev_append rev_replicate)
  then show ?thesis ..
qed

lemma strip_zeros_digits: "list_all is_digit s \<Longrightarrow> list_all is_digit (strip_zeros s)"
  by (metis list_all_append strip_zeros_split)

lemma strip_zeros_last: "strip_zeros s \<noteq> [] \<Longrightarrow> last (strip_zeros s) \<noteq> CHR ''0''"
  by (metis (mono_tags, lifting) hd_dropWhile last_rev rev_is_Nil_conv strip_zeros_def)

lemma strip_zeros_Nil_iff: "strip_zeros s = [] \<longleftrightarrow> (\<forall>c \<in> set s. c = CHR ''0'')"
  by (auto simp: strip_zeros_def dropWhile_eq_Nil_conv)

subsection \<open>Numbers\<close>

datatype jsnum = Fin rat | NaN | PosInf | NegInf

definition max_safe :: int where
  "max_safe = 9007199254740991"

fun is_finite_num :: "jsnum \<Rightarrow> bool" where
  "is_finite_num (Fin q) = True"
| "is_finite_num _ = False"

fun positive_finite :: "jsnum \<Rightarrow> bool" where
  "positive_finite (Fin q) = (0 < q)"
| "positive_finite _ = False"

fun is_integer_num :: "jsnum \<Rightarrow> bool" where
  "is_integer_num (Fin q) = (of_int \<lfloor>q\<rfloor> = q)"
| "is_integer_num _ = False"

fun is_safe_integer :: "jsnum \<Rightarrow> bool" where
  "is_safe_integer (Fin q) = (of_int \<lfloor>q\<rfloor> = q \<and> \<bar>\<lfloor>q\<rfloor>\<bar> \<le> max_safe)"
| "is_safe_integer _ = False"

abbreviation num_of :: "int \<Rightarrow> jsnum" where
  "num_of i \<equiv> Fin (of_int i)"

fun int_of_num :: "jsnum \<Rightarrow> int" where
  "int_of_num (Fin q) = \<lfloor>q\<rfloor>"
| "int_of_num _ = 0"

lemma is_integer_num_iff: "is_integer_num n \<longleftrightarrow> (\<exists>i. n = num_of i)"
proof (cases n)
  case (Fin q)
  then show ?thesis using floor_of_int by (metis is_integer_num.simps(1))
qed simp_all

lemma is_safe_integer_iff: "is_safe_integer n \<longleftrightarrow> (\<exists>i. n = num_of i \<and> \<bar>i\<bar> \<le> max_safe)"
proof (cases n)
  case (Fin q)
  then show ?thesis using floor_of_int by (metis is_safe_integer.simps(1))
qed simp_all

lemma is_safe_integer_imp_integer: "is_safe_integer n \<Longrightarrow> is_integer_num n"
  by (cases n) auto

subsection \<open>JSON values\<close>

datatype json =
    JNull
  | JBool bool
  | JNum jsnum
  | JStr string
  | JArr "json list"
  | JObj "(string \<times> json) list"

text \<open>
  A property of a parsed object; \<^verbatim>\<open>None\<close> is \<^verbatim>\<open>undefined\<close>. Both an array and a primitive
  have none of the properties the client reads.
\<close>

fun json_field :: "json \<Rightarrow> string \<Rightarrow> json option" where
  "json_field (JObj fs) k = map_of fs k"
| "json_field _ k = None"

text \<open>\<^verbatim>\<open>typeof value === 'object' && value !== null\<close>.\<close>

fun is_object :: "json \<Rightarrow> bool" where
  "is_object (JObj fs) = True"
| "is_object (JArr xs) = True"
| "is_object _ = False"

definition string_field :: "json \<Rightarrow> string \<Rightarrow> string option" where
  "string_field j k = (case json_field j k of Some (JStr s) \<Rightarrow> Some s | _ \<Rightarrow> None)"

definition num_field :: "json \<Rightarrow> string \<Rightarrow> jsnum option" where
  "num_field j k = (case json_field j k of Some (JNum n) \<Rightarrow> Some n | _ \<Rightarrow> None)"

lemma string_field_Some: "string_field j k = Some s \<longleftrightarrow> json_field j k = Some (JStr s)"
  by (auto simp: string_field_def split: option.splits json.splits)

lemma num_field_Some: "num_field j k = Some n \<longleftrightarrow> json_field j k = Some (JNum n)"
  by (auto simp: num_field_def split: option.splits json.splits)

end
