(* ===== verification/JsIO.thy ===== *)
theory JsIO
  imports JsNumber
begin

text \<open>
  Asynchronous code of the client as computations on a trace.

  A computation takes the list of everything the client has asked of the outside world so far and
  returns what it yields or throws, with the list extended by its own requests. The outside world
  (the RPC node, the wallet, the clock) is a record of functions that see that list, so a property
  proved for every such record holds whatever the outside answers and whenever it changes its mind.
  \<^verbatim>\<open>await\<close> is sequencing; \<^verbatim>\<open>Promise.all\<close> issues all requests in order and fails with the
  error of the leftmost failing one.
\<close>

named_theorems emits_intros \<open>what a computation may add to the trace\<close>
named_theorems io_inv \<open>inversion of a computation that returned\<close>

subsection \<open>Requests\<close>

datatype arg = AInt int | AText string

record call_spec =
  call_to :: string
  call_fn :: string
  call_args :: "arg list"
  call_account :: string
  call_value :: int

datatype event =
    EvRead string string "arg list"
  | EvSimulate call_spec
  | EvEstimateGas call_spec
  | EvEthCall call_spec
  | EvGasPrice
  | EvBalance string
  | EvChainId
  | EvCode string
  | EvTransaction string
  | EvReceipt string
  | EvWaitReceipt string "nat option"
  | EvBlockNumber
  | EvLatestBlock
  | EvTxCount string
  | EvBlock int
  | EvWalletChainId
  | EvWalletAddresses
  | EvWrite call_spec
  | EvSignMessage string
  | EvHttp string string
  | EvNow
  | EvDelay nat
  | EvCallback string "string list"

text \<open>The one request that moves funds.\<close>

fun is_write :: "event \<Rightarrow> bool" where
  "is_write (EvWrite c) = True"
| "is_write _ = False"

lemma is_write_iff: "is_write e \<longleftrightarrow> (\<exists>c. e = EvWrite c)"
  by (cases e) auto

type_synonym trace = "event list"
type_synonym 'a io = "trace \<Rightarrow> (js_error + 'a) \<times> trace"

subsection \<open>Sequencing\<close>

definition io_return :: "'a \<Rightarrow> 'a io" where
  "io_return a tr = (Inr a, tr)"

definition io_throw :: "js_error \<Rightarrow> 'a io" where
  "io_throw e tr = (Inl e, tr)"

definition io_bind :: "'a io \<Rightarrow> ('a \<Rightarrow> 'b io) \<Rightarrow> 'b io" where
  "io_bind m f tr = (case m tr of (Inl e, t) \<Rightarrow> (Inl e, t) | (Inr a, t) \<Rightarrow> f a t)"

definition io_catch :: "'a io \<Rightarrow> (js_error \<Rightarrow> 'a io) \<Rightarrow> 'a io" where
  "io_catch m h tr = (case m tr of (Inl e, t) \<Rightarrow> h e t | (Inr a, t) \<Rightarrow> (Inr a, t))"

text \<open>\<^verbatim>\<open>try\<close> around an awaited computation only: what threw, or what it returned.\<close>

definition io_attempt :: "'a io \<Rightarrow> (js_error + 'a) io" where
  "io_attempt m tr = (case m tr of (r, t) \<Rightarrow> (Inr r, t))"

text \<open>A synchronous part of the code, which may throw.\<close>

definition io_result :: "'a result \<Rightarrow> 'a io" where
  "io_result r tr = (r, tr)"

text \<open>\<^verbatim>\<open>if (bad) throw new Error(m)\<close>.\<close>

definition io_throw_if :: "bool \<Rightarrow> string \<Rightarrow> unit io" where
  "io_throw_if bad m = io_result (throw_if bad m)"

text \<open>A request: the world answers from the trace before it.\<close>

definition io_call :: "event \<Rightarrow> (trace \<Rightarrow> 'a result) \<Rightarrow> 'a io" where
  "io_call e answer tr = (answer tr, tr @ [e])"

text \<open>A callback of the caller, which returns nothing and never throws.\<close>

definition io_note :: "event \<Rightarrow> unit io" where
  "io_note e tr = (Inr (), tr @ [e])"

text \<open>A synchronous check that reads mutable state of the caller, so may answer differently each
  time: a function of the trace that asks nothing of the outside.\<close>

definition io_check :: "(trace \<Rightarrow> 'a result) \<Rightarrow> 'a io" where
  "io_check f tr = (f tr, tr)"

definition io_both :: "'a io \<Rightarrow> 'b io \<Rightarrow> ('a \<times> 'b) io" where
  "io_both m n tr =
     (case m tr of (r, t) \<Rightarrow>
       (case n t of (r', t') \<Rightarrow>
         (try_bind r (\<lambda>a. try_bind r' (\<lambda>b. Inr (a, b))), t')))"

fun io_all :: "'a io list \<Rightarrow> 'a list io" where
  "io_all [] = io_return []"
| "io_all (m # ms) = io_bind (io_both m (io_all ms)) (\<lambda>(x, xs). io_return (x # xs))"

lemmas io_defs = io_return_def io_throw_def io_bind_def io_catch_def io_result_def io_throw_if_def
  io_call_def io_note_def io_check_def io_attempt_def io_both_def

text \<open>One step of a run.\<close>

lemma io_steps:
  "io_return a tr = (Inr a, tr)"
  "io_throw err tr = (Inl err, tr)"
  "io_bind (io_return v) f tr = f v tr"
  "io_bind (io_call e ans) g tr = (case ans tr of Inl x \<Rightarrow> (Inl x, tr @ [e]) | Inr b \<Rightarrow> g b (tr @ [e]))"
  "io_bind (io_result r) h tr = (case r of Inl x \<Rightarrow> (Inl x, tr) | Inr d \<Rightarrow> h d tr)"
  "io_bind (io_note e) u tr = u () (tr @ [e])"
  "io_bind (io_check chk) l tr = (case chk tr of Inl x \<Rightarrow> (Inl x, tr) | Inr q \<Rightarrow> l q tr)"
  by (simp_all add: io_defs split: sum.splits)

subsection \<open>Computations that returned\<close>

lemma io_return_Inr [io_inv]: "io_return a tr = (Inr b, t) \<longleftrightarrow> b = a \<and> t = tr"
  by (auto simp: io_return_def)

lemma io_throw_Inr [io_inv]: "io_throw e tr = (Inr b, t) \<longleftrightarrow> False"
  by (simp add: io_throw_def)

lemma io_bind_Inr [io_inv]:
  "io_bind m f tr = (Inr b, t') \<longleftrightarrow> (\<exists>a t. m tr = (Inr a, t) \<and> f a t = (Inr b, t'))"
  by (auto simp: io_bind_def split: prod.splits sum.splits)

lemma io_result_Inr [io_inv]: "io_result r tr = (Inr b, t) \<longleftrightarrow> r = Inr b \<and> t = tr"
  by (auto simp: io_result_def)

lemma io_throw_if_Inr [io_inv]: "io_throw_if bad m tr = (Inr u, t) \<longleftrightarrow> \<not> bad \<and> t = tr"
  by (auto simp: io_throw_if_def io_result_def)

lemma io_call_Inr [io_inv]: "io_call e ans tr = (Inr b, t) \<longleftrightarrow> ans tr = Inr b \<and> t = tr @ [e]"
  by (auto simp: io_call_def)

lemma io_note_Inr [io_inv]: "io_note e tr = (Inr u, t) \<longleftrightarrow> t = tr @ [e]"
  by (auto simp: io_note_def)

lemma io_check_Inr [io_inv]: "io_check f tr = (Inr b, t) \<longleftrightarrow> f tr = Inr b \<and> t = tr"
  by (auto simp: io_check_def)

lemma io_attempt_Inr [io_inv]: "io_attempt m tr = (Inr r, t) \<longleftrightarrow> m tr = (r, t)"
  by (auto simp: io_attempt_def split: prod.splits)

lemma io_both_Inr [io_inv]:
  "io_both m n tr = (Inr p, t')
   \<longleftrightarrow> (\<exists>t. m tr = (Inr (fst p), t) \<and> n t = (Inr (snd p), t'))"
  by (cases p) (auto simp: io_both_def try_bind_def split: prod.splits sum.splits)

lemma io_list_Inr [io_inv]:
  "(case xs of [] \<Rightarrow> io_throw e | y # ys \<Rightarrow> f y ys) tr = (Inr b, t)
   \<longleftrightarrow> (\<exists>y ys. xs = y # ys \<and> f y ys tr = (Inr b, t))"
  by (cases xs) (auto simp: io_throw_def)

lemma io_option_Inr [io_inv]:
  "(case x of None \<Rightarrow> io_throw e | Some a \<Rightarrow> f a) tr = (Inr b, t)
   \<longleftrightarrow> (\<exists>a. x = Some a \<and> f a tr = (Inr b, t))"
  by (cases x) (auto simp: io_throw_def)

lemma io_if_throw_Inr [io_inv]:
  "(if bad then io_throw e else m) tr = (Inr b, t) \<longleftrightarrow> \<not> bad \<and> m tr = (Inr b, t)"
  by (auto simp: io_throw_def)

subsection \<open>What a computation adds to the trace\<close>

text \<open>The trace \<^verbatim>\<open>t\<close> extends \<^verbatim>\<open>tr\<close> by events that satisfy \<^verbatim>\<open>P\<close>.\<close>

definition grows :: "(event \<Rightarrow> bool) \<Rightarrow> trace \<Rightarrow> trace \<Rightarrow> bool" where
  "grows P tr t \<longleftrightarrow> (\<exists>s. t = tr @ s \<and> list_all P s)"

lemma grows_refl [simp]: "grows P tr tr"
  by (simp add: grows_def)

lemma grows_snoc [simp]: "grows P tr (tr @ [e]) \<longleftrightarrow> P e"
  by (simp add: grows_def)

lemma grows_trans [trans]: "grows P tr t \<Longrightarrow> grows P t u \<Longrightarrow> grows P tr u"
  by (auto simp: grows_def)

definition emits :: "(event \<Rightarrow> bool) \<Rightarrow> 'a io \<Rightarrow> bool" where
  "emits P m \<longleftrightarrow> (\<forall>tr. grows P tr (snd (m tr)))"

lemma emitsD: "emits P m \<Longrightarrow> m tr = (r, t) \<Longrightarrow> grows P tr t"
  by (metis emits_def snd_conv)

lemma emits_return [emits_intros]: "emits P (io_return a)"
  by (simp add: emits_def io_return_def)

lemma emits_throw [emits_intros]: "emits P (io_throw e)"
  by (simp add: emits_def io_throw_def)

lemma emits_result [emits_intros]: "emits P (io_result r)"
  by (simp add: emits_def io_result_def)

lemma emits_throw_if [emits_intros]: "emits P (io_throw_if bad m)"
  by (simp add: io_throw_if_def emits_result)

lemma emits_call [emits_intros]: "P e \<Longrightarrow> emits P (io_call e ans)"
  by (simp add: emits_def io_call_def)

lemma emits_note [emits_intros]: "P e \<Longrightarrow> emits P (io_note e)"
  by (simp add: emits_def io_note_def)

lemma emits_check [emits_intros]: "emits P (io_check f)"
  by (simp add: emits_def io_check_def)

lemma emits_bind [emits_intros]:
  assumes "emits P m" and "\<And>a. emits P (f a)"
  shows "emits P (io_bind m f)"
proof (unfold emits_def, intro allI)
  fix tr
  obtain r t where run: "m tr = (r, t)" by (cases "m tr")
  have first: "grows P tr t" by (rule emitsD[OF assms(1) run])
  have second: "grows P t (snd (f a t))" for a using assms(2) by (simp add: emits_def)
  show "grows P tr (snd (io_bind m f tr))"
    using run first grows_trans[OF first second] by (cases r) (auto simp: io_bind_def)
qed

lemma emits_catch [emits_intros]:
  assumes "emits P m" and "\<And>e. emits P (h e)"
  shows "emits P (io_catch m h)"
proof (unfold emits_def, intro allI)
  fix tr
  obtain r t where run: "m tr = (r, t)" by (cases "m tr")
  have first: "grows P tr t" by (rule emitsD[OF assms(1) run])
  have second: "grows P t (snd (h a t))" for a using assms(2) by (simp add: emits_def)
  show "grows P tr (snd (io_catch m h tr))"
    using run first grows_trans[OF first second] by (cases r) (auto simp: io_catch_def)
qed

lemma emits_attempt [emits_intros]: "emits P m \<Longrightarrow> emits P (io_attempt m)"
  by (simp add: emits_def io_attempt_def split_beta)

lemma emits_both [emits_intros]:
  assumes "emits P m" and "emits P n"
  shows "emits P (io_both m n)"
proof (unfold emits_def, intro allI)
  fix tr
  obtain r t where run: "m tr = (r, t)" by (cases "m tr")
  obtain r' t' where run': "n t = (r', t')" by (cases "n t")
  have "grows P tr t'"
    by (rule grows_trans[OF emitsD[OF assms(1) run] emitsD[OF assms(2) run']])
  with run run' show "grows P tr (snd (io_both m n tr))" by (simp add: io_both_def)
qed

lemma emits_all [emits_intros]: "list_all (emits P) ms \<Longrightarrow> emits P (io_all ms)"
  by (induction ms) (auto intro!: emits_intros split: prod.splits)

lemma grows_mono: "grows P tr t \<Longrightarrow> (\<And>e. P e \<Longrightarrow> Q e) \<Longrightarrow> grows Q tr t"
  unfolding grows_def by (metis list.pred_mono_strong)

lemma emits_mono: "emits P m \<Longrightarrow> (\<And>e. P e \<Longrightarrow> Q e) \<Longrightarrow> emits Q m"
  unfolding emits_def using grows_mono by blast

lemma emits_if [emits_intros]:
  "(c \<Longrightarrow> emits P m) \<Longrightarrow> (\<not> c \<Longrightarrow> emits P n) \<Longrightarrow> emits P (if c then m else n)"
  by simp

lemma emits_option [emits_intros]:
  "(x = None \<Longrightarrow> emits P m) \<Longrightarrow> (\<And>a. x = Some a \<Longrightarrow> emits P (f a))
   \<Longrightarrow> emits P (case x of None \<Rightarrow> m | Some a \<Rightarrow> f a)"
  by (cases x) auto

lemma emits_sum [emits_intros]:
  "(\<And>a. x = Inl a \<Longrightarrow> emits P (f a)) \<Longrightarrow> (\<And>b. x = Inr b \<Longrightarrow> emits P (g b))
   \<Longrightarrow> emits P (case x of Inl a \<Rightarrow> f a | Inr b \<Rightarrow> g b)"
  by (cases x) auto

lemma emits_prod [emits_intros]:
  "(\<And>a b. x = (a, b) \<Longrightarrow> emits P (f a b)) \<Longrightarrow> emits P (case x of (a, b) \<Rightarrow> f a b)"
  by (cases x) auto

lemma emits_let [emits_intros]: "(\<And>a. a = x \<Longrightarrow> emits P (f a)) \<Longrightarrow> emits P (let a = x in f a)"
  by simp

abbreviation read_only :: "'a io \<Rightarrow> bool" where
  "read_only \<equiv> emits (\<lambda>e. \<not> is_write e)"

subsection \<open>Guarded writes\<close>

text \<open>Every write a run adds to the trace satisfies the guard \<^verbatim>\<open>G\<close> with the trace before it.\<close>

definition grows_guarded :: "(trace \<Rightarrow> call_spec \<Rightarrow> bool) \<Rightarrow> trace \<Rightarrow> trace \<Rightarrow> bool" where
  "grows_guarded G tr t \<longleftrightarrow>
     (\<exists>s. t = tr @ s \<and> (\<forall>p c q. s = p @ EvWrite c # q \<longrightarrow> G (tr @ p) c))"

lemma grows_guarded_refl [simp]: "grows_guarded G tr tr"
  by (simp add: grows_guarded_def)

lemma grows_guarded_write: "grows_guarded G tr (tr @ [EvWrite c]) \<longleftrightarrow> G tr c"
  by (auto simp: grows_guarded_def Cons_eq_append_conv append_eq_Cons_conv)

lemma grows_guarded_trans [trans]:
  assumes "grows_guarded G tr t" and "grows_guarded G t u"
  shows "grows_guarded G tr u"
proof -
  obtain s where s: "t = tr @ s" "\<And>p c q. s = p @ EvWrite c # q \<Longrightarrow> G (tr @ p) c"
    using assms(1) by (auto simp: grows_guarded_def)
  obtain s' where s': "u = t @ s'" "\<And>p c q. s' = p @ EvWrite c # q \<Longrightarrow> G (t @ p) c"
    using assms(2) by (auto simp: grows_guarded_def)
  have "G (tr @ p) c" if "s @ s' = p @ EvWrite c # q" for p c q
  proof -
    from that consider us where "s = p @ EvWrite c # us"
      | us where "p = s @ us" "s' = us @ EvWrite c # q"
      by (auto simp: append_eq_append_conv2 append_eq_Cons_conv Cons_eq_append_conv)
    then show ?thesis using s s' by cases auto
  qed
  with s(1) s'(1) show ?thesis unfolding grows_guarded_def by auto
qed

definition guarded :: "(trace \<Rightarrow> call_spec \<Rightarrow> bool) \<Rightarrow> 'a io \<Rightarrow> bool" where
  "guarded G m \<longleftrightarrow> (\<forall>tr. grows_guarded G tr (snd (m tr)))"

named_theorems guarded_intros \<open>computations whose writes are guarded\<close>

lemma guardedD: "guarded G m \<Longrightarrow> m tr = (r, t) \<Longrightarrow> grows_guarded G tr t"
  by (metis guarded_def snd_conv)

lemma grows_read_only: "grows (\<lambda>e. \<not> is_write e) tr t \<Longrightarrow> grows_guarded G tr t"
  by (auto simp: grows_def grows_guarded_def)

lemma guarded_read_only: "read_only m \<Longrightarrow> guarded G m"
  by (simp add: guarded_def emits_def grows_read_only)

lemma guarded_bind [guarded_intros]:
  assumes "guarded G m" and "\<And>a. guarded G (f a)"
  shows "guarded G (io_bind m f)"
proof (unfold guarded_def, intro allI)
  fix tr
  obtain r t where run: "m tr = (r, t)" by (cases "m tr")
  have first: "grows_guarded G tr t" by (rule guardedD[OF assms(1) run])
  have second: "grows_guarded G t (snd (f a t))" for a using assms(2) by (simp add: guarded_def)
  show "grows_guarded G tr (snd (io_bind m f tr))"
    using run first grows_guarded_trans[OF first second] by (cases r) (auto simp: io_bind_def)
qed

lemma guarded_catch [guarded_intros]:
  assumes "guarded G m" and "\<And>e. guarded G (h e)"
  shows "guarded G (io_catch m h)"
proof (unfold guarded_def, intro allI)
  fix tr
  obtain r t where run: "m tr = (r, t)" by (cases "m tr")
  have first: "grows_guarded G tr t" by (rule guardedD[OF assms(1) run])
  have second: "grows_guarded G t (snd (h a t))" for a using assms(2) by (simp add: guarded_def)
  show "grows_guarded G tr (snd (io_catch m h tr))"
    using run first grows_guarded_trans[OF first second] by (cases r) (auto simp: io_catch_def)
qed

lemma guarded_if [guarded_intros]:
  "(c \<Longrightarrow> guarded G m) \<Longrightarrow> (\<not> c \<Longrightarrow> guarded G n) \<Longrightarrow> guarded G (if c then m else n)"
  by simp

lemma guarded_option [guarded_intros]:
  "(x = None \<Longrightarrow> guarded G m) \<Longrightarrow> (\<And>a. x = Some a \<Longrightarrow> guarded G (f a))
   \<Longrightarrow> guarded G (case x of None \<Rightarrow> m | Some a \<Rightarrow> f a)"
  by (cases x) auto

lemma guarded_prod [guarded_intros]:
  "(\<And>a b. x = (a, b) \<Longrightarrow> guarded G (f a b)) \<Longrightarrow> guarded G (case x of (a, b) \<Rightarrow> f a b)"
  by (cases x) auto

lemma guarded_let [guarded_intros]:
  "(\<And>a. a = x \<Longrightarrow> guarded G (f a)) \<Longrightarrow> guarded G (let a = x in f a)"
  by simp

text \<open>The writes of a trace, and their number in a run that only ends with a write.\<close>

definition writes :: "trace \<Rightarrow> call_spec list" where
  "writes tr = concat (map (\<lambda>e. case e of EvWrite c \<Rightarrow> [c] | _ \<Rightarrow> []) tr)"

lemma writes_simps [simp]:
  "writes [] = []"
  "writes (s @ t) = writes s @ writes t"
  "writes (e # t) = (case e of EvWrite c \<Rightarrow> [c] | _ \<Rightarrow> []) @ writes t"
  by (simp_all add: writes_def)

lemma writes_none: "list_all (\<lambda>e. \<not> is_write e) s \<Longrightarrow> writes s = []"
  by (induction s) (auto split: event.splits)

lemma writes_nonempty: "writes s \<noteq> [] \<Longrightarrow> \<exists>c p q. s = p @ EvWrite c # q"
  using writes_none[of s] by (metis in_set_conv_decomp is_write_iff list_all_iff)

lemma read_only_writes:
  assumes "read_only m" and "m tr = (r, t)"
  shows "writes t = writes tr"
  using emitsD[OF assms] writes_none by (fastforce simp: grows_def)

end
