(* ===== verification/JsDouble.thy ===== *)
theory JsDouble
  imports JsNumber
begin

text \<open>
  \<^verbatim>\<open>number\<close> as an IEEE 754 double: rounding of a rational to the nearest double (ties to
  even, gradual underflow, overflow to infinity), \<^verbatim>\<open>Number(decimalText)\<close> for the plain decimal
  texts the client converts, and \<^verbatim>\<open>toFixed\<close>. A zero has no sign here.
\<close>

subsection \<open>Powers of two and the binade of a number\<close>

definition pow2 :: "int \<Rightarrow> rat" where
  "pow2 k = (if 0 \<le> k then 2 ^ nat k else 1 / 2 ^ nat (- k))"

lemma pow2_pos [simp]: "0 < pow2 k"
  by (simp add: pow2_def)

lemma pow2_nonzero [simp]: "pow2 k \<noteq> 0"
  by (metis less_irrefl pow2_pos)

lemma pow2_powi: "pow2 k = 2 powi k"
  by (simp add: pow2_def power_int_def inverse_eq_divide power_one_over)

lemma pow2_add: "pow2 (j + k) = pow2 j * pow2 k"
  by (simp add: pow2_powi power_int_add)

lemma pow2_Suc: "pow2 (k + 1) = 2 * pow2 k"
  by (simp add: pow2_powi power_int_add)

lemma pow2_strict: "j < k \<Longrightarrow> pow2 j < pow2 k"
  by (simp add: pow2_powi power_int_strict_increasing)

lemma pow2_less_iff: "pow2 j < pow2 k \<longleftrightarrow> j < k"
  by (metis linorder_neqE_linordered_idom order_less_asym order_less_irrefl pow2_strict)

lemma pow2_le_iff: "pow2 j \<le> pow2 k \<longleftrightarrow> j \<le> k"
  using pow2_less_iff[of k j] by (simp add: not_less[symmetric])

lemma pow2_neg: "pow2 (- k) = 1 / pow2 k"
  by (simp add: pow2_powi power_int_minus inverse_eq_divide)

fun bit_len :: "nat \<Rightarrow> nat" where
  "bit_len n = (if n = 0 then 0 else Suc (bit_len (n div 2)))"

declare bit_len.simps [simp del]

lemma bit_len_bounds: "0 < n \<Longrightarrow> 2 ^ bit_len n \<le> 2 * n \<and> n < 2 ^ bit_len n"
proof (induction n rule: bit_len.induct)
  case (1 n)
  show ?case
  proof (cases "n div 2 = 0")
    case True
    with 1 have "n = 1" by auto
    then show ?thesis by (simp add: bit_len.simps)
  next
    case False
    then have "2 ^ bit_len (n div 2) \<le> 2 * (n div 2)" "n div 2 < 2 ^ bit_len (n div 2)"
      using 1 by auto
    moreover have "2 * (n div 2) \<le> n" "n < 2 * (n div 2 + 1)" by simp_all
    ultimately have "2 ^ bit_len (n div 2) \<le> n" "n < 2 * 2 ^ bit_len (n div 2)" by linarith+
    then show ?thesis using 1(2) by (simp add: bit_len.simps[of n])
  qed
qed

text \<open>The exponent \<^verbatim>\<open>e\<close> with \<^verbatim>\<open>2^e <= q < 2^(e+1)\<close>, for a positive \<^verbatim>\<open>q\<close>.\<close>

definition binade :: "rat \<Rightarrow> int" where
  "binade q =
     (case quotient_of q of (n, d) \<Rightarrow>
       (let e = int (bit_len (nat n)) - int (bit_len (nat d)) in if pow2 e \<le> q then e else e - 1))"

lemma binade_bounds:
  assumes "0 < q"
  shows "pow2 (binade q) \<le> q" and "q < pow2 (binade q + 1)"
proof -
  obtain n d where nd: "quotient_of q = (n, d)" by (cases "quotient_of q")
  have d: "0 < d" using quotient_of_denom_pos[OF nd] .
  have q: "q = of_int n / of_int d" using quotient_of_div[OF nd] .
  have n: "0 < n" using assms d q by (simp add: zero_less_divide_iff)
  define a b where "a = bit_len (nat n)" and "b = bit_len (nat d)"
  have "(2 :: int) ^ a \<le> 2 * n" "n < 2 ^ a"
    using bit_len_bounds[of "nat n"] n
    by (simp_all add: a_def nat_less_iff le_nat_iff[symmetric] nat_power_eq flip: of_nat_le_iff[where 'a=int])
  then have na: "(2 :: rat) ^ a \<le> 2 * of_int n" "of_int n < (2 :: rat) ^ a"
    by (metis of_int_le_iff of_int_mult of_int_numeral of_int_power)
       (metis \<open>n < 2 ^ a\<close> of_int_less_iff of_int_numeral of_int_power)
  have "(2 :: int) ^ b \<le> 2 * d" "d < 2 ^ b"
    using bit_len_bounds[of "nat d"] d
    by (simp_all add: b_def nat_less_iff le_nat_iff[symmetric] nat_power_eq flip: of_nat_le_iff[where 'a=int])
  then have db: "(2 :: rat) ^ b \<le> 2 * of_int d" "of_int d < (2 :: rat) ^ b"
    by (metis of_int_le_iff of_int_mult of_int_numeral of_int_power)
       (metis \<open>d < 2 ^ b\<close> of_int_less_iff of_int_numeral of_int_power)
  let ?e = "int a - int b"
  have pe: "pow2 ?e = 2 ^ a / 2 ^ b"
    using pow2_add[of "int a" "- int b"] by (simp add: pow2_neg pow2_def)
  have dr: "(0 :: rat) < of_int d" using d by simp
  have hi: "q < 2 * pow2 ?e"
  proof -
    have "of_int n * 2 ^ b < 2 ^ a * (2 ^ b :: rat)" using na by simp
    also have "\<dots> \<le> 2 ^ a * (2 * of_int d)" using db by simp
    finally show ?thesis using dr by (simp add: q pe field_simps)
  qed
  have lo: "pow2 ?e < 2 * q"
  proof -
    have "2 ^ a * of_int d < 2 ^ a * (2 ^ b :: rat)" using db by simp
    also have "\<dots> \<le> 2 * of_int n * 2 ^ b" using na by simp
    finally show ?thesis using dr by (simp add: q pe field_simps)
  qed
  have "pow2 ?e = 2 * pow2 (?e - 1)" using pow2_Suc[of "?e - 1"] by simp
  with hi lo show "pow2 (binade q) \<le> q" "q < pow2 (binade q + 1)"
    by (auto simp: binade_def nd Let_def a_def b_def pow2_Suc)
qed

subsection \<open>Rounding\<close>

definition round_half_even :: "rat \<Rightarrow> int" where
  "round_half_even s =
     (let f = \<lfloor>s\<rfloor>; r = s - of_int f in
      if r < 1 / 2 then f else if 1 / 2 < r then f + 1 else if even f then f else f + 1)"

lemma round_half_even_int [simp]: "round_half_even (of_int i) = i"
  by (simp add: round_half_even_def)

lemma round_half_even_error: "\<bar>of_int (round_half_even s) - s\<bar> \<le> 1 / 2"
proof -
  define f where "f = \<lfloor>s\<rfloor>"
  have "of_int f \<le> s" and "s < of_int f + 1" unfolding f_def by linarith+
  then show ?thesis by (auto simp: round_half_even_def Let_def f_def[symmetric] abs_le_iff)
qed

text \<open>The unit in the last place of the doubles next to \<^verbatim>\<open>q\<close>, as an exponent of two.\<close>

definition ulp_exp :: "rat \<Rightarrow> int" where
  "ulp_exp q = max (binade q - 52) (- 1074)"

definition round_positive :: "rat \<Rightarrow> jsnum" where
  "round_positive q =
     (let u = ulp_exp q; v = of_int (round_half_even (q / pow2 u)) * pow2 u in
      if v < pow2 1024 then Fin v else PosInf)"

fun num_neg :: "jsnum \<Rightarrow> jsnum" where
  "num_neg (Fin q) = Fin (- q)"
| "num_neg NaN = NaN"
| "num_neg PosInf = NegInf"
| "num_neg NegInf = PosInf"

definition double_of :: "rat \<Rightarrow> jsnum" where
  "double_of q =
     (if q = 0 then Fin 0 else if 0 < q then round_positive q else num_neg (round_positive (- q)))"

lemma num_neg_neg [simp]: "num_neg (num_neg n) = n"
  by (cases n) simp_all

lemma double_of_neg: "double_of (- q) = num_neg (double_of q)"
  by (simp add: double_of_def)

lemma round_positive_exact:
  assumes "0 < q" and "q / pow2 (ulp_exp q) = of_int i" and "q < pow2 1024"
  shows "round_positive q = Fin q"
proof -
  have "of_int (round_half_even (q / pow2 (ulp_exp q))) * pow2 (ulp_exp q) = q"
    using assms(2) by (metis nonzero_divide_eq_eq pow2_nonzero round_half_even_int)
  then show ?thesis using assms(3) by (simp add: round_positive_def Let_def)
qed

lemma pow2_nat: "0 \<le> k \<Longrightarrow> pow2 k = of_int (2 ^ nat k)"
  by (simp add: pow2_def)

lemma round_positive_int:
  assumes "0 < i" and "i \<le> 2 ^ 53"
  shows "round_positive (of_int i) = Fin (of_int i)"
proof -
  let ?q = "of_int i :: rat"
  have q: "0 < ?q" using assms by simp
  have "?q \<le> pow2 53"
    using assms(2) by (metis of_int_le_iff pow2_nat[of 53] nat_numeral zero_le_numeral)
  then have e: "binade ?q \<le> 53"
    using binade_bounds(1)[OF q] pow2_le_iff by (meson order_trans)
  have big: "?q < pow2 1024"
    using \<open>?q \<le> pow2 53\<close> pow2_less_iff[of 53 1024] by simp
  have "\<exists>j. ?q / pow2 (ulp_exp ?q) = of_int j"
  proof (cases "binade ?q = 53")
    case True
    then have "pow2 53 \<le> ?q" using binade_bounds(1)[OF q] by simp
    with \<open>?q \<le> pow2 53\<close> have "?q = pow2 53" by simp
    moreover have "ulp_exp ?q = 1" using True by (simp add: ulp_exp_def)
    moreover have "pow2 53 / pow2 1 = of_int (2 ^ 52)" by (simp add: pow2_def)
    ultimately show ?thesis by metis
  next
    case False
    with e have "ulp_exp ?q \<le> 0" by (simp add: ulp_exp_def)
    then have "?q / pow2 (ulp_exp ?q) = of_int (i * 2 ^ nat (- ulp_exp ?q))"
      using pow2_neg[of "ulp_exp ?q"] pow2_nat[of "- ulp_exp ?q"] by simp
    then show ?thesis ..
  qed
  then obtain j where "?q / pow2 (ulp_exp ?q) = of_int j" ..
  then show ?thesis by (rule round_positive_exact[OF q _ big])
qed

text \<open>Every integer up to 2^53 in absolute value is a double.\<close>

lemma double_of_int: "\<bar>i\<bar> \<le> 2 ^ 53 \<Longrightarrow> double_of (of_int i) = num_of i"
  using round_positive_int[of i] round_positive_int[of "- i"]
  by (auto simp: double_of_def)

lemma round_positive_error:
  assumes "round_positive q = Fin v"
  shows "\<bar>v - q\<bar> \<le> pow2 (ulp_exp q) / 2"
proof -
  let ?u = "pow2 (ulp_exp q)"
  let ?r = "of_int (round_half_even (q / ?u)) :: rat"
  have v: "v = ?r * ?u" using assms by (auto simp: round_positive_def Let_def split: if_splits)
  have "v - q = (?r - q / ?u) * ?u" by (simp add: v left_diff_distrib)
  then have "\<bar>v - q\<bar> = \<bar>?r - q / ?u\<bar> * ?u" by (simp add: abs_mult abs_of_pos)
  also have "\<dots> \<le> 1 / 2 * ?u" by (intro mult_right_mono round_half_even_error) (simp add: less_imp_le)
  finally show ?thesis by simp
qed

text \<open>A rounded result is within half a unit of the last of its 53 bits, or half the least
  positive double.\<close>

lemma round_positive_relative:
  assumes "0 < q" and "round_positive q = Fin v"
  shows "\<bar>v - q\<bar> \<le> max (q / 2 ^ 53) (pow2 (- 1075))"
proof -
  have "pow2 (binade q - 52) / 2 = pow2 (binade q) / 2 ^ 53"
    using pow2_add[of "binade q" "- 52"] by (simp add: pow2_def)
  then have "pow2 (binade q - 52) / 2 \<le> q / 2 ^ 53"
    using binade_bounds(1)[OF assms(1)] by (simp add: divide_right_mono)
  moreover have "pow2 (- 1074) / 2 = pow2 (- 1075)" using pow2_Suc[of "- 1075"] by simp
  ultimately show ?thesis using round_positive_error[OF assms(2)]
    by (auto simp: ulp_exp_def max_def split: if_splits)
qed

text \<open>Rounding a number of at least 2^-100 moves it by at most 2^-53 of its size.\<close>

lemma double_of_near:
  assumes "pow2 (- 100) \<le> q"
  obtains x where "\<bar>x - q\<bar> \<le> q / 2 ^ 53" and "double_of q = (if x < pow2 1024 then Fin x else PosInf)"
proof -
  let ?x = "of_int (round_half_even (q / pow2 (ulp_exp q))) * pow2 (ulp_exp q)"
  have q: "0 < q" using assms pow2_pos[of "- 100"] by linarith
  have "?x - q = (of_int (round_half_even (q / pow2 (ulp_exp q))) - q / pow2 (ulp_exp q)) * pow2 (ulp_exp q)"
    by (simp add: left_diff_distrib)
  then have "\<bar>?x - q\<bar> = \<bar>of_int (round_half_even (q / pow2 (ulp_exp q))) - q / pow2 (ulp_exp q)\<bar> * pow2 (ulp_exp q)"
    by (simp add: abs_mult abs_of_pos)
  also have "\<dots> \<le> 1 / 2 * pow2 (ulp_exp q)" by (intro mult_right_mono round_half_even_error) (simp add: less_imp_le)
  finally have near: "\<bar>?x - q\<bar> \<le> pow2 (ulp_exp q) / 2" by simp
  have "pow2 (- 100) < pow2 (binade q + 1)" using assms binade_bounds(2)[OF q] by linarith
  then have "- 101 < binade q" using pow2_less_iff[of "- 100" "binade q + 1"] by simp
  then have "ulp_exp q = binade q - 52" by (simp add: ulp_exp_def)
  moreover have "pow2 (binade q - 52) / 2 = pow2 (binade q) / 2 ^ 53"
    using pow2_add[of "binade q" "- 52"] by (simp add: pow2_def)
  ultimately have "pow2 (ulp_exp q) / 2 \<le> q / 2 ^ 53"
    using binade_bounds(1)[OF q] by (simp add: divide_right_mono)
  then show ?thesis using that[of ?x] near q by (simp add: double_of_def round_positive_def Let_def)
qed

text \<open>\<^verbatim>\<open>Math.floor(a / s)\<close> of integers below 2^53 is their integer division: the rounded
  quotient cannot reach the next integer.\<close>

lemma floor_quotient:
  assumes "\<bar>a\<bar> < 2 ^ 53" and "0 < s" and "s \<le> 2 ^ 53"
  shows "\<exists>v. double_of (of_int a / of_int s) = Fin v \<and> \<lfloor>v\<rfloor> = a div s"
proof (cases "s dvd a")
  case True
  then obtain n where n: "a = s * n" ..
  have "\<bar>n\<bar> * 1 \<le> \<bar>n\<bar> * s" using assms(2) by (intro mult_left_mono) auto
  then have "\<bar>n\<bar> \<le> 2 ^ 53" using assms(1,2) by (simp add: n abs_mult mult.commute)
  then have "double_of (of_int n) = num_of n" by (rule double_of_int)
  then show ?thesis using assms(2) by (simp add: n)
next
  case False
  let ?q = "of_int a / of_int s :: rat"
  have s: "0 < (of_int s :: rat)" "(of_int s :: rat) \<le> 9007199254740992" using assms(2,3) by simp_all
  have a0: "a \<noteq> 0" using False by auto
  have abs: "\<bar>?q\<bar> = of_int \<bar>a\<bar> / of_int s" using s by (simp add: abs_divide)
  have "1 \<le> (of_int \<bar>a\<bar> :: rat)" using a0 by (simp only: of_int_1_le_iff)
  then have "1 / of_int s \<le> \<bar>?q\<bar>" unfolding abs using s by (intro divide_right_mono) simp_all
  moreover have "pow2 (- 100) \<le> 1 / of_int s" using s by (simp add: pow2_def field_simps)
  ultimately have "pow2 (- 100) \<le> \<bar>?q\<bar>" by simp
  from double_of_near[OF this] obtain x where x: "\<bar>x - \<bar>?q\<bar>\<bar> \<le> \<bar>?q\<bar> / 2 ^ 53"
    "double_of \<bar>?q\<bar> = (if x < pow2 1024 then Fin x else PosInf)" .
  have lt: "(of_int \<bar>a\<bar> :: rat) < 2 ^ 53" using assms(1) by (metis of_int_less_iff of_int_numeral of_int_power)
  have "\<bar>?q\<bar> / 2 ^ 53 < 1 / of_int s" unfolding abs using lt s by (simp add: field_simps)
  with x(1) have near: "\<bar>x - \<bar>?q\<bar>\<bar> < 1 / of_int s" by simp
  have "x < pow2 100"
  proof -
    have "1 / of_int s \<le> (1 :: rat)" using assms(2) by (simp add: field_simps)
    moreover have "\<bar>?q\<bar> \<le> of_int \<bar>a\<bar> / 1" unfolding abs using assms(2) by (intro divide_left_mono) simp_all
    ultimately have "x < 2 ^ 53 + 1" using near lt by linarith
    then show ?thesis by (simp add: pow2_def)
  qed
  then have fin: "double_of \<bar>?q\<bar> = Fin x" using x(2) pow2_less_iff[of 100 1024] by auto
  define v where "v = (if a < 0 then - x else x)"
  have pos: "0 < \<bar>?q\<bar>" using a0 s by simp
  have v: "double_of ?q = Fin v"
  proof (cases "a < 0")
    case True
    then have "?q < 0" using s by (simp add: divide_neg_pos)
    then have "double_of (- ?q) = Fin x" using fin by (simp only: abs_of_neg)
    then have "num_neg (double_of ?q) = Fin x" by (simp only: double_of_neg)
    then show ?thesis using True by (cases "double_of ?q") (auto simp: v_def)
  next
    case False
    then have "0 \<le> ?q" using s by simp
    then have "double_of ?q = Fin x" using fin by (simp only: abs_of_nonneg)
    then show ?thesis using False by (simp add: v_def)
  qed
  have nearv: "\<bar>v - ?q\<bar> < 1 / of_int s"
  proof (cases "a < 0")
    case True
    then have "?q < 0" using s by (simp add: divide_neg_pos)
    then have "\<bar>x + ?q\<bar> < 1 / of_int s" using near by (simp only: abs_of_neg diff_minus_eq_add)
    then show ?thesis using True by (simp add: v_def abs_less_iff)
  next
    case False
    then have "0 \<le> ?q" using s by simp
    then have "\<bar>x - ?q\<bar> < 1 / of_int s" using near by (simp only: abs_of_nonneg)
    then show ?thesis using False by (simp add: v_def)
  qed
  have mod: "1 \<le> a mod s" "a mod s \<le> s - 1"
  proof -
    have "a mod s \<noteq> 0" using False by (simp add: dvd_eq_mod_eq_0)
    then show "1 \<le> a mod s" "a mod s \<le> s - 1"
      using pos_mod_sign[OF assms(2), of a] pos_mod_bound[OF assms(2), of a] by linarith+
  qed
  have "of_int a = of_int (a div s) * of_int s + (of_int (a mod s) :: rat)"
    by (metis div_mult_mod_eq of_int_add of_int_mult)
  then have q: "?q = of_int (a div s) + of_int (a mod s) / of_int s" using s by (simp add: field_simps)
  have "1 / of_int s \<le> (of_int (a mod s) :: rat) / of_int s" "(of_int (a mod s) :: rat) / of_int s \<le> (of_int s - 1) / of_int s"
    using mod s by (intro divide_right_mono; simp; metis of_int_1 of_int_diff of_int_le_iff)+
  moreover have "(of_int s - 1) / of_int s = 1 - 1 / (of_int s :: rat)" using s by (simp add: field_simps)
  ultimately have "of_int (a div s) \<le> v" "v < of_int (a div s) + 1" using nearv q by linarith+
  then show ?thesis using v by (simp add: floor_eq_iff)
qed

subsection \<open>Number(text)\<close>

text \<open>The exact value of \<^verbatim>\<open>digits\<close>, \<^verbatim>\<open>digits.digits\<close> or a signed such text.\<close>

fun split_dot :: "string \<Rightarrow> string \<times> string option" where
  "split_dot [] = ([], None)"
| "split_dot (c # s) =
     (if c = CHR ''.'' then ([], Some s) else (case split_dot s of (w, f) \<Rightarrow> (c # w, f)))"

definition decimal_value :: "string \<Rightarrow> rat" where
  "decimal_value s =
     (case split_dot s of
        (w, None) \<Rightarrow> of_nat (digits_value w)
      | (w, Some f) \<Rightarrow> of_nat (digits_value w) + of_nat (digits_value f) / 10 ^ length f)"

text \<open>\<^verbatim>\<open>Number(s)\<close> for a text of digits with at most one inner point: the nearest double.\<close>

definition number_of_decimal :: "string \<Rightarrow> jsnum" where
  "number_of_decimal s = double_of (decimal_value s)"

lemma split_dot_digits [simp]: "list_all is_digit s \<Longrightarrow> split_dot s = (s, None)"
  by (induction s) (auto simp: is_digit_def)

lemma split_dot_append [simp]:
  "list_all is_digit s \<Longrightarrow> split_dot (s @ CHR ''.'' # f) = (s, Some f)"
  by (induction s) (auto simp: is_digit_def)

lemma decimal_value_digits [simp]: "all_digits s \<Longrightarrow> decimal_value s = of_nat (digits_value s)"
  by (simp add: decimal_value_def all_digits_def)

lemma number_of_small_digits:
  assumes "all_digits s" and "digits_value s \<le> 2 ^ 53"
  shows "number_of_decimal s = num_of (int (digits_value s))"
  using double_of_int[of "int (digits_value s)"] assms
  by (simp add: number_of_decimal_def)

subsection \<open>toFixed\<close>

text \<open>\<^verbatim>\<open>x.toFixed(d)\<close> for |x| below 10^21, where it is decimal rounding of the exact value.\<close>

definition to_fixed :: "nat \<Rightarrow> rat \<Rightarrow> string" where
  "to_fixed d x =
     (let n = nat \<lfloor>\<bar>x\<bar> * 10 ^ d + 1 / 2\<rfloor>; t = pad_start (Suc d) (nat_text n);
          w = take (length t - d) t; f = drop (length t - d) t in
      (if x < 0 then ''-'' else '''') @ (if d = 0 then t else w @ ''.'' @ f))"

end
