(* ===== verification/ChainGate.thy ===== *)
theory ChainGate
  imports JsDouble
begin

text \<open>
  Which chain and which contracts the client talks to, and the gate in front of every transaction:
  \<^verbatim>\<open>lib/chain.ts\<close>, \<^verbatim>\<open>lib/arc-safety.ts\<close>, the chain and address part of
  \<^verbatim>\<open>packages/contracts-sdk/src/index.ts\<close>, \<^verbatim>\<open>lib/wallet.ts\<close> and the wallet status of
  \<^verbatim>\<open>providers/active-wallet-provider.tsx\<close>. The process environment is a function from names to
  values; viem's chain record, \<^verbatim>\<open>getAddress\<close> and the platform's \<^verbatim>\<open>URL\<close> are parameters.
\<close>

type_synonym process_env = "string \<Rightarrow> string option"

text \<open>\<^verbatim>\<open>value?.trim() || fallback\<close>.\<close>

definition trimmed_or :: "string option \<Rightarrow> string \<Rightarrow> string" where
  "trimmed_or v d = (case v of None \<Rightarrow> d | Some s \<Rightarrow> if js_trim s = [] then d else js_trim s)"

subsection \<open>The selected chain\<close>

definition ARC_TESTNET_CHAIN_ID :: int where
  "ARC_TESTNET_CHAIN_ID = 5042002"

record viem_chain =
  vc_id :: int
  vc_name :: string
  vc_explorer :: string

record chain_module =
  selectedCooketChain :: viem_chain
  selectedCooketRPCURL :: string

definition selectedCooketChainId :: "chain_module \<Rightarrow> int" where
  "selectedCooketChainId m = vc_id (selectedCooketChain m)"

definition selectedCooketChainName :: "chain_module \<Rightarrow> string" where
  "selectedCooketChainName m = vc_name (selectedCooketChain m)"

definition selectedCooketExplorer :: "chain_module \<Rightarrow> string" where
  "selectedCooketExplorer m = vc_explorer (selectedCooketChain m)"

text \<open>What importing \<^verbatim>\<open>lib/chain.ts\<close> does.\<close>

definition load_chain_module :: "process_env \<Rightarrow> viem_chain \<Rightarrow> chain_module result" where
  "load_chain_module env arcTestnet =
     (let configuredChainId = trimmed_or (env ''NEXT_PUBLIC_COOKET_CHAIN_ID'') (int_text ARC_TESTNET_CHAIN_ID) in
      try_bind (throw_if (configuredChainId \<noteq> int_text ARC_TESTNET_CHAIN_ID)
        (''Cooket Arc web requires Arc Testnet chain ID '' @ int_text ARC_TESTNET_CHAIN_ID
          @ ''; received '' @ configuredChainId @ ''.'')) (\<lambda>_.
      try_bind (throw_if (vc_id arcTestnet \<noteq> ARC_TESTNET_CHAIN_ID)
        ''Web viem Arc Testnet metadata is inconsistent.'') (\<lambda>_.
      Inr \<lparr>selectedCooketChain = arcTestnet,
           selectedCooketRPCURL =
             trimmed_or (env ''NEXT_PUBLIC_ARC_TESTNET_RPC_URL'') ''https://rpc.testnet.arc.io''\<rparr>)))"

definition isSelectedCooketChain :: "chain_module \<Rightarrow> int option \<Rightarrow> bool" where
  "isSelectedCooketChain m chainId \<longleftrightarrow> chainId = Some (selectedCooketChainId m)"

definition explorerTransactionURL :: "chain_module \<Rightarrow> string \<Rightarrow> string" where
  "explorerTransactionURL m hash = selectedCooketExplorer m @ ''/tx/'' @ hash"

definition explorerAddressURL :: "chain_module \<Rightarrow> string \<Rightarrow> string" where
  "explorerAddressURL m address = selectedCooketExplorer m @ ''/address/'' @ address"

definition validAddress :: "string \<Rightarrow> bool" where
  "validAddress value = address_pattern value"

subsection \<open>The release gate\<close>

definition ARC_PROTOCOL_ECONOMICS_BLOCKER :: string where
  "ARC_PROTOCOL_ECONOMICS_BLOCKER =
     ''Arc Testnet financial execution is unavailable because the required explicit safety configuration is not enabled.''"

definition ARC_TESTNET_FINANCIAL_EXECUTION_ENV :: string where
  "ARC_TESTNET_FINANCIAL_EXECUTION_ENV = ''NEXT_PUBLIC_ARC_TESTNET_FINANCIAL_EXECUTION_ENABLED''"

definition explicitTrue :: "string option \<Rightarrow> bool" where
  "explicitTrue value = (case value of None \<Rightarrow> False | Some s \<Rightarrow> js_trim s = ''true'')"

definition isArcTestnetFinancialExecutionEnabled ::
    "int \<Rightarrow> string \<Rightarrow> string option \<Rightarrow> string option \<Rightarrow> bool" where
  "isArcTestnetFinancialExecutionEnabled chainId chainName configuredChainId flag \<longleftrightarrow>
     explicitTrue flag \<and> chainId = ARC_TESTNET_CHAIN_ID \<and> chainName = ''Arc Testnet''
     \<and> (case configuredChainId of None \<Rightarrow> True
        | Some s \<Rightarrow> js_trim s = [] \<or> js_trim s = int_text ARC_TESTNET_CHAIN_ID)"

definition assertArcProtocolEconomicsReady :: "process_env \<Rightarrow> chain_module \<Rightarrow> unit result" where
  "assertArcProtocolEconomicsReady env m =
     throw_if (vc_id (selectedCooketChain m) \<noteq> selectedCooketChainId m
         \<or> \<not> isArcTestnetFinancialExecutionEnabled (selectedCooketChainId m)
              (selectedCooketChainName m) (env ''NEXT_PUBLIC_COOKET_CHAIN_ID'')
              (env ARC_TESTNET_FINANCIAL_EXECUTION_ENV))
       ARC_PROTOCOL_ECONOMICS_BLOCKER"

text \<open>C29: once the client has loaded, financial execution is open exactly when the flag is
  spelled true and viem's chain is called Arc Testnet; loading alone already pins the chain id, so
  the gate's own chain checks never disagree with it, and a closed gate throws the blocker.\<close>

theorem release_gate:
  assumes "load_chain_module env arcTestnet = Inr m"
  shows "vc_id arcTestnet = 5042002 \<and> selectedCooketChain m = arcTestnet
    \<and> isSelectedCooketChain m (Some 5042002)
    \<and> assertArcProtocolEconomicsReady env m =
        (if (\<exists>v. env ''NEXT_PUBLIC_ARC_TESTNET_FINANCIAL_EXECUTION_ENABLED'' = Some v
               \<and> js_trim v = ''true'') \<and> vc_name arcTestnet = ''Arc Testnet''
         then Inr () else Inl (Err ARC_PROTOCOL_ECONOMICS_BLOCKER))"
proof -
  have m: "vc_id arcTestnet = ARC_TESTNET_CHAIN_ID" "selectedCooketChain m = arcTestnet"
    and c: "trimmed_or (env ''NEXT_PUBLIC_COOKET_CHAIN_ID'') (int_text ARC_TESTNET_CHAIN_ID)
        = int_text ARC_TESTNET_CHAIN_ID"
    using assms by (auto simp: load_chain_module_def Let_def try_bind_Inr_iff)
  from c have "case env ''NEXT_PUBLIC_COOKET_CHAIN_ID'' of None \<Rightarrow> True
      | Some s \<Rightarrow> js_trim s = [] \<or> js_trim s = int_text ARC_TESTNET_CHAIN_ID"
    by (auto simp: trimmed_or_def split: option.splits if_splits)
  with m show ?thesis
    by (auto simp: assertArcProtocolEconomicsReady_def isArcTestnetFinancialExecutionEnabled_def
        selectedCooketChainId_def selectedCooketChainName_def explicitTrue_def throw_if_def
        isSelectedCooketChain_def ARC_TESTNET_CHAIN_ID_def ARC_TESTNET_FINANCIAL_EXECUTION_ENV_def
        split: option.splits)
qed

definition sample_chain :: viem_chain where
  "sample_chain = \<lparr>vc_id = 5042002, vc_name = ''Arc Testnet'', vc_explorer = ''https://testnet.arcscan.app''\<rparr>"

definition sample_module :: chain_module where
  "sample_module = \<lparr>selectedCooketChain = sample_chain,
     selectedCooketRPCURL = ''https://rpc.testnet.arc.io''\<rparr>"

lemma load_sample: "load_chain_module (\<lambda>_. None) sample_chain = Inr sample_module"
  by (simp add: load_chain_module_def trimmed_or_def Let_def sample_module_def
      ARC_TESTNET_CHAIN_ID_def sample_chain_def)

theorem release_gate_witness:
  "assertArcProtocolEconomicsReady (\<lambda>_. None) sample_module = Inl (Err ARC_PROTOCOL_ECONOMICS_BLOCKER)"
  using release_gate[OF load_sample] by simp

subsection \<open>Chain ids and addresses of the SDK\<close>

definition isSupportedCooketChainId :: "jsnum \<Rightarrow> bool" where
  "isSupportedCooketChainId value \<longleftrightarrow> value = num_of ARC_TESTNET_CHAIN_ID"

datatype chain_ref = ChainText string | ChainNumber jsnum

text \<open>\<^verbatim>\<open>numText\<close> is \<^verbatim>\<open>String(number)\<close>, which only the error message shows.\<close>

definition chain_ref_id :: "chain_ref \<Rightarrow> jsnum" where
  "chain_ref_id value =
     (case value of
        ChainNumber n \<Rightarrow> n
      | ChainText s \<Rightarrow> if all_digits (js_trim s) then number_of_decimal (js_trim s) else NaN)"

definition resolveCooketChain ::
    "(jsnum \<Rightarrow> string) \<Rightarrow> viem_chain \<Rightarrow> chain_ref \<Rightarrow> viem_chain result" where
  "resolveCooketChain numText arcTestnet value =
     (let chainId = chain_ref_id value in
      try_bind (throw_if (\<not> is_integer_num chainId \<or> \<not> isSupportedCooketChainId chainId)
        (''Unsupported Cooket chain ID: ''
          @ (case value of ChainText s \<Rightarrow> s | ChainNumber n \<Rightarrow> numText n)))
        (\<lambda>_. Inr arcTestnet))"

lemma double_of_large:
  assumes "2 ^ 53 < i"
  shows "double_of (of_int i) \<noteq> num_of ARC_TESTNET_CHAIN_ID"
proof
  assume eq: "double_of (of_int i) = num_of ARC_TESTNET_CHAIN_ID"
  let ?q = "of_int i :: rat"
  have i: "0 < i" using assms by (smt (verit) zero_less_power)
  then have q: "0 < ?q" by simp
  have r: "round_positive ?q = Fin 5042002"
    using eq i by (simp add: double_of_def ARC_TESTNET_CHAIN_ID_def)
  have big: "(2 ^ 53 :: rat) < ?q" using assms by (metis of_int_less_iff of_int_numeral of_int_power)
  have "\<bar>5042002 - ?q\<bar> \<le> max (?q / 2 ^ 53) (pow2 (- 1075))"
    by (rule round_positive_relative[OF q r])
  also have "\<dots> \<le> ?q / 2 + 1"
  proof (rule max.boundedI)
    show "?q / 2 ^ 53 \<le> ?q / 2 + 1" using q by simp
    have "pow2 (- 1075) \<le> pow2 0" by (simp only: pow2_le_iff)
    also have "pow2 0 = 1" by (simp add: pow2_def)
    finally show "pow2 (- 1075) \<le> ?q / 2 + 1" using q by linarith
  qed
  finally have "?q - 5042002 \<le> ?q / 2 + 1" by (simp add: abs_le_iff)
  with big show False by simp
qed

lemma number_of_decimal_chain:
  assumes "all_digits s"
  shows "number_of_decimal s = num_of ARC_TESTNET_CHAIN_ID \<longleftrightarrow> digits_value s = 5042002"
proof (cases "digits_value s \<le> 2 ^ 53")
  case True
  then show ?thesis using number_of_small_digits[OF assms] by (simp add: ARC_TESTNET_CHAIN_ID_def)
next
  case False
  then have "2 ^ 53 < int (digits_value s)" by simp
  from double_of_large[OF this] False assms show ?thesis by (auto simp: number_of_decimal_def)
qed

text \<open>The SDK resolves a number exactly when it is the Arc Testnet id, and a text exactly when
  it is, white space apart, a row of digits that stands for that id; a text of digits too large for
  a double is not confused with it, and every other reference is refused by name.\<close>

theorem resolveCooketChain_spec:
  "resolveCooketChain numText arcTestnet (ChainNumber n) =
     (if n = Fin 5042002 then Inr arcTestnet
      else Inl (Err (''Unsupported Cooket chain ID: '' @ numText n)))
   \<and> resolveCooketChain numText arcTestnet (ChainText s) =
     (if all_digits (js_trim s) \<and> digits_value (js_trim s) = 5042002 then Inr arcTestnet
      else Inl (Err (''Unsupported Cooket chain ID: '' @ s)))"
proof -
  have "is_integer_num (num_of ARC_TESTNET_CHAIN_ID)"
    unfolding is_integer_num_iff by blast
  then show ?thesis
    using number_of_decimal_chain[of "js_trim s"]
    by (auto simp: resolveCooketChain_def chain_ref_id_def isSupportedCooketChainId_def throw_if_def
        ARC_TESTNET_CHAIN_ID_def)
qed

record contract_addresses =
  cooketFactory :: "string option"
  cooketCurve :: "string option"
  feeManager :: "string option"
  graduationManager :: "string option"
  permanentLPFeeVault :: "string option"
  permanentLPCustodianDeployer :: "string option"
  graduationSettlementExecutor :: "string option"
  ctoRegistry :: "string option"

definition optionalRuntimeAddress ::
    "(string \<Rightarrow> string result) \<Rightarrow> string option \<Rightarrow> string \<Rightarrow> string option result" where
  "optionalRuntimeAddress getAddress value label =
     (let normalized = (case value of None \<Rightarrow> '''' | Some v \<Rightarrow> js_trim v) in
      if normalized = [] then Inr None
      else try_bind (throw_if (\<not> address_pattern normalized \<or> zero_address_pattern normalized)
             (label @ '' must be a nonzero EVM address.''))
           (\<lambda>_. try_bind (getAddress normalized) (\<lambda>a. Inr (Some a))))"

definition env_address ::
    "(string \<Rightarrow> string result) \<Rightarrow> process_env \<Rightarrow> string \<Rightarrow> string option result" where
  "env_address getAddress env name = optionalRuntimeAddress getAddress (env name) name"

definition load_contract_addresses ::
    "(string \<Rightarrow> string result) \<Rightarrow> process_env \<Rightarrow> contract_addresses result" where
  "load_contract_addresses getAddress env =
     try_bind (env_address getAddress env ''NEXT_PUBLIC_COOKET_FACTORY_V3_ADDRESS'') (\<lambda>factory.
     try_bind (env_address getAddress env ''NEXT_PUBLIC_FEE_MANAGER_V3_ADDRESS'') (\<lambda>fees.
     try_bind (env_address getAddress env ''NEXT_PUBLIC_GRADUATION_MANAGER_V3_ADDRESS'') (\<lambda>graduation.
     try_bind (env_address getAddress env ''NEXT_PUBLIC_PERMANENT_LP_FEE_VAULT_V3_ADDRESS'') (\<lambda>vault.
     try_bind (env_address getAddress env ''NEXT_PUBLIC_PERMANENT_LP_CUSTODIAN_DEPLOYER_V3_ADDRESS'') (\<lambda>custodian.
     try_bind (env_address getAddress env ''NEXT_PUBLIC_GRADUATION_SETTLEMENT_EXECUTOR_V3_ADDRESS'') (\<lambda>executor.
     try_bind (env_address getAddress env ''NEXT_PUBLIC_CTO_REGISTRY_V3_ADDRESS'') (\<lambda>registry.
       Inr \<lparr>cooketFactory = factory, cooketCurve = None, feeManager = fees,
            graduationManager = graduation, permanentLPFeeVault = vault,
            permanentLPCustodianDeployer = custodian, graduationSettlementExecutor = executor,
            ctoRegistry = registry\<rparr>)))))))"

subsection \<open>viem's getAddress\<close>

text \<open>
  What the client relies on: \<^verbatim>\<open>getAddress\<close> throws on anything but 0x and forty hex digits, keeps
  the address up to letter case, and gives two spellings of one address the same checksummed form.
\<close>

definition checksums :: "(string \<Rightarrow> string result) \<Rightarrow> bool" where
  "checksums getAddress \<longleftrightarrow>
     (\<forall>a. if address_pattern a
          then (\<exists>x. getAddress a = Inr x \<and> same_address x a \<and> address_pattern x)
          else (\<exists>e. getAddress a = Inl e))
     \<and> (\<forall>a b. address_pattern a \<and> address_pattern b \<and> same_address a b
          \<longrightarrow> getAddress a = getAddress b)"

lemma checksums_same:
  assumes "checksums f" and "f a = Inr x"
  shows "address_pattern a" and "same_address x a" and "address_pattern x"
  using assms unfolding checksums_def by (metis Inl_Inr_False sum.inject(2))+

lemma checksums_eq_iff:
  assumes "checksums f" and "f a = Inr x" and "f b = Inr y"
  shows "x = y \<longleftrightarrow> same_address a b"
  using assms checksums_same[OF assms(1,2)] checksums_same[OF assms(1,3)]
  unfolding checksums_def by (metis same_address_sym same_address_trans sum.inject(2))

lemma address_pattern_lower: "address_pattern a \<Longrightarrow> address_pattern (js_lower a)"
proof -
  have h: "is_hex c \<Longrightarrow> is_hex (lower_char c)" for c
    by (auto simp: is_hex_def is_digit_def lower_char_def)
  have "lower_char (CHR ''0'') = CHR ''0''" "lower_char (CHR ''x'') = CHR ''x''" by code_simp+
  then show "address_pattern a \<Longrightarrow> address_pattern (js_lower a)"
    using h by (auto simp: address_pattern_def hex_pattern_def js_lower_def list_all_iff take_map
        drop_map dest: in_set_dropD)
qed

text \<open>The lower-case spelling is one such normal form.\<close>

definition lower_checksum :: "string \<Rightarrow> string result" where
  "lower_checksum a =
     (if address_pattern a then Inr (js_lower a)
      else Inl (JsError ''InvalidAddressError'' (''Address '' @ a @ '' is invalid.'')))"

lemma checksums_lower: "checksums lower_checksum"
  using address_pattern_lower by (auto simp: checksums_def lower_checksum_def same_address_def)

text \<open>An address of the environment is taken over only when it is a nonzero EVM address, in
  the checksummed spelling; an unset or blank variable is simply absent, and anything else stops
  the load with the variable's name. The curve override is never set from the environment.\<close>

theorem load_contract_addresses_spec:
  assumes "checksums getAddress" and "load_contract_addresses getAddress env = Inr c"
  shows "cooketCurve c = None \<and>
    (\<forall>(name, field) \<in> {(''NEXT_PUBLIC_COOKET_FACTORY_V3_ADDRESS'', cooketFactory c),
        (''NEXT_PUBLIC_FEE_MANAGER_V3_ADDRESS'', feeManager c),
        (''NEXT_PUBLIC_CTO_REGISTRY_V3_ADDRESS'', ctoRegistry c)}.
      case field of
        None \<Rightarrow> env name = None \<or> (\<exists>v. env name = Some v \<and> js_trim v = [])
      | Some a \<Rightarrow> (\<exists>v. env name = Some v \<and> address_pattern (js_trim v)
          \<and> \<not> zero_address_pattern (js_trim v) \<and> getAddress (js_trim v) = Inr a
          \<and> same_address a (js_trim v)))"
proof -
  have one: "case field of
        None \<Rightarrow> env name = None \<or> (\<exists>v. env name = Some v \<and> js_trim v = [])
      | Some a \<Rightarrow> (\<exists>v. env name = Some v \<and> address_pattern (js_trim v)
          \<and> \<not> zero_address_pattern (js_trim v) \<and> getAddress (js_trim v) = Inr a
          \<and> same_address a (js_trim v))"
    if "env_address getAddress env name = Inr field" for name field
    using that checksums_same(2)[OF assms(1)]
    by (auto simp: env_address_def optionalRuntimeAddress_def Let_def try_bind_Inr_iff
        split: if_splits option.splits)
  show ?thesis
    using assms(2) by (auto simp: load_contract_addresses_def try_bind_Inr_iff intro!: one)
qed

theorem load_contract_addresses_spec_witness:
  "\<exists>c. load_contract_addresses lower_checksum (\<lambda>_. None) = Inr c \<and> cooketFactory c = None
     \<and> cooketCurve c = None"
proof -
  have "load_contract_addresses lower_checksum (\<lambda>_. None) =
      Inr \<lparr>cooketFactory = None, cooketCurve = None, feeManager = None, graduationManager = None,
        permanentLPFeeVault = None, permanentLPCustodianDeployer = None,
        graduationSettlementExecutor = None, ctoRegistry = None\<rparr>"
    by (simp add: load_contract_addresses_def env_address_def optionalRuntimeAddress_def)
  then show ?thesis using load_contract_addresses_spec[OF checksums_lower] by fastforce
qed

end
