(* ===== verification/TradeMath.thy ===== *)
theory TradeMath
  imports JsNumber
begin

text \<open>
  The integer arithmetic a trade rests on: slippage bounds of
  \<^verbatim>\<open>packages/contracts-sdk/src/index.ts\<close> and \<^verbatim>\<open>lib/uniswap-v3.ts\<close>, the percentage
  presets of \<^verbatim>\<open>lib/trade-amount-presets.ts\<close>, and the freshness of a graduated quote. Amounts
  are \<^verbatim>\<open>bigint\<close>, so \<^verbatim>\<open>int\<close>; a basis-point argument is a \<^verbatim>\<open>number\<close> and may be
  anything a number can be.
\<close>

subsection \<open>Slippage bounds of the SDK\<close>

definition bps_scale :: int where
  "bps_scale = 10000"

definition validateSlippage :: "jsnum \<Rightarrow> unit result" where
  "validateSlippage slippageBps =
     throw_if (\<not> is_integer_num slippageBps \<or> int_of_num slippageBps < 0
         \<or> int_of_num slippageBps > 5000)
       ''Slippage must be between 0% and 50%.''"

definition maxInputWithSlippage :: "int \<Rightarrow> jsnum \<Rightarrow> int result" where
  "maxInputWithSlippage amount slippageBps =
     try_bind (validateSlippage slippageBps) (\<lambda>_.
       Inr (big_div (amount * (bps_scale + int_of_num slippageBps) + bps_scale - 1) bps_scale))"

definition minOutputWithSlippage :: "int \<Rightarrow> jsnum \<Rightarrow> int result" where
  "minOutputWithSlippage amount slippageBps =
     try_bind (validateSlippage slippageBps) (\<lambda>_.
       Inr (big_div (amount * (bps_scale - int_of_num slippageBps)) bps_scale))"

text \<open>\<^verbatim>\<open>minimumOutput\<close> of the graduated swap: a positive quote and 1 to 2000 basis points.\<close>

definition minimumOutput :: "int \<Rightarrow> jsnum \<Rightarrow> int result" where
  "minimumOutput amountOut slippageBps =
     try_bind (throw_if (amountOut \<le> 0) ''Quoted output must be greater than zero.'') (\<lambda>_.
     try_bind (throw_if (\<not> is_integer_num slippageBps \<or> int_of_num slippageBps < 1
         \<or> int_of_num slippageBps > 2000) ''Slippage must be between 0.01% and 20%.'') (\<lambda>_.
       Inr (big_div (amountOut * (10000 - int_of_num slippageBps)) 10000)))"

text \<open>The basis points a validator accepts.\<close>

definition valid_bps :: "int \<Rightarrow> int \<Rightarrow> jsnum \<Rightarrow> bool" where
  "valid_bps lo hi n \<longleftrightarrow> is_integer_num n \<and> lo \<le> int_of_num n \<and> int_of_num n \<le> hi"

lemma valid_bps_obtain:
  "valid_bps lo hi n \<longleftrightarrow> (\<exists>b. n = num_of b \<and> lo \<le> b \<and> b \<le> hi)"
  by (auto simp: valid_bps_def is_integer_num_iff)

lemma validateSlippage_ok [simp]: "validateSlippage n = Inr u \<longleftrightarrow> valid_bps 0 5000 n"
  by (auto simp: validateSlippage_def valid_bps_def)

lemma validateSlippage_cases:
  "validateSlippage n =
     (if valid_bps 0 5000 n then Inr () else Inl (Err ''Slippage must be between 0% and 50%.''))"
  by (auto simp: validateSlippage_def valid_bps_def throw_if_def)

lemma minOutput_eq:
  "minOutputWithSlippage amount n =
     (if valid_bps 0 5000 n then Inr (big_div (amount * (10000 - int_of_num n)) 10000)
      else Inl (Err ''Slippage must be between 0% and 50%.''))"
  by (simp add: minOutputWithSlippage_def validateSlippage_cases bps_scale_def)

lemma maxInput_eq:
  "maxInputWithSlippage amount n =
     (if valid_bps 0 5000 n
      then Inr (big_div (amount * (10000 + int_of_num n) + 10000 - 1) 10000)
      else Inl (Err ''Slippage must be between 0% and 50%.''))"
  by (simp add: maxInputWithSlippage_def validateSlippage_cases bps_scale_def)

text \<open>Truncated division of a nonnegative amount, as a floor and (with the bias) as a ceiling.\<close>

lemma div_floor_rat: "0 < m \<Longrightarrow> a div m = \<lfloor>(of_int a :: rat) / of_int m\<rfloor>"
  by (simp add: floor_divide_of_int_eq)

lemma div_ceiling_rat:
  assumes "0 < (m :: int)"
  shows "(a + m - 1) div m = \<lceil>(of_int a :: rat) / of_int m\<rceil>"
proof -
  let ?q = "(a + m - 1) div m"
  have eq: "a + m - 1 = ?q * m + (a + m - 1) mod m" by simp
  have r: "0 \<le> (a + m - 1) mod m" "(a + m - 1) mod m < m"
    using assms by simp_all
  have lo: "?q * m \<le> a + m - 1" and hi: "a + m - 1 < ?q * m + m"
    using eq r by linarith+
  have "(of_int a :: rat) \<le> of_int (?q * m)" using hi by (subst of_int_le_iff) simp
  moreover have "(of_int ((?q - 1) * m) :: rat) < of_int a"
    using lo by (subst of_int_less_iff) (simp add: left_diff_distrib)
  ultimately have "(of_int a :: rat) / of_int m \<le> of_int ?q" 
    and "of_int ?q - 1 < (of_int a :: rat) / of_int m"
    using assms by (simp_all add: field_simps)
  then show ?thesis by (metis ceiling_unique)
qed

text \<open>The reference meaning of the two bounds: exact rational scaling, then one rounding.\<close>

definition exact_min_output :: "int \<Rightarrow> int \<Rightarrow> int" where
  "exact_min_output amount bps = \<lfloor>(of_int amount :: rat) * (1 - of_int bps / 10000)\<rfloor>"

definition exact_max_input :: "int \<Rightarrow> int \<Rightarrow> int" where
  "exact_max_input amount bps = \<lceil>(of_int amount :: rat) * (1 + of_int bps / 10000)\<rceil>"

lemma min_output_exact:
  assumes "0 \<le> amount" and "b \<le> 10000"
  shows "big_div (amount * (10000 - b)) 10000 = exact_min_output amount b"
proof -
  have "(of_int amount :: rat) * (1 - of_int b / 10000) = of_int (amount * (10000 - b)) / of_int 10000"
    by (simp add: field_simps)
  then show ?thesis using assms
    by (simp only: exact_min_output_def div_floor_rat[symmetric]) simp
qed

lemma max_input_exact:
  assumes "0 \<le> amount" and "0 \<le> b"
  shows "big_div (amount * (10000 + b) + 10000 - 1) 10000 = exact_max_input amount b"
proof -
  have "(of_int amount :: rat) * (1 + of_int b / 10000) = of_int (amount * (10000 + b)) / of_int 10000"
    by (simp add: field_simps)
  then have "exact_max_input amount b = (amount * (10000 + b) + 10000 - 1) div 10000"
    by (simp only: exact_max_input_def div_ceiling_rat[symmetric])
  moreover have "0 \<le> amount * (10000 + b) + 10000 - 1" using assms by simp
  ultimately show ?thesis by (simp only: big_div_nonneg)
qed

lemma exact_min_output_bounds:
  assumes "0 \<le> amount" and "0 \<le> b" and "b \<le> 10000"
  shows "0 \<le> exact_min_output amount b" and "exact_min_output amount b \<le> amount"
proof -
  have "big_div (amount * (10000 - b)) 10000 = amount * (10000 - b) div 10000"
    using assms by simp
  moreover have "amount * (10000 - b) div 10000 \<le> amount * 10000 div 10000"
    using assms by (intro zdiv_mono1 mult_left_mono) auto
  ultimately show "exact_min_output amount b \<le> amount"
    using min_output_exact[OF assms(1,3)] by simp
  have "0 \<le> amount * (10000 - b) div 10000"
    using assms by (intro iffD2[OF pos_imp_zdiv_nonneg_iff]) simp_all
  then show "0 \<le> exact_min_output amount b"
    using min_output_exact[OF assms(1,3)] assms by simp
qed

lemma exact_max_input_ge:
  assumes "0 \<le> amount" and "0 \<le> b"
  shows "amount \<le> exact_max_input amount b"
proof -
  have "(of_int amount :: rat) \<le> of_int amount * (1 + of_int b / 10000)"
    using assms by (simp add: distrib_left)
  then show ?thesis unfolding exact_max_input_def by (metis ceiling_mono ceiling_of_int)
qed

text \<open>C40: for every nonnegative amount and every basis-point argument the SDK accepts, the two
  slippage bounds are the exactly rounded rational bounds (floor of amount*(1 - bps/10000), ceiling
  of amount*(1 + bps/10000)), they bracket the amount, and the minimum is never negative; every
  other argument, fractional, infinite or not-a-number ones included, is refused with the same
  error by both.\<close>

theorem slippage_bounds_exact:
  assumes "0 \<le> amount"
  shows "minOutputWithSlippage amount slippageBps =
      (if valid_bps 0 5000 slippageBps then Inr (exact_min_output amount (int_of_num slippageBps))
       else Inl (Err ''Slippage must be between 0% and 50%.''))
    \<and> maxInputWithSlippage amount slippageBps =
      (if valid_bps 0 5000 slippageBps then Inr (exact_max_input amount (int_of_num slippageBps))
       else Inl (Err ''Slippage must be between 0% and 50%.''))
    \<and> (valid_bps 0 5000 slippageBps \<longrightarrow>
         0 \<le> exact_min_output amount (int_of_num slippageBps)
         \<and> exact_min_output amount (int_of_num slippageBps) \<le> amount
         \<and> amount \<le> exact_max_input amount (int_of_num slippageBps))"
proof (cases "valid_bps 0 5000 slippageBps")
  case True
  then have b: "0 \<le> int_of_num slippageBps" "int_of_num slippageBps \<le> 10000"
    by (auto simp: valid_bps_def)
  show ?thesis
    unfolding minOutput_eq maxInput_eq min_output_exact[OF assms b(2)] max_input_exact[OF assms b(1)]
    using exact_min_output_bounds[OF assms b] exact_max_input_ge[OF assms b(1)] by simp
qed (simp add: minOutput_eq maxInput_eq)

theorem slippage_bounds_exact_witness:
  "minOutputWithSlippage 1001 (Fin 50) = Inr 995
   \<and> maxInputWithSlippage 1001 (Fin 50) = Inr 1007
   \<and> minOutputWithSlippage 1001 (Fin (1 / 2))
       = Inl (Err ''Slippage must be between 0% and 50%.'')"
proof -
  have v: "valid_bps 0 5000 (Fin 50)" and nv: "\<not> valid_bps 0 5000 (Fin (1 / 2))"
    by code_simp+
  have e: "exact_min_output 1001 50 = 995" "exact_max_input 1001 50 = 1007"
    by code_simp+
  have i: "int_of_num (Fin 50) = 50" by simp
  show ?thesis
    using slippage_bounds_exact[of 1001 "Fin 50"] slippage_bounds_exact[of 1001 "Fin (1 / 2)"] v nv e i
    by simp
qed

lemma minimumOutput_eq:
  "minimumOutput out n =
     (if out \<le> 0 then Inl (Err ''Quoted output must be greater than zero.'')
      else if valid_bps 1 2000 n then Inr (big_div (out * (10000 - int_of_num n)) 10000)
      else Inl (Err ''Slippage must be between 0.01% and 20%.''))"
  by (auto simp: minimumOutput_def throw_if_def valid_bps_def)

lemma minimumOutput_bounds:
  assumes "minimumOutput amountOut slippageBps = Inr m"
  shows "m < amountOut \<and> 8 * amountOut div 10 \<le> m"
proof -
  from assms have a: "0 < amountOut" and ok: "valid_bps 1 2000 slippageBps"
    and m: "m = big_div (amountOut * (10000 - int_of_num slippageBps)) 10000"
    by (simp_all add: minimumOutput_eq split: if_splits)
  then obtain b where b: "slippageBps = num_of b" "1 \<le> b" "b \<le> 2000" by (auto simp: valid_bps_obtain)
  have m': "m = amountOut * (10000 - b) div 10000" using m b a by simp
  have "amountOut * (10000 - b) < amountOut * 10000" using a b by simp
  then have lt: "m < amountOut" unfolding m' by (simp only: div_less_iff_less_mult)
  have "8 * amountOut div 10 = (amountOut * 8000) div 10000" by simp
  also have "\<dots> \<le> m" unfolding m' using a b by (intro zdiv_mono1 mult_left_mono) auto
  finally show ?thesis using lt by simp
qed

text \<open>On every input the graduated swap's minimum agrees with the SDK's minimum whenever both
  accept, is at least 80% of the quoted output rounded down and strictly below it, and the function
  refuses exactly the nonpositive quotes and the arguments outside 1 to 2000.\<close>

theorem minimumOutput_spec:
  "case minimumOutput amountOut slippageBps of
     Inl e \<Rightarrow> \<not> (0 < amountOut \<and> valid_bps 1 2000 slippageBps)
   | Inr m \<Rightarrow> 0 < amountOut \<and> valid_bps 1 2000 slippageBps
       \<and> minOutputWithSlippage amountOut slippageBps = Inr m
       \<and> m < amountOut \<and> 8 * amountOut div 10 \<le> m"
proof (cases "0 < amountOut \<and> valid_bps 1 2000 slippageBps")
  case True
  then obtain b where b: "slippageBps = num_of b" "1 \<le> b" "b \<le> 2000" and a: "0 < amountOut"
    by (auto simp: valid_bps_obtain)
  then have "valid_bps 0 5000 slippageBps" by (auto simp: valid_bps_obtain)
  then show ?thesis using True b a minimumOutput_bounds[of amountOut slippageBps]
    by (simp add: minimumOutput_eq minOutput_eq)
qed (auto simp: minimumOutput_eq)

subsection \<open>Percentage presets\<close>

definition buy_max_gas_reserve_wei :: int where
  "buy_max_gas_reserve_wei = 1000000000000000"

datatype amount_preset = Preset10 | Preset50 | PresetMax

definition percentOfBalance :: "int \<Rightarrow> int \<Rightarrow> int" where
  "percentOfBalance balance percent =
     (if balance \<le> 0 then 0 else big_div (balance * percent) 100)"

definition buyPresetWei :: "int option \<Rightarrow> amount_preset \<Rightarrow> int option" where
  "buyPresetWei nativeBalance preset =
     (case nativeBalance of
        None \<Rightarrow> None
      | Some balance \<Rightarrow>
          Some (if preset = PresetMax
                then (if balance > buy_max_gas_reserve_wei then balance - buy_max_gas_reserve_wei else 0)
                else percentOfBalance balance (if preset = Preset10 then 10 else 50)))"

definition sellPresetAmount :: "int option \<Rightarrow> amount_preset \<Rightarrow> int option" where
  "sellPresetAmount tokenBalance preset =
     (case tokenBalance of
        None \<Rightarrow> None
      | Some balance \<Rightarrow>
          Some (if preset = PresetMax then balance
                else percentOfBalance balance (if preset = Preset10 then 10 else 50)))"

definition isPresetEnabled :: "int option \<Rightarrow> bool" where
  "isPresetEnabled amount = (case amount of None \<Rightarrow> False | Some a \<Rightarrow> 0 < a)"

definition strip_trailing_dot :: "string \<Rightarrow> string" where
  "strip_trailing_dot s = (if s \<noteq> [] \<and> last s = CHR ''.'' then butlast s else s)"

text \<open>\<^verbatim>\<open>formatPresetInput\<close>; \<^verbatim>\<open>formatUnits\<close> of viem is a parameter, and
  \<^verbatim>\<open>formatEther(x)\<close> is \<^verbatim>\<open>formatUnits(x, 18)\<close>.\<close>

definition formatPresetInput :: "(int \<Rightarrow> nat \<Rightarrow> string) \<Rightarrow> int \<Rightarrow> nat \<Rightarrow> string" where
  "formatPresetInput formatUnits amount decimals =
     (if amount \<le> 0 then ''''
      else let raw = (if decimals = 18 then formatUnits amount 18 else formatUnits amount decimals)
           in if CHR ''.'' \<in> set raw then strip_trailing_dot (strip_zeros raw) else raw)"

lemma percentOfBalance_bounds:
  assumes "p = 10 \<or> p = 50"
  shows "0 \<le> percentOfBalance b p" and "percentOfBalance b p \<le> max 0 b"
proof -
  have "b * p div 100 \<le> b" if "0 < b"
    using assms that by auto
  then show "percentOfBalance b p \<le> max 0 b" using assms
    by (auto simp: percentOfBalance_def)
  show "0 \<le> percentOfBalance b p" using assms
    by (auto simp: percentOfBalance_def pos_imp_zdiv_nonneg_iff)
qed

text \<open>A preset never proposes more than the balance it is taken from and never a negative
  amount; the MAX preset of a native buy leaves exactly the gas reserve behind whenever it is
  enabled, and with an unknown balance nothing is proposed.\<close>

theorem presets_within_balance:
  assumes "0 \<le> balance"
  shows "\<exists>b s. buyPresetWei (Some balance) preset = Some b \<and> 0 \<le> b \<and> b \<le> balance
      \<and> sellPresetAmount (Some balance) preset = Some s \<and> 0 \<le> s \<and> s \<le> balance
      \<and> (isPresetEnabled (buyPresetWei (Some balance) PresetMax) \<longrightarrow>
           buyPresetWei (Some balance) PresetMax = Some (balance - buy_max_gas_reserve_wei))
      \<and> buyPresetWei None preset = None \<and> sellPresetAmount None preset = None"
  using assms percentOfBalance_bounds[of 10 balance] percentOfBalance_bounds[of 50 balance]
  by (cases preset) (auto simp: buyPresetWei_def sellPresetAmount_def isPresetEnabled_def
      buy_max_gas_reserve_wei_def max_def)

theorem presets_within_balance_witness:
  "\<exists>b s. buyPresetWei (Some 7) Preset50 = Some b \<and> b \<le> 7 \<and> sellPresetAmount (Some 7) Preset50 = Some s \<and> s \<le> 7"
  using presets_within_balance[of 7 Preset50] by auto

subsection \<open>Quotes of the graduated swap\<close>

datatype trade_side = Buy | Sell

definition quote_ttl_ms :: int where
  "quote_ttl_ms = 60000"

record graduated_quote =
  gq_side :: trade_side
  gq_amountIn :: int
  gq_amountOut :: int
  gq_minimumOut :: int
  gq_slippageBps :: jsnum
  gq_createdAt :: int
  gq_deadline :: int
  gq_pool :: string
  gq_wallet :: string
  gq_chainId :: int

definition quoteIsFresh :: "graduated_quote \<Rightarrow> string \<Rightarrow> string \<Rightarrow> int \<Rightarrow> int \<Rightarrow> bool" where
  "quoteIsFresh quote wallet pool chainId now \<longleftrightarrow>
     js_lower (gq_wallet quote) = js_lower wallet
     \<and> js_lower (gq_pool quote) = js_lower pool
     \<and> gq_chainId quote = chainId
     \<and> now - gq_createdAt quote < quote_ttl_ms
     \<and> now div 1000 < gq_deadline quote"

text \<open>\<^verbatim>\<open>BigInt(Math.floor(now / 1000) + 300)\<close>, of both the curve and the graduated quotes.\<close>

definition transactionDeadline :: "int \<Rightarrow> int" where
  "transactionDeadline now_ms = now_ms div 1000 + 300"

lemma fresh_deadline:
  assumes "n - c < 60000"
  shows "n div 1000 < c div 1000 + (300 :: int)"
proof -
  have "n div 1000 \<le> (c + 60 * 1000) div 1000" using assms by (intro zdiv_mono1) auto
  also have "\<dots> = c div 1000 + 60" by (subst div_mult_self1) simp_all
  finally show ?thesis by simp
qed

lemma quoteIsFresh_window:
  assumes "gq_deadline q = transactionDeadline (gq_createdAt q)"
  shows "quoteIsFresh q w p c now \<longleftrightarrow>
     same_address (gq_wallet q) w \<and> same_address (gq_pool q) p \<and> gq_chainId q = c
     \<and> now < gq_createdAt q + quote_ttl_ms"
  using assms fresh_deadline[of now "gq_createdAt q"]
  by (auto simp: quoteIsFresh_def same_address_def transactionDeadline_def quote_ttl_ms_def)

end
