(* ===== verification/SdkReceipts.thy ===== *)
theory SdkReceipts
  imports ChainGate TradeMath
begin

text \<open>
  The contract side of \<^verbatim>\<open>packages/contracts-sdk/src/index.ts\<close>: protocol constants, the
  deterministic salts, ids and addresses, the transaction encoders, and the parsing of confirmed
  receipts. Hashing, ABI coding, CREATE2 and log decoding are viem's and are fields of a record;
  what the SDK does with them is modelled.
\<close>

subsection \<open>Protocol constants\<close>

definition ARC_CANONICAL_USDC :: string where
  "ARC_CANONICAL_USDC = ''0x3600000000000000000000000000000000000000''"

definition FIXED_TOKEN_SUPPLY :: int where
  "FIXED_TOKEN_SUPPLY = 1000000000000000000000000000"

definition CURVE_ALLOCATION :: int where
  "CURVE_ALLOCATION = 800000000000000000000000000"

subsection \<open>Hashes and addresses derived from a launch or a takeover\<close>

datatype abi_value =
    AbiBytes32 string
  | AbiUint256 int
  | AbiUint64 int
  | AbiUint16 jsnum
  | AbiAddress string
  | AbiString string

record hash_library =
  keccak256 :: "string \<Rightarrow> string"
  stringToHex :: "string \<Rightarrow> string"
  concatHex :: "string list \<Rightarrow> string"
  encodeAbi :: "abi_value list \<Rightarrow> string result"
  create2 :: "string \<Rightarrow> string \<Rightarrow> string \<Rightarrow> string result"
  hl_getAddress :: "string \<Rightarrow> string result"

definition COOKET_ARC_V1_DOMAIN_HASH :: "hash_library \<Rightarrow> string" where
  "COOKET_ARC_V1_DOMAIN_HASH h = keccak256 h (stringToHex h ''COOKET_ARC_V1'')"

definition COOKET_CTO_DOMAIN :: "hash_library \<Rightarrow> string" where
  "COOKET_CTO_DOMAIN h = keccak256 h (stringToHex h ''COOKET_VOLUNTARY_CTO_V1'')"

definition hash_of :: "hash_library \<Rightarrow> abi_value list \<Rightarrow> string result" where
  "hash_of h vs = try_bind (encodeAbi h vs) (\<lambda>e. Inr (keccak256 h e))"

definition computeArcLaunchSeed ::
    "hash_library \<Rightarrow> string \<Rightarrow> string \<Rightarrow> string \<Rightarrow> string \<Rightarrow> string \<Rightarrow> string result" where
  "computeArcLaunchSeed h factory creator userSalt name symbol =
     try_bind (hl_getAddress h factory) (\<lambda>f.
     try_bind (hl_getAddress h creator) (\<lambda>c.
       hash_of h [AbiBytes32 (COOKET_ARC_V1_DOMAIN_HASH h), AbiUint256 ARC_TESTNET_CHAIN_ID,
         AbiAddress f, AbiAddress c, AbiBytes32 userSalt,
         AbiBytes32 (keccak256 h (stringToHex h name)), AbiBytes32 (keccak256 h (stringToHex h symbol))]))"

definition computeArcCandidateSalt :: "hash_library \<Rightarrow> string \<Rightarrow> jsnum \<Rightarrow> string result" where
  "computeArcCandidateSalt h launchSeed attemptIndex =
     try_bind (throw_if (\<not> is_integer_num attemptIndex \<or> int_of_num attemptIndex < 0
         \<or> int_of_num attemptIndex > 255)
       ''Arc token candidate index must be an integer from 0 through 255.'') (\<lambda>_.
       hash_of h [AbiBytes32 launchSeed, AbiUint16 attemptIndex])"

definition computeArcTokenInitCodeHash ::
    "hash_library \<Rightarrow> string \<Rightarrow> string \<Rightarrow> string \<Rightarrow> string \<Rightarrow> string \<Rightarrow> string result" where
  "computeArcTokenInitCodeHash h tokenCreationCode factory creator name symbol =
     try_bind (hl_getAddress h factory) (\<lambda>f.
     try_bind (hl_getAddress h creator) (\<lambda>c.
     try_bind (encodeAbi h [AbiAddress f, AbiAddress c, AbiString name, AbiString symbol]) (\<lambda>args.
       Inr (keccak256 h (concatHex h [tokenCreationCode, args])))))"

definition predictArcTokenAddress ::
    "hash_library \<Rightarrow> string \<Rightarrow> string \<Rightarrow> string \<Rightarrow> string result" where
  "predictArcTokenAddress h tokenDeployer candidateSalt tokenInitCodeHash =
     try_bind (hl_getAddress h tokenDeployer) (\<lambda>d. create2 h d candidateSalt tokenInitCodeHash)"

definition requireUint64 :: "int \<Rightarrow> string \<Rightarrow> int result" where
  "requireUint64 v label =
     try_bind (throw_if (v < 0 \<or> v > 18446744073709551615) (label @ '' must fit uint64.'')) (\<lambda>_. Inr v)"

definition computeCTOTreasurySalt ::
    "hash_library \<Rightarrow> string \<Rightarrow> string \<Rightarrow> string \<Rightarrow> int \<Rightarrow> int \<Rightarrow> string result" where
  "computeCTOTreasurySalt h registry token controller tokenNonce chainId =
     try_bind (hl_getAddress h registry) (\<lambda>r.
     try_bind (hl_getAddress h token) (\<lambda>t.
     try_bind (hl_getAddress h controller) (\<lambda>c.
     try_bind (requireUint64 tokenNonce ''tokenNonce'') (\<lambda>n.
       hash_of h [AbiBytes32 (COOKET_CTO_DOMAIN h), AbiUint256 chainId, AbiAddress r, AbiAddress t,
         AbiAddress c, AbiUint64 n]))))"

definition predictCTOTreasuryAddress ::
    "hash_library \<Rightarrow> string \<Rightarrow> string \<Rightarrow> string \<Rightarrow> string \<Rightarrow> string \<Rightarrow> int \<Rightarrow> int \<Rightarrow> string result" where
  "predictCTOTreasuryAddress h treasuryCreationCode registry token controller canonicalUsdc tokenNonce chainId =
     try_bind (hl_getAddress h registry) (\<lambda>r.
     try_bind (hl_getAddress h token) (\<lambda>t.
     try_bind (hl_getAddress h controller) (\<lambda>c.
     try_bind (hl_getAddress h canonicalUsdc) (\<lambda>u.
     try_bind (encodeAbi h [AbiAddress r, AbiAddress t, AbiAddress c, AbiAddress u]) (\<lambda>args.
     try_bind (hl_getAddress h registry) (\<lambda>from.
     try_bind (computeCTOTreasurySalt h registry token controller tokenNonce chainId) (\<lambda>salt.
       create2 h from salt (keccak256 h (concatHex h [treasuryCreationCode, args])))))))))"

definition computeCTOProposalId ::
    "hash_library \<Rightarrow> string \<Rightarrow> string \<Rightarrow> int \<Rightarrow> string \<Rightarrow> string \<Rightarrow> string \<Rightarrow> int \<Rightarrow> string result" where
  "computeCTOProposalId h registry token tokenNonce treasury controller resolvedMetadataHash chainId =
     try_bind (hl_getAddress h registry) (\<lambda>r.
     try_bind (hl_getAddress h token) (\<lambda>t.
     try_bind (requireUint64 tokenNonce ''tokenNonce'') (\<lambda>n.
     try_bind (hl_getAddress h treasury) (\<lambda>y.
     try_bind (hl_getAddress h controller) (\<lambda>c.
       hash_of h [AbiBytes32 (COOKET_CTO_DOMAIN h), AbiUint256 chainId, AbiAddress r, AbiAddress t,
         AbiUint64 n, AbiAddress y, AbiAddress c, AbiBytes32 resolvedMetadataHash])))))"

lemma requireUint64_cases:
  "requireUint64 v label =
     (if 0 \<le> v \<and> v < 2 ^ 64 then Inr v else Inl (Err (label @ '' must fit uint64.'')))"
  by (auto simp: requireUint64_def throw_if_def)

text \<open>Two well-formed spellings of one address.\<close>

definition spellings :: "string \<Rightarrow> string \<Rightarrow> bool" where
  "spellings a b \<longleftrightarrow> address_pattern a \<and> address_pattern b \<and> same_address a b"

lemma spellings_getAddress:
  assumes "checksums f" and "spellings a b"
  shows "f a = f b" and "\<exists>x. f a = Inr x"
  using assms unfolding checksums_def spellings_def by metis+

text \<open>The takeover id, salt and treasury address do not depend on how the addresses are
  spelled, and a nonce outside 64 bits is refused, in the id and in the salt, before anything is
  hashed.\<close>

theorem cto_derivations_spelling:
  assumes "checksums (hl_getAddress h)"
    and "spellings registry registry'" and "spellings token token'" and "spellings treasury treasury'"
    and "spellings controller controller'" and "spellings usdc usdc'"
  shows "computeCTOProposalId h registry token n treasury controller meta chainId
        = computeCTOProposalId h registry' token' n treasury' controller' meta chainId
    \<and> computeCTOTreasurySalt h registry token controller n chainId
        = computeCTOTreasurySalt h registry' token' controller' n chainId
    \<and> predictCTOTreasuryAddress h code registry token controller usdc n chainId
        = predictCTOTreasuryAddress h code registry' token' controller' usdc' n chainId
    \<and> (n < 0 \<or> 2 ^ 64 \<le> n \<longrightarrow>
        computeCTOProposalId h registry token n treasury controller meta chainId
          = Inl (Err ''tokenNonce must fit uint64.'')
        \<and> computeCTOTreasurySalt h registry token controller n chainId
          = Inl (Err ''tokenNonce must fit uint64.''))"
proof -
  note eqs = spellings_getAddress(1)[OF assms(1,2)] spellings_getAddress(1)[OF assms(1,3)]
    spellings_getAddress(1)[OF assms(1,4)] spellings_getAddress(1)[OF assms(1,5)]
    spellings_getAddress(1)[OF assms(1,6)]
  obtain r t y c where rs: "hl_getAddress h registry = Inr r" "hl_getAddress h token = Inr t"
    "hl_getAddress h treasury = Inr y" "hl_getAddress h controller = Inr c"
    using assms(2-5)[THEN spellings_getAddress(2)[OF assms(1)]] by blast
  have salt: "computeCTOTreasurySalt h registry token controller n chainId
      = computeCTOTreasurySalt h registry' token' controller' n chainId"
    unfolding computeCTOTreasurySalt_def eqs ..
  have "computeCTOProposalId h registry token n treasury controller meta chainId
      = computeCTOProposalId h registry' token' n treasury' controller' meta chainId"
    unfolding computeCTOProposalId_def eqs ..
  moreover have "predictCTOTreasuryAddress h code registry token controller usdc n chainId
      = predictCTOTreasuryAddress h code registry' token' controller' usdc' n chainId"
    unfolding predictCTOTreasuryAddress_def eqs salt ..
  moreover have "computeCTOProposalId h registry token n treasury controller meta chainId
      = Inl (Err ''tokenNonce must fit uint64.'')
    \<and> computeCTOTreasurySalt h registry token controller n chainId
      = Inl (Err ''tokenNonce must fit uint64.'')" if "n < 0 \<or> 2 ^ 64 \<le> n"
    using that by (auto simp: computeCTOProposalId_def computeCTOTreasurySalt_def rs requireUint64_cases)
  ultimately show ?thesis using salt by blast
qed

definition sample_hashes :: hash_library where
  "sample_hashes = \<lparr>keccak256 = (\<lambda>s. s), stringToHex = (\<lambda>s. s), concatHex = concat,
     encodeAbi = (\<lambda>vs. Inr (nat_text (length vs))), create2 = (\<lambda>f s b. Inr (f @ s @ b)),
     hl_getAddress = lower_checksum\<rparr>"

theorem cto_derivations_spelling_witness:
  "computeCTOProposalId sample_hashes ''0x36000000000000000000000000000000000000aA'' ARC_CANONICAL_USDC (2 ^ 64)
     ARC_CANONICAL_USDC ARC_CANONICAL_USDC '''' 5042002 = Inl (Err ''tokenNonce must fit uint64.'')"
proof -
  have p: "spellings ''0x36000000000000000000000000000000000000aA'' ''0x36000000000000000000000000000000000000Aa''"
    "spellings ARC_CANONICAL_USDC ARC_CANONICAL_USDC"
    by code_simp+
  have h: "checksums (hl_getAddress sample_hashes)" by (simp add: sample_hashes_def checksums_lower)
  have "(2 :: int) ^ 64 < 0 \<or> 2 ^ 64 \<le> (2 :: int) ^ 64" by simp
  then show ?thesis
    using cto_derivations_spelling[OF h p(1) p(2) p(2) p(2) p(2)] by blast
qed

lemma candidate_salt_range:
  "computeArcCandidateSalt h seed n =
     (if valid_bps 0 255 n then hash_of h [AbiBytes32 seed, AbiUint16 n]
      else Inl (Err ''Arc token candidate index must be an integer from 0 through 255.''))"
  by (auto simp: computeArcCandidateSalt_def throw_if_def valid_bps_def)

subsection \<open>Receipts\<close>

record log_entry =
  log_address :: string
  log_data :: string
  log_topics :: "string list"

record receipt =
  rc_status :: string
  rc_hash :: string
  rc_logs :: "log_entry list"

record launched_args =
  la_token :: string
  la_curve :: string
  la_creator :: string
  la_protocolVersion :: string
  la_totalSupply :: int
  la_curveAllocation :: int
  la_lpAllocation :: int
  la_canonicalPool :: string

record bought_args =
  ba_token :: string
  ba_buyer :: string
  ba_tokensOut :: int
  ba_acceptedGross :: int
  ba_netCurveInput :: int
  ba_protocolFee :: int
  ba_creatorFee :: int
  ba_totalFee :: int
  ba_communityFee :: int
  ba_traderRewardsFee :: int

record sold_args =
  sa_token :: string
  sa_seller :: string
  sa_tokensIn :: int
  sa_grossCurveOutput :: int
  sa_netSellerOutput :: int
  sa_protocolFee :: int
  sa_creatorFee :: int
  sa_totalFee :: int
  sa_communityFee :: int
  sa_traderRewardsFee :: int

text \<open>\<^verbatim>\<open>parseEventLogs\<close> of viem for the three events, strictly: the decoded events with the
  address that emitted them, in the order of the receipt.\<close>

record log_decoder =
  ld_launched :: "log_entry list \<Rightarrow> (string \<times> launched_args) list"
  ld_bought :: "log_entry list \<Rightarrow> (string \<times> bought_args) list"
  ld_sold :: "log_entry list \<Rightarrow> (string \<times> sold_args) list"
  ld_getAddress :: "string \<Rightarrow> string result"

text \<open>\<^verbatim>\<open>.filter((log) => getAddress(log.address) === getAddress(emitter))\<close>.\<close>

fun logs_from ::
    "(string \<Rightarrow> string result) \<Rightarrow> string \<Rightarrow> (string \<times> 'a) list \<Rightarrow> (string \<times> 'a) list result" where
  "logs_from getAddress emitter [] = Inr []"
| "logs_from getAddress emitter (l # ls) =
     try_bind (getAddress (fst l)) (\<lambda>a.
     try_bind (getAddress emitter) (\<lambda>b.
     try_bind (logs_from getAddress emitter ls) (\<lambda>rest.
       Inr (if a = b then l # rest else rest))))"

lemma logs_from_filter:
  assumes "checksums getAddress" and "address_pattern emitter" and "\<forall>l \<in> set ls. address_pattern (fst l)"
  shows "logs_from getAddress emitter ls = Inr (filter (\<lambda>l. same_address (fst l) emitter) ls)"
  using assms(3)
proof (induction ls)
  case (Cons l ls)
  obtain b where b: "getAddress emitter = Inr b" using assms(1,2) unfolding checksums_def by metis
  obtain a where a: "getAddress (fst l) = Inr a"
    using assms(1) Cons.prems unfolding checksums_def by (metis list.set_intros(1))
  have "a = b \<longleftrightarrow> same_address (fst l) emitter" by (rule checksums_eq_iff[OF assms(1) a b])
  then show ?case using Cons a b by simp
qed simp

text \<open>\<^verbatim>\<open>if (logs.length !== 1) throw\<close>, and the one log's arguments otherwise.\<close>

definition single_log :: "(string \<times> 'a) list \<Rightarrow> string \<Rightarrow> 'a result" where
  "single_log logs msg = (case logs of [l] \<Rightarrow> Inr (snd l) | _ \<Rightarrow> Inl (Err msg))"

lemma single_log_Inr: "single_log logs msg = Inr args \<longleftrightarrow> (\<exists>a. logs = [(a, args)])"
  by (auto simp: single_log_def split: list.splits)

record token_launched =
  tl_token :: string
  tl_curve :: string
  tl_creator :: string
  tl_protocolVersion :: string
  tl_totalSupply :: int
  tl_curveAllocation :: int
  tl_lpAllocation :: int
  tl_canonicalPool :: string

definition parseTokenLaunchedReceipt :: "log_decoder \<Rightarrow> receipt \<Rightarrow> string \<Rightarrow> token_launched result" where
  "parseTokenLaunchedReceipt d receipt factory =
     (let addr = ld_getAddress d in
     try_bind (throw_if (rc_status receipt \<noteq> ''success'') ''token creation transaction reverted'') (\<lambda>_.
     try_bind (logs_from addr factory (ld_launched d (rc_logs receipt))) (\<lambda>logs.
     try_bind (single_log logs ''confirmed receipt did not contain exactly one TokenLaunched event'') (\<lambda>args.
     try_bind (throw_if (la_token args = [] \<or> la_curve args = [] \<or> la_creator args = []
         \<or> la_totalSupply args \<noteq> FIXED_TOKEN_SUPPLY \<or> la_protocolVersion args \<noteq> ''endpoint-cp-v3'')
       ''TokenLaunchedV3 event is malformed'') (\<lambda>_.
     try_bind (addr (la_token args)) (\<lambda>t.
     try_bind (addr (la_curve args)) (\<lambda>c.
     try_bind (addr (la_creator args)) (\<lambda>k.
     try_bind (addr (la_canonicalPool args)) (\<lambda>p.
       Inr \<lparr>tl_token = t, tl_curve = c, tl_creator = k, tl_protocolVersion = la_protocolVersion args,
            tl_totalSupply = la_totalSupply args, tl_curveAllocation = la_curveAllocation args,
            tl_lpAllocation = la_lpAllocation args, tl_canonicalPool = p\<rparr>)))))))))"

record trade_receipt =
  tr_side :: trade_side
  tr_token :: string
  tr_trader :: string
  tr_tokenAmount :: int
  tr_reserveAmount :: int
  tr_curveValue :: int
  tr_protocolFee :: int
  tr_creatorFee :: int
  tr_totalFee :: int
  tr_communityFee :: int
  tr_traderRewardsFee :: int

definition parseTradeReceipt :: "log_decoder \<Rightarrow> receipt \<Rightarrow> string \<Rightarrow> trade_side \<Rightarrow> trade_receipt result" where
  "parseTradeReceipt d receipt curve expectedSide =
     (let addr = ld_getAddress d in
     try_bind (throw_if (rc_status receipt \<noteq> ''success'') ''trade transaction reverted'') (\<lambda>_.
     if expectedSide = Buy then
       try_bind (logs_from addr curve (ld_bought d (rc_logs receipt))) (\<lambda>logs.
       try_bind (single_log logs ''confirmed receipt did not contain exactly one TokensBought event'') (\<lambda>args.
       try_bind (addr (ba_token args)) (\<lambda>t.
       try_bind (addr (ba_buyer args)) (\<lambda>b.
         Inr \<lparr>tr_side = Buy, tr_token = t, tr_trader = b, tr_tokenAmount = ba_tokensOut args,
              tr_reserveAmount = ba_acceptedGross args, tr_curveValue = ba_netCurveInput args,
              tr_protocolFee = ba_protocolFee args, tr_creatorFee = ba_creatorFee args,
              tr_totalFee = ba_totalFee args, tr_communityFee = ba_communityFee args,
              tr_traderRewardsFee = ba_traderRewardsFee args\<rparr>))))
     else
       try_bind (logs_from addr curve (ld_sold d (rc_logs receipt))) (\<lambda>logs.
       try_bind (single_log logs ''confirmed receipt did not contain exactly one TokensSold event'') (\<lambda>args.
       try_bind (addr (sa_token args)) (\<lambda>t.
       try_bind (addr (sa_seller args)) (\<lambda>s.
         Inr \<lparr>tr_side = Sell, tr_token = t, tr_trader = s, tr_tokenAmount = sa_tokensIn args,
              tr_reserveAmount = sa_grossCurveOutput args, tr_curveValue = sa_netSellerOutput args,
              tr_protocolFee = sa_protocolFee args, tr_creatorFee = sa_creatorFee args,
              tr_totalFee = sa_totalFee args, tr_communityFee = sa_communityFee args,
              tr_traderRewardsFee = sa_traderRewardsFee args\<rparr>))))))"

text \<open>The decoder only reports well-formed addresses, as ABI decoding does.\<close>

definition decodes_addresses :: "log_decoder \<Rightarrow> bool" where
  "decodes_addresses d \<longleftrightarrow> checksums (ld_getAddress d)
     \<and> (\<forall>logs. \<forall>(a, x) \<in> set (ld_launched d logs). address_pattern a \<and> address_pattern (la_token x)
          \<and> address_pattern (la_curve x) \<and> address_pattern (la_creator x) \<and> address_pattern (la_canonicalPool x))
     \<and> (\<forall>logs. \<forall>(a, x) \<in> set (ld_bought d logs). address_pattern a \<and> address_pattern (ba_token x)
          \<and> address_pattern (ba_buyer x))
     \<and> (\<forall>logs. \<forall>(a, x) \<in> set (ld_sold d logs). address_pattern a \<and> address_pattern (sa_token x)
          \<and> address_pattern (sa_seller x))"

definition bought_by_curve :: "log_decoder \<Rightarrow> receipt \<Rightarrow> string \<Rightarrow> bought_args list" where
  "bought_by_curve d receipt curve =
     map snd (filter (\<lambda>l. same_address (fst l) curve) (ld_bought d (rc_logs receipt)))"

definition sold_by_curve :: "log_decoder \<Rightarrow> receipt \<Rightarrow> string \<Rightarrow> sold_args list" where
  "sold_by_curve d receipt curve =
     map snd (filter (\<lambda>l. same_address (fst l) curve) (ld_sold d (rc_logs receipt)))"

definition launched_by_factory :: "log_decoder \<Rightarrow> receipt \<Rightarrow> string \<Rightarrow> launched_args list" where
  "launched_by_factory d receipt factory =
     map snd (filter (\<lambda>l. same_address (fst l) factory) (ld_launched d (rc_logs receipt)))"

text \<open>The one event the emitter itself logged.\<close>

lemma single_from:
  assumes "checksums addr" and "address_pattern emitter" and "\<forall>l \<in> set ls. address_pattern (fst l)"
  shows "try_bind (logs_from addr emitter ls) (\<lambda>logs. try_bind (single_log logs msg) f)
     = (case map snd (filter (\<lambda>l. same_address (fst l) emitter) ls) of [x] \<Rightarrow> f x | _ \<Rightarrow> Inl (Err msg))"
  by (auto simp: logs_from_filter[OF assms] single_log_def split: list.splits)

lemma checksums_spelling: "checksums addr \<Longrightarrow> address_pattern a \<Longrightarrow> \<exists>y. addr a = Inr y \<and> same_address y a"
  unfolding checksums_def by metis

lemma decoded_wf:
  assumes "decodes_addresses d"
  shows "checksums (ld_getAddress d)"
    and "\<forall>l \<in> set (ld_bought d logs). address_pattern (fst l)"
    and "\<forall>l \<in> set (ld_sold d logs). address_pattern (fst l)"
    and "\<forall>l \<in> set (ld_launched d logs). address_pattern (fst l)"
    and "bought_by_curve d receipt curve = [b] \<Longrightarrow> address_pattern (ba_token b) \<and> address_pattern (ba_buyer b)"
    and "sold_by_curve d receipt curve = [s] \<Longrightarrow> address_pattern (sa_token s) \<and> address_pattern (sa_seller s)"
    and "launched_by_factory d receipt curve = [k] \<Longrightarrow> address_pattern (la_token k) \<and> address_pattern (la_curve k)
       \<and> address_pattern (la_creator k) \<and> address_pattern (la_canonicalPool k)"
proof -
  show "checksums (ld_getAddress d)" "\<forall>l \<in> set (ld_bought d logs). address_pattern (fst l)"
    "\<forall>l \<in> set (ld_sold d logs). address_pattern (fst l)" "\<forall>l \<in> set (ld_launched d logs). address_pattern (fst l)"
    using assms by (fastforce simp: decodes_addresses_def)+
  have mem: "x \<in> snd ` set ls" if "map snd (filter P ls) = [x]" for x :: 'x and P and ls :: "(string \<times> 'x) list"
  proof -
    have "x \<in> set (map snd (filter P ls))" using that by simp
    then show ?thesis by auto
  qed
  show "address_pattern (ba_token b) \<and> address_pattern (ba_buyer b)" if "bought_by_curve d receipt curve = [b]"
    using assms mem[OF that[unfolded bought_by_curve_def]] by (fastforce simp: decodes_addresses_def)
  show "address_pattern (sa_token s) \<and> address_pattern (sa_seller s)" if "sold_by_curve d receipt curve = [s]"
    using assms mem[OF that[unfolded sold_by_curve_def]] by (fastforce simp: decodes_addresses_def)
  show "address_pattern (la_token k) \<and> address_pattern (la_curve k)
       \<and> address_pattern (la_creator k) \<and> address_pattern (la_canonicalPool k)"
    if "launched_by_factory d receipt curve = [k]"
    using assms mem[OF that[unfolded launched_by_factory_def]] by (fastforce simp: decodes_addresses_def)
qed

text \<open>The trade an event reports.\<close>

definition reports_bought :: "log_decoder \<Rightarrow> bought_args \<Rightarrow> trade_receipt \<Rightarrow> bool" where
  "reports_bought d x t \<longleftrightarrow> tr_side t = Buy
     \<and> ld_getAddress d (ba_token x) = Inr (tr_token t) \<and> ld_getAddress d (ba_buyer x) = Inr (tr_trader t)
     \<and> tr_tokenAmount t = ba_tokensOut x \<and> tr_reserveAmount t = ba_acceptedGross x
     \<and> tr_curveValue t = ba_netCurveInput x \<and> tr_protocolFee t = ba_protocolFee x
     \<and> tr_creatorFee t = ba_creatorFee x \<and> tr_totalFee t = ba_totalFee x
     \<and> tr_communityFee t = ba_communityFee x \<and> tr_traderRewardsFee t = ba_traderRewardsFee x"

definition reports_sold :: "log_decoder \<Rightarrow> sold_args \<Rightarrow> trade_receipt \<Rightarrow> bool" where
  "reports_sold d x t \<longleftrightarrow> tr_side t = Sell
     \<and> ld_getAddress d (sa_token x) = Inr (tr_token t) \<and> ld_getAddress d (sa_seller x) = Inr (tr_trader t)
     \<and> tr_tokenAmount t = sa_tokensIn x \<and> tr_reserveAmount t = sa_grossCurveOutput x
     \<and> tr_curveValue t = sa_netSellerOutput x \<and> tr_protocolFee t = sa_protocolFee x
     \<and> tr_creatorFee t = sa_creatorFee x \<and> tr_totalFee t = sa_totalFee x
     \<and> tr_communityFee t = sa_communityFee x \<and> tr_traderRewardsFee t = sa_traderRewardsFee x"

lemma single_case_Inr:
  "(case xs of [x] \<Rightarrow> f x | _ \<Rightarrow> Inl e) = Inr t \<longleftrightarrow> (\<exists>x. xs = [x] \<and> f x = Inr t)"
  by (auto split: list.splits)

text \<open>A confirmed trade is accepted exactly when the receipt succeeded and the curve itself, no
  other contract, emitted exactly one event of the expected side; the accepted trade names that
  event's token and trader and carries its amounts and fees.\<close>

theorem parseTradeReceipt_accepts:
  assumes "decodes_addresses d" and "address_pattern curve"
  shows "parseTradeReceipt d receipt curve side = Inr t \<longleftrightarrow> rc_status receipt = ''success''
     \<and> (if side = Buy then \<exists>x. bought_by_curve d receipt curve = [x] \<and> reports_bought d x t
        else \<exists>x. sold_by_curve d receipt curve = [x] \<and> reports_sold d x t)"
proof -
  note wf = decoded_wf[OF assms(1)]
  have rec: "r = t \<longleftrightarrow> tr_side r = tr_side t \<and> tr_token r = tr_token t \<and> tr_trader r = tr_trader t
     \<and> tr_tokenAmount r = tr_tokenAmount t \<and> tr_reserveAmount r = tr_reserveAmount t
     \<and> tr_curveValue r = tr_curveValue t \<and> tr_protocolFee r = tr_protocolFee t
     \<and> tr_creatorFee r = tr_creatorFee t \<and> tr_totalFee r = tr_totalFee t
     \<and> tr_communityFee r = tr_communityFee t \<and> tr_traderRewardsFee r = tr_traderRewardsFee t" for r :: trade_receipt
    by auto
  show ?thesis
  proof (cases side)
    case Buy
    then show ?thesis
      by (auto simp: parseTradeReceipt_def Let_def single_from[OF wf(1) assms(2) wf(2)] single_case_Inr try_bind_Inr_iff
          reports_bought_def rec simp flip: bought_by_curve_def)
  next
    case Sell
    then show ?thesis
      by (auto simp: parseTradeReceipt_def Let_def single_from[OF wf(1) assms(2) wf(3)] single_case_Inr try_bind_Inr_iff
          reports_sold_def rec simp flip: sold_by_curve_def)
  qed
qed

definition reports_launch :: "log_decoder \<Rightarrow> launched_args \<Rightarrow> token_launched \<Rightarrow> bool" where
  "reports_launch d x t \<longleftrightarrow>
     ld_getAddress d (la_token x) = Inr (tl_token t) \<and> ld_getAddress d (la_curve x) = Inr (tl_curve t)
     \<and> ld_getAddress d (la_creator x) = Inr (tl_creator t)
     \<and> ld_getAddress d (la_canonicalPool x) = Inr (tl_canonicalPool t)
     \<and> tl_protocolVersion t = la_protocolVersion x \<and> tl_totalSupply t = la_totalSupply x
     \<and> tl_curveAllocation t = la_curveAllocation x \<and> tl_lpAllocation t = la_lpAllocation x"

text \<open>A launch is accepted exactly when the receipt succeeded, the configured factory itself emitted
  exactly one launch event, and that event has the fixed supply and the protocol version the client
  knows; the accepted launch names the event's token, curve, creator and pool.\<close>

theorem parseTokenLaunchedReceipt_accepts:
  assumes "decodes_addresses d" and "address_pattern factory"
  shows "parseTokenLaunchedReceipt d receipt factory = Inr t \<longleftrightarrow> rc_status receipt = ''success''
     \<and> (\<exists>x. launched_by_factory d receipt factory = [x] \<and> la_totalSupply x = FIXED_TOKEN_SUPPLY
          \<and> la_protocolVersion x = ''endpoint-cp-v3'' \<and> reports_launch d x t)"
proof -
  note wf = decoded_wf[OF assms(1)]
  have rec: "r = t \<longleftrightarrow> tl_token r = tl_token t \<and> tl_curve r = tl_curve t \<and> tl_creator r = tl_creator t
     \<and> tl_protocolVersion r = tl_protocolVersion t \<and> tl_totalSupply r = tl_totalSupply t
     \<and> tl_curveAllocation r = tl_curveAllocation t \<and> tl_lpAllocation r = tl_lpAllocation t
     \<and> tl_canonicalPool r = tl_canonicalPool t" for r :: token_launched
    by auto
  have present: "la_token x \<noteq> [] \<and> la_curve x \<noteq> [] \<and> la_creator x \<noteq> []"
    if "launched_by_factory d receipt factory = [x]" for x
    using wf(7)[OF that] by (auto simp: address_pattern_def hex_pattern_def)
  show ?thesis
    using present
    by (auto simp: parseTokenLaunchedReceipt_def Let_def single_from[OF wf(1) assms(2) wf(4)] single_case_Inr
        try_bind_Inr_iff reports_launch_def rec simp flip: launched_by_factory_def)
qed

subsection \<open>A concrete decoder\<close>

definition sample_emitter :: string where
  "sample_emitter = ''0xAbCdEf0123456789012345678901234567890123''"

definition sample_decoder :: log_decoder where
  "sample_decoder = \<lparr>
     ld_launched = (\<lambda>logs. map (\<lambda>l. (sample_emitter, \<lparr>la_token = sample_emitter, la_curve = sample_emitter,
        la_creator = sample_emitter, la_protocolVersion = ''endpoint-cp-v3'', la_totalSupply = FIXED_TOKEN_SUPPLY,
        la_curveAllocation = 8, la_lpAllocation = 2, la_canonicalPool = sample_emitter\<rparr>)) logs),
     ld_bought = (\<lambda>logs. map (\<lambda>l. (sample_emitter, \<lparr>ba_token = sample_emitter, ba_buyer = sample_emitter,
        ba_tokensOut = 5, ba_acceptedGross = 7, ba_netCurveInput = 6, ba_protocolFee = 1, ba_creatorFee = 0,
        ba_totalFee = 1, ba_communityFee = 0, ba_traderRewardsFee = 0\<rparr>)) logs),
     ld_sold = (\<lambda>_. []), ld_getAddress = lower_checksum\<rparr>"

definition sample_receipt :: receipt where
  "sample_receipt = \<lparr>rc_status = ''success'', rc_hash = ''0xh'',
     rc_logs = [\<lparr>log_address = sample_emitter, log_data = ''0x'', log_topics = []\<rparr>]\<rparr>"

lemma sample_emitter_ok: "address_pattern sample_emitter"
  by code_simp

lemma sample_decodes: "decodes_addresses sample_decoder"
  using checksums_lower sample_emitter_ok by (auto simp: decodes_addresses_def sample_decoder_def)

lemma sample_parses:
  "\<exists>t. parseTradeReceipt sample_decoder sample_receipt sample_emitter Buy = Inr t"
  "\<exists>l. parseTokenLaunchedReceipt sample_decoder sample_receipt sample_emitter = Inr l"
  by (simp_all add: parseTradeReceipt_def parseTokenLaunchedReceipt_def sample_decoder_def sample_receipt_def
      throw_if_def lower_checksum_def sample_emitter_ok single_log_def)
    (simp add: sample_emitter_def)

theorem parseTradeReceipt_accepts_witness:
  "\<exists>t x. parseTradeReceipt sample_decoder sample_receipt sample_emitter Buy = Inr t
     \<and> bought_by_curve sample_decoder sample_receipt sample_emitter = [x] \<and> tr_tokenAmount t = ba_tokensOut x"
  using sample_parses(1) parseTradeReceipt_accepts[OF sample_decodes sample_emitter_ok, of sample_receipt Buy]
  by (auto simp: reports_bought_def)

theorem parseTokenLaunchedReceipt_accepts_witness:
  "\<exists>t. parseTokenLaunchedReceipt sample_decoder sample_receipt sample_emitter = Inr t
     \<and> tl_totalSupply t = FIXED_TOKEN_SUPPLY"
  using sample_parses(2) parseTokenLaunchedReceipt_accepts[OF sample_decodes sample_emitter_ok, of sample_receipt]
  by (auto simp: reports_launch_def)

end
