(* ===== verification/ClientEnv.thy ===== *)
theory ClientEnv
  imports JsIO SdkReceipts
begin

text \<open>
  Everything the client asks of the outside, as one record: viem's public client and wallet client,
  the clock, and the configuration loaded at start. Each field sees the trace so far, so the node
  and the wallet may answer the same question differently later. Also the two checks every
  transaction starts with: the curve of a token (\<^verbatim>\<open>resolveCurveAddress\<close>) and the signer
  (\<^verbatim>\<open>assertActiveWalletClient\<close>) of \<^verbatim>\<open>lib/contracts.ts\<close>.
\<close>

record tx =
  tx_from :: string
  tx_nonce :: int
  tx_to :: "string option"
  tx_value :: int
  tx_input :: string
  tx_hash :: string
  tx_block :: "int option"

datatype replacement_reason = RCancelled | RReplaced | RRepriced

datatype block_item = OnlyHash string | FullTx tx

record buy_quote_raw =
  bq_acceptedGross :: int
  bq_netCurveInput :: int
  bq_protocolFee :: int
  bq_creatorFee :: int
  bq_tokensOut :: int

record sell_quote_raw =
  sq_netSellerOutput :: int
  sq_grossCurveOutput :: int
  sq_protocolFee :: int
  sq_creatorFee :: int

record client =
  c_chain :: chain_module
  c_env :: process_env
  c_contracts :: contract_addresses
  c_getAddress :: "string \<Rightarrow> string result"
  c_decoder :: log_decoder
  c_readInt :: "trace \<Rightarrow> string \<Rightarrow> string \<Rightarrow> arg list \<Rightarrow> int result"
  c_readText :: "trace \<Rightarrow> string \<Rightarrow> string \<Rightarrow> arg list \<Rightarrow> string result"
  c_readBool :: "trace \<Rightarrow> string \<Rightarrow> string \<Rightarrow> arg list \<Rightarrow> bool result"
  c_readTexts :: "trace \<Rightarrow> string \<Rightarrow> string \<Rightarrow> arg list \<Rightarrow> string list result"
  c_quoteBuy :: "trace \<Rightarrow> string \<Rightarrow> int \<Rightarrow> buy_quote_raw result"
  c_quoteSell :: "trace \<Rightarrow> string \<Rightarrow> int \<Rightarrow> sell_quote_raw result"
  c_simulate :: "trace \<Rightarrow> call_spec \<Rightarrow> call_spec result"
  c_estimateGas :: "trace \<Rightarrow> call_spec \<Rightarrow> int result"
  c_gasPrice :: "trace \<Rightarrow> int result"
  c_balance :: "trace \<Rightarrow> string \<Rightarrow> int result"
  c_chainId :: "trace \<Rightarrow> int result"
  c_code :: "trace \<Rightarrow> string \<Rightarrow> string option result"
  c_transaction :: "trace \<Rightarrow> string \<Rightarrow> tx result"
  c_receipt :: "trace \<Rightarrow> string \<Rightarrow> receipt result"
  c_waitReceipt :: "trace \<Rightarrow> string \<Rightarrow> (replacement_reason option \<times> receipt result)"
  c_blockNumber :: "trace \<Rightarrow> int result"
  c_latestTimestamp :: "trace \<Rightarrow> int result"
  c_txCount :: "trace \<Rightarrow> string \<Rightarrow> int result"
  c_block :: "trace \<Rightarrow> int \<Rightarrow> block_item list result"
  c_walletAccount :: "string option"
  c_walletChainId :: "trace \<Rightarrow> int result"
  c_walletAddresses :: "trace \<Rightarrow> string list result"
  c_write :: "trace \<Rightarrow> call_spec \<Rightarrow> string result"
  c_now :: "trace \<Rightarrow> int"
  c_timerFired :: "trace \<Rightarrow> bool"

subsection \<open>Requests\<close>

definition readInt :: "client \<Rightarrow> string \<Rightarrow> string \<Rightarrow> arg list \<Rightarrow> int io" where
  "readInt c a f args = io_call (EvRead a f args) (\<lambda>tr. c_readInt c tr a f args)"

definition readText :: "client \<Rightarrow> string \<Rightarrow> string \<Rightarrow> arg list \<Rightarrow> string io" where
  "readText c a f args = io_call (EvRead a f args) (\<lambda>tr. c_readText c tr a f args)"

definition readBool :: "client \<Rightarrow> string \<Rightarrow> string \<Rightarrow> arg list \<Rightarrow> bool io" where
  "readBool c a f args = io_call (EvRead a f args) (\<lambda>tr. c_readBool c tr a f args)"

definition readTexts :: "client \<Rightarrow> string \<Rightarrow> string \<Rightarrow> arg list \<Rightarrow> string list io" where
  "readTexts c a f args = io_call (EvRead a f args) (\<lambda>tr. c_readTexts c tr a f args)"

definition simulateContract :: "client \<Rightarrow> call_spec \<Rightarrow> call_spec io" where
  "simulateContract c spec = io_call (EvSimulate spec) (\<lambda>tr. c_simulate c tr spec)"

definition estimateContractGas :: "client \<Rightarrow> call_spec \<Rightarrow> int io" where
  "estimateContractGas c spec = io_call (EvEstimateGas spec) (\<lambda>tr. c_estimateGas c tr spec)"

definition getGasPrice :: "client \<Rightarrow> int io" where
  "getGasPrice c = io_call EvGasPrice (c_gasPrice c)"

definition getBalance :: "client \<Rightarrow> string \<Rightarrow> int io" where
  "getBalance c a = io_call (EvBalance a) (\<lambda>tr. c_balance c tr a)"

definition getChainId :: "client \<Rightarrow> int io" where
  "getChainId c = io_call EvChainId (c_chainId c)"

definition getBytecode :: "client \<Rightarrow> string \<Rightarrow> string option io" where
  "getBytecode c a = io_call (EvCode a) (\<lambda>tr. c_code c tr a)"

definition getTransaction :: "client \<Rightarrow> string \<Rightarrow> tx io" where
  "getTransaction c h = io_call (EvTransaction h) (\<lambda>tr. c_transaction c tr h)"

definition getTransactionReceipt :: "client \<Rightarrow> string \<Rightarrow> receipt io" where
  "getTransactionReceipt c h = io_call (EvReceipt h) (\<lambda>tr. c_receipt c tr h)"

text \<open>Waiting also reports, through \<^verbatim>\<open>onReplaced\<close>, why the transaction was replaced.\<close>

definition waitForTransactionReceipt :: "client \<Rightarrow> string \<Rightarrow> nat option \<Rightarrow> (replacement_reason option \<times> receipt) io" where
  "waitForTransactionReceipt c h timeout =
     io_call (EvWaitReceipt h timeout)
       (\<lambda>tr. case c_waitReceipt c tr h of (reason, r) \<Rightarrow> try_bind r (\<lambda>x. Inr (reason, x)))"

definition getBlockNumber :: "client \<Rightarrow> int io" where
  "getBlockNumber c = io_call EvBlockNumber (c_blockNumber c)"

definition getLatestTimestamp :: "client \<Rightarrow> int io" where
  "getLatestTimestamp c = io_call EvLatestBlock (c_latestTimestamp c)"

definition getTransactionCount :: "client \<Rightarrow> string \<Rightarrow> int io" where
  "getTransactionCount c a = io_call (EvTxCount a) (\<lambda>tr. c_txCount c tr a)"

definition getBlock :: "client \<Rightarrow> int \<Rightarrow> block_item list io" where
  "getBlock c n = io_call (EvBlock n) (\<lambda>tr. c_block c tr n)"

definition writeContract :: "client \<Rightarrow> call_spec \<Rightarrow> string io" where
  "writeContract c request = io_call (EvWrite request) (\<lambda>tr. c_write c tr request)"

definition dateNow :: "client \<Rightarrow> int io" where
  "dateNow c = io_call EvNow (\<lambda>tr. Inr (c_now c tr))"

lemmas request_defs = readInt_def readText_def readBool_def readTexts_def simulateContract_def
  estimateContractGas_def getGasPrice_def getBalance_def getChainId_def getBytecode_def
  getTransaction_def getTransactionReceipt_def waitForTransactionReceipt_def getBlockNumber_def
  getLatestTimestamp_def getTransactionCount_def getBlock_def dateNow_def

lemma requests_read_only [emits_intros]:
  "read_only (readInt c a f args)" "read_only (readText c a f args)" "read_only (readBool c a f args)"
  "read_only (readTexts c a f args)" "read_only (simulateContract c spec)"
  "read_only (estimateContractGas c spec)" "read_only (getGasPrice c)" "read_only (getBalance c a)"
  "read_only (getChainId c)" "read_only (getBytecode c a)" "read_only (getTransaction c h)"
  "read_only (getTransactionReceipt c h)" "read_only (waitForTransactionReceipt c h timeout)"
  "read_only (getBlockNumber c)" "read_only (getLatestTimestamp c)"
  "read_only (getTransactionCount c a)" "read_only (getBlock c n)" "read_only (dateNow c)"
  by (simp_all add: request_defs emits_intros)

text \<open>A string is truthy when it is there and not empty.\<close>

definition truthy :: "string option \<Rightarrow> string option" where
  "truthy v = (case v of Some s \<Rightarrow> if s = [] then None else Some s | None \<Rightarrow> None)"

definition no_code :: "string option \<Rightarrow> bool" where
  "no_code code \<longleftrightarrow> truthy code = None \<or> code = Some ''0x''"

definition gate :: "client \<Rightarrow> unit io" where
  "gate c = io_result (assertArcProtocolEconomicsReady (c_env c) (c_chain c))"

lemma gate_read_only [emits_intros]: "read_only (gate c)"
  by (simp add: gate_def emits_intros)

subsection \<open>The curve of a token\<close>

definition resolveCurveAddress :: "client \<Rightarrow> string \<Rightarrow> string option io" where
  "resolveCurveAddress c token =
     (case truthy (cooketCurve (c_contracts c)) of
        Some curve \<Rightarrow> io_return (Some curve)
      | None \<Rightarrow>
          (case truthy (cooketFactory (c_contracts c)) of
             None \<Rightarrow> io_return None
           | Some factory \<Rightarrow>
               io_bind (readText c factory ''curveOf'' [AText token]) (\<lambda>curve.
                 io_return (if curve = [] \<or> zero_address_pattern curve then None else Some curve))))"

lemma resolveCurveAddress_read_only [emits_intros]: "read_only (resolveCurveAddress c token)"
  unfolding resolveCurveAddress_def by (intro emits_intros)

text \<open>\<^verbatim>\<open>const curve = await resolveCurveAddress(token); if (!curve) throw\<close>.\<close>

definition requireCurve :: "client \<Rightarrow> string \<Rightarrow> string io" where
  "requireCurve c token =
     io_bind (resolveCurveAddress c token) (\<lambda>curve.
       case curve of
         None \<Rightarrow> io_throw (Err ''Curve address is not configured for this token.'')
       | Some a \<Rightarrow> io_return a)"

lemma requireCurve_read_only [emits_intros]: "read_only (requireCurve c token)"
  unfolding requireCurve_def by (intro emits_intros)

text \<open>A resolved curve is never the empty or the zero address.\<close>

lemma resolveCurveAddress_nonzero:
  assumes "resolveCurveAddress c token tr = (Inr (Some a), t)"
  shows "truthy (cooketCurve (c_contracts c)) = Some a
     \<or> (\<exists>factory. truthy (cooketFactory (c_contracts c)) = Some factory
          \<and> t = tr @ [EvRead factory ''curveOf'' [AText token]]
          \<and> c_readText c tr factory ''curveOf'' [AText token] = Inr a \<and> a \<noteq> [] \<and> \<not> zero_address_pattern a)"
  using assms
  by (auto simp: resolveCurveAddress_def readText_def io_inv split: option.splits if_splits)

subsection \<open>The signer\<close>

text \<open>\<^verbatim>\<open>getAddress(a) === getAddress(b)\<close>, which throws when either is malformed.\<close>

definition equalAddresses :: "client \<Rightarrow> string \<Rightarrow> string \<Rightarrow> bool result" where
  "equalAddresses c a b =
     try_bind (c_getAddress c a) (\<lambda>x. try_bind (c_getAddress c b) (\<lambda>y. Inr (x = y)))"

definition signer_mismatch_message :: string where
  "signer_mismatch_message = ''The wallet client signer does not match the active address shown by Cooket.''"

definition accounts_changed_message :: string where
  "accounts_changed_message =
     ''The wallet disconnected or changed accounts before submission. Review the transaction again.''"

definition assertActiveWalletClient :: "client \<Rightarrow> string \<Rightarrow> unit io" where
  "assertActiveWalletClient c expectedAccount =
     io_bind (case truthy (c_walletAccount c) of
         None \<Rightarrow> io_throw (Err signer_mismatch_message)
       | Some configured \<Rightarrow>
           io_bind (io_result (equalAddresses c configured expectedAccount)) (\<lambda>same.
             io_throw_if (\<not> same) signer_mismatch_message)) (\<lambda>_.
     io_bind (io_both (io_call EvWalletChainId (c_walletChainId c))
                      (io_call EvWalletAddresses (c_walletAddresses c))) (\<lambda>(chainId, addresses).
     io_bind (io_throw_if (chainId \<noteq> selectedCooketChainId (c_chain c))
         (''The active signer is on chain '' @ int_text chainId @ ''; switch to ''
           @ selectedCooketChainName (c_chain c) @ '' ('' @ int_text (selectedCooketChainId (c_chain c)) @ '').'')) (\<lambda>_.
       case addresses of
         [] \<Rightarrow> io_throw (Err accounts_changed_message)
       | a # _ \<Rightarrow>
           if a = [] then io_throw (Err accounts_changed_message)
           else io_bind (io_result (equalAddresses c a expectedAccount)) (\<lambda>same.
             io_throw_if (\<not> same) accounts_changed_message))))"

lemma emits_list [emits_intros]:
  "(xs = [] \<Longrightarrow> emits P m) \<Longrightarrow> (\<And>y ys. xs = y # ys \<Longrightarrow> emits P (f y ys))
   \<Longrightarrow> emits P (case xs of [] \<Rightarrow> m | y # ys \<Rightarrow> f y ys)"
  by (cases xs) auto

lemma assertActiveWalletClient_read_only [emits_intros]: "read_only (assertActiveWalletClient c a)"
  unfolding assertActiveWalletClient_def by (intro emits_intros) simp_all

text \<open>
  What a write may rely on: right before it the wallet answered that it is on the selected chain and
  that its first address is the account the user sees, which also is the client's own signer.
\<close>

definition signer_verified :: "client \<Rightarrow> string \<Rightarrow> trace \<Rightarrow> call_spec \<Rightarrow> bool" where
  "signer_verified c account tr request \<longleftrightarrow>
     (\<exists>t0 configured a rest.
        tr = t0 @ [EvWalletChainId, EvWalletAddresses]
        \<and> c_walletAccount c = Some configured \<and> equalAddresses c configured account = Inr True
        \<and> c_walletChainId c t0 = Inr (selectedCooketChainId (c_chain c))
        \<and> c_walletAddresses c (t0 @ [EvWalletChainId]) = Inr (a # rest)
        \<and> equalAddresses c a account = Inr True)"

lemma assertActiveWalletClient_Inr:
  assumes "assertActiveWalletClient c account tr = (Inr u, t)"
  shows "signer_verified c account t request" and "t = tr @ [EvWalletChainId, EvWalletAddresses]"
proof -
  from assms show t: "t = tr @ [EvWalletChainId, EvWalletAddresses]"
    unfolding assertActiveWalletClient_def by (auto simp: io_inv)
  have "\<exists>configured a rest. truthy (c_walletAccount c) = Some configured
      \<and> equalAddresses c configured account = Inr True
      \<and> c_walletChainId c tr = Inr (selectedCooketChainId (c_chain c))
      \<and> c_walletAddresses c (tr @ [EvWalletChainId]) = Inr (a # rest)
      \<and> equalAddresses c a account = Inr True"
    using assms unfolding assertActiveWalletClient_def by (auto simp: io_inv)
  then show "signer_verified c account t request"
    using t unfolding signer_verified_def by (auto simp: truthy_def split: option.splits if_splits)
qed

text \<open>\<^verbatim>\<open>await assertActiveWalletClient(client, account); return client.writeContract(request)\<close>.\<close>

definition signedWrite :: "client \<Rightarrow> string \<Rightarrow> call_spec \<Rightarrow> string io" where
  "signedWrite c account request =
     io_bind (assertActiveWalletClient c account) (\<lambda>_. writeContract c request)"

lemma signedWrite_guarded [guarded_intros]: "guarded (signer_verified c account) (signedWrite c account request)"
proof (unfold guarded_def, intro allI)
  fix tr
  obtain r t where run: "assertActiveWalletClient c account tr = (r, t)"
    by (cases "assertActiveWalletClient c account tr")
  have "grows_guarded (signer_verified c account) tr t"
    using run guardedD[OF guarded_read_only[OF assertActiveWalletClient_read_only]] by blast
  moreover have "grows_guarded (signer_verified c account) t (t @ [EvWrite request])" if "r = Inr u" for u
    using that run assertActiveWalletClient_Inr(1) by (simp add: grows_guarded_write)
  ultimately show "grows_guarded (signer_verified c account) tr (snd (signedWrite c account request tr))"
    using run grows_guarded_trans
    by (cases r) (auto simp: signedWrite_def io_bind_def writeContract_def io_call_def)
qed

lemma signedWrite_Inr [io_inv]:
  "signedWrite c account request tr = (Inr h, t) \<longleftrightarrow>
     (let t0 = tr @ [EvWalletChainId, EvWalletAddresses] in
      assertActiveWalletClient c account tr = (Inr (), t0) \<and> c_write c t0 request = Inr h
      \<and> t = t0 @ [EvWrite request])"
  using assertActiveWalletClient_Inr(2)[of c account tr "()"]
  by (auto simp: signedWrite_def io_inv writeContract_def Let_def)

text \<open>
  A computation whose only write, if it makes one, is its last request, so that its outcome is the
  wallet's answer to that write.
\<close>

definition final_write :: "client \<Rightarrow> string io \<Rightarrow> bool" where
  "final_write c m \<longleftrightarrow> (\<forall>tr r t. m tr = (r, t) \<longrightarrow>
     (writes t = writes tr \<and> (\<exists>e. r = Inl e))
     \<or> (\<exists>p request. t = p @ [EvWrite request] \<and> writes p = writes tr \<and> r = c_write c p request))"

named_theorems final_write_intros \<open>computations that end with their only write\<close>

lemma final_write_throw [final_write_intros]: "final_write c (io_throw e)"
  by (simp add: final_write_def io_throw_def)

lemma final_write_bind [final_write_intros]:
  assumes "read_only m" and "\<And>a. final_write c (f a)"
  shows "final_write c (io_bind m f)"
proof (unfold final_write_def, intro allI impI)
  fix tr r t' assume run: "io_bind m f tr = (r, t')"
  obtain r0 t where m: "m tr = (r0, t)" by (cases "m tr")
  have w: "writes t = writes tr" by (rule read_only_writes[OF assms(1) m])
  show "writes t' = writes tr \<and> (\<exists>e. r = Inl e)
     \<or> (\<exists>p request. t' = p @ [EvWrite request] \<and> writes p = writes tr \<and> r = c_write c p request)"
  proof (cases r0)
    case (Inl e)
    then show ?thesis using run m w by (auto simp: io_bind_def)
  next
    case (Inr a)
    then have "f a t = (r, t')" using run m by (simp add: io_bind_def)
    then show ?thesis using assms(2)[of a] w unfolding final_write_def by metis
  qed
qed

lemma final_write_option [final_write_intros]:
  "(x = None \<Longrightarrow> final_write c m) \<Longrightarrow> (\<And>a. x = Some a \<Longrightarrow> final_write c (f a))
   \<Longrightarrow> final_write c (case x of None \<Rightarrow> m | Some a \<Rightarrow> f a)"
  by (cases x) auto

lemma final_write_prod [final_write_intros]:
  "(\<And>a b. x = (a, b) \<Longrightarrow> final_write c (f a b)) \<Longrightarrow> final_write c (case x of (a, b) \<Rightarrow> f a b)"
  by (cases x) auto

lemma final_write_signed [final_write_intros]: "final_write c (signedWrite c account request)"
proof -
  have "final_write c (writeContract c request)"
    by (auto simp: final_write_def writeContract_def io_call_def)
  then show ?thesis unfolding signedWrite_def
    by (intro final_write_intros assertActiveWalletClient_read_only)
qed

text \<open>A bound on the number of writes of a run, however it ends.\<close>

definition at_most_writes :: "nat \<Rightarrow> 'a io \<Rightarrow> bool" where
  "at_most_writes n m \<longleftrightarrow> (\<forall>tr. \<exists>ws. writes (snd (m tr)) = writes tr @ ws \<and> length ws \<le> n)"

lemma at_most_read_only_bind:
  assumes "read_only m" and "\<And>a. at_most_writes n (f a)"
  shows "at_most_writes n (io_bind m f)"
proof (unfold at_most_writes_def, intro allI)
  fix tr
  obtain r t where m: "m tr = (r, t)" by (cases "m tr")
  have "writes t = writes tr" by (rule read_only_writes[OF assms(1) m])
  then show "\<exists>ws. writes (snd (io_bind m f tr)) = writes tr @ ws \<and> length ws \<le> n"
    using m assms(2)[unfolded at_most_writes_def, rule_format, of _ t]
    by (cases r) (auto simp: io_bind_def)
qed

lemma at_most_bind_read_only:
  assumes "at_most_writes n m" and "\<And>a. read_only (f a)"
  shows "at_most_writes n (io_bind m f)"
proof (unfold at_most_writes_def, intro allI)
  fix tr
  obtain r t where m: "m tr = (r, t)" by (cases "m tr")
  have "writes (snd (f a t)) = writes t" for a
    using read_only_writes[OF assms(2)] by (metis prod.collapse)
  then show "\<exists>ws. writes (snd (io_bind m f tr)) = writes tr @ ws \<and> length ws \<le> n"
    using m assms(1)[unfolded at_most_writes_def, rule_format, of tr]
    by (cases r) (auto simp: io_bind_def)
qed

lemma at_most_signed: "at_most_writes 1 (signedWrite c account request)"
proof -
  have "at_most_writes 1 (writeContract c request)"
    by (auto simp: at_most_writes_def writeContract_def io_call_def)
  then show ?thesis unfolding signedWrite_def
    by (intro at_most_read_only_bind assertActiveWalletClient_read_only)
qed

text \<open>
  A computation that submits the requests \<^verbatim>\<open>ws\<close> in this order: all of them when it returns, a
  prefix of them when it throws.
\<close>

definition submits :: "call_spec list \<Rightarrow> 'a io \<Rightarrow> bool" where
  "submits ws m \<longleftrightarrow> (\<forall>tr r t. m tr = (r, t) \<longrightarrow>
     (case r of Inr a \<Rightarrow> writes t = writes tr @ ws | Inl e \<Rightarrow> \<exists>n. writes t = writes tr @ take n ws))"

named_theorems submits_intros \<open>computations with a fixed sequence of requests\<close>

lemma submitsD:
  assumes "submits ws m"
  shows "m tr = (Inr a, t) \<Longrightarrow> writes t = writes tr @ ws"
    and "m tr = (Inl e, t) \<Longrightarrow> \<exists>n. writes t = writes tr @ take n ws"
  using assms[unfolded submits_def, rule_format, of tr "Inr a" t]
    assms[unfolded submits_def, rule_format, of tr "Inl e" t] by simp_all

lemma submits_prefix: "submits ws m \<Longrightarrow> m tr = (r, t) \<Longrightarrow> \<exists>n. writes t = writes tr @ take n ws"
proof (cases r)
  case (Inr a)
  assume "submits ws m" "m tr = (r, t)"
  then have "writes t = writes tr @ take (length ws) ws" using Inr submitsD(1) by fastforce
  then show ?thesis by blast
qed (use submitsD(2) in blast)

lemma submits_read_only: "read_only m \<Longrightarrow> submits [] m"
  using read_only_writes by (fastforce simp: submits_def split: sum.splits)

lemma submits_throw [submits_intros]: "submits ws (io_throw e)"
  by (auto simp: submits_def io_throw_def intro: exI[of _ 0])

lemma submits_bind:
  assumes "submits ws m" and "\<And>a. submits vs (f a)"
  shows "submits (ws @ vs) (io_bind m f)"
proof (unfold submits_def, intro allI impI)
  fix tr r t' assume run: "io_bind m f tr = (r, t')"
  obtain r0 t where m: "m tr = (r0, t)" by (cases "m tr")
  show "case r of Inr a \<Rightarrow> writes t' = writes tr @ ws @ vs | Inl e \<Rightarrow> \<exists>n. writes t' = writes tr @ take n (ws @ vs)"
  proof (cases r0)
    case (Inl e)
    with submitsD(2)[OF assms(1)] m obtain n where "writes t = writes tr @ take n ws" by blast
    moreover have "take n ws = take (if n \<le> length ws then n else length ws) (ws @ vs)" by simp
    ultimately have "\<exists>k. writes t = writes tr @ take k (ws @ vs)" by metis
    moreover have "r = Inl e" "t' = t" using run m Inl by (simp_all add: io_bind_def)
    ultimately show ?thesis by (simp del: take_append)
  next
    case (Inr a)
    have w: "writes t = writes tr @ ws" using submitsD(1)[OF assms(1)] m Inr by blast
    have rest: "f a t = (r, t')" using run m Inr by (simp add: io_bind_def)
    show ?thesis
    proof (cases r)
      case (Inl e)
      then obtain n where "writes t' = writes t @ take n vs" using submitsD(2)[OF assms(2)] rest by blast
      then have "writes t' = writes tr @ take (length ws + n) (ws @ vs)" using w by simp
      then have "\<exists>k. writes t' = writes tr @ take k (ws @ vs)" by blast
      then show ?thesis using Inl by (simp del: take_append)
    next
      case (Inr b)
      then have "writes t' = writes t @ vs" using submitsD(1)[OF assms(2)] rest by blast
      then show ?thesis using Inr w by simp
    qed
  qed
qed

lemma submits_read_bind: "read_only m \<Longrightarrow> (\<And>a. submits ws (f a)) \<Longrightarrow> submits ws (io_bind m f)"
  using submits_bind[OF submits_read_only, of m ws f] by simp

lemma submits_bind_read: "submits ws m \<Longrightarrow> (\<And>a. read_only (f a)) \<Longrightarrow> submits ws (io_bind m f)"
  using submits_bind[of ws m "[]" f] submits_read_only by fastforce

lemma submits_signed: "submits [request] (signedWrite c account request)"
proof -
  have "submits [request] (writeContract c request)"
    by (auto simp: submits_def writeContract_def io_call_def split: sum.splits intro: exI[of _ 1])
  then show ?thesis unfolding signedWrite_def
    by (intro submits_read_bind assertActiveWalletClient_read_only)
qed

subsection \<open>Flows that sign\<close>

text \<open>
  The contract between a flow that submits transactions for an account and the rest of the client:
  all its writes are verified. What follows from it is proved once here.
\<close>

locale signed_flow =
  fixes c :: client and account :: string and flow :: "'a io"
  assumes verified: "guarded (signer_verified c account) flow"
begin

lemma write_verified:
  assumes "flow tr = (r, t)" and "t = tr @ p @ EvWrite request # q"
  shows "signer_verified c account (tr @ p) request"
  using guardedD[OF verified assms(1)] assms(2) by (auto simp: grows_guarded_def)

lemma writes_need_signer:
  assumes "flow tr = (r, t)" and "writes t \<noteq> writes tr"
  shows "\<exists>configured. c_walletAccount c = Some configured \<and> equalAddresses c configured account = Inr True"
proof -
  obtain s where s: "t = tr @ s" using guardedD[OF verified assms(1)] by (auto simp: grows_guarded_def)
  with assms(2) have "writes s \<noteq> []" by auto
  then obtain request p q where "s = p @ EvWrite request # q" using writes_nonempty by blast
  with s write_verified[OF assms(1)] show ?thesis by (fastforce simp: signer_verified_def)
qed

text \<open>A wallet that is never on the selected chain receives nothing.\<close>

lemma wrong_chain_no_write:
  assumes "\<And>t0. c_walletChainId c t0 \<noteq> Inr (selectedCooketChainId (c_chain c))"
    and "flow tr = (r, t)"
  shows "writes t = writes tr"
proof (rule ccontr)
  assume "writes t \<noteq> writes tr"
  obtain s where s: "t = tr @ s" using guardedD[OF verified assms(2)] by (auto simp: grows_guarded_def)
  with \<open>writes t \<noteq> writes tr\<close> have "writes s \<noteq> []" by auto
  then obtain request p q where "s = p @ EvWrite request # q" using writes_nonempty by blast
  with s write_verified[OF assms(2)] assms(1) show False by (fastforce simp: signer_verified_def)
qed

end

subsection \<open>A concrete outside\<close>

text \<open>A node and a wallet that agree to everything: the inputs of the witnesses.\<close>

definition demo_log_decoder :: log_decoder where
  "demo_log_decoder = \<lparr>ld_launched = (\<lambda>_. []),
     ld_bought = (\<lambda>logs. map (\<lambda>l. (log_address l,
        \<lparr>ba_token = ''0xt'', ba_buyer = ''0xa'', ba_tokensOut = 5, ba_acceptedGross = 7, ba_netCurveInput = 6,
         ba_protocolFee = 1, ba_creatorFee = 0, ba_totalFee = 1, ba_communityFee = 0,
         ba_traderRewardsFee = 0\<rparr>)) logs),
     ld_sold = (\<lambda>_. []), ld_getAddress = Inr\<rparr>"

definition demo_contracts :: contract_addresses where
  "demo_contracts = \<lparr>cooketFactory = Some ''0xf'', cooketCurve = None, feeManager = None,
     graduationManager = None, permanentLPFeeVault = None, permanentLPCustodianDeployer = None,
     graduationSettlementExecutor = None, ctoRegistry = Some ''0xr''\<rparr>"

definition demo_env :: process_env where
  "demo_env name = (if name = ARC_TESTNET_FINANCIAL_EXECUTION_ENV then Some ''true'' else None)"

definition demo_tx :: tx where
  "demo_tx = \<lparr>tx_from = ''0xa'', tx_nonce = 4, tx_to = Some ''0xc'', tx_value = 10, tx_input = ''0x12'',
     tx_hash = ''0xh'', tx_block = Some 100\<rparr>"

definition demo_receipt :: receipt where
  "demo_receipt = \<lparr>rc_status = ''success'', rc_hash = ''0xh'',
     rc_logs = [\<lparr>log_address = ''0xc'', log_data = ''0x'', log_topics = []\<rparr>]\<rparr>"

definition demo :: client where
  "demo = \<lparr>c_chain = sample_module, c_env = demo_env, c_contracts = demo_contracts,
     c_getAddress = Inr, c_decoder = demo_log_decoder,
     c_readInt = (\<lambda>tr a f args. Inr (if f = ''allowance'' \<and> writes tr = [] then 0 else 50)),
     c_readText = (\<lambda>tr a f args. Inr ''0xc''),
     c_readBool = (\<lambda>tr a f args. Inr False), c_readTexts = (\<lambda>tr a f args. Inr [''0xa'']),
     c_quoteBuy = (\<lambda>tr a n. Inr \<lparr>bq_acceptedGross = n, bq_netCurveInput = n, bq_protocolFee = 0,
        bq_creatorFee = 0, bq_tokensOut = 5\<rparr>),
     c_quoteSell = (\<lambda>tr a n. Inr \<lparr>sq_netSellerOutput = n, sq_grossCurveOutput = n, sq_protocolFee = 0,
        sq_creatorFee = 0\<rparr>),
     c_simulate = (\<lambda>tr spec. Inr spec), c_estimateGas = (\<lambda>tr spec. Inr 2), c_gasPrice = (\<lambda>tr. Inr 3),
     c_balance = (\<lambda>tr a. Inr 100), c_chainId = (\<lambda>tr. Inr 5042002), c_code = (\<lambda>tr a. Inr (Some ''0x60'')),
     c_transaction = (\<lambda>tr h. Inr demo_tx), c_receipt = (\<lambda>tr h. Inr demo_receipt),
     c_waitReceipt = (\<lambda>tr h. (None, Inr demo_receipt)), c_blockNumber = (\<lambda>tr. Inr 200),
     c_latestTimestamp = (\<lambda>tr. Inr 1000),
     c_txCount = (\<lambda>tr a. Inr 4), c_block = (\<lambda>tr n. Inr []), c_walletAccount = Some ''0xa'',
     c_walletChainId = (\<lambda>tr. Inr 5042002), c_walletAddresses = (\<lambda>tr. Inr [''0xa'']),
     c_write = (\<lambda>tr call. Inr ''0xh''), c_now = (\<lambda>tr. 1000000),
     c_timerFired = (\<lambda>tr. False)\<rparr>"

lemma gate_demo [simp]: "gate demo tr = (Inr (), tr)"
proof -
  have "js_trim ''true'' = ''true''" by code_simp
  then show ?thesis
    by (simp add: gate_def demo_def sample_module_def sample_chain_def demo_env_def io_result_def
      assertArcProtocolEconomicsReady_def isArcTestnetFinancialExecutionEnabled_def explicitTrue_def
      selectedCooketChainId_def selectedCooketChainName_def ARC_TESTNET_CHAIN_ID_def
      ARC_TESTNET_FINANCIAL_EXECUTION_ENV_def)
qed

lemma requireCurve_demo [simp]:
  "requireCurve demo token tr = (Inr ''0xc'', tr @ [EvRead ''0xf'' ''curveOf'' [AText token]])"
proof -
  have "\<not> zero_address_pattern ''0xc''" by code_simp
  then show ?thesis
    by (simp add: requireCurve_def resolveCurveAddress_def demo_def demo_contracts_def truthy_def io_defs
      readText_def)
qed

lemma signedWrite_demo [simp]:
  "signedWrite demo ''0xa'' request tr
     = (Inr ''0xh'', tr @ [EvWalletChainId, EvWalletAddresses, EvWrite request])"
  by (simp add: signedWrite_def assertActiveWalletClient_def demo_def truthy_def io_defs equalAddresses_def
    selectedCooketChainId_def sample_module_def sample_chain_def writeContract_def)

end
