(* ===== verification/CurveTrading.thy ===== *)
theory CurveTrading
  imports ClientEnv
begin

text \<open>
  Trading on the bonding curve: reading state, quoting, and submitting a launch, a buy or a sell
  (\<^verbatim>\<open>lib/contracts.ts\<close>). A submission is one computation on the trace; its checks, its
  simulation, its wallet prompts and its writes happen in the order the code has them.
\<close>

subsection \<open>Launching a token\<close>

datatype create_salt = SaltText string | SaltRecord string | SaltLegacy

text \<open>A record without \<^verbatim>\<open>userSalt\<close> makes the client hash the name, the symbol and the time.\<close>

definition submitCreateToken ::
    "client \<Rightarrow> hash_library \<Rightarrow> string \<Rightarrow> string \<Rightarrow> string \<Rightarrow> create_salt \<Rightarrow> string io" where
  "submitCreateToken c h creator name symbol userSalt =
     io_bind (gate c) (\<lambda>_.
     case truthy (cooketFactory (c_contracts c)) of
       None \<Rightarrow> io_throw (Err ''Factory address is not configured.'')
     | Some factory \<Rightarrow>
         io_bind (case userSalt of
             SaltText s \<Rightarrow> io_return s
           | SaltRecord s \<Rightarrow> io_return s
           | SaltLegacy \<Rightarrow> io_bind (dateNow c) (\<lambda>now.
               io_return (keccak256 h (name @ ''-'' @ symbol @ ''-'' @ int_text now)))) (\<lambda>salt.
         io_bind (simulateContract c
             \<lparr>call_to = factory, call_fn = ''createToken'',
              call_args = [AText name, AText symbol, AText salt], call_account = creator, call_value = 0\<rparr>) (\<lambda>request.
           signedWrite c creator request)))"

definition confirmCreatedToken :: "client \<Rightarrow> string \<Rightarrow> (receipt \<times> token_launched) io" where
  "confirmCreatedToken c hash =
     (case truthy (cooketFactory (c_contracts c)) of
        None \<Rightarrow> io_throw (Err ''Factory address is not configured.'')
      | Some factory \<Rightarrow>
          io_bind (waitForTransactionReceipt c hash None) (\<lambda>(_, receipt).
          io_bind (io_result (parseTokenLaunchedReceipt (c_decoder c) receipt factory)) (\<lambda>created.
            io_return (receipt, created))))"

subsection \<open>State and quotes\<close>

record curve_trade_state =
  ts_curveSupply :: int
  ts_soldSupply :: int
  ts_reserveBalance :: int
  ts_graduationThreshold :: int
  ts_lifecycle :: int
  ts_nativeBalance :: int
  ts_tokenBalance :: int
  ts_allowance :: int
  ts_decimals :: int

definition readTradeState :: "client \<Rightarrow> string \<Rightarrow> string option \<Rightarrow> curve_trade_state io" where
  "readTradeState c token account =
     io_bind (requireCurve c token) (\<lambda>curve.
     io_bind (io_both (readInt c curve ''soldSupply'' [])
             (io_both (readInt c curve ''activeNativeUsdcReserve'' [])
             (io_both (readBool c curve ''graduated'' [])
             (io_both (case truthy account of Some a \<Rightarrow> getBalance c a | None \<Rightarrow> io_return 0)
             (io_both (case truthy account of Some a \<Rightarrow> readInt c token ''balanceOf'' [AText a] | None \<Rightarrow> io_return 0)
             (io_both (case truthy account of Some a \<Rightarrow> readInt c token ''allowance'' [AText a, AText curve] | None \<Rightarrow> io_return 0)
                      (readInt c token ''decimals'' []))))))) (\<lambda>(sold, reserve, graduated, native, balance, allowance, decimals).
       io_return \<lparr>ts_curveSupply = CURVE_ALLOCATION, ts_soldSupply = sold, ts_reserveBalance = reserve,
         ts_graduationThreshold = CURVE_ALLOCATION, ts_lifecycle = (if graduated then 2 else 0),
         ts_nativeBalance = native, ts_tokenBalance = balance, ts_allowance = allowance,
         ts_decimals = decimals\<rparr>))"

record buy_quote =
  byq_reserveIn :: int
  byq_curveCost :: int
  byq_protocolFee :: int
  byq_creatorFee :: int
  byq_acceptedGross :: "int option"
  byq_netCurveInput :: "int option"
  byq_tokensOut :: "int option"

record sell_quote =
  slq_reserveOut :: int
  slq_curveValue :: int
  slq_protocolFee :: int
  slq_creatorFee :: int
  slq_netSellerOutput :: "int option"

definition readBuyQuote :: "client \<Rightarrow> string \<Rightarrow> int \<Rightarrow> buy_quote io" where
  "readBuyQuote c token amount =
     io_bind (requireCurve c token) (\<lambda>curve.
     io_bind (io_call (EvRead curve ''quoteBuy'' [AInt amount]) (\<lambda>tr. c_quoteBuy c tr curve amount)) (\<lambda>q.
       io_return \<lparr>byq_reserveIn = bq_acceptedGross q, byq_curveCost = bq_netCurveInput q,
         byq_protocolFee = bq_protocolFee q, byq_creatorFee = bq_creatorFee q,
         byq_acceptedGross = Some (bq_acceptedGross q), byq_netCurveInput = Some (bq_netCurveInput q),
         byq_tokensOut = Some (bq_tokensOut q)\<rparr>))"

definition readSellQuote :: "client \<Rightarrow> string \<Rightarrow> int \<Rightarrow> sell_quote io" where
  "readSellQuote c token amount =
     io_bind (requireCurve c token) (\<lambda>curve.
     io_bind (io_call (EvRead curve ''quoteSell'' [AInt amount]) (\<lambda>tr. c_quoteSell c tr curve amount)) (\<lambda>q.
       io_return \<lparr>slq_reserveOut = sq_netSellerOutput q, slq_curveValue = sq_grossCurveOutput q,
         slq_protocolFee = sq_protocolFee q, slq_creatorFee = sq_creatorFee q,
         slq_netSellerOutput = Some (sq_netSellerOutput q)\<rparr>))"

definition quoteDeadline :: "client \<Rightarrow> int io" where
  "quoteDeadline c = io_bind (dateNow c) (\<lambda>now. io_return (transactionDeadline now))"

record budget_quote =
  bud_quote :: buy_quote
  bud_tokenAmount :: int
  bud_maxReserveIn :: int
  bud_slippageBps :: jsnum
  bud_deadline :: int

record protected_sell_quote =
  psq_quote :: sell_quote
  psq_tokenAmount :: int
  psq_minReserveOut :: int
  psq_slippageBps :: jsnum
  psq_deadline :: int

definition or_else :: "'a option \<Rightarrow> 'a \<Rightarrow> 'a" where
  "or_else v d = (case v of None \<Rightarrow> d | Some a \<Rightarrow> a)"

definition quoteBuyByBudget :: "client \<Rightarrow> string \<Rightarrow> int \<Rightarrow> jsnum \<Rightarrow> budget_quote io" where
  "quoteBuyByBudget c token budget slippageBps =
     io_bind (io_throw_if (budget \<le> 0) ''Enter a native USDC amount greater than zero.'') (\<lambda>_.
     io_bind (readBuyQuote c token budget) (\<lambda>quote.
     io_bind (io_throw_if (byq_tokensOut quote = Some 0)
        ''The native USDC amount is too small for the minimum trade.'') (\<lambda>_.
     io_bind (quoteDeadline c) (\<lambda>deadline.
       io_return
         \<lparr>bud_quote = quote\<lparr>byq_reserveIn := or_else (byq_acceptedGross quote) budget,
            byq_curveCost := or_else (byq_netCurveInput quote) 0\<rparr>,
          bud_tokenAmount = or_else (byq_tokensOut quote) 0, bud_maxReserveIn = budget,
          bud_slippageBps = slippageBps, bud_deadline = deadline\<rparr>))))"

definition quoteSellAmount :: "client \<Rightarrow> string \<Rightarrow> int \<Rightarrow> jsnum \<Rightarrow> protected_sell_quote io" where
  "quoteSellAmount c token tokenAmount slippageBps =
     io_bind (io_throw_if (tokenAmount \<le> 0) ''Enter a token amount greater than zero.'') (\<lambda>_.
     io_bind (readSellQuote c token tokenAmount) (\<lambda>quote.
     io_bind (io_result (minOutputWithSlippage (slq_reserveOut quote) slippageBps)) (\<lambda>least.
     io_bind (quoteDeadline c) (\<lambda>deadline.
       io_return \<lparr>psq_quote = quote, psq_tokenAmount = tokenAmount, psq_minReserveOut = least,
         psq_slippageBps = slippageBps, psq_deadline = deadline\<rparr>))))"

subsection \<open>Submitting a buy\<close>

definition assertBuyQuoteFresh :: "client \<Rightarrow> budget_quote \<Rightarrow> unit io" where
  "assertBuyQuoteFresh c quote =
     io_bind (dateNow c) (\<lambda>now.
       io_throw_if (now div 1000 \<ge> bud_deadline quote)
         ''This quote expired. Request a fresh quote before buying.'')"

definition buy_call :: "string \<Rightarrow> string \<Rightarrow> budget_quote \<Rightarrow> int \<Rightarrow> call_spec" where
  "buy_call curve account quote minTokens =
     \<lparr>call_to = curve, call_fn = ''buy'', call_args = [AInt minTokens, AInt (bud_deadline quote)],
      call_account = account, call_value = bud_maxReserveIn quote\<rparr>"

definition submitBuy ::
    "client \<Rightarrow> string \<Rightarrow> string \<Rightarrow> budget_quote \<Rightarrow> (trace \<Rightarrow> unit result) \<Rightarrow> string io" where
  "submitBuy c account token quote assertReady =
     io_bind (gate c) (\<lambda>_.
     io_bind (requireCurve c token) (\<lambda>curve.
     io_bind (assertBuyQuoteFresh c quote) (\<lambda>_.
     io_bind (io_check assertReady) (\<lambda>_.
     io_bind (io_result (minOutputWithSlippage (bud_tokenAmount quote) (bud_slippageBps quote))) (\<lambda>minTokens.
     io_bind (simulateContract c (buy_call curve account quote minTokens)) (\<lambda>request.
     io_bind (io_both (getBalance c account)
             (io_both (io_bind (io_result (minOutputWithSlippage (bud_tokenAmount quote) (bud_slippageBps quote)))
                        (\<lambda>minTokens. estimateContractGas c (buy_call curve account quote minTokens)))
                      (getGasPrice c))) (\<lambda>(nativeBalance, gas, gasPrice).
     io_bind (io_throw_if (nativeBalance < bud_maxReserveIn quote + gas * gasPrice)
        ''The connected wallet has insufficient native USDC to cover this buy and its estimated network gas.'') (\<lambda>_.
     io_bind (assertBuyQuoteFresh c quote) (\<lambda>_.
     io_bind (io_check assertReady) (\<lambda>_.
       signedWrite c account request))))))))))"

subsection \<open>Submitting a sell\<close>

record browser_sell_state =
  bs_allowance :: int
  bs_tokenBalance :: int

definition readBrowserSellState :: "client \<Rightarrow> string \<Rightarrow> string \<Rightarrow> string \<Rightarrow> browser_sell_state io" where
  "readBrowserSellState c token account curve =
     io_bind (io_both (readInt c token ''allowance'' [AText account, AText curve])
                      (readInt c token ''balanceOf'' [AText account])) (\<lambda>(allowance, balance).
       io_return \<lparr>bs_allowance = allowance, bs_tokenBalance = balance\<rparr>)"

definition browserAllowancePollDelays :: "nat list" where
  "browserAllowancePollDelays = [0, 250, 500, 1000, 1500]"

definition still_insufficient_message :: string where
  "still_insufficient_message = ''The confirmed token approval is still insufficient for this sell.''"

text \<open>One attempt: a failed read is remembered, a state with enough allowance is returned.\<close>

definition allowanceAttempt ::
    "client \<Rightarrow> string \<Rightarrow> string \<Rightarrow> string \<Rightarrow> int \<Rightarrow> (js_error + browser_sell_state option) io" where
  "allowanceAttempt c token account curve required =
     io_catch (io_bind (readBrowserSellState c token account curve) (\<lambda>state.
         io_return (Inr (if required \<le> bs_allowance state then Some state else None))))
       (\<lambda>e. io_return (Inl e))"

text \<open>The loop over the delays still to come; the first attempt is not delayed.\<close>

fun pollAllowance ::
    "client \<Rightarrow> string \<Rightarrow> string \<Rightarrow> string \<Rightarrow> int \<Rightarrow> bool \<Rightarrow> js_error option \<Rightarrow> nat list \<Rightarrow> browser_sell_state io" where
  "pollAllowance c token account curve required first lastError [] =
     (case lastError of
        Some e \<Rightarrow> io_throw (Err (''The confirmed approval could not be re-read for the active token and curve: '' @ error_text e))
      | None \<Rightarrow> io_throw (Err still_insufficient_message))"
| "pollAllowance c token account curve required first lastError (d # ds) =
     io_bind (if first then io_return () else io_note (EvDelay d)) (\<lambda>_.
     io_bind (allowanceAttempt c token account curve required) (\<lambda>r.
       case r of
         Inl e \<Rightarrow> pollAllowance c token account curve required False (Some e) ds
       | Inr (Some state) \<Rightarrow> io_return state
       | Inr None \<Rightarrow> pollAllowance c token account curve required False lastError ds))"

definition waitForBrowserAllowance ::
    "client \<Rightarrow> string \<Rightarrow> string \<Rightarrow> string \<Rightarrow> int \<Rightarrow> browser_sell_state io" where
  "waitForBrowserAllowance c token account curve required =
     pollAllowance c token account curve required True None browserAllowancePollDelays"

definition assertSellDeadline :: "client \<Rightarrow> protected_sell_quote \<Rightarrow> unit io" where
  "assertSellDeadline c quote =
     io_bind (dateNow c) (\<lambda>now.
       io_throw_if (now div 1000 \<ge> psq_deadline quote)
         ''This quote expired during wallet approval. Request a fresh quote before selling.'')"

definition approve_call :: "string \<Rightarrow> string \<Rightarrow> string \<Rightarrow> int \<Rightarrow> call_spec" where
  "approve_call token spender account amount =
     \<lparr>call_to = token, call_fn = ''approve'', call_args = [AText spender, AInt amount],
      call_account = account, call_value = 0\<rparr>"

definition sell_call :: "string \<Rightarrow> string \<Rightarrow> protected_sell_quote \<Rightarrow> call_spec" where
  "sell_call curve account quote =
     \<lparr>call_to = curve, call_fn = ''sell'',
      call_args = [AInt (psq_tokenAmount quote), AInt (psq_minReserveOut quote), AInt (psq_deadline quote)],
      call_account = account, call_value = 0\<rparr>"

definition insufficient_tokens_message :: string where
  "insufficient_tokens_message = ''The connected wallet has insufficient token balance for this sell.''"

text \<open>The branch that approves the curve and waits until the node shows the approval.\<close>

definition approveForSell ::
    "client \<Rightarrow> string \<Rightarrow> string \<Rightarrow> string \<Rightarrow> protected_sell_quote \<Rightarrow> (trace \<Rightarrow> unit result)
       \<Rightarrow> browser_sell_state io" where
  "approveForSell c account token curve quote assertReady =
     io_bind (assertSellDeadline c quote) (\<lambda>_.
     io_bind (io_check assertReady) (\<lambda>_.
     io_bind (io_note (EvCallback ''onApprovalRequested'' [])) (\<lambda>_.
     io_bind (simulateContract c (approve_call token curve account (psq_tokenAmount quote))) (\<lambda>approvalRequest.
     io_bind (signedWrite c account approvalRequest) (\<lambda>approvalHash.
     io_bind (io_note (EvCallback ''onApprovalSubmitted'' [approvalHash])) (\<lambda>_.
     io_bind (waitForTransactionReceipt c approvalHash (Some 120000)) (\<lambda>(_, approvalReceipt).
     io_bind (io_throw_if (rc_status approvalReceipt \<noteq> ''success'')
        (''The token approval transaction reverted on '' @ selectedCooketChainName (c_chain c) @ ''.'')) (\<lambda>_.
     io_bind (io_note (EvCallback ''onApprovalConfirmed'' [approvalHash])) (\<lambda>_.
     io_bind (assertSellDeadline c quote) (\<lambda>_.
     io_bind (io_check assertReady) (\<lambda>_.
       waitForBrowserAllowance c token account curve (psq_tokenAmount quote))))))))))))"

definition ensureAllowance ::
    "client \<Rightarrow> string \<Rightarrow> string \<Rightarrow> string \<Rightarrow> protected_sell_quote \<Rightarrow> (trace \<Rightarrow> unit result)
       \<Rightarrow> browser_sell_state \<Rightarrow> browser_sell_state io" where
  "ensureAllowance c account token curve quote assertReady state =
     (if bs_allowance state < psq_tokenAmount quote
      then approveForSell c account token curve quote assertReady
      else io_return state)"

definition finishSell ::
    "client \<Rightarrow> string \<Rightarrow> string \<Rightarrow> protected_sell_quote \<Rightarrow> (trace \<Rightarrow> unit result) \<Rightarrow> browser_sell_state \<Rightarrow> string io" where
  "finishSell c account curve quote assertReady state =
     io_bind (io_throw_if (bs_allowance state < psq_tokenAmount quote) still_insufficient_message) (\<lambda>_.
     io_bind (io_throw_if (bs_tokenBalance state < psq_tokenAmount quote) insufficient_tokens_message) (\<lambda>_.
     io_bind (assertSellDeadline c quote) (\<lambda>_.
     io_bind (io_check assertReady) (\<lambda>_.
     io_bind (io_note (EvCallback ''onSellPreparing'' [])) (\<lambda>_.
     io_bind (simulateContract c (sell_call curve account quote)) (\<lambda>request.
     io_bind (assertSellDeadline c quote) (\<lambda>_.
     io_bind (io_check assertReady) (\<lambda>_.
     io_bind (io_note (EvCallback ''onSellRequested'' [])) (\<lambda>_.
       signedWrite c account request)))))))))"

definition submitSell ::
    "client \<Rightarrow> string \<Rightarrow> string \<Rightarrow> protected_sell_quote \<Rightarrow> (trace \<Rightarrow> unit result) \<Rightarrow> string io" where
  "submitSell c account token quote assertReady =
     io_bind (gate c) (\<lambda>_.
     io_bind (requireCurve c token) (\<lambda>curve.
     io_bind (assertSellDeadline c quote) (\<lambda>_.
     io_bind (io_check assertReady) (\<lambda>_.
     io_bind (readBrowserSellState c token account curve) (\<lambda>state.
     io_bind (io_throw_if (bs_tokenBalance state < psq_tokenAmount quote) insufficient_tokens_message) (\<lambda>_.
     io_bind (ensureAllowance c account token curve quote assertReady state) (\<lambda>state.
       finishSell c account curve quote assertReady state)))))))"

text \<open>The calls of a batched sell, with the encoders of the SDK as parameters.\<close>

definition buildSellCalls ::
    "(string \<Rightarrow> int \<Rightarrow> string) \<Rightarrow> (int \<Rightarrow> int \<Rightarrow> int \<Rightarrow> string) \<Rightarrow> string \<Rightarrow> string \<Rightarrow> protected_sell_quote
       \<Rightarrow> int \<Rightarrow> int \<Rightarrow> (string \<times> string) list" where
  "buildSellCalls encodeApprove encodeSell token curve quote allowance deadline =
     (if allowance < psq_tokenAmount quote then [(token, encodeApprove curve (psq_tokenAmount quote))] else [])
     @ [(curve, encodeSell (psq_tokenAmount quote) (psq_minReserveOut quote) deadline)]"

subsection \<open>What the pieces add to the trace\<close>

lemma checks_read_only [emits_intros]:
  "read_only (assertBuyQuoteFresh c bq)" "read_only (assertSellDeadline c sq)" "read_only (quoteDeadline c)"
  unfolding assertBuyQuoteFresh_def assertSellDeadline_def quoteDeadline_def by (intro emits_intros)+

lemma readBrowserSellState_read_only [emits_intros]: "read_only (readBrowserSellState c token account curve)"
  unfolding readBrowserSellState_def by (intro emits_intros)

lemma allowanceAttempt_read_only [emits_intros]: "read_only (allowanceAttempt c token account curve required)"
  unfolding allowanceAttempt_def by (intro emits_intros)

lemma pollAllowance_read_only [emits_intros]:
  "read_only (pollAllowance c token account curve required first lastError ds)"
  by (induction ds arbitrary: first lastError) (auto intro!: emits_intros split: sum.split option.split)

lemma waitForBrowserAllowance_read_only [emits_intros]:
  "read_only (waitForBrowserAllowance c token account curve required)"
  unfolding waitForBrowserAllowance_def by (intro emits_intros)

lemma readTradeState_read_only [emits_intros]: "read_only (readTradeState c token account)"
  unfolding readTradeState_def by (intro emits_intros)

lemma readQuotes_read_only [emits_intros]:
  "read_only (readBuyQuote c token amount)" "read_only (readSellQuote c token amount)"
  unfolding readBuyQuote_def readSellQuote_def by (intro emits_intros; simp)+

lemma quotes_read_only [emits_intros]:
  "read_only (quoteBuyByBudget c token budget bps)" "read_only (quoteSellAmount c token amount bps)"
  unfolding quoteBuyByBudget_def quoteSellAmount_def by (intro emits_intros)+

lemma submitCreateToken_guarded: "guarded (signer_verified c creator) (submitCreateToken c h creator name symbol salt)"
  unfolding submitCreateToken_def
  by (intro guarded_intros guarded_read_only[OF gate_read_only] guarded_read_only[OF emits_throw]
      guarded_read_only[OF requests_read_only(5)] guarded_read_only)
     (auto intro!: emits_intros split: create_salt.splits)

lemma submitBuy_guarded: "guarded (signer_verified c account) (submitBuy c account token quote ready)"
  unfolding submitBuy_def
  by (rule guarded_bind, rule guarded_read_only, (intro emits_intros; fail))+
     (intro guarded_intros guarded_read_only emits_intros)

lemma approveForSell_guarded [guarded_intros]:
  "guarded (signer_verified c account) (approveForSell c account token curve quote ready)"
  unfolding approveForSell_def
  by (intro guarded_intros) (intro guarded_read_only emits_intros; simp)+

lemma ensureAllowance_guarded [guarded_intros]:
  "guarded (signer_verified c account) (ensureAllowance c account token curve quote ready state)"
  unfolding ensureAllowance_def
  by (intro guarded_intros guarded_read_only[OF emits_return])

lemma finishSell_guarded [guarded_intros]:
  "guarded (signer_verified c account) (finishSell c account curve quote ready state)"
  unfolding finishSell_def
  by (intro guarded_intros) (intro guarded_read_only emits_intros; simp)+

lemma submitSell_guarded: "guarded (signer_verified c account) (submitSell c account token quote ready)"
  unfolding submitSell_def
  by (intro guarded_intros) (intro guarded_read_only emits_intros; simp)+

interpretation buy_flow: signed_flow c account "submitBuy c account token quote ready"
  for c account token quote ready
  by unfold_locales (rule submitBuy_guarded)

interpretation sell_flow: signed_flow c account "submitSell c account token quote ready"
  for c account token quote ready
  by unfold_locales (rule submitSell_guarded)

interpretation launch_flow: signed_flow c creator "submitCreateToken c h creator name symbol salt"
  for c creator h name symbol salt
  by unfold_locales (rule submitCreateToken_guarded)

subsection \<open>Properties\<close>

text \<open>C17: whatever the node and the wallet answer, every transaction that a launch, a buy or a sell
  (its approval included) hands to the wallet comes right after the wallet has confirmed that it is
  on the selected chain and that its first account, and its configured signer, is the account the
  user sees.\<close>

theorem writes_follow_signer_check:
  assumes "run = submitBuy c account token bq ready \<or> run = submitSell c account token sq ready
      \<or> run = submitCreateToken c h account name symbol salt"
    and "run tr = (r, tr @ p @ EvWrite request # q)"
  shows "signer_verified c account (tr @ p) request"
  using assms(1)
proof (elim disjE)
  assume "run = submitBuy c account token bq ready"
  then show ?thesis using assms(2) by (intro buy_flow.write_verified[OF _ refl]) simp
next
  assume "run = submitSell c account token sq ready"
  then show ?thesis using assms(2) by (intro sell_flow.write_verified[OF _ refl]) simp
next
  assume "run = submitCreateToken c h account name symbol salt"
  then show ?thesis using assms(2) by (intro launch_flow.write_verified[OF _ refl]) simp
qed

text \<open>With the release gate closed, none of the three submissions asks the node, the wallet or
  the clock for anything: each throws the blocker at once, so no address setting can open it.\<close>

theorem closed_gate_does_nothing:
  assumes "assertArcProtocolEconomicsReady (c_env c) (c_chain c) = Inl e"
  shows "submitBuy c account token bq ready tr = (Inl e, tr)
    \<and> submitSell c account token sq ready tr = (Inl e, tr)
    \<and> submitCreateToken c h account name symbol salt tr = (Inl e, tr)"
  using assms by (simp add: submitBuy_def submitSell_def submitCreateToken_def gate_def io_defs)

text \<open>A wallet that never answers with the selected chain receives no transaction from a launch,
  a buy or a sell.\<close>

theorem wrong_chain_receives_nothing:
  assumes "\<And>t0. c_walletChainId c t0 \<noteq> Inr (selectedCooketChainId (c_chain c))"
  shows "writes (snd (submitBuy c account token bq ready tr)) = writes tr
    \<and> writes (snd (submitSell c account token sq ready tr)) = writes tr
    \<and> writes (snd (submitCreateToken c h account name symbol salt tr)) = writes tr"
  using buy_flow.wrong_chain_no_write[OF assms] sell_flow.wrong_chain_no_write[OF assms]
    launch_flow.wrong_chain_no_write[OF assms] by (metis prod.collapse)

subsection \<open>What a returned submission did\<close>

lemma submitBuy_Inr:
  assumes "submitBuy c account token quote ready tr = (Inr h, t)"
  shows "\<exists>curve minTokens request t1 t2 gas gasPrice t3.
     requireCurve c token tr = (Inr curve, t1)
     \<and> minOutputWithSlippage (bud_tokenAmount quote) (bud_slippageBps quote) = Inr minTokens
     \<and> c_simulate c (t1 @ [EvNow]) (buy_call curve account quote minTokens) = Inr request
     \<and> t2 = t1 @ [EvNow, EvSimulate (buy_call curve account quote minTokens)]
     \<and> c_estimateGas c (t2 @ [EvBalance account]) (buy_call curve account quote minTokens) = Inr gas
     \<and> c_gasPrice c (t2 @ [EvBalance account, EvEstimateGas (buy_call curve account quote minTokens)]) = Inr gasPrice
     \<and> (\<exists>native. c_balance c t2 account = Inr native \<and> bud_maxReserveIn quote + gas * gasPrice \<le> native)
     \<and> t3 = t2 @ [EvBalance account, EvEstimateGas (buy_call curve account quote minTokens), EvGasPrice]
     \<and> c_now c t1 div 1000 < bud_deadline quote \<and> c_now c t3 div 1000 < bud_deadline quote
     \<and> ready (t1 @ [EvNow]) = Inr () \<and> ready (t3 @ [EvNow]) = Inr ()
     \<and> signedWrite c account request (t3 @ [EvNow]) = (Inr h, t)"
  using assms unfolding submitBuy_def
  by (auto simp: io_inv gate_def assertBuyQuoteFresh_def request_defs not_le not_less
      simp del: signedWrite_Inr)

lemma submitBuy_final: "final_write c (submitBuy c account token quote ready)"
  unfolding submitBuy_def by (intro final_write_intros) (intro emits_intros; simp)+

lemma finishSell_final: "final_write c (finishSell c account curve quote ready state)"
  unfolding finishSell_def by (intro final_write_intros) (intro emits_intros; simp)+

lemma final_write_Inr:
  assumes "final_write c m" and "m tr = (Inr h, t)"
  shows "\<exists>p request. t = p @ [EvWrite request] \<and> writes p = writes tr \<and> c_write c p request = Inr h"
  using assms unfolding final_write_def by fastforce

text \<open>C6: a buy that returns made exactly one write, its last request: the request the node returned
  for buying at the resolved curve with the quote's value, its deadline and its minimum output after
  slippage; the balance the node reported covers the value and the estimated gas, the deadline had
  not passed at the last check and the caller's guard still held; the hash is the wallet's answer. A
  buy that throws sent nothing, unless the wallet itself refused that last request.\<close>

theorem submitBuy_correct:
  assumes "submitBuy c account token quote ready tr = (r, t)"
  shows "case r of
    Inr h \<Rightarrow> \<exists>curve minTokens request t1 t2 t3 native gas gasPrice.
      (let spec = buy_call curve account quote minTokens in
      requireCurve c token tr = (Inr curve, t1)
      \<and> minOutputWithSlippage (bud_tokenAmount quote) (bud_slippageBps quote) = Inr minTokens
      \<and> c_simulate c (t1 @ [EvNow]) spec = Inr request \<and> t2 = t1 @ [EvNow, EvSimulate spec]
      \<and> c_balance c t2 account = Inr native \<and> c_estimateGas c (t2 @ [EvBalance account]) spec = Inr gas
      \<and> c_gasPrice c (t2 @ [EvBalance account, EvEstimateGas spec]) = Inr gasPrice
      \<and> bud_maxReserveIn quote + gas * gasPrice \<le> native
      \<and> t3 = t2 @ [EvBalance account, EvEstimateGas spec, EvGasPrice]
      \<and> c_now c t3 div 1000 < bud_deadline quote \<and> ready (t3 @ [EvNow]) = Inr ()
      \<and> t = t3 @ [EvNow, EvWalletChainId, EvWalletAddresses, EvWrite request]
      \<and> writes t = writes tr @ [request]
      \<and> c_write c (t3 @ [EvNow, EvWalletChainId, EvWalletAddresses]) request = Inr h)
  | Inl e \<Rightarrow> writes t = writes tr
      \<or> (\<exists>p request. t = p @ [EvWrite request] \<and> writes p = writes tr \<and> c_write c p request = Inl e)"
proof (cases r)
  case (Inl e)
  then show ?thesis using submitBuy_final[of c account token quote ready] assms
    unfolding final_write_def by fastforce
next
  case (Inr h)
  note run = assms[unfolded Inr]
  obtain curve minTokens request t1 t2 gas gasPrice t3 native where
    curve: "requireCurve c token tr = (Inr curve, t1)"
    and facts: "minOutputWithSlippage (bud_tokenAmount quote) (bud_slippageBps quote) = Inr minTokens"
      "c_simulate c (t1 @ [EvNow]) (buy_call curve account quote minTokens) = Inr request"
      "c_estimateGas c (t2 @ [EvBalance account]) (buy_call curve account quote minTokens) = Inr gas"
      "c_gasPrice c (t2 @ [EvBalance account, EvEstimateGas (buy_call curve account quote minTokens)]) = Inr gasPrice"
      "c_balance c t2 account = Inr native" "bud_maxReserveIn quote + gas * gasPrice \<le> native"
      "c_now c t3 div 1000 < bud_deadline quote" "ready (t3 @ [EvNow]) = Inr ()"
    and t2: "t2 = t1 @ [EvNow, EvSimulate (buy_call curve account quote minTokens)]"
    and t3: "t3 = t2 @ [EvBalance account, EvEstimateGas (buy_call curve account quote minTokens), EvGasPrice]"
    and signed: "signedWrite c account request (t3 @ [EvNow]) = (Inr h, t)"
    using submitBuy_Inr[OF run] by blast
  have t: "t = t3 @ [EvNow, EvWalletChainId, EvWalletAddresses, EvWrite request]"
    "c_write c (t3 @ [EvNow, EvWalletChainId, EvWalletAddresses]) request = Inr h"
    using signed by (simp_all add: signedWrite_Inr Let_def)
  have "writes t = writes tr @ [request]"
    using read_only_writes[OF requireCurve_read_only curve] by (simp add: t t2 t3)
  with Inr curve facts t t2 t3 show ?thesis unfolding Inr sum.case Let_def by blast
qed

lemma pollAllowance_Inr:
  assumes "pollAllowance c token account curve required first lastError ds tr = (Inr state, t)"
  shows "required \<le> bs_allowance state
    \<and> (\<exists>t0. readBrowserSellState c token account curve t0 = (Inr state, t))"
  using assms
proof (induction ds arbitrary: first lastError tr)
  case Nil
  then show ?case by (cases lastError) (auto simp: io_inv)
next
  case (Cons d ds)
  from Cons.prems obtain r t1 t2 where attempt: "allowanceAttempt c token account curve required t1 = (Inr r, t2)"
    and rest: "(case r of Inl e \<Rightarrow> pollAllowance c token account curve required False (Some e) ds
       | Inr (Some state) \<Rightarrow> io_return state
       | Inr None \<Rightarrow> pollAllowance c token account curve required False lastError ds) t2 = (Inr state, t)"
    by (auto simp: io_inv)
  show ?case
  proof (cases "\<exists>s. r = Inr (Some s)")
    case True
    then obtain s where s: "r = Inr (Some s)" ..
    with rest have t: "state = s" "t = t2" by (auto simp: io_inv)
    have "readBrowserSellState c token account curve t1 = (Inr s, t2) \<and> required \<le> bs_allowance s"
      using attempt s
      by (auto simp: allowanceAttempt_def io_catch_def io_bind_def io_return_def
          split: prod.splits sum.splits if_splits)
    with t show ?thesis by blast
  next
    case False
    then show ?thesis using rest Cons.IH by (cases r) (auto split: option.splits)
  qed
qed

text \<open>Each of the five attempts reads the allowance and the balance once.\<close>

definition allowance_reads :: "trace \<Rightarrow> nat" where
  "allowance_reads tr = length (filter (\<lambda>e. \<exists>a args. e = EvRead a ''allowance'' args) tr)"

lemma allowance_reads_simps [simp]:
  "allowance_reads [] = 0"
  "allowance_reads (s @ t) = allowance_reads s + allowance_reads t"
  "allowance_reads (e # t) = (if \<exists>a args. e = EvRead a ''allowance'' args then 1 else 0) + allowance_reads t"
  by (simp_all add: allowance_reads_def)

lemma allowanceAttempt_reads:
  "allowance_reads (snd (allowanceAttempt c token account curve required tr)) = Suc (allowance_reads tr)"
  by (auto simp: allowanceAttempt_def readBrowserSellState_def readInt_def io_defs
      split: prod.splits sum.splits)

lemma allowanceAttempt_returns: "\<exists>r t. allowanceAttempt c token account curve required tr = (Inr r, t)"
  by (auto simp: allowanceAttempt_def io_defs split: prod.splits sum.splits)

lemma pollAllowance_reads:
  "allowance_reads (snd (pollAllowance c token account curve required first lastError ds tr))
     \<le> allowance_reads tr + length ds"
proof (induction ds arbitrary: first lastError tr)
  case Nil
  then show ?case by (cases lastError) (auto simp: io_throw_def)
next
  case (Cons d ds)
  let ?t1 = "if first then tr else tr @ [EvDelay d]"
  obtain r t where a: "allowanceAttempt c token account curve required ?t1 = (Inr r, t)"
    using allowanceAttempt_returns by blast
  have t: "allowance_reads t = Suc (allowance_reads tr)"
    using allowanceAttempt_reads[of c token account curve required ?t1] a by auto
  have "pollAllowance c token account curve required first lastError (d # ds) tr =
     (case r of Inl e \<Rightarrow> pollAllowance c token account curve required False (Some e) ds
       | Inr (Some state) \<Rightarrow> io_return state
       | Inr None \<Rightarrow> pollAllowance c token account curve required False lastError ds) t"
    using a by (cases first) (auto simp: io_bind_def io_return_def io_note_def)
  then show ?case using t Cons.IH[of False _ t]
    by (auto simp: io_return_def split: sum.splits option.splits)
qed

text \<open>C39: waiting for an approval to appear reads the allowance at most five times, returns only the
  state of its last read and only when that shows enough allowance, and sends nothing.\<close>

theorem waitForBrowserAllowance_correct:
  assumes "waitForBrowserAllowance c token account curve required tr = (r, t)"
  shows "allowance_reads t \<le> allowance_reads tr + 5 \<and> writes t = writes tr
    \<and> (\<forall>state. r = Inr state \<longrightarrow> required \<le> bs_allowance state
         \<and> (\<exists>t0. readBrowserSellState c token account curve t0 = (Inr state, t)))"
proof -
  have "allowance_reads t \<le> allowance_reads tr + length browserAllowancePollDelays"
    using assms pollAllowance_reads unfolding waitForBrowserAllowance_def by (metis snd_conv)
  moreover have "writes t = writes tr"
    by (rule read_only_writes[OF waitForBrowserAllowance_read_only assms])
  moreover have "required \<le> bs_allowance state \<and>
      (\<exists>t0. readBrowserSellState c token account curve t0 = (Inr state, t))" if "r = Inr state" for state
    using assms that by (intro pollAllowance_Inr) (simp add: waitForBrowserAllowance_def)
  ultimately show ?thesis by (simp add: browserAllowancePollDelays_def)
qed

lemma approveForSell_Inr:
  assumes "approveForSell c account token curve quote ready tr = (Inr state, t)"
  shows "\<exists>request. writes t = writes tr @ [request]
     \<and> (\<exists>ts. c_simulate c ts (approve_call token curve account (psq_tokenAmount quote)) = Inr request)
     \<and> psq_tokenAmount quote \<le> bs_allowance state
     \<and> (\<exists>t0. readBrowserSellState c token account curve t0 = (Inr state, t))"
proof -
  let ?spec = "approve_call token curve account (psq_tokenAmount quote)"
  let ?t1 = "tr @ [EvNow, EvCallback ''onApprovalRequested'' []]"
  have "\<exists>request h t2. c_simulate c ?t1 ?spec = Inr request
      \<and> signedWrite c account request (?t1 @ [EvSimulate ?spec]) = (Inr h, t2)
      \<and> waitForBrowserAllowance c token account curve (psq_tokenAmount quote)
          (t2 @ [EvCallback ''onApprovalSubmitted'' [h], EvWaitReceipt h (Some 120000),
             EvCallback ''onApprovalConfirmed'' [h], EvNow]) = (Inr state, t)"
    using assms unfolding approveForSell_def
    by (auto simp: io_inv assertSellDeadline_def request_defs simp del: signedWrite_Inr)
  then obtain request h t2 where sim: "c_simulate c ?t1 ?spec = Inr request"
    and signed: "signedWrite c account request (?t1 @ [EvSimulate ?spec]) = (Inr h, t2)"
    and wait: "waitForBrowserAllowance c token account curve (psq_tokenAmount quote)
          (t2 @ [EvCallback ''onApprovalSubmitted'' [h], EvWaitReceipt h (Some 120000),
             EvCallback ''onApprovalConfirmed'' [h], EvNow]) = (Inr state, t)"
    by blast
  have "writes t2 = writes tr @ [request]" using signed by (auto simp: signedWrite_Inr Let_def)
  then have "writes t = writes tr @ [request]"
    using read_only_writes[OF waitForBrowserAllowance_read_only wait] by simp
  moreover have "psq_tokenAmount quote \<le> bs_allowance state \<and>
      (\<exists>t0. readBrowserSellState c token account curve t0 = (Inr state, t))"
    using wait unfolding waitForBrowserAllowance_def by (rule pollAllowance_Inr)
  ultimately show ?thesis using sim by blast
qed

lemma approveForSell_at_most: "at_most_writes 1 (approveForSell c account token curve quote ready)"
proof -
  have signed: "at_most_writes 1 (io_bind (signedWrite c account request) f)"
    if "\<And>h. read_only (f h)" for request and f :: "string \<Rightarrow> browser_sell_state io"
    using at_most_signed that by (rule at_most_bind_read_only)
  show ?thesis unfolding approveForSell_def
    by (rule at_most_read_only_bind[OF checks_read_only(2)], rule at_most_read_only_bind[OF emits_check],
        rule at_most_read_only_bind[OF emits_note], simp,
        rule at_most_read_only_bind[OF requests_read_only(5)], rule signed) (intro emits_intros; simp)
qed

lemma ensureAllowance_at_most: "at_most_writes 1 (ensureAllowance c account token curve quote ready state)"
  using approveForSell_at_most by (auto simp: ensureAllowance_def at_most_writes_def io_return_def)

lemma finishSell_Inr:
  assumes "finishSell c account curve quote ready state tr = (Inr h, t)"
  shows "\<exists>sale t1. psq_tokenAmount quote \<le> bs_allowance state \<and> psq_tokenAmount quote \<le> bs_tokenBalance state
    \<and> c_simulate c (tr @ [EvNow, EvCallback ''onSellPreparing'' []]) (sell_call curve account quote) = Inr sale
    \<and> t1 = tr @ [EvNow, EvCallback ''onSellPreparing'' [], EvSimulate (sell_call curve account quote)]
    \<and> c_now c t1 div 1000 < psq_deadline quote \<and> ready (t1 @ [EvNow]) = Inr ()
    \<and> t = t1 @ [EvNow, EvCallback ''onSellRequested'' [], EvWalletChainId, EvWalletAddresses, EvWrite sale]
    \<and> c_write c (t1 @ [EvNow, EvCallback ''onSellRequested'' [], EvWalletChainId, EvWalletAddresses]) sale = Inr h"
  using assms unfolding finishSell_def
  by (auto simp: io_inv assertSellDeadline_def request_defs not_le not_less Let_def)

text \<open>The state a sell relies on, and the trace up to there: the first read, or the one after an
  approval of exactly the quoted amount.\<close>

lemma submitSell_Inr:
  assumes "submitSell c account token quote ready tr = (Inr h, t)"
  shows "\<exists>curve t1 state0 t2 state t3. requireCurve c token tr = (Inr curve, t1)
    \<and> readBrowserSellState c token account curve (t1 @ [EvNow]) = (Inr state0, t2)
    \<and> psq_tokenAmount quote \<le> bs_tokenBalance state0
    \<and> ensureAllowance c account token curve quote ready state0 t2 = (Inr state, t3)
    \<and> finishSell c account curve quote ready state t3 = (Inr h, t)"
  using assms unfolding submitSell_def
  by (auto simp: io_inv gate_def assertSellDeadline_def dateNow_def not_less)

text \<open>C5: a sell that returns its hash wrote the sell last, and before it at most one approval: none
  when the allowance already sufficed, otherwise one for exactly the quoted amount and the resolved
  curve. The state it relied on shows enough allowance and enough tokens, and is the first read or the
  last one after the approval; the sell is the request the node returned for the quoted amount,
  minimum and deadline, and the deadline had not passed after that simulation.\<close>

theorem submitSell_correct:
  assumes "submitSell c account token quote ready tr = (Inr h, t)"
  shows "\<exists>curve t1 state0 t2 state t3 approvals sale t4.
    requireCurve c token tr = (Inr curve, t1)
    \<and> readBrowserSellState c token account curve (t1 @ [EvNow]) = (Inr state0, t2)
    \<and> (if psq_tokenAmount quote \<le> bs_allowance state0 then state = state0 \<and> t3 = t2 \<and> approvals = []
       else \<exists>a ts t0. approvals = [a]
         \<and> c_simulate c ts (approve_call token curve account (psq_tokenAmount quote)) = Inr a
         \<and> readBrowserSellState c token account curve t0 = (Inr state, t3))
    \<and> psq_tokenAmount quote \<le> bs_allowance state \<and> psq_tokenAmount quote \<le> bs_tokenBalance state
    \<and> c_simulate c (t3 @ [EvNow, EvCallback ''onSellPreparing'' []]) (sell_call curve account quote) = Inr sale
    \<and> t4 = t3 @ [EvNow, EvCallback ''onSellPreparing'' [], EvSimulate (sell_call curve account quote)]
    \<and> c_now c t4 div 1000 < psq_deadline quote \<and> ready (t4 @ [EvNow]) = Inr ()
    \<and> t = t4 @ [EvNow, EvCallback ''onSellRequested'' [], EvWalletChainId, EvWalletAddresses, EvWrite sale]
    \<and> c_write c (butlast t) sale = Inr h
    \<and> writes t = writes tr @ approvals @ [sale]"
proof -
  obtain curve t1 state0 t2 state t3 where curve: "requireCurve c token tr = (Inr curve, t1)"
    and first: "readBrowserSellState c token account curve (t1 @ [EvNow]) = (Inr state0, t2)"
    and branch: "ensureAllowance c account token curve quote ready state0 t2 = (Inr state, t3)"
    and finish: "finishSell c account curve quote ready state t3 = (Inr h, t)"
    using submitSell_Inr[OF assms] by blast
  have w2: "writes t2 = writes tr"
    using read_only_writes[OF requireCurve_read_only curve]
      read_only_writes[OF readBrowserSellState_read_only first] by simp
  have "\<exists>approvals. writes t3 = writes tr @ approvals
    \<and> (if psq_tokenAmount quote \<le> bs_allowance state0 then state = state0 \<and> t3 = t2 \<and> approvals = []
       else \<exists>a ts t0. approvals = [a]
         \<and> c_simulate c ts (approve_call token curve account (psq_tokenAmount quote)) = Inr a
         \<and> readBrowserSellState c token account curve t0 = (Inr state, t3))"
  proof (cases "psq_tokenAmount quote \<le> bs_allowance state0")
    case True
    then show ?thesis using branch w2 by (auto simp: ensureAllowance_def io_return_def)
  next
    case False
    then have "approveForSell c account token curve quote ready t2 = (Inr state, t3)"
      using branch by (simp add: ensureAllowance_def)
    from approveForSell_Inr[OF this] False show ?thesis by (auto simp: w2)
  qed
  then obtain approvals where approvals: "writes t3 = writes tr @ approvals"
    "if psq_tokenAmount quote \<le> bs_allowance state0 then state = state0 \<and> t3 = t2 \<and> approvals = []
       else \<exists>a ts t0. approvals = [a]
         \<and> c_simulate c ts (approve_call token curve account (psq_tokenAmount quote)) = Inr a
         \<and> readBrowserSellState c token account curve t0 = (Inr state, t3)" by blast
  from finishSell_Inr[OF finish] obtain sale t4 where fin:
    "psq_tokenAmount quote \<le> bs_allowance state" "psq_tokenAmount quote \<le> bs_tokenBalance state"
    "c_simulate c (t3 @ [EvNow, EvCallback ''onSellPreparing'' []]) (sell_call curve account quote) = Inr sale"
    and t4: "t4 = t3 @ [EvNow, EvCallback ''onSellPreparing'' [], EvSimulate (sell_call curve account quote)]"
    and late: "c_now c t4 div 1000 < psq_deadline quote" "ready (t4 @ [EvNow]) = Inr ()"
    and t: "t = t4 @ [EvNow, EvCallback ''onSellRequested'' [], EvWalletChainId, EvWalletAddresses, EvWrite sale]"
    and w: "c_write c (t4 @ [EvNow, EvCallback ''onSellRequested'' [], EvWalletChainId, EvWalletAddresses]) sale = Inr h"
    by blast
  have "c_write c (butlast t) sale = Inr h" using w t by (simp add: butlast_append)
  moreover have "writes t = writes tr @ approvals @ [sale]" using t t4 approvals(1) by simp
  ultimately show ?thesis using curve first approvals(2) fin t4 late t by blast
qed

text \<open>How a run that throws may have written: nothing, one transaction, or two of which the second
  is its last request and was refused.\<close>

definition throws_after_approval :: "client \<Rightarrow> 'a io \<Rightarrow> bool" where
  "throws_after_approval c m \<longleftrightarrow> (\<forall>tr e t. m tr = (Inl e, t) \<longrightarrow>
     writes t = writes tr \<or> (\<exists>a. writes t = writes tr @ [a])
     \<or> (\<exists>a sale p. writes t = writes tr @ [a, sale] \<and> t = p @ [EvWrite sale] \<and> c_write c p sale = Inl e))"

lemma throws_after_approval_bind:
  assumes "read_only m" and "\<And>a. throws_after_approval c (f a)"
  shows "throws_after_approval c (io_bind m f)"
proof (unfold throws_after_approval_def, intro allI impI, goal_cases)
  case (1 tr e t')
  obtain r t where m: "m tr = (r, t)" by (cases "m tr")
  have w: "writes t = writes tr" by (rule read_only_writes[OF assms(1) m])
  show ?case
  proof (cases r)
    case (Inl e')
    then show ?thesis using 1 m w by (simp add: io_bind_def)
  next
    case (Inr a)
    then have "f a t = (Inl e, t')" using 1 m by (simp add: io_bind_def)
    from assms(2)[of a, unfolded throws_after_approval_def, rule_format, OF this]
    show ?thesis unfolding w .
  qed
qed

lemma throws_after_approval_sell:
  "throws_after_approval c (io_bind (ensureAllowance c account token curve quote ready state)
     (\<lambda>state. finishSell c account curve quote ready state))"
proof (unfold throws_after_approval_def, intro allI impI, goal_cases)
  case (1 tr e u)
  obtain r v where v: "ensureAllowance c account token curve quote ready state tr = (r, v)"
    by (cases "ensureAllowance c account token curve quote ready state tr")
  obtain ws where ws: "writes v = writes tr @ ws" "length ws \<le> 1"
    using ensureAllowance_at_most v unfolding at_most_writes_def by (metis snd_conv)
  then have ws': "ws = [] \<or> (\<exists>a. ws = [a])" by (cases ws) auto
  show ?case
  proof (cases r)
    case (Inl e')
    then show ?thesis using 1 v ws ws' by (auto simp: io_bind_def)
  next
    case (Inr x)
    then have "finishSell c account curve quote ready x v = (Inl e, u)" using 1 v by (simp add: io_bind_def)
    then have "writes u = writes v \<or> (\<exists>p sale. u = p @ [EvWrite sale] \<and> writes p = writes v \<and> c_write c p sale = Inl e)"
      using finishSell_final unfolding final_write_def by fastforce
    then show ?thesis using ws ws' by auto
  qed
qed

text \<open>A sell that throws has sent nothing, or a single transaction, or an approval and the sell
  itself, the latter only as its last request and only when the wallet refused it.\<close>

theorem submitSell_throws:
  assumes "submitSell c account token quote ready tr = (Inl e, t)"
  shows "writes t = writes tr \<or> (\<exists>a. writes t = writes tr @ [a])
    \<or> (\<exists>a sale p. writes t = writes tr @ [a, sale] \<and> t = p @ [EvWrite sale] \<and> c_write c p sale = Inl e)"
proof -
  have "throws_after_approval c (submitSell c account token quote ready)"
    unfolding submitSell_def
    by (rule throws_after_approval_bind[OF gate_read_only],
        rule throws_after_approval_bind[OF requireCurve_read_only],
        rule throws_after_approval_bind[OF checks_read_only(2)],
        rule throws_after_approval_bind[OF emits_check],
        rule throws_after_approval_bind[OF readBrowserSellState_read_only],
        rule throws_after_approval_bind[OF emits_throw_if], rule throws_after_approval_sell)
  with assms show ?thesis unfolding throws_after_approval_def by blast
qed

subsection \<open>The properties on concrete runs\<close>

definition demo_buy :: budget_quote where
  "demo_buy = \<lparr>bud_quote = \<lparr>byq_reserveIn = 10, byq_curveCost = 9, byq_protocolFee = 1, byq_creatorFee = 0,
       byq_acceptedGross = None, byq_netCurveInput = None, byq_tokensOut = Some 40\<rparr>,
     bud_tokenAmount = 40, bud_maxReserveIn = 10, bud_slippageBps = Fin 100, bud_deadline = 1300\<rparr>"

definition demo_sell :: protected_sell_quote where
  "demo_sell = \<lparr>psq_quote = \<lparr>slq_reserveOut = 9, slq_curveValue = 10, slq_protocolFee = 1, slq_creatorFee = 0,
       slq_netSellerOutput = None\<rparr>,
     psq_tokenAmount = 40, psq_minReserveOut = 8, psq_slippageBps = Fin 100, psq_deadline = 1300\<rparr>"

definition demo_ready :: "trace \<Rightarrow> unit result" where
  "demo_ready tr = Inr ()"

lemma demo_minimum: "minOutputWithSlippage 40 (Fin 100) = Inr 39"
proof -
  have "valid_bps 0 5000 (Fin 100)" by code_simp
  moreover have "int_of_num (Fin 100) = 100" by simp
  ultimately show ?thesis by (simp add: minOutput_eq)
qed

definition demo_buy_trace :: trace where
  "demo_buy_trace =
     (let spec = buy_call ''0xc'' ''0xa'' demo_buy 39 in
      [EvRead ''0xf'' ''curveOf'' [AText ''0xt''], EvNow, EvSimulate spec, EvBalance ''0xa'',
       EvEstimateGas spec, EvGasPrice, EvNow, EvWalletChainId, EvWalletAddresses, EvWrite spec])"

lemma demo_buy_run: "submitBuy demo ''0xa'' ''0xt'' demo_buy demo_ready [] = (Inr ''0xh'', demo_buy_trace)"
proof -
  have fields: "c_now demo = (\<lambda>tr. 1000000)" "c_simulate demo = (\<lambda>tr spec. Inr spec)"
    "c_balance demo = (\<lambda>tr a. Inr 100)" "c_estimateGas demo = (\<lambda>tr spec. Inr 2)"
    "c_gasPrice demo = (\<lambda>tr. Inr 3)"
    by (simp_all add: demo_def)
  show ?thesis
    by (simp add: submitBuy_def demo_buy_def demo_ready_def io_defs assertBuyQuoteFresh_def request_defs
      demo_minimum fields demo_buy_trace_def Let_def)
qed

definition demo_sell_trace :: trace where
  "demo_sell_trace =
     (let approve = approve_call ''0xt'' ''0xc'' ''0xa'' 40; spec = sell_call ''0xc'' ''0xa'' demo_sell;
          reads = [EvRead ''0xt'' ''allowance'' [AText ''0xa'', AText ''0xc''],
                   EvRead ''0xt'' ''balanceOf'' [AText ''0xa'']] in
      [EvRead ''0xf'' ''curveOf'' [AText ''0xt''], EvNow] @ reads @
      [EvNow, EvCallback ''onApprovalRequested'' [], EvSimulate approve, EvWalletChainId, EvWalletAddresses,
       EvWrite approve, EvCallback ''onApprovalSubmitted'' [''0xh''], EvWaitReceipt ''0xh'' (Some 120000),
       EvCallback ''onApprovalConfirmed'' [''0xh''], EvNow] @ reads @
      [EvNow, EvCallback ''onSellPreparing'' [], EvSimulate spec, EvNow, EvCallback ''onSellRequested'' [],
       EvWalletChainId, EvWalletAddresses, EvWrite spec])"

lemma demo_sell_run: "submitSell demo ''0xa'' ''0xt'' demo_sell demo_ready [] = (Inr ''0xh'', demo_sell_trace)"
proof -
  have fields: "c_now demo = (\<lambda>tr. 1000000)" "c_simulate demo = (\<lambda>tr spec. Inr spec)"
    "c_readInt demo = (\<lambda>tr a f args. Inr (if f = ''allowance'' \<and> writes tr = [] then 0 else 50))"
    "c_waitReceipt demo = (\<lambda>tr h. (None, Inr demo_receipt))"
    by (simp_all add: demo_def)
  have state: "readBrowserSellState demo ''0xt'' ''0xa'' ''0xc'' tr
    = (Inr \<lparr>bs_allowance = if writes tr = [] then 0 else 50, bs_tokenBalance = 50\<rparr>,
       tr @ [EvRead ''0xt'' ''allowance'' [AText ''0xa'', AText ''0xc''], EvRead ''0xt'' ''balanceOf'' [AText ''0xa'']])" for tr
    by (simp add: readBrowserSellState_def io_defs request_defs fields)
  have wait: "waitForBrowserAllowance demo ''0xt'' ''0xa'' ''0xc'' 40 tr
    = (Inr \<lparr>bs_allowance = 50, bs_tokenBalance = 50\<rparr>,
       tr @ [EvRead ''0xt'' ''allowance'' [AText ''0xa'', AText ''0xc''], EvRead ''0xt'' ''balanceOf'' [AText ''0xa'']])"
    if "writes tr \<noteq> []" for tr
    using that by (simp add: waitForBrowserAllowance_def browserAllowancePollDelays_def allowanceAttempt_def
      state io_defs)
  have status: "rc_status demo_receipt = ''success''" by (simp add: demo_receipt_def)
  have deadline: "assertSellDeadline demo demo_sell tr = (Inr (), tr @ [EvNow])" for tr
    by (simp add: assertSellDeadline_def io_defs request_defs fields demo_sell_def)
  have amount: "psq_tokenAmount demo_sell = 40" by (simp add: demo_sell_def)
  have approve: "approveForSell demo ''0xa'' ''0xt'' ''0xc'' demo_sell demo_ready tr
    = (Inr \<lparr>bs_allowance = 50, bs_tokenBalance = 50\<rparr>, tr @
      [EvNow, EvCallback ''onApprovalRequested'' [], EvSimulate (approve_call ''0xt'' ''0xc'' ''0xa'' 40),
       EvWalletChainId, EvWalletAddresses, EvWrite (approve_call ''0xt'' ''0xc'' ''0xa'' 40),
       EvCallback ''onApprovalSubmitted'' [''0xh''], EvWaitReceipt ''0xh'' (Some 120000),
       EvCallback ''onApprovalConfirmed'' [''0xh''], EvNow,
       EvRead ''0xt'' ''allowance'' [AText ''0xa'', AText ''0xc''], EvRead ''0xt'' ''balanceOf'' [AText ''0xa'']])" for tr
    by (simp add: approveForSell_def io_bind_def io_check_def io_note_def io_throw_if_def io_result_def
      demo_ready_def deadline amount wait status simulateContract_def waitForTransactionReceipt_def io_call_def fields)
  show ?thesis
    by (simp add: submitSell_def ensureAllowance_def finishSell_def io_bind_def io_check_def io_note_def
      io_throw_if_def io_result_def simulateContract_def io_call_def demo_ready_def
      deadline state amount approve demo_sell_trace_def fields Let_def)
qed

theorem writes_follow_signer_check_witness:
  "signer_verified demo ''0xa'' (butlast demo_buy_trace) (buy_call ''0xc'' ''0xa'' demo_buy 39)"
proof -
  have "demo_buy_trace = [] @ butlast demo_buy_trace @ EvWrite (buy_call ''0xc'' ''0xa'' demo_buy 39) # []"
    by (simp add: demo_buy_trace_def Let_def)
  then show ?thesis
    using writes_follow_signer_check[OF disjI1[OF refl], where tr = "[]" and q = "[]"] demo_buy_run
    by (metis append_Nil)
qed

theorem closed_gate_does_nothing_witness:
  "submitBuy (demo\<lparr>c_env := \<lambda>_. None\<rparr>) ''0xa'' ''0xt'' demo_buy demo_ready []
     = (Inl (Err ARC_PROTOCOL_ECONOMICS_BLOCKER), [])"
proof -
  have "assertArcProtocolEconomicsReady (c_env (demo\<lparr>c_env := \<lambda>_. None\<rparr>)) (c_chain (demo\<lparr>c_env := \<lambda>_. None\<rparr>))
      = Inl (Err ARC_PROTOCOL_ECONOMICS_BLOCKER)"
    by (simp add: demo_def assertArcProtocolEconomicsReady_def isArcTestnetFinancialExecutionEnabled_def
      explicitTrue_def)
  from closed_gate_does_nothing[OF this] show ?thesis by simp
qed

theorem wrong_chain_receives_nothing_witness:
  "writes (snd (submitBuy (demo\<lparr>c_walletChainId := \<lambda>tr. Inr 1\<rparr>) ''0xa'' ''0xt'' demo_buy demo_ready [])) = []"
proof -
  let ?c = "demo\<lparr>c_walletChainId := \<lambda>tr. Inr 1\<rparr>"
  have "c_walletChainId ?c t0 \<noteq> Inr (selectedCooketChainId (c_chain ?c))" for t0
    by (simp add: demo_def sample_module_def sample_chain_def selectedCooketChainId_def)
  from wrong_chain_receives_nothing[of ?c, OF this] show ?thesis by (metis writes_simps(1))
qed

theorem submitBuy_correct_witness: "\<exists>request. writes demo_buy_trace = [request]"
  using submitBuy_correct[OF demo_buy_run] by (auto simp: Let_def)

theorem waitForBrowserAllowance_correct_witness:
  "allowance_reads (snd (waitForBrowserAllowance demo ''0xt'' ''0xa'' ''0xc'' 40 [])) \<le> 5"
  using waitForBrowserAllowance_correct[of demo "''0xt''" "''0xa''" "''0xc''" 40 "[]"]
  by (metis add.left_neutral allowance_reads_simps(1) prod.collapse)

theorem submitSell_correct_witness:
  "\<exists>approvals sale. writes demo_sell_trace = approvals @ [sale]"
  using submitSell_correct[OF demo_sell_run] by auto

theorem submitSell_throws_witness:
  "writes (snd (submitSell demo ''0xa'' ''0xt'' demo_sell (\<lambda>tr. Inl (Err ''stop'')) [])) = []"
proof -
  have "c_now demo = (\<lambda>tr. 1000000)" by (simp add: demo_def)
  then have run: "submitSell demo ''0xa'' ''0xt'' demo_sell (\<lambda>tr. Inl (Err ''stop'')) []
      = (Inl (Err ''stop''), [EvRead ''0xf'' ''curveOf'' [AText ''0xt''], EvNow])"
    by (simp add: submitSell_def io_bind_def assertSellDeadline_def io_check_def io_throw_if_def
      io_result_def dateNow_def io_call_def demo_sell_def)
  from submitSell_throws[OF run] show ?thesis by (simp add: run)
qed

end
