(* ===== verification/PendingTrades.thy ===== *)
theory PendingTrades
  imports SdkReceipts
begin

text \<open>
  The record of a trade whose confirmation is still open, and its place in the browser's
  \<^verbatim>\<open>localStorage\<close> (\<^verbatim>\<open>lib/transactions.ts\<close>). The storage maps keys to texts; a text is
  here what \<^verbatim>\<open>JSON.parse\<close> makes of it. \<^verbatim>\<open>None\<close> as the storage is code running without a
  browser window.
\<close>

subsection \<open>Trades and their recovery data\<close>

record trade_recovery =
  rec_sender :: string
  rec_nonce :: int
  rec_to :: "string option"
  rec_value :: string
  rec_input :: string
  rec_nextScanBlock :: string

datatype pending_status = PSubmitted | PConfirming | PConfirmationUnknown

record pending_trade =
  pt_walletAddress :: string
  pt_tokenAddress :: string
  pt_side :: trade_side
  pt_hash :: "string option"
  pt_status :: pending_status
  pt_submittedAt :: jsnum
  pt_recovery :: "trade_recovery option"

fun side_text :: "trade_side \<Rightarrow> string" where
  "side_text Buy = ''buy''"
| "side_text Sell = ''sell''"

fun status_text :: "pending_status \<Rightarrow> string" where
  "status_text PSubmitted = ''submitted''"
| "status_text PConfirming = ''confirming''"
| "status_text PConfirmationUnknown = ''confirmation_unknown''"

definition side_of_text :: "string \<Rightarrow> trade_side" where
  "side_of_text s = (if s = ''buy'' then Buy else Sell)"

definition status_of_text :: "string \<Rightarrow> pending_status" where
  "status_of_text s =
     (if s = ''submitted'' then PSubmitted else if s = ''confirming'' then PConfirming
      else PConfirmationUnknown)"

lemma texts_back [simp]:
  "side_of_text (side_text d) = d" "status_of_text (status_text x) = x"
  by (cases d; simp add: side_of_text_def) (cases x; simp add: status_of_text_def)

subsection \<open>The guards of parsed values\<close>

text \<open>\<^verbatim>\<open>typeof v === 'string' && p(v)\<close> and the optional variant.\<close>

definition text_with :: "(string \<Rightarrow> bool) \<Rightarrow> json option \<Rightarrow> bool" where
  "text_with p v = (case v of Some (JStr s) \<Rightarrow> p s | _ \<Rightarrow> False)"

definition absent_or :: "(json option \<Rightarrow> bool) \<Rightarrow> json option \<Rightarrow> bool" where
  "absent_or p v \<longleftrightarrow> v = None \<or> p v"

definition safe_nonnegative :: "json option \<Rightarrow> bool" where
  "safe_nonnegative v = (case v of Some (JNum n) \<Rightarrow> is_safe_integer n \<and> 0 \<le> int_of_num n | _ \<Rightarrow> False)"

definition isTradeRecovery :: "json \<Rightarrow> bool" where
  "isTradeRecovery v \<longleftrightarrow> is_object v
     \<and> text_with address_pattern (json_field v ''sender'')
     \<and> safe_nonnegative (json_field v ''nonce'')
     \<and> absent_or (text_with address_pattern) (json_field v ''to'')
     \<and> text_with all_digits (json_field v ''value'')
     \<and> text_with hex_data (json_field v ''input'')
     \<and> text_with all_digits (json_field v ''nextScanBlock'')"

definition isPendingTrade :: "json \<Rightarrow> bool" where
  "isPendingTrade v \<longleftrightarrow> is_object v
     \<and> json_field v ''version'' = Some (JNum (Fin 1))
     \<and> text_with (\<lambda>s. s = ''buy'' \<or> s = ''sell'') (json_field v ''side'')
     \<and> text_with (\<lambda>s. s = ''submitted'' \<or> s = ''confirming'' \<or> s = ''confirmation_unknown'') (json_field v ''status'')
     \<and> text_with address_pattern (json_field v ''walletAddress'')
     \<and> text_with address_pattern (json_field v ''tokenAddress'')
     \<and> absent_or (text_with hash_pattern) (json_field v ''hash'')
     \<and> (case json_field v ''submittedAt'' of Some (JNum n) \<Rightarrow> positive_finite n | _ \<Rightarrow> False)
     \<and> (case json_field v ''recovery'' of None \<Rightarrow> True | Some r \<Rightarrow> isTradeRecovery r)"

text \<open>The typed view of a value that passed its guard.\<close>

definition text_at :: "json \<Rightarrow> string \<Rightarrow> string" where
  "text_at v k = (case json_field v k of Some (JStr s) \<Rightarrow> s | _ \<Rightarrow> '''')"

definition optional_text_at :: "json \<Rightarrow> string \<Rightarrow> string option" where
  "optional_text_at v k = (case json_field v k of Some (JStr s) \<Rightarrow> Some s | _ \<Rightarrow> None)"

definition num_at :: "json \<Rightarrow> string \<Rightarrow> jsnum" where
  "num_at v k = (case json_field v k of Some (JNum n) \<Rightarrow> n | _ \<Rightarrow> NaN)"

definition recovery_of_json :: "json \<Rightarrow> trade_recovery" where
  "recovery_of_json v =
     \<lparr>rec_sender = text_at v ''sender'', rec_nonce = int_of_num (num_at v ''nonce''),
      rec_to = optional_text_at v ''to'', rec_value = text_at v ''value'',
      rec_input = text_at v ''input'', rec_nextScanBlock = text_at v ''nextScanBlock''\<rparr>"

definition trade_of_json :: "json \<Rightarrow> pending_trade" where
  "trade_of_json v =
     \<lparr>pt_walletAddress = text_at v ''walletAddress'', pt_tokenAddress = text_at v ''tokenAddress'',
      pt_side = side_of_text (text_at v ''side''), pt_hash = optional_text_at v ''hash'',
      pt_status = status_of_text (text_at v ''status''), pt_submittedAt = num_at v ''submittedAt'',
      pt_recovery = map_option recovery_of_json (json_field v ''recovery'')\<rparr>"

text \<open>What \<^verbatim>\<open>JSON.stringify\<close> writes, as the value that parses back from it: an \<^verbatim>\<open>undefined\<close>
  property is left out.\<close>

definition optional_field :: "string \<Rightarrow> json option \<Rightarrow> (string \<times> json) list" where
  "optional_field k v = (case v of None \<Rightarrow> [] | Some j \<Rightarrow> [(k, j)])"

definition json_of_recovery :: "trade_recovery \<Rightarrow> json" where
  "json_of_recovery r = JObj
     ([(''sender'', JStr (rec_sender r)), (''nonce'', JNum (num_of (rec_nonce r)))]
      @ optional_field ''to'' (map_option JStr (rec_to r))
      @ [(''value'', JStr (rec_value r)), (''input'', JStr (rec_input r)),
         (''nextScanBlock'', JStr (rec_nextScanBlock r))])"

definition json_of_trade :: "pending_trade \<Rightarrow> json" where
  "json_of_trade t = JObj
     ([(''version'', JNum (Fin 1)), (''walletAddress'', JStr (pt_walletAddress t)),
       (''tokenAddress'', JStr (pt_tokenAddress t)), (''side'', JStr (side_text (pt_side t)))]
      @ optional_field ''hash'' (map_option JStr (pt_hash t))
      @ [(''status'', JStr (status_text (pt_status t))), (''submittedAt'', JNum (pt_submittedAt t))]
      @ optional_field ''recovery'' (map_option json_of_recovery (pt_recovery t)))"

subsection \<open>The storage\<close>

datatype stored_text = EmptyText | NotJson | Parses json

type_synonym storage = "(string \<Rightarrow> stored_text option) option"

definition pendingTradeKey :: "string \<Rightarrow> string \<Rightarrow> string" where
  "pendingTradeKey token wallet = ''cooket:pending-trade:v1:'' @ js_lower wallet @ '':'' @ js_lower token"

definition persistPendingTrade :: "pending_trade \<Rightarrow> storage \<Rightarrow> storage" where
  "persistPendingTrade trade s =
     map_option (\<lambda>m. m(pendingTradeKey (pt_tokenAddress trade) (pt_walletAddress trade) \<mapsto> Parses (json_of_trade trade))) s"

definition clearPendingTrade :: "string \<Rightarrow> string \<Rightarrow> storage \<Rightarrow> storage" where
  "clearPendingTrade token wallet s = map_option (\<lambda>m. m(pendingTradeKey token wallet := None)) s"

definition readPendingTrade :: "string \<Rightarrow> string \<Rightarrow> storage \<Rightarrow> pending_trade option \<times> storage" where
  "readPendingTrade token wallet s =
     (case s of
        None \<Rightarrow> (None, s)
      | Some m \<Rightarrow>
          (case m (pendingTradeKey token wallet) of
             None \<Rightarrow> (None, s)
           | Some EmptyText \<Rightarrow> (None, s)
           | Some NotJson \<Rightarrow> (None, clearPendingTrade token wallet s)
           | Some (Parses v) \<Rightarrow>
               if isPendingTrade v \<and> same_address (text_at v ''tokenAddress'') token
                   \<and> same_address (text_at v ''walletAddress'') wallet
               then (Some (trade_of_json v), s)
               else (None, clearPendingTrade token wallet s)))"

definition canCreateToken :: "chain_module \<Rightarrow> int option \<Rightarrow> bool \<Rightarrow> bool \<Rightarrow> bool" where
  "canCreateToken m chainId walletConnected pending \<longleftrightarrow>
     isSelectedCooketChain m chainId \<and> walletConnected \<and> \<not> pending"

subsection \<open>Well-formed trades\<close>

fun if_some :: "('a \<Rightarrow> bool) \<Rightarrow> 'a option \<Rightarrow> bool" where
  "if_some p None = True"
| "if_some p (Some a) = p a"

definition good_recovery :: "trade_recovery \<Rightarrow> bool" where
  "good_recovery r \<longleftrightarrow> address_pattern (rec_sender r) \<and> 0 \<le> rec_nonce r \<and> rec_nonce r \<le> max_safe
     \<and> if_some address_pattern (rec_to r) \<and> all_digits (rec_value r) \<and> hex_data (rec_input r)
     \<and> all_digits (rec_nextScanBlock r)"

definition good_trade :: "pending_trade \<Rightarrow> bool" where
  "good_trade t \<longleftrightarrow> address_pattern (pt_walletAddress t) \<and> address_pattern (pt_tokenAddress t)
     \<and> if_some hash_pattern (pt_hash t) \<and> positive_finite (pt_submittedAt t)
     \<and> if_some good_recovery (pt_recovery t)"

lemma recovery_json_guard: "good_recovery r \<Longrightarrow> isTradeRecovery (json_of_recovery r)"
  by (cases "rec_to r")
     (auto simp: good_recovery_def isTradeRecovery_def json_of_recovery_def optional_field_def text_with_def
      absent_or_def safe_nonnegative_def max_safe_def)

lemma recovery_json_back: "recovery_of_json (json_of_recovery r) = r"
  by (cases "rec_to r")
     (simp_all add: recovery_of_json_def json_of_recovery_def optional_field_def text_at_def
      optional_text_at_def num_at_def)

lemma json_of_recovery_object: "\<exists>fs. json_of_recovery r = JObj fs"
  by (simp add: json_of_recovery_def)

lemma trade_json_fields:
  "json_field (json_of_trade t) ''version'' = Some (JNum (Fin 1))"
  "json_field (json_of_trade t) ''walletAddress'' = Some (JStr (pt_walletAddress t))"
  "json_field (json_of_trade t) ''tokenAddress'' = Some (JStr (pt_tokenAddress t))"
  "json_field (json_of_trade t) ''side'' = Some (JStr (side_text (pt_side t)))"
  "json_field (json_of_trade t) ''hash'' = map_option JStr (pt_hash t)"
  "json_field (json_of_trade t) ''status'' = Some (JStr (status_text (pt_status t)))"
  "json_field (json_of_trade t) ''submittedAt'' = Some (JNum (pt_submittedAt t))"
  "json_field (json_of_trade t) ''recovery'' = map_option json_of_recovery (pt_recovery t)"
  "is_object (json_of_trade t)"
  by (cases "pt_hash t"; cases "pt_recovery t"; simp add: json_of_trade_def optional_field_def)+

lemma trade_json_guard: "good_trade t \<Longrightarrow> isPendingTrade (json_of_trade t)"
  by (cases "pt_hash t"; cases "pt_recovery t"; cases "pt_side t"; cases "pt_status t")
     (auto simp: good_trade_def isPendingTrade_def trade_json_fields text_with_def absent_or_def
      recovery_json_guard)

lemma trade_json_back: "trade_of_json (json_of_trade t) = t"
  by (cases "pt_hash t"; cases "pt_recovery t")
     (simp_all add: trade_of_json_def trade_json_fields text_at_def optional_text_at_def num_at_def
      recovery_json_back)

subsection \<open>Keys\<close>

lemma address_pattern_length: "address_pattern a \<Longrightarrow> length a = 42"
  by (simp add: address_pattern_def hex_pattern_def)

lemma pendingTradeKey_eq:
  assumes "length wallet = length wallet'"
  shows "pendingTradeKey token wallet = pendingTradeKey token' wallet'
    \<longleftrightarrow> same_address token token' \<and> same_address wallet wallet'"
  using assms by (auto simp: pendingTradeKey_def same_address_def)

subsection \<open>A store of values under keys that name the same thing\<close>

text \<open>What the trade panel relies on, for any number of operations in a row.\<close>

datatype ('k, 'v) store_op = OpPersist 'v | OpClear 'k | OpFetch 'k

fun last_effect :: "('v \<Rightarrow> 'k) \<Rightarrow> ('k \<Rightarrow> 'k \<Rightarrow> bool) \<Rightarrow> 'k \<Rightarrow> 'v option \<Rightarrow> ('k, 'v) store_op list \<Rightarrow> 'v option" where
  "last_effect keyof same k v [] = v"
| "last_effect keyof same k v (OpPersist w # ops) =
     last_effect keyof same k (if same k (keyof w) then Some w else v) ops"
| "last_effect keyof same k v (OpClear k' # ops) =
     last_effect keyof same k (if same k k' then None else v) ops"
| "last_effect keyof same k v (OpFetch k' # ops) = last_effect keyof same k v ops"

fun store_step :: "('v \<Rightarrow> 's \<Rightarrow> 's) \<Rightarrow> ('k \<Rightarrow> 's \<Rightarrow> 's) \<Rightarrow> ('k \<Rightarrow> 's \<Rightarrow> 'v option \<times> 's) \<Rightarrow> ('k, 'v) store_op \<Rightarrow> 's \<Rightarrow> 's" where
  "store_step persist clear fetch (OpPersist v) s = persist v s"
| "store_step persist clear fetch (OpClear k) s = clear k s"
| "store_step persist clear fetch (OpFetch k) s = snd (fetch k s)"

fun op_ok :: "('v \<Rightarrow> bool) \<Rightarrow> ('k \<Rightarrow> bool) \<Rightarrow> ('k, 'v) store_op \<Rightarrow> bool" where
  "op_ok ok key_ok (OpPersist v) = ok v"
| "op_ok ok key_ok (OpClear k) = key_ok k"
| "op_ok ok key_ok (OpFetch k) = key_ok k"

locale trade_store =
  fixes persist :: "'v \<Rightarrow> 's \<Rightarrow> 's" and clear :: "'k \<Rightarrow> 's \<Rightarrow> 's" and fetch :: "'k \<Rightarrow> 's \<Rightarrow> 'v option \<times> 's"
    and keyof :: "'v \<Rightarrow> 'k" and same :: "'k \<Rightarrow> 'k \<Rightarrow> bool"
    and ok :: "'v \<Rightarrow> bool" and key_ok :: "'k \<Rightarrow> bool" and live :: "'s \<Rightarrow> bool"
  assumes fetch_persist: "live s \<Longrightarrow> ok v \<Longrightarrow> key_ok k \<Longrightarrow>
      fst (fetch k (persist v s)) = (if same k (keyof v) then Some v else fst (fetch k s))"
    and fetch_clear: "live s \<Longrightarrow> key_ok k \<Longrightarrow> key_ok k' \<Longrightarrow>
      fst (fetch k (clear k' s)) = (if same k k' then None else fst (fetch k s))"
    and fetch_fetch: "live s \<Longrightarrow> key_ok k \<Longrightarrow> key_ok k' \<Longrightarrow> fst (fetch k (snd (fetch k' s))) = fst (fetch k s)"
    and live_step: "live s \<Longrightarrow> live (persist v s) \<and> live (clear k s) \<and> live (snd (fetch k s))"
begin

lemma fetch_history:
  assumes "live s" and "key_ok k" and "list_all (op_ok ok key_ok) ops"
  shows "fst (fetch k (fold (store_step persist clear fetch) ops s))
    = last_effect keyof same k (fst (fetch k s)) ops"
  using assms(1,3)
proof (induction ops arbitrary: s)
  case (Cons op ops)
  then show ?case using assms(2) live_step[OF Cons.prems(1)]
    by (cases op) (simp_all add: fetch_persist fetch_clear fetch_fetch)
qed simp

end

type_synonym trade_key = "string \<times> string"

definition trade_key :: "pending_trade \<Rightarrow> trade_key" where
  "trade_key t = (pt_tokenAddress t, pt_walletAddress t)"

fun same_key :: "trade_key \<Rightarrow> trade_key \<Rightarrow> bool" where
  "same_key (t, w) (t', w') \<longleftrightarrow> same_address t t' \<and> same_address w w'"

fun good_key :: "trade_key \<Rightarrow> bool" where
  "good_key (t, w) \<longleftrightarrow> address_pattern t \<and> address_pattern w"

definition clear_key :: "trade_key \<Rightarrow> storage \<Rightarrow> storage" where
  "clear_key k s = clearPendingTrade (fst k) (snd k) s"

definition read_key :: "trade_key \<Rightarrow> storage \<Rightarrow> pending_trade option \<times> storage" where
  "read_key k s = readPendingTrade (fst k) (snd k) s"

lemma key_eq:
  "good_key (t, w) \<Longrightarrow> good_key (t', w') \<Longrightarrow>
     pendingTradeKey t w = pendingTradeKey t' w' \<longleftrightarrow> same_key (t, w) (t', w')"
  using pendingTradeKey_eq[of w w' t t'] by (simp add: address_pattern_length)

text \<open>What a read returns only depends on the text under its own key.\<close>

definition trade_under :: "string \<Rightarrow> string \<Rightarrow> stored_text option \<Rightarrow> pending_trade option" where
  "trade_under token wallet x =
     (case x of Some (Parses v) \<Rightarrow>
        if isPendingTrade v \<and> same_address (text_at v ''tokenAddress'') token
            \<and> same_address (text_at v ''walletAddress'') wallet then Some (trade_of_json v) else None
      | _ \<Rightarrow> None)"

lemma fst_readPendingTrade:
  "fst (readPendingTrade token wallet (Some m)) = trade_under token wallet (m (pendingTradeKey token wallet))"
  by (auto simp: readPendingTrade_def trade_under_def split: option.splits stored_text.splits)

lemma snd_readPendingTrade:
  "snd (readPendingTrade token wallet (Some m)) =
     Some (if trade_under token wallet (m (pendingTradeKey token wallet)) = None
           \<and> m (pendingTradeKey token wallet) \<notin> {None, Some EmptyText}
           then m(pendingTradeKey token wallet := None) else m)"
  by (auto simp: readPendingTrade_def trade_under_def clearPendingTrade_def
      split: option.splits stored_text.splits)

lemma trade_under_persisted:
  assumes "good_trade t" and "same_key (token, wallet) (trade_key t)"
  shows "trade_under token wallet (Some (Parses (json_of_trade t))) = Some t"
  using assms trade_json_guard[OF assms(1)] trade_json_back[of t]
  by (auto simp: trade_under_def trade_key_def text_at_def trade_json_fields same_address_def)

lemma read_persist:
  assumes "good_trade t" and "good_key (token, wallet)"
  shows "fst (readPendingTrade token wallet (persistPendingTrade t (Some m))) =
    (if same_key (token, wallet) (trade_key t) then Some t else fst (readPendingTrade token wallet (Some m)))"
proof -
  have "good_key (trade_key t)" using assms(1) by (simp add: good_trade_def trade_key_def)
  then have "pendingTradeKey token wallet = pendingTradeKey (pt_tokenAddress t) (pt_walletAddress t)
      \<longleftrightarrow> same_key (token, wallet) (trade_key t)"
    using key_eq[OF assms(2)] by (simp add: trade_key_def)
  then show ?thesis using trade_under_persisted[OF assms(1)]
    by (simp add: persistPendingTrade_def fst_readPendingTrade)
qed

interpretation pending_store: trade_store persistPendingTrade clear_key read_key trade_key same_key
  good_trade good_key "\<lambda>s. s \<noteq> None"
proof (unfold_locales, goal_cases)
  case (1 s v k)
  then show ?case using read_persist[of v "fst k" "snd k"] by (auto simp: read_key_def)
next
  case (2 s k k')
  then obtain m where m: "s = Some m" by blast
  have "pendingTradeKey (fst k) (snd k) = pendingTradeKey (fst k') (snd k') \<longleftrightarrow> same_key k k'"
    using 2 key_eq[of "fst k" "snd k" "fst k'" "snd k'"] by simp
  then show ?case
    by (simp add: m read_key_def clear_key_def clearPendingTrade_def fst_readPendingTrade trade_under_def)
next
  case (3 s k k')
  then obtain m where m: "s = Some m" by blast
  show ?case
  proof (cases "pendingTradeKey (fst k) (snd k) = pendingTradeKey (fst k') (snd k')")
    case True
    then have "same_key k k'" using 3 key_eq[of "fst k" "snd k" "fst k'" "snd k'"] by simp
    then have "trade_under (fst k) (snd k) = trade_under (fst k') (snd k')"
      by (cases k; cases k')
         (auto simp: trade_under_def same_address_def fun_eq_iff split: option.split stored_text.split)
    then show ?thesis using True
      by (auto simp: m read_key_def snd_readPendingTrade fst_readPendingTrade trade_under_def)
  next
    case False
    then show ?thesis by (auto simp: m read_key_def snd_readPendingTrade fst_readPendingTrade)
  qed
next
  case (4 s v k)
  then obtain m where "s = Some m" by blast
  then show ?case by (simp add: persistPendingTrade_def clear_key_def clearPendingTrade_def read_key_def
      snd_readPendingTrade)
qed

lemma text_with_iff: "text_with p v \<longleftrightarrow> (\<exists>s. v = Some (JStr s) \<and> p s)"
  by (auto simp: text_with_def split: option.splits json.splits)

lemma safe_nonnegative_iff:
  "safe_nonnegative v \<longleftrightarrow> (\<exists>i. v = Some (JNum (num_of i)) \<and> 0 \<le> i \<and> i \<le> max_safe)"
  by (auto simp: safe_nonnegative_def is_safe_integer_iff split: option.splits json.splits)

lemma positive_time_iff:
  "(case v of Some (JNum n) \<Rightarrow> positive_finite n | _ \<Rightarrow> False) \<longleftrightarrow> (\<exists>n. v = Some (JNum n) \<and> positive_finite n)"
  by (auto split: option.splits json.splits)

lemma recovery_guard_good:
  assumes "isTradeRecovery v"
  shows "good_recovery (recovery_of_json v)"
  using assms unfolding isTradeRecovery_def text_with_iff safe_nonnegative_iff absent_or_def
  by (elim conjE exE disjE)
     (simp_all add: good_recovery_def recovery_of_json_def text_at_def optional_text_at_def num_at_def)

lemma trade_guard_good:
  assumes "isPendingTrade v"
  shows "good_trade (trade_of_json v)"
proof (cases "json_field v ''recovery''")
  case None
  then show ?thesis
    using assms unfolding isPendingTrade_def text_with_iff positive_time_iff absent_or_def
    by (elim conjE exE disjE)
       (simp_all add: good_trade_def trade_of_json_def text_at_def optional_text_at_def num_at_def)
next
  case (Some r)
  then have "good_recovery (recovery_of_json r)"
    using assms recovery_guard_good by (simp add: isPendingTrade_def)
  then show ?thesis
    using assms Some unfolding isPendingTrade_def text_with_iff positive_time_iff absent_or_def
    by (elim conjE exE disjE)
       (simp_all add: good_trade_def trade_of_json_def text_at_def optional_text_at_def num_at_def)
qed

text \<open>C27: after any sequence of persisting, clearing and reading well-formed trades of any tokens and
  wallets, in any spelling of their addresses, a read returns the trade last persisted for that very
  token and wallet unless it was cleared since, and otherwise what the storage held for them at the
  start: trades of other tokens or wallets never interfere.\<close>

theorem pending_trade_history:
  assumes "address_pattern token" and "address_pattern wallet" and "list_all (op_ok good_trade good_key) ops"
  shows "fst (readPendingTrade token wallet
      (fold (store_step persistPendingTrade clear_key read_key) ops (Some m)))
    = last_effect trade_key same_key (token, wallet) (fst (readPendingTrade token wallet (Some m))) ops"
  using pending_store.fetch_history[of "Some m" "(token, wallet)" ops] assms by (simp add: read_key_def)

definition demo_trade :: pending_trade where
  "demo_trade = \<lparr>pt_walletAddress = ''0x'' @ replicate 40 (CHR ''A''), pt_tokenAddress = ''0x'' @ replicate 40 (CHR ''b''),
     pt_side = Buy, pt_hash = Some (''0x'' @ replicate 64 (CHR ''1'')), pt_status = PSubmitted,
     pt_submittedAt = Fin 1700000000000, pt_recovery = None\<rparr>"

theorem pending_trade_history_witness:
  "fst (readPendingTrade (''0x'' @ replicate 40 (CHR ''B'')) (''0x'' @ replicate 40 (CHR ''a''))
     (fold (store_step persistPendingTrade clear_key read_key) [OpPersist demo_trade] (Some (\<lambda>_. None))))
   = Some demo_trade"
proof -
  have lower: "lower_char (CHR ''A'') = CHR ''a''" "lower_char (CHR ''B'') = CHR ''b''" "lower_char (CHR ''a'') = CHR ''a''"
    "lower_char (CHR ''b'') = CHR ''b''" by code_simp+
  have p: "address_pattern (''0x'' @ replicate 40 (CHR ''B''))" "address_pattern (''0x'' @ replicate 40 (CHR ''a''))"
    "good_trade demo_trade"
    "same_key (''0x'' @ replicate 40 (CHR ''B''), ''0x'' @ replicate 40 (CHR ''a'')) (trade_key demo_trade)"
    by (simp_all add: address_pattern_def hash_pattern_def hex_pattern_def is_hex_def is_digit_def list_all_iff
        good_trade_def demo_trade_def trade_key_def same_address_def js_lower_def lower)
  show ?thesis
    using pending_trade_history[OF p(1,2), of "[OpPersist demo_trade]" "\<lambda>_. None"] p(3,4)
    by (simp del: replicate.simps append.simps)
qed

text \<open>C33: whatever text the storage holds, a trade that is read back is for the token and wallet asked
  for and satisfies every rule the panel relies on (addresses, hash, nonce, block and amounts in their
  formats, a positive time); a text that fails is removed, and no other entry is touched either way.\<close>

theorem readPendingTrade_safe:
  "case readPendingTrade token wallet (Some m) of
     (Some t, s) \<Rightarrow> s = Some m \<and> good_trade t \<and> same_address (pt_tokenAddress t) token
       \<and> same_address (pt_walletAddress t) wallet
   | (None, s) \<Rightarrow> \<exists>x. s = Some (m(pendingTradeKey token wallet := x)) \<and> x \<in> {None, Some EmptyText}
       \<and> fst (readPendingTrade token wallet s) = None"
proof -
  have "good_trade t \<and> same_address (pt_tokenAddress t) token \<and> same_address (pt_walletAddress t) wallet"
    if "trade_under token wallet x = Some t" for x t
    using that trade_guard_good
    by (auto simp: trade_under_def trade_of_json_def split: option.splits stored_text.splits if_splits)
  moreover have "trade_under token wallet None = None" "trade_under token wallet (Some EmptyText) = None"
    by (simp_all add: trade_under_def)
  moreover have "m k = x \<Longrightarrow> x \<in> {None, Some EmptyText} \<Longrightarrow> \<exists>x. m = m(k := x) \<and> (x = None \<or> x = Some EmptyText)" for k x
    by (intro exI[of _ x]) auto
  ultimately show ?thesis
    using fst_readPendingTrade[of token wallet m] snd_readPendingTrade[of token wallet m]
    by (cases "readPendingTrade token wallet (Some m)")
       (auto simp: fst_readPendingTrade split: option.splits if_splits)
qed

end
