(* ===== verification/TradeConfirmation.thy ===== *)
theory TradeConfirmation
  imports CurveTrading PendingTrades
begin

text \<open>
  From a submitted hash to a settled trade (\<^verbatim>\<open>lib/contracts.ts\<close>): waiting for the receipt,
  checking that it is the trade it claims to be, and, when the receipt cannot be had, finding out
  whether the transaction was replaced by scanning blocks for its sender and nonce.
\<close>

subsection \<open>Error classification\<close>

text \<open>The part of a text before its first line terminator, which is how far \<^verbatim>\<open>.*\<close> reaches.\<close>

fun line_part :: "string \<Rightarrow> string" where
  "line_part [] = []"
| "line_part (a # s) =
     (if code_of a = 10 \<or> code_of a = 13
         \<or> (code_of a = 226 \<and> (map of_char (take 2 s) = [128 :: nat, 168] \<or> map of_char (take 2 s) = [128 :: nat, 169]))
      then [] else a # line_part s)"

text \<open>\<^verbatim>\<open>/p.*q/\<close> on a text, for literal \<^verbatim>\<open>p\<close> and \<^verbatim>\<open>q\<close>.\<close>

fun matches_then :: "string \<Rightarrow> string \<Rightarrow> string \<Rightarrow> bool" where
  "matches_then p q [] = False"
| "matches_then p q (a # s) =
     ((starts_with p (a # s) \<and> contains_text q (line_part (drop (length p) (a # s))))
      \<or> matches_then p q s)"

definition isReceiptNotFound :: "js_error \<Rightarrow> bool" where
  "isReceiptNotFound e =
     (let message = named_error_text e in
      matches_any_ci [''TransactionReceiptNotFound''] message
      \<or> matches_then ''transaction receipt'' ''not be found'' (js_lower message))"

definition isReceiptTimeout :: "js_error \<Rightarrow> bool" where
  "isReceiptTimeout e =
     matches_any_ci [''WaitForTransactionReceiptTimeout'', ''timed out'', ''time out'', ''timeout'']
       (named_error_text e)"

definition isCurveNotFound :: "js_error \<Rightarrow> bool" where
  "isCurveNotFound e \<longleftrightarrow> contains_text ''0xf3295903'' (error_text e) \<or> contains_text ''CurveNotFound'' (error_text e)"

subsection \<open>Finding a replacement\<close>

definition replacementReason :: "client \<Rightarrow> trade_recovery \<Rightarrow> tx \<Rightarrow> replacement_reason result" where
  "replacementReason c original replacement =
     try_bind (case truthy (tx_to replacement) of
                 None \<Rightarrow> Inr False
               | Some to \<Rightarrow> try_bind (equalAddresses c (tx_from replacement) to) (\<lambda>self.
                   Inr (self \<and> tx_value replacement = 0))) (\<lambda>cancelled.
       if cancelled then Inr RCancelled
       else if js_lower (or_else (tx_to replacement) '''') = js_lower (or_else (rec_to original) '''')
            \<and> int_text (tx_value replacement) = rec_value original
            \<and> js_lower (tx_input replacement) = js_lower (rec_input original)
       then Inr RRepriced else Inr RReplaced)"

datatype recovery_result =
    FoundReceipt receipt
  | FoundReplacement receipt replacement_reason
  | StillPending "trade_recovery option"

definition replacement_scan_batch :: int where
  "replacement_scan_batch = 128"

text \<open>\<^verbatim>\<open>block.transactions.find(...)\<close>: the first full transaction of the sender with the nonce.\<close>

fun find_candidate :: "client \<Rightarrow> trade_recovery \<Rightarrow> block_item list \<Rightarrow> tx option result" where
  "find_candidate c recovery [] = Inr None"
| "find_candidate c recovery (OnlyHash h # items) = find_candidate c recovery items"
| "find_candidate c recovery (FullTx x # items) =
     try_bind (equalAddresses c (tx_from x) (rec_sender recovery)) (\<lambda>same.
       if same \<and> tx_nonce x = rec_nonce recovery then Inr (Some x)
       else find_candidate c recovery items)"

text \<open>The loop over the blocks of one batch; \<^verbatim>\<open>None\<close> when none of them holds the nonce.\<close>

fun scanBlocks :: "client \<Rightarrow> string \<Rightarrow> trade_recovery \<Rightarrow> int list \<Rightarrow> recovery_result option io" where
  "scanBlocks c hash recovery [] = io_return None"
| "scanBlocks c hash recovery (n # ns) =
     io_bind (getBlock c n) (\<lambda>block.
     io_bind (io_result (find_candidate c recovery block)) (\<lambda>found.
       case found of
         None \<Rightarrow> scanBlocks c hash recovery ns
       | Some transaction \<Rightarrow>
           io_bind (getTransactionReceipt c (tx_hash transaction)) (\<lambda>receipt.
             if js_lower (tx_hash transaction) = js_lower hash then io_return (Some (FoundReceipt receipt))
             else io_bind (io_result (replacementReason c recovery transaction)) (\<lambda>reason.
               io_return (Some (FoundReplacement receipt reason))))))"

definition recovery_of_tx :: "tx \<Rightarrow> int \<Rightarrow> trade_recovery" where
  "recovery_of_tx transaction nextBlock =
     \<lparr>rec_sender = tx_from transaction, rec_nonce = tx_nonce transaction, rec_to = tx_to transaction,
      rec_value = int_text (tx_value transaction), rec_input = tx_input transaction,
      rec_nextScanBlock = int_text nextBlock\<rparr>"

definition provenance_message :: string where
  "provenance_message =
     ''The original nonce was consumed, but replacement provenance was unavailable. Confirmation remains unknown.''"

text \<open>\<^verbatim>\<open>BigInt(text)\<close>, with the SyntaxError it throws.\<close>

definition big_of_text :: "string \<Rightarrow> int result" where
  "big_of_text s =
     (case js_bigint s of
        Some i \<Rightarrow> Inr i
      | None \<Rightarrow> Inl (JsError ''SyntaxError'' (''Cannot convert '' @ s @ '' to a BigInt'')))"

definition lastScanBlock :: "int \<Rightarrow> int \<Rightarrow> int" where
  "lastScanBlock firstBlock latestBlock =
     (if firstBlock + replacement_scan_batch - 1 < latestBlock
      then firstBlock + replacement_scan_batch - 1 else latestBlock)"

definition scanForReplacement :: "client \<Rightarrow> string \<Rightarrow> trade_recovery \<Rightarrow> recovery_result io" where
  "scanForReplacement c hash recovery =
     io_bind (getTransactionCount c (rec_sender recovery)) (\<lambda>consumedNonce.
     if consumedNonce \<le> rec_nonce recovery then io_return (StillPending (Some recovery))
     else io_bind (getBlockNumber c) (\<lambda>latestBlock.
       io_bind (io_result (big_of_text (rec_nextScanBlock recovery))) (\<lambda>firstBlock.
         let lastBlock = lastScanBlock firstBlock latestBlock in
         io_bind (scanBlocks c hash recovery [firstBlock..lastBlock]) (\<lambda>found.
           case found of
             Some result \<Rightarrow> io_return result
           | None \<Rightarrow>
               if lastBlock < latestBlock
               then io_return (StillPending (Some (recovery\<lparr>rec_nextScanBlock := int_text (lastBlock + 1)\<rparr>)))
               else io_throw (Err provenance_message)))))"

definition recoverTransactionReceipt ::
    "client \<Rightarrow> string \<Rightarrow> trade_recovery option \<Rightarrow> recovery_result io" where
  "recoverTransactionReceipt c hash storedRecovery =
     io_bind (io_attempt (getTransactionReceipt c hash)) (\<lambda>r.
       case r of
         Inr receipt \<Rightarrow> io_return (FoundReceipt receipt)
       | Inl e \<Rightarrow>
           if \<not> isReceiptNotFound e then io_throw e
           else (case storedRecovery of
                   Some recovery \<Rightarrow> scanForReplacement c hash recovery
                 | None \<Rightarrow>
                     io_bind (io_attempt (io_both (getTransaction c hash) (getBlockNumber c))) (\<lambda>q.
                       case q of
                         Inl _ \<Rightarrow> io_return (StillPending None)
                       | Inr (transaction, blockNumber) \<Rightarrow>
                           scanForReplacement c hash (recovery_of_tx transaction blockNumber))))"

definition captureTradeRecovery :: "client \<Rightarrow> string \<Rightarrow> trade_recovery option io" where
  "captureTradeRecovery c hash =
     io_bind (io_attempt (io_both (getTransaction c hash) (getBlockNumber c))) (\<lambda>q.
       case q of
         Inl _ \<Rightarrow> io_return None
       | Inr (transaction, blockNumber) \<Rightarrow>
           io_return (Some (recovery_of_tx transaction (or_else (tx_block transaction) blockNumber))))"

subsection \<open>Confirmation\<close>

datatype confirmation_status = Confirmed | Reverted | Replaced | Pending

record trade_confirmation =
  tc_status :: confirmation_status
  tc_hash :: string
  tc_reason :: "replacement_reason option"
  tc_recovery :: "trade_recovery option"

definition resolveTradeReceipt ::
    "client \<Rightarrow> receipt \<Rightarrow> string \<Rightarrow> trade_side \<Rightarrow> string \<Rightarrow> string \<Rightarrow> replacement_reason option
       \<Rightarrow> trade_confirmation io" where
  "resolveTradeReceipt c receipt curve side token trader replacement =
     (let answer = (\<lambda>s. \<lparr>tc_status = s, tc_hash = rc_hash receipt, tc_reason = replacement, tc_recovery = None\<rparr>) in
      if replacement \<noteq> None then io_return (answer Replaced)
      else if rc_status receipt = ''reverted'' then io_return (answer Reverted)
      else
        io_bind (getTransaction c (rc_hash receipt)) (\<lambda>transaction.
        io_bind (io_result (equalAddresses c (tx_from transaction) trader)) (\<lambda>fromTrader.
        io_bind (io_throw_if (\<not> fromTrader) ''Confirmed trade sender does not match the connected wallet.'') (\<lambda>_.
        io_bind (case truthy (tx_to transaction) of
            None \<Rightarrow> io_return False
          | Some to \<Rightarrow> io_result (equalAddresses c to curve)) (\<lambda>toCurve.
        io_bind (io_throw_if (\<not> toCurve) ''Confirmed trade target does not match the deployed curve.'') (\<lambda>_.
        io_bind (io_result (parseTradeReceipt (c_decoder c) receipt curve side)) (\<lambda>trade.
        io_bind (io_result (equalAddresses c (tr_token trade) token)) (\<lambda>sameToken.
        io_bind (if sameToken then io_result (equalAddresses c (tr_trader trade) trader) else io_return False) (\<lambda>sameTrader.
        io_bind (io_throw_if (\<not> sameToken \<or> \<not> sameTrader)
            ''Confirmed trade does not match the connected wallet and token.'') (\<lambda>_.
          io_return (answer Confirmed)))))))))))"

definition checkTrade ::
    "client \<Rightarrow> string \<Rightarrow> trade_side \<Rightarrow> string \<Rightarrow> string \<Rightarrow> trade_recovery option \<Rightarrow> trade_confirmation io" where
  "checkTrade c hash side token trader recovery =
     io_bind (requireCurve c token) (\<lambda>curve.
     io_bind (recoverTransactionReceipt c hash recovery) (\<lambda>result.
       case result of
         FoundReceipt receipt \<Rightarrow> resolveTradeReceipt c receipt curve side token trader None
       | FoundReplacement receipt reason \<Rightarrow>
           io_return \<lparr>tc_status = Replaced, tc_hash = rc_hash receipt, tc_reason = Some reason, tc_recovery = None\<rparr>
       | StillPending rec \<Rightarrow>
           io_return \<lparr>tc_status = Pending, tc_hash = hash, tc_reason = None, tc_recovery = rec\<rparr>))"

text \<open>Only the waiting is inside the \<^verbatim>\<open>try\<close>: an error of \<^verbatim>\<open>resolveTradeReceipt\<close>, whose
  promise is returned without \<^verbatim>\<open>await\<close>, is not taken for a timeout.\<close>

definition confirmTrade ::
    "client \<Rightarrow> string \<Rightarrow> trade_side \<Rightarrow> string \<Rightarrow> string \<Rightarrow> trade_recovery option \<Rightarrow> trade_confirmation io" where
  "confirmTrade c hash side token trader recovery =
     io_bind (requireCurve c token) (\<lambda>curve.
     io_bind (io_attempt (waitForTransactionReceipt c hash (Some 120000))) (\<lambda>r.
       case r of
         Inr (replacement, receipt) \<Rightarrow> resolveTradeReceipt c receipt curve side token trader replacement
       | Inl e \<Rightarrow>
           if \<not> isReceiptTimeout e then io_throw e
           else checkTrade c hash side token trader recovery))"

subsection \<open>Nothing here writes\<close>

lemma scanBlocks_read_only [emits_intros]: "read_only (scanBlocks c hash recovery ns)"
  by (induction ns) (auto intro!: emits_intros split: option.split)

lemma scanForReplacement_read_only [emits_intros]: "read_only (scanForReplacement c hash recovery)"
  unfolding scanForReplacement_def Let_def by (intro emits_intros)

lemma recoverTransactionReceipt_read_only [emits_intros]:
  "read_only (recoverTransactionReceipt c hash recovery)"
  unfolding recoverTransactionReceipt_def by (intro emits_intros)

lemma captureTradeRecovery_read_only [emits_intros]: "read_only (captureTradeRecovery c hash)"
  unfolding captureTradeRecovery_def by (intro emits_intros)

lemma resolveTradeReceipt_read_only [emits_intros]:
  "read_only (resolveTradeReceipt c receipt curve side token trader reason)"
  unfolding resolveTradeReceipt_def Let_def by (intro emits_intros)

lemma emits_recovery_result [emits_intros]:
  "(\<And>r. x = FoundReceipt r \<Longrightarrow> emits P (f r)) \<Longrightarrow> (\<And>r a. x = FoundReplacement r a \<Longrightarrow> emits P (g r a))
   \<Longrightarrow> (\<And>r. x = StillPending r \<Longrightarrow> emits P (h r))
   \<Longrightarrow> emits P (case x of FoundReceipt r \<Rightarrow> f r | FoundReplacement r a \<Rightarrow> g r a | StillPending r \<Rightarrow> h r)"
  by (cases x) auto

lemma checkTrade_read_only [emits_intros]: "read_only (checkTrade c hash side token trader recovery)"
  unfolding checkTrade_def by (intro emits_intros)

lemma confirmTrade_read_only [emits_intros]: "read_only (confirmTrade c hash side token trader recovery)"
  unfolding confirmTrade_def by (intro emits_intros)

subsection \<open>A confirmed trade is the trade\<close>

lemma io_sum_Inr:
  "(case x of Inl e \<Rightarrow> f e | Inr a \<Rightarrow> g a) tr = r \<longleftrightarrow>
     (\<exists>e. x = Inl e \<and> f e tr = r) \<or> (\<exists>a. x = Inr a \<and> g a tr = r)"
  by (cases x) auto

lemma io_truthy_Inr:
  "(case x of None \<Rightarrow> io_return False | Some a \<Rightarrow> f a) tr = (Inr True, t) \<longleftrightarrow>
     (\<exists>a. x = Some a \<and> f a tr = (Inr True, t))"
  by (cases x) (auto simp: io_return_def)

lemma io_if_False_Inr:
  "(if b then m else io_return False) tr = (Inr True, t) \<longleftrightarrow> b \<and> m tr = (Inr True, t)"
  by (auto simp: io_return_def)

text \<open>What it takes for the receipt of a transaction to prove the trade.\<close>

definition proves_trade ::
    "client \<Rightarrow> trace \<Rightarrow> receipt \<Rightarrow> string \<Rightarrow> trade_side \<Rightarrow> string \<Rightarrow> string \<Rightarrow> bool" where
  "proves_trade c tr receipt curve side token trader \<longleftrightarrow>
     (\<exists>transaction to trade. c_transaction c tr (rc_hash receipt) = Inr transaction
        \<and> equalAddresses c (tx_from transaction) trader = Inr True
        \<and> tx_to transaction = Some to \<and> equalAddresses c to curve = Inr True
        \<and> parseTradeReceipt (c_decoder c) receipt curve side = Inr trade
        \<and> equalAddresses c (tr_token trade) token = Inr True
        \<and> equalAddresses c (tr_trader trade) trader = Inr True)"

lemma resolveTradeReceipt_confirmed:
  assumes "resolveTradeReceipt c receipt curve side token trader reason tr = (Inr r, t)"
    and "tc_status r = Confirmed"
  shows "reason = None \<and> tc_hash r = rc_hash receipt \<and> proves_trade c tr receipt curve side token trader"
proof -
  have "reason = None \<and> rc_status receipt \<noteq> ''reverted''"
    using assms by (auto simp: resolveTradeReceipt_def Let_def io_inv split: if_splits)
  then show ?thesis using assms
    by (auto simp: resolveTradeReceipt_def Let_def io_inv getTransaction_def proves_trade_def truthy_def
        io_truthy_Inr io_if_False_Inr split: option.splits if_splits)
qed


subsection \<open>The replacement scan\<close>

lemma scanBlocks_None:
  assumes "scanBlocks c hash recovery ns tr = (Inr None, t)"
  shows "t = tr @ map EvBlock ns
    \<and> (\<forall>p n q. ns = p @ n # q \<longrightarrow>
        (\<exists>block. c_block c (tr @ map EvBlock p) n = Inr block \<and> find_candidate c recovery block = Inr None))"
  using assms
proof (induction ns arbitrary: tr)
  case (Cons n ns)
  from Cons.prems obtain block found where block: "c_block c tr n = Inr block"
    and found: "find_candidate c recovery block = Inr found"
    and rest: "(case found of
         None \<Rightarrow> scanBlocks c hash recovery ns
       | Some transaction \<Rightarrow>
           io_bind (getTransactionReceipt c (tx_hash transaction)) (\<lambda>receipt.
             if js_lower (tx_hash transaction) = js_lower hash then io_return (Some (FoundReceipt receipt))
             else io_bind (io_result (replacementReason c recovery transaction)) (\<lambda>reason.
               io_return (Some (FoundReplacement receipt reason))))) (tr @ [EvBlock n]) = (Inr None, t)"
    by (auto simp: io_inv getBlock_def)
  have "found = None"
    using rest by (cases found) (auto simp: io_inv split: if_splits)
  then have run: "scanBlocks c hash recovery ns (tr @ [EvBlock n]) = (Inr None, t)" using rest by simp
  note IH = Cons.IH[OF run]
  have "\<exists>b. c_block c (tr @ map EvBlock p) m = Inr b \<and> find_candidate c recovery b = Inr None"
    if "n # ns = p @ m # q" for p m q
    using that IH block found \<open>found = None\<close> by (cases p) auto
  with IH show ?case by simp
qed (simp add: io_return_def)

text \<open>How many blocks a run reads.\<close>

definition block_reads :: "trace \<Rightarrow> nat" where
  "block_reads tr = length (filter (\<lambda>e. \<exists>n. e = EvBlock n) tr)"

lemma block_reads_simps [simp]:
  "block_reads [] = 0" "block_reads (s @ t) = block_reads s + block_reads t"
  "block_reads (e # t) = (if \<exists>n. e = EvBlock n then 1 else 0) + block_reads t"
  by (simp_all add: block_reads_def)

lemma scanBlocks_reads: "block_reads (snd (scanBlocks c hash recovery ns tr)) \<le> block_reads tr + length ns"
proof (induction ns arbitrary: tr)
  case (Cons n ns)
  have tail: "block_reads (snd (io_bind (getTransactionReceipt c h) f tr')) = block_reads tr'"
    if "\<And>a s. snd (f a s) = s" for h f tr'
    using that by (auto simp: getTransactionReceipt_def io_steps split: sum.splits)
  have found: "block_reads (snd (io_bind (getTransactionReceipt c (tx_hash x)) (\<lambda>receipt.
       if js_lower (tx_hash x) = js_lower hash then io_return (Some (FoundReceipt receipt))
       else io_bind (io_result (replacementReason c recovery x)) (\<lambda>reason.
         io_return (Some (FoundReplacement receipt reason)))) tr')) = block_reads tr'" for x tr'
    by (rule tail) (auto simp: io_steps split: sum.splits)
  show ?case
    using Cons.IH[of "tr @ [EvBlock n]"]
    by (auto simp: getBlock_def io_steps found split: sum.split option.split)
qed (simp add: io_return_def)

lemma scan_window: "length [f..lastScanBlock f l] \<le> 128"
  by (auto simp: lastScanBlock_def replacement_scan_batch_def)

lemma scan_reads:
  "block_reads s = n \<Longrightarrow> block_reads (snd (scanBlocks c hash recovery [f..lastScanBlock f l] s)) \<le> n + 128"
  using scanBlocks_reads[of c hash recovery "[f..lastScanBlock f l]" s] scan_window[of f l] by linarith

lemma bind_reads:
  fixes m :: "'a io" and k :: "'a \<Rightarrow> 'b io"
  assumes "block_reads (snd (m s)) \<le> n" and "\<And>a u. snd (k a u) = u"
  shows "block_reads (snd (io_bind m k s)) \<le> n"
  using assms by (cases "m s") (auto simp: io_bind_def split: sum.split)

lemma scanForReplacement_reads:
  "block_reads (snd (scanForReplacement c hash recovery tr)) \<le> block_reads tr + 128"
  unfolding scanForReplacement_def Let_def
  by (auto simp: getTransactionCount_def getBlockNumber_def io_steps split: sum.split
      intro!: bind_reads scan_reads split: option.split)

lemma scanForReplacement_pending:
  assumes "scanForReplacement c hash recovery tr = (Inr (StillPending x), t)"
  shows "(x = Some recovery \<and> t = tr @ [EvTxCount (rec_sender recovery)]
          \<and> (\<exists>k. c_txCount c tr (rec_sender recovery) = Inr k \<and> k \<le> rec_nonce recovery))
      \<or> (\<exists>first latest. big_of_text (rec_nextScanBlock recovery) = Inr first
          \<and> x = Some (recovery\<lparr>rec_nextScanBlock := int_text (lastScanBlock first latest + 1)\<rparr>)
          \<and> c_blockNumber c (tr @ [EvTxCount (rec_sender recovery)]) = Inr latest
          \<and> lastScanBlock first latest < latest
          \<and> scanBlocks c hash recovery [first..lastScanBlock first latest]
              (tr @ [EvTxCount (rec_sender recovery), EvBlockNumber]) = (Inr None, t))"
proof -
  have never: "scanBlocks c hash recovery ns s \<noteq> (Inr (Some (StillPending y)), u)" for y ns s u
  proof (induction ns arbitrary: s)
    case (Cons n ns)
    then show ?case by (auto simp: io_inv split: option.splits if_splits)
  qed (simp add: io_return_def)
  show ?thesis using assms unfolding scanForReplacement_def Let_def
    by (auto simp: getTransactionCount_def getBlockNumber_def io_inv never split: if_splits option.splits)
qed

text \<open>The scan moved past 128 blocks that it read one after the other, none with a candidate.\<close>

definition scan_moved :: "client \<Rightarrow> trade_recovery \<Rightarrow> trade_recovery \<Rightarrow> trace \<Rightarrow> trace \<Rightarrow> bool" where
  "scan_moved c recovery rec' tr t \<longleftrightarrow>
     (\<exists>first latest t1. big_of_text (rec_nextScanBlock recovery) = Inr first
        \<and> rec' = recovery\<lparr>rec_nextScanBlock := int_text (first + 128)\<rparr>
        \<and> t1 = tr @ [EvTxCount (rec_sender recovery), EvBlockNumber]
        \<and> c_blockNumber c (tr @ [EvTxCount (rec_sender recovery)]) = Inr latest \<and> first + 127 < latest
        \<and> t = t1 @ map EvBlock [first..first + 127]
        \<and> (\<forall>p n q. [first..first + 127] = p @ n # q \<longrightarrow>
            (\<exists>block. c_block c (t1 @ map EvBlock p) n = Inr block \<and> find_candidate c recovery block = Inr None)))"

lemma scan_movedI:
  assumes "big_of_text (rec_nextScanBlock recovery) = Inr first"
    and "rec' = recovery\<lparr>rec_nextScanBlock := int_text (lastScanBlock first latest + 1)\<rparr>"
    and "c_blockNumber c (tr @ [EvTxCount (rec_sender recovery)]) = Inr latest"
    and less: "lastScanBlock first latest < latest"
    and run: "scanBlocks c hash recovery [first..lastScanBlock first latest]
      (tr @ [EvTxCount (rec_sender recovery), EvBlockNumber]) = (Inr None, t)"
  shows "scan_moved c recovery rec' tr t"
proof -
  have "lastScanBlock first latest = first + 127"
    using less by (auto simp: lastScanBlock_def replacement_scan_batch_def split: if_splits)
  with scanBlocks_None[OF run] assms show ?thesis unfolding scan_moved_def by auto
qed

text \<open>One check for a replacement reads at most 128 blocks. When it answers that the trade is still
  pending with its stored data moved on, it moved by exactly 128 blocks, the chain reaches past them,
  and every one of them was read and holds no transaction of the sender with the nonce, so no block is
  ever skipped; when it answers with the data unchanged, the node still reported the nonce as unused.\<close>

theorem replacement_scan_step:
  assumes "scanForReplacement c hash recovery tr = (r, t)"
  shows "block_reads t \<le> block_reads tr + 128
    \<and> (\<forall>rec'. r = Inr (StillPending (Some rec')) \<longrightarrow>
        (rec' = recovery \<and> t = tr @ [EvTxCount (rec_sender recovery)]
          \<and> (\<exists>k. c_txCount c tr (rec_sender recovery) = Inr k \<and> k \<le> rec_nonce recovery))
        \<or> scan_moved c recovery rec' tr t)"
proof (intro conjI allI impI)
  show "block_reads t \<le> block_reads tr + 128" using scanForReplacement_reads assms by (metis snd_conv)
next
  fix rec' assume r: "r = Inr (StillPending (Some rec'))"
  from scanForReplacement_pending[OF assms[unfolded r]] scan_movedI
  show "(rec' = recovery \<and> t = tr @ [EvTxCount (rec_sender recovery)]
          \<and> (\<exists>k. c_txCount c tr (rec_sender recovery) = Inr k \<and> k \<le> rec_nonce recovery))
        \<or> scan_moved c recovery rec' tr t"
    by fastforce
qed

subsection \<open>The scan finds the replacement\<close>

text \<open>Checking again and again, each time with the data the last check returned, as the panel does.\<close>

fun recheck :: "client \<Rightarrow> string \<Rightarrow> nat \<Rightarrow> trade_recovery \<Rightarrow> recovery_result io" where
  "recheck c hash 0 recovery = io_return (StillPending (Some recovery))"
| "recheck c hash (Suc k) recovery =
     io_bind (recoverTransactionReceipt c hash (Some recovery)) (\<lambda>result.
       case result of
         StillPending (Some recovery') \<Rightarrow> recheck c hash k recovery'
       | _ \<Rightarrow> io_return result)"

text \<open>A node that has settled: the transaction itself has no receipt, its nonce is used up, and the
  blocks from \<^verbatim>\<open>first\<close> to \<^verbatim>\<open>b - 1\<close> hold no candidate while block \<^verbatim>\<open>b\<close> holds \<^verbatim>\<open>x\<close>.\<close>

definition replaced_at ::
    "client \<Rightarrow> string \<Rightarrow> trade_recovery \<Rightarrow> int \<Rightarrow> int \<Rightarrow> tx \<Rightarrow> receipt \<Rightarrow> replacement_reason \<Rightarrow> bool" where
  "replaced_at c hash recovery first b x receipt reason \<longleftrightarrow>
     (\<forall>tr. \<exists>e. c_receipt c tr hash = Inl e \<and> isReceiptNotFound e)
     \<and> (\<forall>tr. \<exists>k. c_txCount c tr (rec_sender recovery) = Inr k \<and> rec_nonce recovery < k)
     \<and> (\<forall>tr. \<exists>latest. c_blockNumber c tr = Inr latest \<and> b \<le> latest)
     \<and> (\<forall>tr n. first \<le> n \<and> n < b \<longrightarrow> (\<exists>block. c_block c tr n = Inr block \<and> find_candidate c recovery block = Inr None))
     \<and> (\<forall>tr. \<exists>block. c_block c tr b = Inr block \<and> find_candidate c recovery block = Inr (Some x))
     \<and> (\<forall>tr. c_receipt c tr (tx_hash x) = Inr receipt)
     \<and> js_lower (tx_hash x) \<noteq> js_lower hash
     \<and> replacementReason c recovery x = Inr reason"

lemma find_candidate_next [simp]:
  "find_candidate c (recovery\<lparr>rec_nextScanBlock := s\<rparr>) items = find_candidate c recovery items"
proof (induction c recovery items rule: find_candidate.induct)
  case (3 c recovery x items)
  then show ?case by (cases "equalAddresses c (tx_from x) (rec_sender recovery)") auto
qed simp_all

lemma replacementReason_next [simp]:
  "replacementReason c (recovery\<lparr>rec_nextScanBlock := s\<rparr>) x = replacementReason c recovery x"
proof -
  have fields: "rec_to (recovery\<lparr>rec_nextScanBlock := s\<rparr>) = rec_to recovery"
    "rec_value (recovery\<lparr>rec_nextScanBlock := s\<rparr>) = rec_value recovery"
    "rec_input (recovery\<lparr>rec_nextScanBlock := s\<rparr>) = rec_input recovery"
    by simp_all
  show ?thesis unfolding replacementReason_def fields ..
qed

lemma replaced_at_next:
  "replaced_at c hash recovery first b x receipt reason \<Longrightarrow> first \<le> f
   \<Longrightarrow> replaced_at c hash (recovery\<lparr>rec_nextScanBlock := s\<rparr>) f b x receipt reason"
  unfolding replaced_at_def by simp

lemma scan_empty:
  assumes "\<forall>tr n. lo \<le> n \<and> n < b \<longrightarrow> (\<exists>block. c_block c tr n = Inr block \<and> find_candidate c recovery block = Inr None)"
    and "set ns \<subseteq> {lo..<b}"
  shows "scanBlocks c hash recovery (ns @ ms) tr = scanBlocks c hash recovery ms (tr @ map EvBlock ns)"
  using assms(2)
proof (induction ns arbitrary: tr)
  case (Cons n ns)
  then obtain block where "c_block c tr n = Inr block" "find_candidate c recovery block = Inr None"
    using assms(1) by fastforce
  then show ?case using Cons by (simp add: getBlock_def io_steps)
qed simp

lemma recover_to_scan:
  assumes "replaced_at c hash recovery first b x receipt reason"
  shows "\<exists>latest. b \<le> latest \<and> recoverTransactionReceipt c hash (Some recovery) tr =
    (case big_of_text (rec_nextScanBlock recovery) of
       Inl e \<Rightarrow> (Inl e, tr @ [EvReceipt hash, EvTxCount (rec_sender recovery), EvBlockNumber])
     | Inr f \<Rightarrow> io_bind (scanBlocks c hash recovery [f..lastScanBlock f latest]) (\<lambda>found.
           case found of
             Some result \<Rightarrow> io_return result
           | None \<Rightarrow>
               if lastScanBlock f latest < latest
               then io_return (StillPending (Some (recovery\<lparr>rec_nextScanBlock := int_text (lastScanBlock f latest + 1)\<rparr>)))
               else io_throw (Err provenance_message))
         (tr @ [EvReceipt hash, EvTxCount (rec_sender recovery), EvBlockNumber]))"
proof -
  obtain e where e: "c_receipt c tr hash = Inl e" "isReceiptNotFound e"
    using assms unfolding replaced_at_def by blast
  obtain k where k: "c_txCount c (tr @ [EvReceipt hash]) (rec_sender recovery) = Inr k" "rec_nonce recovery < k"
    using assms unfolding replaced_at_def by blast
  obtain latest where l: "c_blockNumber c (tr @ [EvReceipt hash, EvTxCount (rec_sender recovery)]) = Inr latest" "b \<le> latest"
    using assms unfolding replaced_at_def by blast
  have "getTransactionReceipt c hash tr = (Inl e, tr @ [EvReceipt hash])"
    using e by (simp add: getTransactionReceipt_def io_call_def)
  then have "recoverTransactionReceipt c hash (Some recovery) tr = scanForReplacement c hash recovery (tr @ [EvReceipt hash])"
    using e by (simp add: recoverTransactionReceipt_def io_bind_def io_attempt_def)
  then show ?thesis using k l
    by (auto simp: scanForReplacement_def getTransactionCount_def getBlockNumber_def io_steps Let_def
        split: sum.split intro!: exI[of _ latest])
qed

lemma scan_round:
  assumes "replaced_at c hash recovery first b x receipt reason"
    and "rec_nextScanBlock recovery = int_text first" and "0 \<le> first" and "first \<le> b"
  shows "if b < first + 128
    then \<exists>t. recoverTransactionReceipt c hash (Some recovery) tr = (Inr (FoundReplacement receipt reason), t)
    else \<exists>t. recoverTransactionReceipt c hash (Some recovery) tr =
      (Inr (StillPending (Some (recovery\<lparr>rec_nextScanBlock := int_text (first + 128)\<rparr>))), t)"
proof -
  obtain latest where l: "b \<le> latest" and run: "recoverTransactionReceipt c hash (Some recovery) tr =
      io_bind (scanBlocks c hash recovery [first..lastScanBlock first latest]) (\<lambda>found.
           case found of
             Some result \<Rightarrow> io_return result
           | None \<Rightarrow>
               if lastScanBlock first latest < latest
               then io_return (StillPending (Some (recovery\<lparr>rec_nextScanBlock := int_text (lastScanBlock first latest + 1)\<rparr>)))
               else io_throw (Err provenance_message))
         (tr @ [EvReceipt hash, EvTxCount (rec_sender recovery), EvBlockNumber])"
    using recover_to_scan[OF assms(1), of tr] assms(2,3) by (auto simp: big_of_text_def)
  have empty: "\<forall>tr n. first \<le> n \<and> n < b \<longrightarrow> (\<exists>block. c_block c tr n = Inr block \<and> find_candidate c recovery block = Inr None)"
    using assms(1) unfolding replaced_at_def by blast
  show ?thesis
  proof (cases "b < first + 128")
    case True
    then have "b \<le> lastScanBlock first latest"
      using l by (auto simp: lastScanBlock_def replacement_scan_batch_def)
    then have split: "[first..lastScanBlock first latest] = [first..b - 1] @ b # [b + 1..lastScanBlock first latest]"
      using assms(4) by (rule upto_split3[rotated])
    have at_b: "\<exists>t. scanBlocks c hash recovery (b # ms) s = (Inr (Some (FoundReplacement receipt reason)), t)" for ms s
    proof -
      obtain block where "c_block c s b = Inr block" "find_candidate c recovery block = Inr (Some x)"
        using assms(1) unfolding replaced_at_def by blast
      then show ?thesis using assms(1) unfolding replaced_at_def
        by (simp add: getBlock_def getTransactionReceipt_def io_steps)
    qed
    have "\<exists>t. scanBlocks c hash recovery [first..lastScanBlock first latest] s
        = (Inr (Some (FoundReplacement receipt reason)), t)" for s
    proof -
      have "scanBlocks c hash recovery [first..lastScanBlock first latest] s
          = scanBlocks c hash recovery (b # [b + 1..lastScanBlock first latest]) (s @ map EvBlock [first..b - 1])"
        unfolding split by (rule scan_empty[OF empty]) auto
      with at_b show ?thesis by metis
    qed
    then obtain t where "scanBlocks c hash recovery [first..lastScanBlock first latest]
        (tr @ [EvReceipt hash, EvTxCount (rec_sender recovery), EvBlockNumber])
        = (Inr (Some (FoundReplacement receipt reason)), t)" by blast
    then show ?thesis using run True by (simp add: io_bind_def io_return_def)
  next
    case False
    then have last: "lastScanBlock first latest = first + 127" "first + 127 < latest"
      using l by (auto simp: lastScanBlock_def replacement_scan_batch_def)
    have "scanBlocks c hash recovery [first..first + 127] s = (Inr None, s @ map EvBlock [first..first + 127])" for s
    proof -
      have "set [first..first + 127] \<subseteq> {first..<b}" using False by auto
      from scan_empty[OF empty this, of hash "[]" s] show ?thesis by (simp add: io_return_def)
    qed
    then show ?thesis using run False last by (simp add: io_bind_def io_return_def)
  qed
qed

text \<open>C28: when a node has settled on a block that holds the replacing transaction, checking again
  finds that replacement and its reason after at most one check per 128 blocks between the stored
  scan position and that block.\<close>

theorem replacement_found_eventually:
  assumes "replaced_at c hash recovery first b x receipt reason"
    and "rec_nextScanBlock recovery = int_text first" and "0 \<le> first" and "first \<le> b"
  shows "\<exists>t. recheck c hash (Suc (nat ((b - first) div 128))) recovery tr
    = (Inr (FoundReplacement receipt reason), t)"
  using assms
proof (induction "nat ((b - first) div 128)" arbitrary: first recovery tr)
  case 0
  then have "(b - first) div 128 = 0" by (simp add: nat_eq_iff2 pos_imp_zdiv_nonneg_iff)
  then have "b < first + 128" using 0 by (simp add: div_eq_0_iff)
  with scan_round[OF "0.prems", of tr] show ?case using 0
    by (auto simp: io_bind_def io_return_def)
next
  case (Suc k)
  then have far: "\<not> b < first + 128" by (auto simp: div_eq_0_iff)
  let ?next = "recovery\<lparr>rec_nextScanBlock := int_text (first + 128)\<rparr>"
  obtain t where round: "recoverTransactionReceipt c hash (Some recovery) tr = (Inr (StillPending (Some ?next)), t)"
    using scan_round[OF Suc.prems, of tr] far by auto
  have "(b - first) div 128 = (b - (first + 128)) div 128 + 1"
    using div_add_self2[of 128 "b - (first + 128)"] by simp
  then have k: "k = nat ((b - (first + 128)) div 128)" using Suc(2) far
    by (simp add: pos_imp_zdiv_nonneg_iff nat_add_distrib)
  have "replaced_at c hash ?next (first + 128) b x receipt reason"
    by (rule replaced_at_next[OF Suc.prems(1)]) simp
  from Suc.hyps(1)[OF k this, of t] far Suc.prems(3)
  obtain t' where "recheck c hash (Suc (nat ((b - (first + 128)) div 128))) ?next t = (Inr (FoundReplacement receipt reason), t')"
    by auto
  then show ?case using round Suc(2)[symmetric] k by (simp add: io_bind_def[of "recoverTransactionReceipt c hash (Some recovery)"])
qed

subsection \<open>The properties on concrete runs\<close>

definition demo_confirmation :: trade_confirmation where
  "demo_confirmation = \<lparr>tc_status = Confirmed, tc_hash = ''0xh'', tc_reason = None, tc_recovery = None\<rparr>"

lemma demo_confirm_run:
  "confirmTrade demo ''0xh'' Buy ''0xt'' ''0xa'' None []
   = (Inr demo_confirmation,
      [EvRead ''0xf'' ''curveOf'' [AText ''0xt''], EvWaitReceipt ''0xh'' (Some 120000), EvTransaction ''0xh''])"
proof -
  have fields: "c_waitReceipt demo = (\<lambda>tr h. (None, Inr demo_receipt))" "c_transaction demo = (\<lambda>tr h. Inr demo_tx)"
    "c_getAddress demo = Inr" "c_decoder demo = demo_log_decoder"
    by (simp_all add: demo_def)
  show ?thesis
    by (simp add: confirmTrade_def io_bind_def io_attempt_def waitForTransactionReceipt_def io_call_def fields
      resolveTradeReceipt_def getTransaction_def equalAddresses_def io_result_def io_throw_if_def truthy_def
      demo_receipt_def demo_tx_def demo_log_decoder_def parseTradeReceipt_def single_log_def io_return_def
      demo_confirmation_def throw_if_def Let_def)
qed


definition demo_recovery :: trade_recovery where
  "demo_recovery = \<lparr>rec_sender = ''0xa'', rec_nonce = 4, rec_to = Some ''0xc'', rec_value = ''10'',
     rec_input = ''0x12'', rec_nextScanBlock = int_text 0\<rparr>"

text \<open>The transaction 0xh is gone; its nonce reappears in block 130 under another hash.\<close>

definition demo_replaced :: client where
  "demo_replaced = demo\<lparr>
     c_receipt := \<lambda>tr h. if h = ''0xh'' then Inl (JsError ''TransactionReceiptNotFoundError'' '''') else Inr demo_receipt,
     c_txCount := \<lambda>tr a. Inr 5,
     c_block := \<lambda>tr n. Inr (if n = 130 then [OnlyHash ''0x1'', FullTx (demo_tx\<lparr>tx_hash := ''0xz''\<rparr>)] else [])\<rparr>"

lemma demo_replaced_at:
  "replaced_at demo_replaced ''0xh'' demo_recovery 0 130 (demo_tx\<lparr>tx_hash := ''0xz''\<rparr>) demo_receipt RRepriced"
proof -
  have notfound: "isReceiptNotFound (JsError ''TransactionReceiptNotFoundError'' '''')" by code_simp
  have hash: "js_lower ''0xz'' \<noteq> js_lower ''0xh''" by code_simp
  have ten: "int_text 10 = ''10''" by code_simp
  show ?thesis
    by (simp add: replaced_at_def demo_replaced_def demo_def notfound hash demo_recovery_def demo_tx_def
      equalAddresses_def replacementReason_def truthy_def or_else_def ten)
qed

theorem replacement_found_eventually_witness:
  "\<exists>t. recheck demo_replaced ''0xh'' 2 demo_recovery [] = (Inr (FoundReplacement demo_receipt RRepriced), t)"
  using replacement_found_eventually[OF demo_replaced_at, of "[]"]
  by (simp add: demo_recovery_def numeral_2_eq_2)

theorem replacement_scan_step_witness:
  "block_reads (snd (scanForReplacement demo ''0xh'' demo_recovery [])) \<le> 128"
proof (cases "scanForReplacement demo ''0xh'' demo_recovery []")
  case (Pair r t)
  then show ?thesis using replacement_scan_step[OF Pair] by simp
qed

end
