(* ===== verification/CurveAvailability.thy ===== *)
theory CurveAvailability
  imports TradeConfirmation
begin

text \<open>
  Whether a token's curve can be trusted for trading (\<^verbatim>\<open>readCurveAvailability\<close> and the two small
  reads of \<^verbatim>\<open>lib/contracts.ts\<close>): the RPC's chain, the code of the factory and of the curve, and
  that the curve names the factory and the token.
\<close>

definition readCurveOnchain :: "client \<Rightarrow> string \<Rightarrow> string option io" where
  "readCurveOnchain c token =
     io_bind (resolveCurveAddress c token) (\<lambda>curve.
       case curve of
         None \<Rightarrow> io_return None
       | Some a \<Rightarrow> io_bind (readText c a ''token'' []) (\<lambda>t. io_return (Some t)))"

record curve_availability =
  cav_address :: string
  cav_graduated :: bool
  cav_creator :: string

definition chain_mismatch_message :: "chain_module \<Rightarrow> int \<Rightarrow> string" where
  "chain_mismatch_message m chainId =
     ''RPC returned chain ID '' @ int_text chainId @ ''; expected '' @ selectedCooketChainName m
       @ '' ('' @ int_text (selectedCooketChainId m) @ '').''"

text \<open>The four reads of the curve, and what must agree.\<close>

definition checkCurve :: "client \<Rightarrow> string \<Rightarrow> string \<Rightarrow> string \<Rightarrow> curve_availability io" where
  "checkCurve c factoryAddress curveAddress token =
     io_bind (io_both (readText c curveAddress ''factory'' []) (io_both (readText c curveAddress ''token'' [])
             (io_both (readText c curveAddress ''creator'' []) (readBool c curveAddress ''graduated'' []))))
       (\<lambda>(factory, curveToken, creator, graduated).
     io_bind (io_result (equalAddresses c factory factoryAddress)) (\<lambda>sameFactory.
     io_bind (io_throw_if (\<not> sameFactory)
        (''Curve factory() returned '' @ factory @ ''; expected '' @ factoryAddress
          @ ''. The ABI or deployment is incompatible.'')) (\<lambda>_.
     io_bind (io_result (equalAddresses c curveToken token)) (\<lambda>sameToken.
     io_bind (io_throw_if (\<not> sameToken)
        (''Curve token() returned '' @ curveToken @ ''; expected '' @ token
          @ ''. The registry entry is inconsistent.'')) (\<lambda>_.
       io_return \<lparr>cav_address = curveAddress, cav_graduated = graduated, cav_creator = creator\<rparr>)))))"

definition codedCurve :: "client \<Rightarrow> string \<Rightarrow> string \<Rightarrow> string \<Rightarrow> curve_availability io" where
  "codedCurve c factoryAddress curveAddress token =
     io_bind (getBytecode c curveAddress) (\<lambda>curveCode.
     io_bind (io_throw_if (no_code curveCode)
        (''Factory resolved '' @ curveAddress @ '', but no curve bytecode exists there on ''
          @ selectedCooketChainName (c_chain c) @ ''.'')) (\<lambda>_.
       checkCurve c factoryAddress curveAddress token))"

definition curveAvailabilityBody :: "client \<Rightarrow> string \<Rightarrow> curve_availability option io" where
  "curveAvailabilityBody c token =
     io_bind (getChainId c) (\<lambda>chainId.
     io_bind (io_throw_if (chainId \<noteq> selectedCooketChainId (c_chain c)) (chain_mismatch_message (c_chain c) chainId)) (\<lambda>_.
     case truthy (cooketFactory (c_contracts c)) of
       None \<Rightarrow> io_throw (Err ''NEXT_PUBLIC_COOKET_FACTORY_V3_ADDRESS is missing or invalid.'')
     | Some factoryAddress \<Rightarrow>
         io_bind (getBytecode c factoryAddress) (\<lambda>factoryCode.
         io_bind (io_throw_if (no_code factoryCode)
            (''No factory bytecode exists at '' @ factoryAddress @ '' on '' @ selectedCooketChainName (c_chain c) @ ''.'')) (\<lambda>_.
         io_bind (resolveCurveAddress c token) (\<lambda>curve.
           case curve of
             None \<Rightarrow> io_return None
           | Some curveAddress \<Rightarrow>
               io_bind (codedCurve c factoryAddress curveAddress token) (\<lambda>a. io_return (Some a)))))))"

definition readCurveAvailability :: "client \<Rightarrow> string \<Rightarrow> curve_availability option io" where
  "readCurveAvailability c token =
     io_catch (curveAvailabilityBody c token) (\<lambda>e.
       if isCurveNotFound e then io_return None
       else io_bind (io_note (EvCallback ''console.error'' [''Arc Testnet curve read failed'', token, error_text e])) (\<lambda>_.
         io_throw (Err (''Arc Testnet curve read failed for token '' @ token @ '': '' @ error_text e))))"

lemma readCurveAvailability_read_only [emits_intros]: "read_only (readCurveAvailability c token)"
  unfolding readCurveAvailability_def curveAvailabilityBody_def codedCurve_def checkCurve_def Let_def by (intro emits_intros; simp)

text \<open>What the code has established of a curve it reports.\<close>

definition curve_established :: "client \<Rightarrow> string \<Rightarrow> trace \<Rightarrow> curve_availability \<Rightarrow> bool" where
  "curve_established c token tr a \<longleftrightarrow>
     (\<exists>factory factoryCode curveCode t1 t2 t3 t4 t5 t6 f k.
        truthy (cooketFactory (c_contracts c)) = Some factory
        \<and> c_chainId c tr = Inr (selectedCooketChainId (c_chain c))
        \<and> c_code c t1 factory = Inr factoryCode \<and> \<not> no_code factoryCode
        \<and> resolveCurveAddress c token t2 = (Inr (Some (cav_address a)), t3)
        \<and> c_code c t3 (cav_address a) = Inr curveCode \<and> \<not> no_code curveCode
        \<and> c_readText c t4 (cav_address a) ''factory'' [] = Inr f \<and> equalAddresses c f factory = Inr True
        \<and> c_readText c t5 (cav_address a) ''token'' [] = Inr k \<and> equalAddresses c k token = Inr True
        \<and> c_readBool c t6 (cav_address a) ''graduated'' [] = Inr (cav_graduated a))"

lemma checkCurve_Inr:
  assumes "checkCurve c factory curve token tr = (Inr a, t)"
  shows "cav_address a = curve
    \<and> (\<exists>t4 f. c_readText c t4 curve ''factory'' [] = Inr f \<and> equalAddresses c f factory = Inr True)
    \<and> (\<exists>t5 k. c_readText c t5 curve ''token'' [] = Inr k \<and> equalAddresses c k token = Inr True)
    \<and> (\<exists>t6. c_readBool c t6 curve ''graduated'' [] = Inr (cav_graduated a))"
  using assms by (clarsimp simp: checkCurve_def io_inv readText_def readBool_def; blast)

text \<open>A curve is only reported available when the RPC is on the selected chain, the configured
  factory and the curve have code, the factory resolves the token to this curve, and the curve itself
  names that factory and that token; nothing is sent to find out.\<close>

theorem readCurveAvailability_established:
  assumes "readCurveAvailability c token tr = (Inr (Some a), t)"
  shows "curve_established c token tr a \<and> writes t = writes tr"
proof -
  have "curveAvailabilityBody c token tr = (Inr (Some a), t)"
    using assms by (auto simp: readCurveAvailability_def io_catch_def io_return_def io_throw_def io_bind_def io_note_def
        split: prod.splits sum.splits if_splits)
  then obtain factory factoryCode curve t2 t3 t4 where run:
      "c_chainId c tr = Inr (selectedCooketChainId (c_chain c))"
      "truthy (cooketFactory (c_contracts c)) = Some factory"
      "c_code c (tr @ [EvChainId]) factory = Inr factoryCode" "\<not> no_code factoryCode"
      "resolveCurveAddress c token t2 = (Inr curve, t3)"
      "(case curve of None \<Rightarrow> io_return None
        | Some curveAddress \<Rightarrow> io_bind (codedCurve c factory curveAddress token) (\<lambda>a. io_return (Some a))) t3 = (Inr (Some a), t4)"
    by (clarsimp simp: curveAvailabilityBody_def io_inv getChainId_def getBytecode_def; blast)
  then obtain k where k: "curve = Some k" "codedCurve c factory k token t3 = (Inr a, t4)"
    by (cases curve) (auto simp: io_inv)
  then obtain curveCode where "c_code c t3 k = Inr curveCode" "\<not> no_code curveCode"
      and check: "checkCurve c factory k token (t3 @ [EvCode k]) = (Inr a, t4)"
    by (auto simp: codedCurve_def io_inv getBytecode_def)
  moreover note run k
  moreover note checkCurve_Inr[OF check]
  ultimately have "curve_established c token tr a" unfolding curve_established_def by blast
  then show ?thesis using read_only_writes[OF readCurveAvailability_read_only assms] by blast
qed

lemma readCurveAvailability_throws:
  assumes "readCurveAvailability c token tr = (Inl e, t)"
  shows "\<exists>detail. e = Err (''Arc Testnet curve read failed for token '' @ token @ '': '' @ detail)"
  using assms by (auto simp: readCurveAvailability_def io_catch_def io_return_def io_throw_def io_bind_def io_note_def
      split: prod.splits sum.splits if_splits)

definition demo_curve :: client where
  "demo_curve = demo\<lparr>c_readText := (\<lambda>tr a f args. Inr (if f = ''curveOf'' then ''0xc'' else if f = ''token'' then ''0xt''
      else if f = ''factory'' then ''0xf'' else ''0xa''))\<rparr>"

theorem readCurveAvailability_established_witness:
  "\<exists>a t. readCurveAvailability demo_curve ''0xt'' [] = (Inr (Some a), t) \<and> writes t = []
     \<and> curve_established demo_curve ''0xt'' [] a"
proof -
  have fields: "c_contracts demo_curve = demo_contracts" "c_getAddress demo_curve = Inr"
    "c_code demo_curve = (\<lambda>tr a. Inr (Some ''0x60''))" "c_chainId demo_curve = (\<lambda>tr. Inr 5042002)"
    "c_readBool demo_curve = (\<lambda>tr a f args. Inr False)" "selectedCooketChainId (c_chain demo_curve) = 5042002"
    "c_readText demo_curve = (\<lambda>tr a f args. Inr (if f = ''curveOf'' then ''0xc'' else if f = ''token'' then ''0xt''
      else if f = ''factory'' then ''0xf'' else ''0xa''))"
    by (simp_all add: demo_curve_def demo_def selectedCooketChainId_def sample_module_def sample_chain_def)
  have code: "no_code (Some ''0x60'') = False" "zero_address_pattern ''0xc'' = False" by code_simp+
  have "\<exists>a t. readCurveAvailability demo_curve ''0xt'' [] = (Inr (Some a), t)"
    by (simp add: readCurveAvailability_def curveAvailabilityBody_def codedCurve_def checkCurve_def Let_def io_defs request_defs fields
        code demo_contracts_def truthy_def resolveCurveAddress_def equalAddresses_def)
  then obtain a t where "readCurveAvailability demo_curve ''0xt'' [] = (Inr (Some a), t)" by blast
  with readCurveAvailability_established[OF this] show ?thesis by auto
qed

end
