(* ===== verification/ActiveWallet.thy ===== *)
theory ActiveWallet
  imports ChainGate
begin

text \<open>
  The external wallet: configuration of the wallet kit and the request that switches a wallet to Arc
  (\<^verbatim>\<open>lib/wallet.ts\<close>), and the status the provider derives from the connection
  (\<^verbatim>\<open>providers/active-wallet-provider.tsx\<close>), which decides whether a transaction may be signed.
\<close>

subsection \<open>Wallet kit configuration\<close>

datatype reown_configuration = Configured string | NotConfigured string

definition placeholder_pattern :: "string list" where
  "placeholder_pattern =
     [''replace'', ''example'', ''yourreown'', ''yourproject'', ''your_reown'', ''your_project'',
      ''your-reown'', ''your-project'', ''changeme'']"

text \<open>\<^verbatim>\<open>/^[a-zA-Z0-9_-]{16,128}$/\<close>.\<close>

definition project_id_pattern :: "string \<Rightarrow> bool" where
  "project_id_pattern s \<longleftrightarrow> 16 \<le> length s \<and> length s \<le> 128
     \<and> list_all (\<lambda>c. is_alpha c \<or> is_digit c \<or> c = CHR ''_'' \<or> c = CHR ''-'') s"

definition resolveReownProjectId :: "string option \<Rightarrow> reown_configuration" where
  "resolveReownProjectId value =
     (let projectId = (case value of None \<Rightarrow> '''' | Some v \<Rightarrow> js_trim v) in
      if projectId = [] then NotConfigured ''NEXT_PUBLIC_REOWN_PROJECT_ID is missing.''
      else if matches_any_ci placeholder_pattern projectId
      then NotConfigured ''NEXT_PUBLIC_REOWN_PROJECT_ID still contains a placeholder.''
      else if \<not> project_id_pattern projectId
      then NotConfigured ''NEXT_PUBLIC_REOWN_PROJECT_ID has an invalid format.''
      else Configured projectId)"

text \<open>What the client reads of a parsed URL.\<close>

record url =
  url_protocol :: string
  url_username :: string
  url_password :: string
  url_hostname :: string
  url_origin :: string
  url_href :: string

record app_metadata =
  md_name :: string
  md_description :: string
  md_url :: string
  md_icons :: "string list"

definition resolveAppMetadata ::
    "(string \<Rightarrow> url option) \<Rightarrow> string option \<Rightarrow> string option \<Rightarrow> app_metadata result" where
  "resolveAppMetadata parseURL nameValue urlValue =
     (let name = trimmed_or nameValue ''Cooket''; u = trimmed_or urlValue ''http://localhost:3200'' in
      case parseURL u of
        None \<Rightarrow> Inl (Err ''NEXT_PUBLIC_APP_URL must be an absolute http(s) URL for Reown AppKit metadata.'')
      | Some parsed \<Rightarrow>
          try_bind (throw_if (url_protocol parsed \<noteq> ''http:'' \<and> url_protocol parsed \<noteq> ''https:'')
            ''NEXT_PUBLIC_APP_URL must use http or https for Reown AppKit metadata.'') (\<lambda>_.
          Inr \<lparr>md_name = name,
               md_description = ''Cooket is an Arc-native token launch protocol in testnet development.'',
               md_url = url_origin parsed,
               md_icons = [url_origin parsed @ ''/brand/cooket-icon.png'']\<rparr>))"

definition adapterProjectId :: "reown_configuration \<Rightarrow> string" where
  "adapterProjectId p =
     (case p of Configured projectId \<Rightarrow> projectId | NotConfigured _ \<Rightarrow> replicate 32 (CHR ''0''))"

text \<open>\<^verbatim>\<open>n.toString(16)\<close> of a nonnegative integer.\<close>

fun hex_text :: "nat \<Rightarrow> string" where
  "hex_text n =
     (let d = (if n mod 16 < 10 then digit_char (n mod 16) else char_of (87 + n mod 16)) in
      if n < 16 then [d] else hex_text (n div 16) @ [d])"

declare hex_text.simps [simp del]

definition arc_chain_parameter :: "chain_module \<Rightarrow> string" where
  "arc_chain_parameter m = ''0x'' @ hex_text (nat (selectedCooketChainId m))"

subsection \<open>Switching an external wallet to Arc\<close>

text \<open>
  A rejection of the provider is an object that may carry a \<^verbatim>\<open>code\<close> and a \<^verbatim>\<open>cause\<close>. The
  objects live in a store, because the code follows \<^verbatim>\<open>cause\<close> by reference and compares it with
  the object itself. A longer cycle of causes is followed for ever: that is \<^verbatim>\<open>None\<close>.
\<close>

record reason_object =
  ro_code :: "int option"
  ro_cause :: "nat option"

type_synonym reason_store = "nat \<Rightarrow> reason_object option"

partial_function (option) providerErrorCode ::
    "reason_store \<Rightarrow> nat option \<Rightarrow> int option option" where
  "providerErrorCode store reason =
     (case reason of
        None \<Rightarrow> Some None
      | Some r \<Rightarrow>
          (case store r of
             None \<Rightarrow> Some None
           | Some obj \<Rightarrow>
               (case ro_code obj of
                  Some c \<Rightarrow> Some (Some c)
                | None \<Rightarrow> if ro_cause obj = Some r then Some None
                          else providerErrorCode store (ro_cause obj))))"

declare providerErrorCode.simps [code]

datatype provider_request = SwitchChain string | AddChain string

text \<open>The provider answers each request, given those before it, with success or a rejection. The
  result is the rejection that leaves the function, if any, and the requests made.\<close>

definition switchExternalWalletToArc ::
    "chain_module \<Rightarrow> reason_store \<Rightarrow> (provider_request list \<Rightarrow> nat option)
       \<Rightarrow> (nat option \<times> provider_request list) option" where
  "switchExternalWalletToArc m store provider =
     (let switch = SwitchChain (arc_chain_parameter m); add = AddChain (arc_chain_parameter m) in
      case provider [switch] of
        None \<Rightarrow> Some (None, [switch])
      | Some reason \<Rightarrow>
          (case providerErrorCode store (Some reason) of
             None \<Rightarrow> None
           | Some code \<Rightarrow>
               if code \<noteq> Some 4902 then Some (Some reason, [switch])
               else (case provider [switch, add] of
                       Some r \<Rightarrow> Some (Some r, [switch, add])
                     | None \<Rightarrow> Some (provider [switch, add, switch], [switch, add, switch]))))"

text \<open>A finite chain of causes that ends in the object holding the code.\<close>

inductive reaches_code :: "reason_store \<Rightarrow> nat \<Rightarrow> int option \<Rightarrow> bool" for store where
  here: "store r = Some obj \<Longrightarrow> ro_code obj = Some c \<Longrightarrow> reaches_code store r (Some c)"
| unknown: "store r = None \<Longrightarrow> reaches_code store r None"
| top: "store r = Some obj \<Longrightarrow> ro_code obj = None \<Longrightarrow> ro_cause obj = None \<Longrightarrow> reaches_code store r None"
| own: "store r = Some obj \<Longrightarrow> ro_code obj = None \<Longrightarrow> ro_cause obj = Some r \<Longrightarrow> reaches_code store r None"
| through: "store r = Some obj \<Longrightarrow> ro_code obj = None \<Longrightarrow> ro_cause obj = Some r' \<Longrightarrow> r' \<noteq> r
    \<Longrightarrow> reaches_code store r' c \<Longrightarrow> reaches_code store r c"

lemma providerErrorCode_reaches:
  assumes "reaches_code store r c"
  shows "providerErrorCode store (Some r) = Some c"
  using assms
proof induction
  case (through r obj r' c)
  then show ?case by (subst providerErrorCode.simps) simp
qed (subst providerErrorCode.simps, simp add: providerErrorCode.simps[of _ None])+

lemma providerErrorCode_sound:
  "providerErrorCode store reason = Some c
   \<Longrightarrow> case reason of None \<Rightarrow> c = None | Some r \<Rightarrow> reaches_code store r c"
proof (induction rule: providerErrorCode.raw_induct[rotated 1, consumes 1])
  case (1 rec store reason c)
  show ?case
  proof (cases reason)
    case None
    then show ?thesis using "1"(2) by simp
  next
    case (Some r)
    note body = "1"(2)[unfolded Some option.case]
    show ?thesis
    proof (cases "store r")
      case None
      then show ?thesis using body Some by (auto intro: reaches_code.intros)
    next
      case obj: (Some obj)
      show ?thesis
      proof (cases "ro_code obj = None \<and> ro_cause obj \<noteq> Some r")
        case True
        then have "rec store (ro_cause obj) = Some c" using body obj by simp
        from "1"(1)[OF this] show ?thesis using obj True Some
          by (cases "ro_cause obj") (auto intro: reaches_code.intros)
      next
        case False
        then show ?thesis using body obj Some
          by (cases "ro_code obj") (auto intro: reaches_code.intros)
      qed
    qed
  qed
qed

lemma providerErrorCode_iff:
  "providerErrorCode store (Some r) = Some c \<longleftrightarrow> reaches_code store r c"
  using providerErrorCode_reaches providerErrorCode_sound by fastforce

text \<open>When the provider's rejection leads, through a finite chain of causes, to the code 4902
  (chain unknown to the wallet), the client asks the wallet to add Arc and then to switch again, and
  whatever those two requests answer is the outcome; with any other code, or none, the rejection is
  rethrown after the single switch request and nothing is added; an accepted switch needs nothing
  more.\<close>

theorem switch_to_arc_outcomes:
  fixes m store provider
  defines "switch \<equiv> SwitchChain (arc_chain_parameter m)"
    and "add \<equiv> AddChain (arc_chain_parameter m)"
  shows "(provider [switch] = None \<longrightarrow>
      switchExternalWalletToArc m store provider = Some (None, [switch]))
    \<and> (provider [switch] = Some r \<and> reaches_code store r c \<longrightarrow>
      switchExternalWalletToArc m store provider = Some
        (if c \<noteq> Some 4902 then (Some r, [switch])
         else if provider [switch, add] = None
         then (provider [switch, add, switch], [switch, add, switch])
         else (provider [switch, add], [switch, add])))"
proof -
  have "providerErrorCode store (Some r) = Some c" if "reaches_code store r c"
    using that by (rule providerErrorCode_reaches)
  then show ?thesis
    by (auto simp: switchExternalWalletToArc_def Let_def switch_def add_def split: option.splits)
qed

text \<open>A rejection whose causes form a longer cycle keeps the search going for ever.\<close>

lemma mutual_causes_diverge:
  assumes "r \<noteq> r'" and "store r = Some \<lparr>ro_code = None, ro_cause = Some r'\<rparr>"
    and "store r' = Some \<lparr>ro_code = None, ro_cause = Some r\<rparr>"
  shows "providerErrorCode store (Some r) = None"
proof -
  have "\<not> (q = r \<or> q = r')" if "reaches_code store q c" for q c
    using that by induction (use assms in auto)
  then show ?thesis using providerErrorCode_iff[of store r] by (cases "providerErrorCode store (Some r)") auto
qed

theorem switch_to_arc_outcomes_witness:
  "switchExternalWalletToArc sample_module
     (\<lambda>r. if r = 0 then Some \<lparr>ro_code = None, ro_cause = Some 2\<rparr>
          else Some \<lparr>ro_code = Some 4902, ro_cause = None\<rparr>)
     (\<lambda>reqs. if length reqs = 1 then Some 0 else None)
   = Some (None, [SwitchChain (arc_chain_parameter sample_module),
       AddChain (arc_chain_parameter sample_module), SwitchChain (arc_chain_parameter sample_module)])"
proof -
  let ?store = "\<lambda>r :: nat. if r = 0 then Some \<lparr>ro_code = None, ro_cause = Some 2\<rparr>
          else Some \<lparr>ro_code = Some 4902, ro_cause = None\<rparr>"
  have "reaches_code ?store 2 (Some 4902)" 
    by (rule reaches_code.here[where obj = "\<lparr>ro_code = Some 4902, ro_cause = None\<rparr>"]) simp_all
  then have "reaches_code ?store 0 (Some 4902)"
    by (rule reaches_code.through[rotated 4, where r' = 2 and obj = "\<lparr>ro_code = None, ro_cause = Some 2\<rparr>"]) simp_all
  then show ?thesis
    using switch_to_arc_outcomes[where provider = "\<lambda>reqs. if length reqs = 1 then Some 0 else None"
        and m = sample_module and store = ?store and r = 0 and c = "Some 4902"] by simp
qed

subsection \<open>The status of the active wallet\<close>

datatype account_status = AccConnected | AccConnecting | AccDisconnected | AccReconnecting

datatype wallet_status =
    SdkNotReady | Disconnected | WalletLoading | WalletReady | WrongNetwork | SignerMismatch
  | InitializationError | Disconnecting

record status_input =
  si_accountStatus :: account_status
  si_isConnected :: bool
  si_hasActiveAddress :: bool
  si_activeChainId :: "int option"
  si_hasWalletClient :: bool
  si_signerMatches :: bool
  si_clientChainMatches :: bool
  si_initializationError :: bool
  si_disconnecting :: bool

definition deriveActiveWalletStatus :: "chain_module \<Rightarrow> status_input \<Rightarrow> wallet_status" where
  "deriveActiveWalletStatus m i =
     (if si_disconnecting i then Disconnecting
      else if si_initializationError i then InitializationError
      else if si_accountStatus i = AccConnecting \<or> si_accountStatus i = AccReconnecting then SdkNotReady
      else if \<not> si_isConnected i then Disconnected
      else if \<not> si_hasActiveAddress i then SignerMismatch
      else if si_activeChainId i \<noteq> Some (selectedCooketChainId m) then WrongNetwork
      else if \<not> si_hasWalletClient i then WalletLoading
      else if \<not> si_signerMatches i \<or> \<not> si_clientChainMatches i then SignerMismatch
      else WalletReady)"

text \<open>What wagmi's hooks report of the account and of the wallet client.\<close>

record wallet_hooks =
  wh_status :: account_status
  wh_isConnected :: bool
  wh_address :: "string option"
  wh_chainId :: "int option"
  wh_clientAccount :: "string option option"
  wh_clientChain :: "int option"
  wh_clientError :: bool
  wh_disconnecting :: bool

record active_wallet =
  aw_connected :: bool
  aw_activeAddress :: "string option"
  aw_activeChainId :: "int option"
  aw_ready :: bool
  aw_status :: wallet_status
  aw_canTransact :: bool
  aw_hasClient :: bool

text \<open>\<^verbatim>\<open>isAddress\<close> and \<^verbatim>\<open>getAddress\<close> are viem's.\<close>

definition normalizedAddress ::
    "(string \<Rightarrow> bool) \<Rightarrow> (string \<Rightarrow> string result) \<Rightarrow> string option \<Rightarrow> string option" where
  "normalizedAddress isAddress getAddress value =
     (case value of
        None \<Rightarrow> None
      | Some v \<Rightarrow> if v \<noteq> [] \<and> isAddress v
                  then (case getAddress v of Inl _ \<Rightarrow> None | Inr a \<Rightarrow> Some a) else None)"

text \<open>The outer option of \<^verbatim>\<open>wh_clientAccount\<close> is the wallet client, the inner one its account.\<close>

definition signerMatches ::
    "(string \<Rightarrow> bool) \<Rightarrow> (string \<Rightarrow> string result) \<Rightarrow> string option \<Rightarrow> string option option \<Rightarrow> bool" where
  "signerMatches isAddress getAddress activeAddress client =
     (case client of
        Some (Some b) \<Rightarrow>
          (case (activeAddress, normalizedAddress isAddress getAddress (Some b)) of
             (Some x, Some y) \<Rightarrow> same_address x y | _ \<Rightarrow> False)
      | _ \<Rightarrow> False)"

definition status_of_hooks ::
    "(string \<Rightarrow> bool) \<Rightarrow> (string \<Rightarrow> string result) \<Rightarrow> wallet_hooks \<Rightarrow> status_input" where
  "status_of_hooks isAddress getAddress h =
     (let activeAddress = (if wh_isConnected h then normalizedAddress isAddress getAddress (wh_address h) else None);
          activeChainId = (if wh_isConnected h then wh_chainId h else None)
      in \<lparr>si_accountStatus = wh_status h, si_isConnected = wh_isConnected h,
          si_hasActiveAddress = (activeAddress \<noteq> None), si_activeChainId = activeChainId,
          si_hasWalletClient = (wh_clientAccount h \<noteq> None),
          si_signerMatches = signerMatches isAddress getAddress activeAddress (wh_clientAccount h),
          si_clientChainMatches = (case activeChainId of
             Some c \<Rightarrow> c \<noteq> 0 \<and> wh_clientAccount h \<noteq> None \<and> wh_clientChain h = Some c | None \<Rightarrow> False),
          si_initializationError = wh_clientError h, si_disconnecting = wh_disconnecting h\<rparr>)"

definition activeWallet ::
    "chain_module \<Rightarrow> (string \<Rightarrow> bool) \<Rightarrow> (string \<Rightarrow> string result) \<Rightarrow> wallet_hooks \<Rightarrow> active_wallet" where
  "activeWallet m isAddress getAddress h =
     (let activeAddress = (if wh_isConnected h then normalizedAddress isAddress getAddress (wh_address h) else None);
          status = deriveActiveWalletStatus m (status_of_hooks isAddress getAddress h)
      in \<lparr>aw_connected = (wh_isConnected h \<and> activeAddress \<noteq> None), aw_activeAddress = activeAddress,
          aw_activeChainId = (if wh_isConnected h then wh_chainId h else None),
          aw_ready = (wh_status h \<noteq> AccConnecting \<and> wh_status h \<noteq> AccReconnecting),
          aw_status = status, aw_canTransact = (status = WalletReady),
          aw_hasClient = (status = WalletReady \<and> wh_clientAccount h \<noteq> None)\<rparr>)"

definition canUseActiveWallet :: "chain_module \<Rightarrow> int option \<Rightarrow> bool \<Rightarrow> bool" where
  "canUseActiveWallet m chainId isConnected \<longleftrightarrow> isConnected \<and> chainId = Some (selectedCooketChainId m)"

definition ellipsis :: string where
  "ellipsis = [char_of (226 :: nat), char_of (128 :: nat), char_of (166 :: nat)]"

fun activeWalletStatusMessage :: "chain_module \<Rightarrow> wallet_status \<Rightarrow> string" where
  "activeWalletStatusMessage m SdkNotReady = ''Restoring the external wallet connection'' @ ellipsis"
| "activeWalletStatusMessage m Disconnected = ''Connect an external EVM wallet to continue.''"
| "activeWalletStatusMessage m WalletLoading = ''Preparing the active external wallet'' @ ellipsis"
| "activeWalletStatusMessage m WalletReady = ''External wallet ready.''"
| "activeWalletStatusMessage m WrongNetwork =
     ''Switch the active wallet to '' @ selectedCooketChainName m @ '' (''
       @ int_text (selectedCooketChainId m) @ '').''"
| "activeWalletStatusMessage m SignerMismatch =
     ''The displayed address and transaction signer do not match. Reconnect the wallet before continuing.''"
| "activeWalletStatusMessage m InitializationError = ''External wallet integration could not initialize.''"
| "activeWalletStatusMessage m Disconnecting = ''Disconnecting wallet'' @ ellipsis"

definition actionErrorMessage :: "string \<Rightarrow> js_error \<Rightarrow> string" where
  "actionErrorMessage prefix reason =
     prefix @ (case reason of JsError n msg \<Rightarrow> (if msg = [] then ''.'' else '': '' @ msg) | JsOther _ \<Rightarrow> ''.'')"

text \<open>\<^verbatim>\<open>address.slice(0, 6)\<close>, an ellipsis, \<^verbatim>\<open>address.slice(-4)\<close>.\<close>

definition truncateAddress :: "string \<Rightarrow> string" where
  "truncateAddress address = take 6 address @ ellipsis @ drop (length address - 4) address"

lemma status_ready_iff:
  "deriveActiveWalletStatus m i = WalletReady \<longleftrightarrow>
     \<not> si_disconnecting i \<and> \<not> si_initializationError i
     \<and> si_accountStatus i \<notin> {AccConnecting, AccReconnecting} \<and> si_isConnected i
     \<and> si_hasActiveAddress i \<and> si_activeChainId i = Some (selectedCooketChainId m)
     \<and> si_hasWalletClient i \<and> si_signerMatches i \<and> si_clientChainMatches i"
  by (simp add: deriveActiveWalletStatus_def)

lemma normalizedAddress_Some:
  assumes "checksums getAddress"
  shows "normalizedAddress isAddress getAddress v = Some x \<longleftrightarrow>
     (\<exists>a. v = Some a \<and> isAddress a \<and> address_pattern a \<and> getAddress a = Inr x \<and> same_address x a)"
proof (cases v)
  case None
  then show ?thesis by (simp add: normalizedAddress_def)
next
  case (Some a)
  have "a \<noteq> []" if "address_pattern a" using that by (auto simp: address_pattern_def hex_pattern_def)
  then show ?thesis using Some checksums_same[OF assms, of a x]
    by (auto simp: normalizedAddress_def split: sum.splits)
qed

lemma signerMatches_iff:
  assumes "checksums getAddress"
  shows "signerMatches isAddress getAddress (normalizedAddress isAddress getAddress v) client \<longleftrightarrow>
    (\<exists>a b. v = Some a \<and> client = Some (Some b) \<and> isAddress a \<and> isAddress b
       \<and> address_pattern a \<and> address_pattern b \<and> same_address a b)" (is "?L \<longleftrightarrow> ?R")
proof
  assume ?L
  then obtain b x y where b: "client = Some (Some b)"
    and x: "normalizedAddress isAddress getAddress v = Some x"
    and y: "normalizedAddress isAddress getAddress (Some b) = Some y" and xy: "same_address x y"
    by (auto simp: signerMatches_def split: option.splits)
  from x y obtain a where "v = Some a" "isAddress a" "address_pattern a" "same_address x a"
      "isAddress b" "address_pattern b" "same_address y b"
    unfolding normalizedAddress_Some[OF assms] by blast
  with b xy show ?R by (auto simp: same_address_def)
next
  assume ?R
  then obtain a b where ab: "v = Some a" "client = Some (Some b)" "isAddress a" "isAddress b"
    "address_pattern a" "address_pattern b" "same_address a b" by blast
  obtain x y where "getAddress a = Inr x" "same_address x a" "getAddress b = Inr y" "same_address y b"
    using assms ab unfolding checksums_def by metis
  then have "normalizedAddress isAddress getAddress v = Some x"
    "normalizedAddress isAddress getAddress (Some b) = Some y" "same_address x y"
    using ab normalizedAddress_Some[OF assms] by (auto simp: same_address_def)
  with ab show ?L by (simp add: signerMatches_def)
qed

text \<open>The provider lets a transaction through exactly when the account is settled and connected,
  no error or disconnection is pending, the connection is on the selected chain, and the wallet client
  signs for the displayed address on that same chain; only then is a wallet client handed out, and a
  displayed address is always a checksummed spelling of the connected one.\<close>

theorem active_wallet_ready:
  fixes h isAddress
  assumes "checksums getAddress" and "selectedCooketChainId m \<noteq> 0"
  defines "w \<equiv> activeWallet m isAddress getAddress h"
  shows "(aw_canTransact w \<longleftrightarrow>
      \<not> wh_disconnecting h \<and> \<not> wh_clientError h
      \<and> wh_status h \<notin> {AccConnecting, AccReconnecting} \<and> wh_isConnected h
      \<and> wh_chainId h = Some (selectedCooketChainId m)
      \<and> wh_clientChain h = Some (selectedCooketChainId m)
      \<and> (\<exists>a b. wh_address h = Some a \<and> wh_clientAccount h = Some (Some b)
           \<and> isAddress a \<and> isAddress b \<and> address_pattern a \<and> address_pattern b \<and> same_address a b))
    \<and> aw_hasClient w = aw_canTransact w
    \<and> (\<forall>x. aw_activeAddress w = Some x \<longrightarrow>
         (\<exists>a. wh_address h = Some a \<and> getAddress a = Inr x \<and> same_address x a))"
proof -
  let ?n = "normalizedAddress isAddress getAddress (wh_address h)"
  have has: "?n \<noteq> None" "wh_clientAccount h \<noteq> None"
    if "signerMatches isAddress getAddress ?n (wh_clientAccount h)"
    using that by (auto simp: signerMatches_def split: option.splits)
  have can: "aw_canTransact w \<longleftrightarrow> \<not> wh_disconnecting h \<and> \<not> wh_clientError h
      \<and> wh_status h \<notin> {AccConnecting, AccReconnecting} \<and> wh_isConnected h
      \<and> wh_chainId h = Some (selectedCooketChainId m)
      \<and> wh_clientChain h = Some (selectedCooketChainId m)
      \<and> signerMatches isAddress getAddress ?n (wh_clientAccount h)"
    using has assms(2)
    by (auto simp: w_def activeWallet_def Let_def status_ready_iff status_of_hooks_def)
  have "aw_hasClient w = aw_canTransact w"
    using has by (auto simp: w_def activeWallet_def Let_def status_ready_iff status_of_hooks_def)
  moreover have "\<forall>x. aw_activeAddress w = Some x \<longrightarrow>
         (\<exists>a. wh_address h = Some a \<and> getAddress a = Inr x \<and> same_address x a)"
    using normalizedAddress_Some[OF assms(1)] by (auto simp: w_def activeWallet_def Let_def)
  ultimately show ?thesis using can unfolding signerMatches_iff[OF assms(1)] by blast
qed

definition sample_address :: string where
  "sample_address = ''0x'' @ replicate 40 (CHR ''a'')"

definition ready_hooks :: wallet_hooks where
  "ready_hooks = \<lparr>wh_status = AccConnected, wh_isConnected = True,
     wh_address = Some (''0x'' @ replicate 40 (CHR ''A'')), wh_chainId = Some 5042002,
     wh_clientAccount = Some (Some sample_address), wh_clientChain = Some 5042002,
     wh_clientError = False, wh_disconnecting = False\<rparr>"

theorem active_wallet_ready_witness:
  "aw_hasClient (activeWallet sample_module address_pattern lower_checksum ready_hooks)"
proof -
  have p: "address_pattern (''0x'' @ replicate 40 (CHR ''A''))" "address_pattern sample_address"
    "same_address (''0x'' @ replicate 40 (CHR ''A'')) sample_address"
    "selectedCooketChainId sample_module = 5042002"
    by code_simp+
  then show ?thesis
    using active_wallet_ready[OF checksums_lower, of sample_module address_pattern ready_hooks]
    by (simp add: ready_hooks_def)
qed

end
