(* ===== verification/CreateInput.thy ===== *)
theory CreateInput
  imports ActiveWallet JsDouble
begin

text \<open>
  The input of a token launch (\<^verbatim>\<open>lib/transactions.ts\<close>): validation of the form, the exact
  decimal parsing of the optional first buy, and the two URL checks. \<^verbatim>\<open>new URL\<close> is a
  parameter that answers nothing where the constructor throws. Texts are UTF-8 bytes, so the
  \<^verbatim>\<open>TextEncoder\<close> limits are plain lengths and \<^verbatim>\<open>.length\<close> counts UTF-16 units.
\<close>

subsection \<open>The first buy\<close>

text \<open>\<^verbatim>\<open>/^\d+(?:\.\d+)?$/\<close>.\<close>

definition decimal_pattern :: "string \<Rightarrow> bool" where
  "decimal_pattern s =
     (case split_dot s of (w, None) \<Rightarrow> all_digits w | (w, Some f) \<Rightarrow> all_digits w \<and> all_digits f)"

definition parseDevBuyNativeUsdcAmount :: "string \<Rightarrow> int result" where
  "parseDevBuyNativeUsdcAmount v =
     (let trimmed = js_trim v in
      if trimmed = [] then Inr 0
      else try_bind (throw_if (\<not> decimal_pattern trimmed)
          ''Enter a valid non-negative native USDC amount without scientific notation.'') (\<lambda>_.
        case split_dot trimmed of (whole, rest) \<Rightarrow>
          let fraction = (case rest of None \<Rightarrow> '''' | Some f \<Rightarrow> f) in
          try_bind (throw_if (18 < length fraction) ''Native USDC amounts support at most 18 decimal places.'') (\<lambda>_.
            Inr (int (digits_value whole) * 1000000000000000000
               + int (digits_value (take 18 (fraction @ replicate 18 CHR ''0'')))))))"

lemma digits_value_pad: "digits_value (f @ replicate n CHR ''0'') = digits_value f * 10 ^ n"
proof -
  have "digits_value (replicate n CHR ''0'') = 0"
    by (induction n) (simp_all add: digits_value_Cons digit_value_def)
  then show ?thesis by (simp add: digits_value_append)
qed

lemma take_pad: "length f \<le> 18 \<Longrightarrow> take 18 (f @ replicate 18 c) = f @ replicate (18 - length f) c"
  by (simp add: min_def)

text \<open>The scaled fraction is the fraction, exactly.\<close>

lemma scaled_fraction:
  assumes "length f \<le> 18"
  shows "(of_nat (digits_value (take 18 (f @ replicate 18 CHR ''0''))) :: rat)
    = of_nat (digits_value f) / 10 ^ length f * 1000000000000000000"
proof -
  have "(10::rat) ^ 18 = 10 ^ length f * 10 ^ (18 - length f)"
    using assms by (simp flip: power_add)
  moreover have "(10::rat) ^ 18 = 1000000000000000000" by simp
  ultimately show ?thesis using assms by (simp add: take_pad digits_value_pad field_simps)
qed

text \<open>The first buy's amount is read exactly: an empty text is zero, otherwise the text is a plain
  decimal with at most 18 places, and the amount in base units is its value times 10^18, with nothing
  rounded; every other text is refused.\<close>

theorem parseDevBuy_exact:
  "parseDevBuyNativeUsdcAmount v = Inr n \<longleftrightarrow>
     (if js_trim v = [] then n = 0
      else decimal_pattern (js_trim v)
        \<and> length (case snd (split_dot (js_trim v)) of None \<Rightarrow> '''' | Some f \<Rightarrow> f) \<le> 18
        \<and> rat_of_int n = decimal_value (js_trim v) * 10 ^ 18)"
proof (cases "js_trim v = []")
  case True
  then show ?thesis by (auto simp: parseDevBuyNativeUsdcAmount_def)
next
  case False
  obtain w rest where s: "split_dot (js_trim v) = (w, rest)" by (cases "split_dot (js_trim v)")
  define f where "f = (case rest of None \<Rightarrow> '''' | Some f \<Rightarrow> f)"
  define m where "m = int (digits_value w) * 1000000000000000000
     + int (digits_value (take 18 (f @ replicate 18 CHR ''0'')))"
  have exact: "rat_of_int m = decimal_value (js_trim v) * 10 ^ 18" if "length f \<le> 18"
    using scaled_fraction[OF that] s
    by (cases rest) (simp_all add: m_def f_def decimal_value_def algebra_simps digits_value_pad)
  have "parseDevBuyNativeUsdcAmount v = Inr n \<longleftrightarrow> decimal_pattern (js_trim v) \<and> length f \<le> 18 \<and> n = m"
    using False s by (auto simp: parseDevBuyNativeUsdcAmount_def Let_def f_def m_def try_bind_Inr_iff)
  moreover have "n = m \<longleftrightarrow> rat_of_int n = decimal_value (js_trim v) * 10 ^ 18" if "length f \<le> 18"
    using exact[OF that] by (metis of_int_eq_iff)
  ultimately show ?thesis using False s by (auto simp: f_def)
qed

subsection \<open>URLs\<close>

text \<open>\<^verbatim>\<open>text.length\<close>, in UTF-16 units, of a text in UTF-8.\<close>

definition utf16_units :: "char \<Rightarrow> nat" where
  "utf16_units c = (let n = code_of c in if n < 128 then 1 else if n < 192 then 0 else if n < 240 then 1 else 2)"

definition utf16_length :: "string \<Rightarrow> nat" where
  "utf16_length s = sum_list (map utf16_units s)"

definition ends_with :: "string \<Rightarrow> string \<Rightarrow> bool" where
  "ends_with s suffix \<longleftrightarrow> length suffix \<le> length s \<and> drop (length s - length suffix) s = suffix"

definition isHTTPSImageURL :: "(string \<Rightarrow> url option) \<Rightarrow> string \<Rightarrow> bool" where
  "isHTTPSImageURL parseURL v =
     (case parseURL v of
        None \<Rightarrow> False
      | Some parsed \<Rightarrow> url_protocol parsed = ''https:'' \<and> url_username parsed = [] \<and> url_password parsed = []
          \<and> url_hostname parsed \<noteq> [] \<and> utf16_length v \<le> 2048)"

definition host_allowed :: "string list \<Rightarrow> string \<Rightarrow> bool" where
  "host_allowed hosts hostname \<longleftrightarrow>
     list_ex (\<lambda>host. js_lower hostname = host \<or> ends_with (js_lower hostname) (''.'' @ host)) hosts"

definition url_label :: "string \<Rightarrow> string" where
  "url_label field =
     (if field = ''xUrl'' then ''X/Twitter'' else if field = ''telegramUrl'' then ''Telegram''
      else if field = ''discordUrl'' then ''Discord'' else ''Website'')"

definition url_refused :: "(string \<Rightarrow> url option) \<Rightarrow> string \<Rightarrow> string list option \<Rightarrow> bool" where
  "url_refused parseURL trimmed allowedHosts =
     (case parseURL trimmed of
        None \<Rightarrow> True
      | Some parsed \<Rightarrow>
          (url_protocol parsed \<noteq> ''http:'' \<and> url_protocol parsed \<noteq> ''https:'')
          \<or> url_username parsed \<noteq> [] \<or> url_password parsed \<noteq> [] \<or> url_hostname parsed = []
          \<or> 2048 < utf16_length trimmed
          \<or> (case allowedHosts of None \<Rightarrow> False | Some hosts \<Rightarrow> \<not> host_allowed hosts (url_hostname parsed)))"

type_synonym form_errors = "(string \<times> string) list"

definition validateOptionalURL ::
    "(string \<Rightarrow> url option) \<Rightarrow> string \<Rightarrow> string \<Rightarrow> string list option \<Rightarrow> form_errors \<Rightarrow> form_errors" where
  "validateOptionalURL parseURL v field allowedHosts errors =
     (let trimmed = js_trim v in
      if trimmed = [] then errors
      else if url_refused parseURL trimmed allowedHosts
      then errors @ [(field, url_label field @ '' must be a valid ''
             @ (if allowedHosts \<noteq> None then ''matching '' else '''') @ ''http or https URL.'')]
      else errors)"

subsection \<open>The form\<close>

datatype image_source = ImageFile | ImageUrl

record image_file =
  if_type :: string
  if_size :: int

record create_input =
  ci_name :: string
  ci_symbol :: string
  ci_description :: string
  ci_websiteUrl :: string
  ci_xUrl :: string
  ci_telegramUrl :: string
  ci_discordUrl :: string
  ci_imageFile :: "image_file option"
  ci_imageUrl :: string
  ci_imageSource :: image_source
  ci_devBuyNativeUsdc :: string

definition MAX_IMAGE_BYTES :: int where
  "MAX_IMAGE_BYTES = 5 * 1024 * 1024"

definition ACCEPTED_IMAGE_TYPES :: "string list" where
  "ACCEPTED_IMAGE_TYPES = [''image/png'', ''image/jpeg'', ''image/webp'', ''image/gif'']"

definition x_hosts :: "string list" where "x_hosts = [''x.com'', ''twitter.com'']"
definition telegram_hosts :: "string list" where "telegram_hosts = [''t.me'', ''telegram.me'']"
definition discord_hosts :: "string list" where "discord_hosts = [''discord.gg'', ''discord.com'']"

definition image_error :: "(string \<Rightarrow> url option) \<Rightarrow> create_input \<Rightarrow> string option" where
  "image_error parseURL input =
     (case ci_imageSource input of
        ImageFile \<Rightarrow>
          (case ci_imageFile input of
             None \<Rightarrow> Some ''Select a token image.''
           | Some f \<Rightarrow>
               if if_type f \<notin> set ACCEPTED_IMAGE_TYPES then Some ''Use PNG, JPEG, WebP, or GIF.''
               else if MAX_IMAGE_BYTES < if_size f then Some ''Image must be at most 5 MB.'' else None)
      | ImageUrl \<Rightarrow>
          let imageURL = js_trim (ci_imageUrl input) in
          if imageURL = [] then Some ''Enter an image URL.''
          else if \<not> isHTTPSImageURL parseURL imageURL then Some ''Image URL must use HTTPS.'' else None)"

definition with_error :: "string \<Rightarrow> string option \<Rightarrow> form_errors \<Rightarrow> form_errors" where
  "with_error field found errors = (case found of None \<Rightarrow> errors | Some m \<Rightarrow> errors @ [(field, m)])"

definition validateCreateToken :: "(string \<Rightarrow> url option) \<Rightarrow> create_input \<Rightarrow> form_errors" where
  "validateCreateToken parseURL input =
     (let name = js_trim (ci_name input);
          symbol = js_trim (ci_symbol input);
          description = js_trim (ci_description input);
          e1 = with_error ''name'' (if name = [] \<or> 64 < length name
                 then Some ''Name must be between 1 and 64 bytes.'' else None) [];
          e2 = with_error ''symbol'' (if symbol = [] \<or> 16 < length symbol
                 then Some ''Symbol must be between 1 and 16 bytes.'' else None) e1;
          e3 = with_error ''description'' (if 1000 < length description
                 then Some ''About must be at most 1000 bytes.'' else None) e2;
          e4 = validateOptionalURL parseURL (ci_websiteUrl input) ''websiteUrl'' None e3;
          e5 = validateOptionalURL parseURL (ci_xUrl input) ''xUrl'' (Some x_hosts) e4;
          e6 = validateOptionalURL parseURL (ci_telegramUrl input) ''telegramUrl'' (Some telegram_hosts) e5;
          e7 = validateOptionalURL parseURL (ci_discordUrl input) ''discordUrl'' (Some discord_hosts) e6;
          e8 = with_error ''image'' (image_error parseURL input) e7
      in if js_trim (ci_devBuyNativeUsdc input) = [] then e8
         else (case parseDevBuyNativeUsdcAmount (ci_devBuyNativeUsdc input) of
                 Inr n \<Rightarrow> e8
               | Inl e \<Rightarrow> with_error ''devBuyNativeUsdc'' (Some (error_text e)) e8))"

text \<open>What an accepted optional link is.\<close>

definition link_ok :: "(string \<Rightarrow> url option) \<Rightarrow> string \<Rightarrow> string list option \<Rightarrow> bool" where
  "link_ok parseURL v allowedHosts \<longleftrightarrow> js_trim v = [] \<or> \<not> url_refused parseURL (js_trim v) allowedHosts"

lemma validateOptionalURL_Nil:
  "validateOptionalURL parseURL v field hosts errors = [] \<longleftrightarrow> errors = [] \<and> link_ok parseURL v hosts"
  by (auto simp: validateOptionalURL_def link_ok_def Let_def)

lemma with_error_Nil: "with_error field found errors = [] \<longleftrightarrow> errors = [] \<and> found = None"
  by (auto simp: with_error_def split: option.splits)

lemma link_ok_social:
  assumes "link_ok parseURL v (Some hosts)" and "js_trim v \<noteq> []"
  shows "\<exists>u. parseURL (js_trim v) = Some u \<and> (url_protocol u = ''http:'' \<or> url_protocol u = ''https:'')
    \<and> url_username u = [] \<and> url_password u = [] \<and> host_allowed hosts (url_hostname u)"
  using assms by (auto simp: link_ok_def url_refused_def split: option.splits)

text \<open>The form is accepted, with no error at all, exactly when the trimmed name and symbol are
  nonempty and within their byte limits, the description is within its own, every given link is a
  credential-free web address (a social link on a host of its network or below it), the image is an
  accepted file of at most 5 MB or a credential-free HTTPS address, and the first buy is an amount the
  launch will be able to read.\<close>

theorem validateCreateToken_accepts:
  "validateCreateToken parseURL input = [] \<longleftrightarrow>
     0 < length (js_trim (ci_name input)) \<and> length (js_trim (ci_name input)) \<le> 64
     \<and> 0 < length (js_trim (ci_symbol input)) \<and> length (js_trim (ci_symbol input)) \<le> 16
     \<and> length (js_trim (ci_description input)) \<le> 1000
     \<and> link_ok parseURL (ci_websiteUrl input) None
     \<and> link_ok parseURL (ci_xUrl input) (Some x_hosts)
     \<and> link_ok parseURL (ci_telegramUrl input) (Some telegram_hosts)
     \<and> link_ok parseURL (ci_discordUrl input) (Some discord_hosts)
     \<and> (if ci_imageSource input = ImageUrl
        then js_trim (ci_imageUrl input) \<noteq> [] \<and> isHTTPSImageURL parseURL (js_trim (ci_imageUrl input))
        else \<exists>f. ci_imageFile input = Some f \<and> if_type f \<in> set ACCEPTED_IMAGE_TYPES \<and> if_size f \<le> 5242880)
     \<and> (\<exists>n. parseDevBuyNativeUsdcAmount (ci_devBuyNativeUsdc input) = Inr n)"
proof -
  have image: "image_error parseURL input = None \<longleftrightarrow>
     (if ci_imageSource input = ImageUrl
      then js_trim (ci_imageUrl input) \<noteq> [] \<and> isHTTPSImageURL parseURL (js_trim (ci_imageUrl input))
      else \<exists>f. ci_imageFile input = Some f \<and> if_type f \<in> set ACCEPTED_IMAGE_TYPES \<and> if_size f \<le> 5242880)"
    by (auto simp: image_error_def MAX_IMAGE_BYTES_def Let_def not_less split: image_source.splits option.splits if_splits)
  have dev: "(if js_trim (ci_devBuyNativeUsdc input) = [] then e
     else (case parseDevBuyNativeUsdcAmount (ci_devBuyNativeUsdc input) of
        Inr n \<Rightarrow> e | Inl x \<Rightarrow> with_error ''devBuyNativeUsdc'' (Some (error_text x)) e)) = []
     \<longleftrightarrow> e = [] \<and> (\<exists>n. parseDevBuyNativeUsdcAmount (ci_devBuyNativeUsdc input) = Inr n)" for e
    by (auto simp: with_error_def parseDevBuyNativeUsdcAmount_def Let_def split: sum.splits)
  show ?thesis
    unfolding validateCreateToken_def Let_def dev
      validateOptionalURL_Nil with_error_Nil image[symmetric]
    by (auto simp: not_less)
qed

end
