(* ===== verification/TokenLaunch.thy ===== *)
theory TokenLaunch
  imports CurveAvailability CreateInput
begin

text \<open>
  The launch of a token from the create page: the API client's answers (\<^verbatim>\<open>lib/api.ts\<close>), metadata
  finalization and its retries (\<^verbatim>\<open>lib/metadata-finalization.ts\<close>), the optional first buy
  (\<^verbatim>\<open>lib/dev-buy.ts\<close>) and the whole \<^verbatim>\<open>execute\<close> of \<^verbatim>\<open>app/create/page.tsx\<close>.
  What the API and the wallet's message signature answer is up to the outside; progress reports are
  callbacks on the trace.
\<close>

subsection \<open>Answers of the API\<close>

datatype api_failure = ApiClientError int string string | OtherFailure js_error

text \<open>What \<^verbatim>\<open>fetch\<close> gave: nothing, or a response with its status and its body, parsed as JSON
  where that is possible.\<close>

datatype 'b fetched = Unreachable | Responded bool int "'b option"

definition readResponse ::
    "('b option \<Rightarrow> (string \<times> string) option) \<Rightarrow> ('b option \<Rightarrow> 'a option) \<Rightarrow> 'b fetched \<Rightarrow> api_failure + 'a" where
  "readResponse errorSchema schema outcome =
     (case outcome of
        Unreachable \<Rightarrow> Inl (ApiClientError 0 ''network_error'' ''The API could not be reached.'')
      | Responded ok status body \<Rightarrow>
          if \<not> ok then
            (case errorSchema body of
               Some (code, message) \<Rightarrow> Inl (ApiClientError status code message)
             | None \<Rightarrow> Inl (ApiClientError status ''http_error'' ''The API request failed.''))
          else (case schema body of
               None \<Rightarrow> Inl (ApiClientError 500 ''invalid_response'' ''The API returned an invalid response.'')
             | Some data \<Rightarrow> Inr data))"

definition resolvePublicApiURL :: "(string \<Rightarrow> url option) \<Rightarrow> string option \<Rightarrow> bool \<Rightarrow> string result" where
  "resolvePublicApiURL parseURL v production =
     (let configured = trimmed_or v (if production then '''' else ''http://localhost:4200'') in
      try_bind (throw_if (configured = []) ''NEXT_PUBLIC_API_URL is required for a production Cooket frontend build.'') (\<lambda>_.
      case parseURL configured of
        None \<Rightarrow> Inl (Err ''NEXT_PUBLIC_API_URL must be an absolute http(s) URL.'')
      | Some parsed \<Rightarrow>
          try_bind (throw_if (url_protocol parsed \<noteq> ''http:'' \<and> url_protocol parsed \<noteq> ''https:'')
            ''NEXT_PUBLIC_API_URL must use http or https.'') (\<lambda>_.
          try_bind (throw_if (production \<and> url_origin parsed \<noteq> ''https://api.cooket.fun'')
            ''Production Cooket frontend builds require NEXT_PUBLIC_API_URL=https://api.cooket.fun.'') (\<lambda>_.
            Inr (url_origin parsed)))))"

lemma production_api_origin:
  "resolvePublicApiURL parseURL v True = Inr origin \<Longrightarrow> origin = ''https://api.cooket.fun''"
  by (auto simp: resolvePublicApiURL_def Let_def try_bind_Inr_iff split: option.splits)

subsection \<open>Metadata finalization\<close>

definition newline :: string where
  "newline = [char_of (10 :: nat)]"

definition metadataClaimMessage :: "int \<Rightarrow> string \<Rightarrow> string \<Rightarrow> string \<Rightarrow> string" where
  "metadataClaimMessage chainId draftId tokenAddress transactionHash =
     ''Cooket metadata finalization'' @ newline @ newline @ ''Chain ID: '' @ int_text chainId @ newline
       @ ''Draft ID: '' @ draftId @ newline @ ''Token address: '' @ js_lower tokenAddress @ newline
       @ ''Creation transaction: '' @ js_lower transactionHash"

text \<open>A request whose failure is kept with its class and code.\<close>

type_synonym 'a api_io = "(api_failure + 'a) io"

definition tryMetadataFinalization :: "'a api_io \<Rightarrow> 'a option io" where
  "tryMetadataFinalization finalize =
     io_bind finalize (\<lambda>r.
       case r of
         Inr a \<Rightarrow> io_return (Some a)
       | Inl (ApiClientError status code message) \<Rightarrow>
           if code = ''not_indexed'' then io_return None else io_throw (Err message)
       | Inl (OtherFailure e) \<Rightarrow> io_throw e)"

fun retryPendingMetadataFinalization :: "'a api_io \<Rightarrow> nat \<Rightarrow> unit io \<Rightarrow> 'a option io" where
  "retryPendingMetadataFinalization finalize 0 delay = io_return None"
| "retryPendingMetadataFinalization finalize (Suc attempts) delay =
     io_bind delay (\<lambda>_.
     io_bind (tryMetadataFinalization finalize) (\<lambda>token.
       case token of
         Some a \<Rightarrow> io_return (Some a)
       | None \<Rightarrow> retryPendingMetadataFinalization finalize attempts delay))"

subsection \<open>The first buy\<close>

record dev_buy_error =
  dbe_message :: string
  dbe_retryable :: bool
  dbe_buyHash :: "string option"
  dbe_rejected :: bool

definition report :: "string \<Rightarrow> string option \<Rightarrow> unit io" where
  "report status hash = io_note (EvCallback ''report'' (status # (case hash of None \<Rightarrow> [] | Some h \<Rightarrow> [h])))"

definition DEFAULT_BUY_SLIPPAGE_BPS :: jsnum where
  "DEFAULT_BUY_SLIPPAGE_BPS = Fin 100"

text \<open>The \<^verbatim>\<open>catch\<close> of \<^verbatim>\<open>executeDevBuy\<close> for an error of its own steps.\<close>

definition devBuyFailure :: "js_error \<Rightarrow> string option \<Rightarrow> dev_buy_error" where
  "devBuyFailure e buyHash =
     (let message = (case e of JsError n m \<Rightarrow> m | JsOther s \<Rightarrow> ''The Dev buy could not be completed.'') in
      \<lparr>dbe_message = message, dbe_retryable = (truthy buyHash = None), dbe_buyHash = buyHash,
       dbe_rejected = matches_any_ci rejection_pattern message\<rparr>)"

definition submitDevBuy :: "client \<Rightarrow> string \<Rightarrow> string \<Rightarrow> int \<Rightarrow> string \<Rightarrow> string io" where
  "submitDevBuy c token creator amount creationHash =
     io_bind (readTradeState c token (Some creator)) (\<lambda>_.
     io_bind (quoteBuyByBudget c token amount DEFAULT_BUY_SLIPPAGE_BPS) (\<lambda>quote.
     io_bind (report ''dev_buy_awaiting_wallet'' (Some creationHash)) (\<lambda>_.
       submitBuy c creator token quote (\<lambda>tr. Inr ()))))"

definition confirmDevBuy :: "client \<Rightarrow> string \<Rightarrow> string \<Rightarrow> string \<Rightarrow> (dev_buy_error + string) io" where
  "confirmDevBuy c token creator buyHash =
     io_bind (report ''dev_buy_submitted'' (Some buyHash)) (\<lambda>_.
     io_bind (report ''dev_buy_confirming'' (Some buyHash)) (\<lambda>_.
     io_bind (io_attempt (confirmTrade c buyHash Buy token creator None)) (\<lambda>r.
       case r of
         Inl e \<Rightarrow> io_return (Inl (devBuyFailure e (Some buyHash)))
       | Inr confirmation \<Rightarrow>
           if tc_status confirmation = Confirmed
           then io_bind (report ''dev_buy_confirmed'' (Some (tc_hash confirmation))) (\<lambda>_.
             io_return (Inr (tc_hash confirmation)))
           else if tc_status confirmation = Reverted
           then io_return (Inl \<lparr>dbe_message = ''The Dev buy transaction reverted on '' @ selectedCooketChainName (c_chain c) @ ''.'',
             dbe_retryable = True, dbe_buyHash = Some (tc_hash confirmation), dbe_rejected = False\<rparr>)
           else io_return (Inl \<lparr>dbe_message = ''The Dev buy transaction still needs a definitive receipt before it can be retried.'',
             dbe_retryable = False, dbe_buyHash = Some (tc_hash confirmation), dbe_rejected = False\<rparr>))))"

text \<open>\<^verbatim>\<open>executeDevBuy\<close>: everything it throws is a \<^verbatim>\<open>DevBuyAttemptError\<close>, so its outcome is a
  value here.\<close>

definition executeDevBuy :: "client \<Rightarrow> string \<Rightarrow> string \<Rightarrow> int \<Rightarrow> string \<Rightarrow> (dev_buy_error + string) io" where
  "executeDevBuy c token creator amount creationHash =
     io_bind (report ''dev_buy_preparing'' (Some creationHash)) (\<lambda>_.
     io_bind (io_attempt (submitDevBuy c token creator amount creationHash)) (\<lambda>r.
       case r of
         Inl e \<Rightarrow> io_return (Inl (devBuyFailure e None))
       | Inr buyHash \<Rightarrow> confirmDevBuy c token creator buyHash))"

lemma report_read_only [emits_intros]: "read_only (report s h)"
  unfolding report_def by (intro emits_intros) simp

lemma confirmDevBuy_read_only [emits_intros]: "read_only (confirmDevBuy c token creator h)"
  unfolding confirmDevBuy_def by (intro emits_intros)

lemma submitDevBuy_final: "final_write c (submitDevBuy c token creator amount creationHash)"
  unfolding submitDevBuy_def
  by (rule final_write_bind, rule readTradeState_read_only, rule final_write_bind, rule quotes_read_only(1),
      rule final_write_bind, rule report_read_only, rule submitBuy_final)

text \<open>How the answer about the receipt decides the outcome of a purchase whose hash is known.\<close>

definition settled_as :: "trade_confirmation result \<Rightarrow> string \<Rightarrow> dev_buy_error + string \<Rightarrow> bool" where
  "settled_as answer h out \<longleftrightarrow>
     (case answer of
        Inl reason \<Rightarrow> \<exists>e. out = Inl e \<and> \<not> dbe_retryable e \<and> dbe_buyHash e = Some h
      | Inr k \<Rightarrow>
          if tc_status k = Confirmed then out = Inr (tc_hash k)
          else \<exists>e. out = Inl e \<and> dbe_buyHash e = Some (tc_hash k) \<and> dbe_retryable e = (tc_status k = Reverted))"

lemma confirmDevBuy_cases:
  assumes "confirmDevBuy c token creator h tr = (r, t)" and "h \<noteq> []"
  shows "\<exists>out answer t1 t2. r = Inr out \<and> confirmTrade c h Buy token creator None t1 = (answer, t2) \<and> settled_as answer h out"
proof -
  let ?tr = "tr @ [EvCallback ''report'' [''dev_buy_submitted'', h], EvCallback ''report'' [''dev_buy_confirming'', h]]"
  obtain q t2 where run: "confirmTrade c h Buy token creator None ?tr = (q, t2)"
    by (cases "confirmTrade c h Buy token creator None ?tr")
  have "confirmDevBuy c token creator h tr = (case q of
         Inl e \<Rightarrow> io_return (Inl (devBuyFailure e (Some h)))
       | Inr k \<Rightarrow>
           if tc_status k = Confirmed
           then io_bind (report ''dev_buy_confirmed'' (Some (tc_hash k))) (\<lambda>_. io_return (Inr (tc_hash k)))
           else if tc_status k = Reverted
           then io_return (Inl \<lparr>dbe_message = ''The Dev buy transaction reverted on '' @ selectedCooketChainName (c_chain c) @ ''.'',
             dbe_retryable = True, dbe_buyHash = Some (tc_hash k), dbe_rejected = False\<rparr>)
           else io_return (Inl \<lparr>dbe_message = ''The Dev buy transaction still needs a definitive receipt before it can be retried.'',
             dbe_retryable = False, dbe_buyHash = Some (tc_hash k), dbe_rejected = False\<rparr>)) t2"
    using run by (simp add: confirmDevBuy_def report_def io_bind_def io_note_def io_attempt_def)
  note step = this[unfolded assms(1)]
  have "\<exists>out. r = Inr out \<and> settled_as q h out"
  proof (cases q)
    case (Inl e)
    then show ?thesis using step assms(2)
      by (simp add: io_return_def devBuyFailure_def Let_def truthy_def settled_as_def)
  next
    case (Inr k)
    then show ?thesis using step
      by (cases "tc_status k = Confirmed"; cases "tc_status k = Reverted")
        (simp_all add: io_return_def io_bind_def report_def io_note_def settled_as_def)
  qed
  then show ?thesis using run by blast
qed

text \<open>The one request handed to the wallet, and what it answered.\<close>

definition wallet_answered :: "client \<Rightarrow> trace \<Rightarrow> trace \<Rightarrow> js_error + string \<Rightarrow> bool" where
  "wallet_answered c tr t answer \<longleftrightarrow>
     (\<exists>p request. writes t = writes tr @ [request] \<and> writes p = writes tr \<and> c_write c p request = answer)"

abbreviation bought_as :: "client \<Rightarrow> trace \<Rightarrow> trace \<Rightarrow> string \<Rightarrow> bool" where
  "bought_as c tr t h \<equiv> wallet_answered c tr t (Inr h)"

text \<open>C20: a first buy never throws past its own error type and hands the wallet at most one request, and what
  became of that request decides its outcome. If none was handed over, or if the wallet's answer was an
  error, whatever error it was, the buy fails without a hash and a retry is offered; an error of the
  wallet is shown as a rejection exactly when its message says rejected, denied or cancelled. If the
  wallet gave a hash, the buy succeeds with the hash of a confirmed trade, offers a retry when the receipt
  says reverted, and otherwise fails with its hash and offers none.\<close>

theorem executeDevBuy_outcomes:
  assumes "\<And>p request. c_write c p request \<noteq> Inr []"
    and "executeDevBuy c token creator amount creationHash tr = (r, t)"
  shows "\<exists>out. r = Inr out \<and>
    ((writes t = writes tr \<and> (\<exists>e. out = Inl e \<and> dbe_retryable e \<and> dbe_buyHash e = None))
    \<or> (\<exists>reason e. wallet_answered c tr t (Inl reason) \<and> out = Inl e \<and> dbe_retryable e \<and> dbe_buyHash e = None
         \<and> (dbe_rejected e \<longleftrightarrow> matches_any_ci rejection_pattern (dbe_message e))
         \<and> (\<forall>n message. reason = JsError n message \<longrightarrow> dbe_message e = message))
    \<or> (\<exists>h answer t1 t2. bought_as c tr t h
         \<and> confirmTrade c h Buy token creator None t1 = (answer, t2) \<and> settled_as answer h out))"
proof -
  let ?s = "tr @ [EvCallback ''report'' [''dev_buy_preparing'', creationHash]]"
  obtain q t1 where run: "submitDevBuy c token creator amount creationHash ?s = (q, t1)"
    by (cases "submitDevBuy c token creator amount creationHash ?s")
  have step: "(r, t) = (case q of
         Inl e \<Rightarrow> io_return (Inl (devBuyFailure e None))
       | Inr buyHash \<Rightarrow> confirmDevBuy c token creator buyHash) t1"
    using run assms(2) by (simp add: executeDevBuy_def report_def io_bind_def io_note_def io_attempt_def)
  have ends: "writes t1 = writes tr \<and> (\<exists>e. q = Inl e) \<or> wallet_answered c tr t1 q"
    using submitDevBuy_final[unfolded final_write_def, rule_format, OF run] unfolding wallet_answered_def by fastforce
  show ?thesis
  proof (cases q)
    case (Inl e)
    then have fails: "r = Inr (Inl (devBuyFailure e None))" "t = t1" using step by (auto simp: io_return_def)
    have "dbe_retryable (devBuyFailure e None) \<and> dbe_buyHash (devBuyFailure e None) = None
        \<and> (dbe_rejected (devBuyFailure e None) \<longleftrightarrow> matches_any_ci rejection_pattern (dbe_message (devBuyFailure e None)))
        \<and> (\<forall>n message. e = JsError n message \<longrightarrow> dbe_message (devBuyFailure e None) = message)"
      by (simp add: devBuyFailure_def Let_def truthy_def)
    then show ?thesis using ends fails Inl by blast
  next
    case (Inr h)
    with step have conf: "confirmDevBuy c token creator h t1 = (r, t)" by simp
    have answered: "wallet_answered c tr t1 (Inr h)" using ends Inr by blast
    then have "h \<noteq> []" using assms(1) unfolding wallet_answered_def by blast
    have "writes t = writes t1" by (rule read_only_writes[OF confirmDevBuy_read_only conf])
    then have "wallet_answered c tr t (Inr h)" using answered by (simp add: wallet_answered_def)
    with confirmDevBuy_cases[OF conf \<open>h \<noteq> []\<close>] show ?thesis by blast
  qed
qed


theorem executeDevBuy_outcomes_witness:
  "\<exists>res. fst (executeDevBuy demo ''0xt'' ''0xa'' 40 ''0xh'' []) = Inr res
     \<and> length (writes (snd (executeDevBuy demo ''0xt'' ''0xa'' 40 ''0xh'' []))) \<le> 1"
proof -
  have "c_write demo p request \<noteq> Inr []" for p request by (simp add: demo_def)
  from executeDevBuy_outcomes[OF this, of "''0xt''" "''0xa''" 40 "''0xh''" "[]"]
  show ?thesis
    by (cases "executeDevBuy demo ''0xt'' ''0xa'' 40 ''0xh'' []") (force simp: wallet_answered_def)
qed

subsection \<open>Creating the token\<close>

text \<open>\<^verbatim>\<open>encodeURIComponent\<close> on UTF-8 bytes.\<close>

definition uri_kept :: "char \<Rightarrow> bool" where
  "uri_kept c \<longleftrightarrow> is_alpha c \<or> is_digit c \<or> c \<in> set ''-_.!~*()'' \<or> code_of c = (39 :: nat)"

definition hex_upper :: "nat \<Rightarrow> char" where
  "hex_upper n = (if n < 10 then digit_char n else char_of (55 + n))"

definition encodeURIComponent :: "string \<Rightarrow> string" where
  "encodeURIComponent s = concat (map (\<lambda>c. if uri_kept c then [c]
     else [CHR ''%'', hex_upper (code_of c div 16), hex_upper (code_of c mod 16)]) s)"

datatype form_value = FormText string | FormImage image_file

record api_token =
  at_address :: string
  at_creator :: string

text \<open>The services of the page besides the chain: the metadata API, the wallet's message signature and
  the random part of the salt.\<close>

record launch_services =
  ls_upload :: "trace \<Rightarrow> (string \<times> form_value) list \<Rightarrow> string result"
  ls_sign :: "trace \<Rightarrow> string \<Rightarrow> string \<Rightarrow> string result"
  ls_finalize :: "trace \<Rightarrow> string \<Rightarrow> string \<Rightarrow> string \<Rightarrow> string \<Rightarrow> api_failure + api_token"
  ls_random :: "trace \<Rightarrow> string"

definition configuredCurveInitialization :: "client \<Rightarrow> hash_library \<Rightarrow> launch_services \<Rightarrow> string io" where
  "configuredCurveInitialization c h sv =
     io_bind (dateNow c) (\<lambda>now.
     io_bind (io_check (\<lambda>tr. Inr (ls_random sv tr))) (\<lambda>random.
       io_return (keccak256 h (int_text now @ ''-'' @ random))))"

definition launch_form :: "create_input \<Rightarrow> (string \<times> form_value) list" where
  "launch_form input =
     [(''name'', FormText (js_trim (ci_name input))),
      (''symbol'', FormText (js_trim (ci_symbol input))),
      (''description'', FormText (js_trim (ci_description input))),
      (''website_url'', FormText (js_trim (ci_websiteUrl input))),
      (''x_url'', FormText (js_trim (ci_xUrl input))),
      (''telegram_url'', FormText (js_trim (ci_telegramUrl input))),
      (''discord_url'', FormText (js_trim (ci_discordUrl input))),
      (''initial_supply'', FormText (int_text FIXED_TOKEN_SUPPLY)),
      (if ci_imageSource input = ImageFile
       then (''image'', case ci_imageFile input of Some f \<Rightarrow> FormImage f | None \<Rightarrow> FormText ''null'')
       else (''image_url'', FormText (js_trim (ci_imageUrl input))))]"

definition uploadMetadata :: "launch_services \<Rightarrow> create_input \<Rightarrow> string io" where
  "uploadMetadata sv input =
     io_call (EvHttp ''POST'' ''/api/v1/token-metadata'') (\<lambda>tr. ls_upload sv tr (launch_form input))"

definition finalizeMetadata ::
    "launch_services \<Rightarrow> string \<Rightarrow> string \<Rightarrow> string \<Rightarrow> string \<Rightarrow> api_token api_io" where
  "finalizeMetadata sv draft token hash signature =
     io_call (EvHttp ''POST'' (''/api/v1/token-metadata/'' @ encodeURIComponent draft @ ''/finalize''))
       (\<lambda>tr. Inr (ls_finalize sv tr draft token hash signature))"

text \<open>Up to the confirmed token: the draft, the hash of the creation and the token's address.\<close>

definition createToken ::
    "client \<Rightarrow> hash_library \<Rightarrow> launch_services \<Rightarrow> create_input \<Rightarrow> string \<Rightarrow> string \<Rightarrow> (string \<times> string \<times> string) io" where
  "createToken c h sv input creatorAddress salt =
     io_bind (report ''preparing'' None) (\<lambda>_.
     io_bind (uploadMetadata sv input) (\<lambda>draft.
     io_bind (report ''awaiting_wallet'' None) (\<lambda>_.
     io_bind (submitCreateToken c h creatorAddress (js_trim (ci_name input)) (js_trim (ci_symbol input))
                (SaltText salt)) (\<lambda>hash.
     io_bind (report ''submitted'' (Some hash)) (\<lambda>_.
     io_bind (report ''confirming'' (Some hash)) (\<lambda>_.
     io_bind (confirmCreatedToken c hash) (\<lambda>(receipt, created).
     io_bind (io_result (c_getAddress c (tl_creator created))) (\<lambda>confirmedCreator.
     io_bind (io_throw_if (confirmedCreator \<noteq> creatorAddress)
        ''Confirmed creator does not match the connected wallet.'') (\<lambda>_.
     io_bind (io_result (c_getAddress c (tl_token created))) (\<lambda>tokenAddress.
       io_return (draft, hash, tokenAddress)))))))))))"

record create_result =
  cr_tokenAddress :: string
  cr_hash :: string
  cr_devBuyHash :: "string option"
  cr_metadataPending :: bool

record dev_buy_failure =
  dbf_message :: string
  dbf_tokenAddress :: string
  dbf_creationHash :: string
  dbf_retryable :: bool
  dbf_buyHash :: "string option"
  dbf_rejected :: bool

definition devBuyFailed :: "string \<Rightarrow> string \<Rightarrow> dev_buy_error \<Rightarrow> dev_buy_failure" where
  "devBuyFailed token hash e =
     \<lparr>dbf_message = ''Token created successfully, but the Dev buy ''
        @ (if dbe_rejected e then ''was rejected'' else if dbe_retryable e then ''could not be completed''
           else ''needs confirmation'') @ ''.'',
      dbf_tokenAddress = token, dbf_creationHash = hash, dbf_retryable = dbe_retryable e,
      dbf_buyHash = dbe_buyHash e, dbf_rejected = dbe_rejected e\<rparr>"

definition metadataFinalizationAttempts :: nat where
  "metadataFinalizationAttempts = 15"

text \<open>The query cache: the token's own entry is set, six kinds of entries are invalidated.\<close>

definition key_of :: "string \<Rightarrow> string option \<Rightarrow> string list" where
  "key_of surface address = surface # (case address of None \<Rightarrow> [] | Some a \<Rightarrow> [a])"

definition synchronized_keys :: "api_token \<Rightarrow> string list list" where
  "synchronized_keys token =
     [key_of ''token'' (Some (at_address token)), key_of ''creator'' (Some (at_creator token)),
      key_of ''public-creator'' (Some (at_creator token)), key_of ''wallet-holdings'' (Some (at_creator token)),
      [''tokens''], [''trending'']]"

fun note_all :: "event list \<Rightarrow> unit io" where
  "note_all [] = io_return ()"
| "note_all (e # es) = io_bind (io_note e) (\<lambda>_. note_all es)"

definition synchronizeCreatedTokenQueries :: "api_token \<Rightarrow> unit io" where
  "synchronizeCreatedTokenQueries token =
     note_all (EvCallback ''setQueryData'' (key_of ''token'' (Some (at_address token)))
       # map (EvCallback ''invalidateQueries'') (synchronized_keys token))"

text \<open>The first buy of \<^verbatim>\<open>execute\<close>: skipped for a zero amount.\<close>

definition optionalDevBuy ::
    "client \<Rightarrow> string \<Rightarrow> string \<Rightarrow> int \<Rightarrow> string \<Rightarrow> (dev_buy_failure + string option) io" where
  "optionalDevBuy c token creator amount hash =
     (if 0 < amount
      then io_bind (executeDevBuy c token creator amount hash) (\<lambda>r.
        io_return (case r of Inl e \<Rightarrow> Inl (devBuyFailed token hash e) | Inr h \<Rightarrow> Inr (Some h)))
      else io_return (Inr None))"

text \<open>After the token exists: the claim's signature, metadata, the first buy, the query cache.\<close>

definition finishLaunch ::
    "client \<Rightarrow> launch_services \<Rightarrow> create_input \<Rightarrow> string \<Rightarrow> string \<Rightarrow> string \<Rightarrow> string
       \<Rightarrow> (dev_buy_failure + create_result) io" where
  "finishLaunch c sv input creatorAddress draft hash tokenAddress =
     (let message = metadataClaimMessage (selectedCooketChainId (c_chain c)) draft tokenAddress hash in
     io_bind (io_call (EvSignMessage message) (\<lambda>tr. ls_sign sv tr creatorAddress message)) (\<lambda>signature.
     (let finalize = finalizeMetadata sv draft tokenAddress hash signature in
     io_bind (tryMetadataFinalization finalize) (\<lambda>first.
     io_bind (io_result (parseDevBuyNativeUsdcAmount (ci_devBuyNativeUsdc input))) (\<lambda>amount.
     io_bind (optionalDevBuy c tokenAddress creatorAddress amount hash) (\<lambda>bought.
       case bought of
         Inl failure \<Rightarrow> io_return (Inl failure)
       | Inr devBuyHash \<Rightarrow>
           io_bind (case first of Some t \<Rightarrow> io_return (Some t)
             | None \<Rightarrow> retryPendingMetadataFinalization finalize (metadataFinalizationAttempts - 1)
                 (io_note (EvDelay 2000))) (\<lambda>token.
           io_bind (case token of Some t \<Rightarrow> synchronizeCreatedTokenQueries t | None \<Rightarrow> io_return ()) (\<lambda>_.
             io_return (Inr \<lparr>cr_tokenAddress = tokenAddress, cr_hash = hash, cr_devBuyHash = devBuyHash,
               cr_metadataPending = (token = None)\<rparr>)))))))))"

definition launchExecute ::
    "client \<Rightarrow> hash_library \<Rightarrow> launch_services \<Rightarrow> create_input \<Rightarrow> int option \<Rightarrow> string option \<Rightarrow> bool
       \<Rightarrow> (dev_buy_failure + create_result) io" where
  "launchExecute c h sv input chainId creator hasWallet =
     io_bind (io_throw_if (chainId \<noteq> Some (selectedCooketChainId (c_chain c)))
        (''Switch the connected wallet to '' @ selectedCooketChainName (c_chain c) @ '' before creating a token.'')) (\<lambda>_.
     case truthy creator of
       None \<Rightarrow> io_throw (Err ''Connect a browser wallet before creating a token.'')
     | Some account \<Rightarrow>
     io_bind (io_throw_if (\<not> hasWallet) ''Connect a browser wallet before creating a token.'') (\<lambda>_.
     io_bind (configuredCurveInitialization c h sv) (\<lambda>salt.
     io_bind (io_result (c_getAddress c account)) (\<lambda>creatorAddress.
     io_bind (createToken c h sv input creatorAddress salt) (\<lambda>(draft, hash, tokenAddress).
       finishLaunch c sv input creatorAddress draft hash tokenAddress)))))"

subsection \<open>What a launch sends\<close>

lemma uploads_read_only [emits_intros]:
  "read_only (uploadMetadata sv input)" "read_only (finalizeMetadata sv draft token hash signature)"
  "read_only (configuredCurveInitialization c h sv)"
  by (simp_all add: uploadMetadata_def finalizeMetadata_def configuredCurveInitialization_def emits_intros)

lemma confirmCreatedToken_read_only [emits_intros]: "read_only (confirmCreatedToken c hash)"
  unfolding confirmCreatedToken_def by (intro emits_intros)

lemma emits_failure [emits_intros]:
  "(\<And>s k m. x = ApiClientError s k m \<Longrightarrow> emits P (f s k m)) \<Longrightarrow> (\<And>e. x = OtherFailure e \<Longrightarrow> emits P (g e))
   \<Longrightarrow> emits P (case x of ApiClientError s k m \<Rightarrow> f s k m | OtherFailure e \<Rightarrow> g e)"
  by (cases x) auto

lemma tryMetadataFinalization_emits [emits_intros]: "emits P m \<Longrightarrow> emits P (tryMetadataFinalization m)"
  unfolding tryMetadataFinalization_def by (intro emits_intros)

lemma retryPendingMetadataFinalization_emits [emits_intros]:
  "emits P m \<Longrightarrow> emits P d \<Longrightarrow> emits P (retryPendingMetadataFinalization m n d)"
  by (induction n) (auto intro!: emits_intros)

lemma note_all_emits: "list_all P es \<Longrightarrow> emits P (note_all es)"
  by (induction es) (auto intro!: emits_intros)

lemma synchronize_read_only [emits_intros]: "read_only (synchronizeCreatedTokenQueries token)"
  unfolding synchronizeCreatedTokenQueries_def by (rule note_all_emits) (simp add: synchronized_keys_def list_all_iff)

lemma submitCreateToken_final: "final_write c (submitCreateToken c h creator name symbol (SaltText salt))"
  unfolding submitCreateToken_def
  by (intro final_write_intros gate_read_only) (simp add: emits_intros)+

lemma submitCreateToken_Inr:
  assumes "submitCreateToken c h creator name symbol (SaltText salt) tr = (Inr hash, t)"
  shows "\<exists>factory p request. truthy (cooketFactory (c_contracts c)) = Some factory
    \<and> t = p @ [EvWrite request] \<and> writes p = writes tr \<and> c_write c p request = Inr hash
    \<and> (\<exists>q. c_simulate c q \<lparr>call_to = factory, call_fn = ''createToken'',
        call_args = [AText name, AText symbol, AText salt], call_account = creator, call_value = 0\<rparr> = Inr request)"
  using assms by (clarsimp simp: submitCreateToken_def io_inv simulateContract_def Let_def gate_def; blast)

text \<open>A creation that returned: the wallet's one transaction, its successful receipt, and the addresses
  the configured factory's event names.\<close>

definition token_created :: "client \<Rightarrow> string \<Rightarrow> trace \<Rightarrow> call_spec \<Rightarrow> string \<Rightarrow> string \<Rightarrow> bool" where
  "token_created c creatorAddress tr request hash token \<longleftrightarrow>
     (\<exists>factory p receipt created reason q.
        truthy (cooketFactory (c_contracts c)) = Some factory
        \<and> writes p = writes tr \<and> c_write c p request = Inr hash
        \<and> c_waitReceipt c q hash = (reason, Inr receipt)
        \<and> parseTokenLaunchedReceipt (c_decoder c) receipt factory = Inr created
        \<and> c_getAddress c (tl_creator created) = Inr creatorAddress
        \<and> c_getAddress c (tl_token created) = Inr token)"

lemma confirmCreatedToken_Inr:
  assumes "confirmCreatedToken c hash tr = (Inr (receipt, created), t)"
  shows "\<exists>factory reason. truthy (cooketFactory (c_contracts c)) = Some factory
    \<and> c_waitReceipt c tr hash = (reason, Inr receipt)
    \<and> parseTokenLaunchedReceipt (c_decoder c) receipt factory = Inr created"
  using assms by (auto simp: confirmCreatedToken_def io_inv waitForTransactionReceipt_def try_bind_Inr_iff split: prod.splits)

lemma createToken_Inr:
  assumes "createToken c h sv input creatorAddress salt tr = (Inr (draft, hash, token), t)"
  shows "\<exists>request. writes t = writes tr @ [request] \<and> token_created c creatorAddress tr request hash token"
proof -
  obtain t0 t1 t2 t3 receipt created where steps:
      "report ''preparing'' None tr = (Inr (), t0)"
      "uploadMetadata sv input t0 = (Inr draft, t1)"
      "submitCreateToken c h creatorAddress (js_trim (ci_name input)) (js_trim (ci_symbol input)) (SaltText salt)
        (t1 @ [EvCallback ''report'' [''awaiting_wallet'']]) = (Inr hash, t2)"
      "confirmCreatedToken c hash (t2 @ [EvCallback ''report'' [''submitted'', hash], EvCallback ''report'' [''confirming'', hash]])
        = (Inr (receipt, created), t3)"
      "c_getAddress c (tl_creator created) = Inr creatorAddress" "c_getAddress c (tl_token created) = Inr token" "t = t3"
    using assms by (auto simp: createToken_def io_inv report_def)
  obtain factory p request where w: "truthy (cooketFactory (c_contracts c)) = Some factory" "t2 = p @ [EvWrite request]"
      "writes p = writes (t1 @ [EvCallback ''report'' [''awaiting_wallet'']])" "c_write c p request = Inr hash"
    using submitCreateToken_Inr[OF steps(3)] by blast
  have "writes t1 = writes tr"
    using read_only_writes[OF report_read_only steps(1)] read_only_writes[OF uploads_read_only(1) steps(2)] by simp
  then have p: "writes p = writes tr" using w(3) by simp
  have "writes t3 = writes t2" using read_only_writes[OF confirmCreatedToken_read_only steps(4)] by simp
  then have "writes t = writes tr @ [request]" using steps(7) w(2) p by simp
  moreover have "token_created c creatorAddress tr request hash token"
    using confirmCreatedToken_Inr[OF steps(4)] w(1,4) p steps(5,6) unfolding token_created_def by blast
  ultimately show ?thesis by blast
qed

lemma executeDevBuy_at_most: "at_most_writes 1 (executeDevBuy c token creator amount hash)"
proof -
  have one: "at_most_writes 1 m" if "final_write c m" for m :: "string io"
    unfolding at_most_writes_def
  proof
    fix tr
    obtain r t where run: "m tr = (r, t)" by (cases "m tr")
    show "\<exists>ws. writes (snd (m tr)) = writes tr @ ws \<and> length ws \<le> 1"
      using that[unfolded final_write_def, rule_format, OF run] run by auto
  qed
  have "at_most_writes 1 (io_attempt (submitDevBuy c token creator amount hash))"
    using one[OF submitDevBuy_final] by (simp add: at_most_writes_def io_attempt_def split_beta)
  moreover have "read_only (case r of Inl e \<Rightarrow> io_return (Inl (devBuyFailure e None))
      | Inr buyHash \<Rightarrow> confirmDevBuy c token creator buyHash)" for r
    by (cases r) (simp_all add: emits_intros)
  ultimately show ?thesis unfolding executeDevBuy_def
    by (intro at_most_read_only_bind report_read_only at_most_bind_read_only)
qed

lemma optionalDevBuy_at_most: "at_most_writes 1 (optionalDevBuy c token creator amount hash)"
proof -
  have "at_most_writes 1 (io_bind (executeDevBuy c token creator amount hash) (\<lambda>r.
        io_return (case r of Inl e \<Rightarrow> Inl (devBuyFailed token hash e) | Inr h \<Rightarrow> Inr (Some h))))"
    by (intro at_most_bind_read_only executeDevBuy_at_most emits_return)
  moreover have "at_most_writes 1 (io_return (Inr None) :: (dev_buy_failure + string option) io)"
    by (simp add: at_most_writes_def io_return_def)
  ultimately show ?thesis by (simp add: optionalDevBuy_def)
qed

lemma finishLaunch_at_most: "at_most_writes 1 (finishLaunch c sv input creatorAddress draft hash token)"
proof -
  have rest: "read_only (case bought of
         Inl failure \<Rightarrow> io_return (Inl failure)
       | Inr devBuyHash \<Rightarrow>
           io_bind (case first of Some t \<Rightarrow> io_return (Some t)
             | None \<Rightarrow> retryPendingMetadataFinalization (finalizeMetadata sv draft token hash s) (metadataFinalizationAttempts - 1)
                 (io_note (EvDelay 2000))) (\<lambda>tk.
           io_bind (case tk of Some t \<Rightarrow> synchronizeCreatedTokenQueries t | None \<Rightarrow> io_return ()) (\<lambda>_.
             io_return (Inr \<lparr>cr_tokenAddress = token, cr_hash = hash, cr_devBuyHash = devBuyHash,
               cr_metadataPending = (tk = None)\<rparr>))))" for bought :: "dev_buy_failure + string option" and first s
    by (cases bought; cases first) (auto intro!: emits_intros split: option.split)
  show ?thesis unfolding finishLaunch_def Let_def
    by (rule at_most_read_only_bind, rule emits_call, simp, rule at_most_read_only_bind,
        rule tryMetadataFinalization_emits, rule uploads_read_only(2), rule at_most_read_only_bind, rule emits_result,
        rule at_most_bind_read_only, rule optionalDevBuy_at_most, rule rest)
qed

lemma optionalDevBuy_names:
  assumes "optionalDevBuy c token creator amount hash tr = (Inr (Inl f), t)"
  shows "dbf_tokenAddress f = token \<and> dbf_creationHash f = hash"
proof -
  have "\<exists>e. f = devBuyFailed token hash e"
  proof -
    have "0 < amount" using assms by (auto simp: optionalDevBuy_def io_return_def split: if_splits)
    then obtain r :: "dev_buy_error + string" where "Inl f = (case r of Inl e \<Rightarrow> Inl (devBuyFailed token hash e) | Inr h \<Rightarrow> Inr (Some h))"
      using assms by (auto simp: optionalDevBuy_def io_bind_Inr io_return_Inr)
    then show ?thesis by (cases r) auto
  qed
  then show ?thesis by (auto simp: devBuyFailed_def)
qed

lemma finishLaunch_names:
  assumes "finishLaunch c sv input creatorAddress draft hash token tr = (Inr res, t)"
  shows "(case res of Inl f \<Rightarrow> dbf_tokenAddress f = token \<and> dbf_creationHash f = hash
     | Inr r \<Rightarrow> cr_tokenAddress r = token \<and> cr_hash r = hash)"
proof -
  note run = assms[unfolded finishLaunch_def Let_def io_bind_Inr]
  then obtain amount bought first s t1 t2 where
      bought: "optionalDevBuy c token creatorAddress amount hash t1 = (Inr bought, t2)" and
      rest: "(case bought of
         Inl failure \<Rightarrow> io_return (Inl failure)
       | Inr devBuyHash \<Rightarrow>
           io_bind (case first of Some t \<Rightarrow> io_return (Some t)
             | None \<Rightarrow> retryPendingMetadataFinalization (finalizeMetadata sv draft token hash s) (metadataFinalizationAttempts - 1)
                 (io_note (EvDelay 2000))) (\<lambda>tk.
           io_bind (case tk of Some t \<Rightarrow> synchronizeCreatedTokenQueries t | None \<Rightarrow> io_return ()) (\<lambda>_.
             io_return (Inr \<lparr>cr_tokenAddress = token, cr_hash = hash, cr_devBuyHash = devBuyHash,
               cr_metadataPending = (tk = None)\<rparr>)))) t2 = (Inr res, t)"
    by (elim exE conjE) blast
  show ?thesis
  proof (cases bought)
    case (Inl f)
    then show ?thesis using rest optionalDevBuy_names bought by (auto simp: io_return_def)
  next
    case (Inr d)
    then show ?thesis using rest by (auto simp: io_bind_Inr io_return_Inr)
  qed
qed

text \<open>C11: a launch that got as far as returning has one confirmed creation: the wallet's first
  transaction, whose successful receipt carries exactly the configured factory's launch event of the
  connected creator. Its token and hash are what the page shows, also when the optional first buy
  failed afterwards, and the wallet was asked for at most one further transaction.\<close>

theorem launch_keeps_created_token:
  assumes "launchExecute c h sv input chainId (Some account) hasWallet tr = (Inr res, t)"
  shows "chainId = Some (selectedCooketChainId (c_chain c)) \<and> hasWallet
    \<and> (\<exists>creatorAddress request rest hash token s.
         c_getAddress c account = Inr creatorAddress
         \<and> writes t = writes tr @ request # rest \<and> length rest \<le> 1
         \<and> writes s = writes tr \<and> token_created c creatorAddress s request hash token
         \<and> (case res of Inl f \<Rightarrow> dbf_tokenAddress f = token \<and> dbf_creationHash f = hash
              | Inr r \<Rightarrow> cr_tokenAddress r = token \<and> cr_hash r = hash))"
proof -
  have acct: "truthy (Some account) = Some account"
    using assms by (auto simp: launchExecute_def io_inv truthy_def split: if_splits)
  obtain salt t1 creatorAddress draft hash token t2 where steps:
      "configuredCurveInitialization c h sv tr = (Inr salt, t1)" "c_getAddress c account = Inr creatorAddress"
      "createToken c h sv input creatorAddress salt t1 = (Inr (draft, hash, token), t2)"
      "finishLaunch c sv input creatorAddress draft hash token t2 = (Inr res, t)"
      "chainId = Some (selectedCooketChainId (c_chain c))" hasWallet
    using assms unfolding launchExecute_def acct option.case by (auto simp: io_inv)
  have t1: "writes t1 = writes tr" by (rule read_only_writes[OF uploads_read_only(3) steps(1)])
  obtain request where r: "writes t2 = writes tr @ [request]" "token_created c creatorAddress t1 request hash token"
    using createToken_Inr[OF steps(3)] t1 by auto
  obtain rest where "writes t = writes t2 @ rest" "length rest \<le> 1"
    using finishLaunch_at_most[unfolded at_most_writes_def, rule_format, of c sv input creatorAddress draft hash token t2]
      steps(4) by auto
  then have "writes t = writes tr @ request # rest" "length rest \<le> 1" using r(1) by simp_all
  with finishLaunch_names[OF steps(4)] steps(2,5,6) r(2) t1 show ?thesis by blast
qed

subsection \<open>A concrete launch\<close>

definition demo_launch_client :: client where
  "demo_launch_client = demo\<lparr>c_decoder := demo_log_decoder\<lparr>ld_launched := (\<lambda>logs. [(''0xf'',
     \<lparr>la_token = ''0xt'', la_curve = ''0xc'', la_creator = ''0xa'', la_protocolVersion = ''endpoint-cp-v3'',
      la_totalSupply = FIXED_TOKEN_SUPPLY, la_curveAllocation = 8, la_lpAllocation = 2, la_canonicalPool = ''0xp''\<rparr>)])\<rparr>\<rparr>"

definition demo_services :: launch_services where
  "demo_services = \<lparr>ls_upload = (\<lambda>tr form. Inr ''draft''), ls_sign = (\<lambda>tr account m. Inr ''0x51''),
     ls_finalize = (\<lambda>tr draft token hash signature. Inr \<lparr>at_address = token, at_creator = ''0xa''\<rparr>),
     ls_random = (\<lambda>tr. ''0.5'')\<rparr>"

definition demo_input :: create_input where
  "demo_input = \<lparr>ci_name = ''Coin'', ci_symbol = ''C'', ci_description = '''', ci_websiteUrl = '''', ci_xUrl = '''',
     ci_telegramUrl = '''', ci_discordUrl = '''', ci_imageFile = Some \<lparr>if_type = ''image/png'', if_size = 10\<rparr>,
     ci_imageUrl = '''', ci_imageSource = ImageFile, ci_devBuyNativeUsdc = ''''\<rparr>"

lemma demo_creates:
  assumes "ls_upload sv = (\<lambda>tr form. Inr ''draft'')"
  shows "\<exists>t. createToken demo_launch_client sample_hashes sv demo_input ''0xa'' salt tr = (Inr (''draft'', ''0xh'', ''0xt''), t)"
    and "\<exists>s t. configuredCurveInitialization demo_launch_client sample_hashes sv tr = (Inr s, t)"
proof -
  have fields: "c_contracts demo_launch_client = demo_contracts" "c_getAddress demo_launch_client = Inr"
    "c_simulate demo_launch_client = (\<lambda>tr spec. Inr spec)" "c_now demo_launch_client = (\<lambda>tr. 1000000)"
    "c_waitReceipt demo_launch_client = (\<lambda>tr h. (None, Inr demo_receipt))" "c_write demo_launch_client = (\<lambda>tr call. Inr ''0xh'')"
    "c_chain demo_launch_client = c_chain demo" "c_env demo_launch_client = c_env demo"
    "c_walletAccount demo_launch_client = c_walletAccount demo" "c_walletChainId demo_launch_client = c_walletChainId demo"
    "c_walletAddresses demo_launch_client = c_walletAddresses demo" "c_getAddress demo_launch_client = c_getAddress demo"
    "c_write demo_launch_client = c_write demo"
    by (simp_all add: demo_launch_client_def demo_def)
  have gate: "gate demo_launch_client tr = gate demo tr" for tr
    unfolding gate_def fields(7-13) ..
  have wr: "signedWrite demo_launch_client ''0xa'' request tr = signedWrite demo ''0xa'' request tr" for request tr
    unfolding signedWrite_def assertActiveWalletClient_def equalAddresses_def writeContract_def fields(7-13) ..
  have "\<exists>created. parseTokenLaunchedReceipt (c_decoder demo_launch_client) demo_receipt ''0xf'' = Inr created
      \<and> tl_creator created = ''0xa'' \<and> tl_token created = ''0xt''"
    by (simp add: parseTokenLaunchedReceipt_def demo_launch_client_def demo_log_decoder_def single_log_def
        demo_receipt_def throw_if_def)
  then obtain l where l: "parseTokenLaunchedReceipt (c_decoder demo_launch_client) demo_receipt ''0xf'' = Inr l"
      "tl_creator l = ''0xa''" "tl_token l = ''0xt''" by blast
  have "\<exists>created. confirmCreatedToken demo_launch_client hash tr = (Inr (demo_receipt, created), tr @ [EvWaitReceipt hash None])
      \<and> tl_creator created = ''0xa'' \<and> tl_token created = ''0xt''" for hash tr
    by (simp add: confirmCreatedToken_def fields(1-6) demo_contracts_def truthy_def io_bind_def io_call_def io_result_def
        io_return_def waitForTransactionReceipt_def l)
  then obtain tl where tl: "confirmCreatedToken demo_launch_client hash tr
      = (Inr (demo_receipt, tl hash tr), tr @ [EvWaitReceipt hash None])"
      "tl_creator (tl hash tr) = ''0xa''" "tl_token (tl hash tr) = ''0xt''" for hash tr by metis
  show "\<exists>t. createToken demo_launch_client sample_hashes sv demo_input ''0xa'' salt tr = (Inr (''draft'', ''0xh'', ''0xt''), t)"
    by (simp add: createToken_def report_def io_bind_def io_note_def uploadMetadata_def io_call_def assms
        submitCreateToken_def gate fields(1-6) demo_contracts_def truthy_def io_return_def simulateContract_def wr tl
        io_result_def io_throw_if_def)
  show "\<exists>s t. configuredCurveInitialization demo_launch_client sample_hashes sv tr = (Inr s, t)"
    by (simp add: configuredCurveInitialization_def io_bind_def dateNow_def io_call_def io_check_def io_return_def fields(4))
qed

lemma demo_launch_runs:
  "\<exists>r t. launchExecute demo_launch_client sample_hashes demo_services demo_input (Some 5042002) (Some ''0xa'') True []
     = (Inr (Inr r), t)"
proof -
  have fields: "c_getAddress demo_launch_client = Inr" "c_chain demo_launch_client = c_chain demo"
    by (simp_all add: demo_launch_client_def demo_def)
  have chain: "selectedCooketChainId (c_chain demo) = 5042002"
    by (simp add: demo_def selectedCooketChainId_def sample_module_def sample_chain_def)
  have dev: "parseDevBuyNativeUsdcAmount '''' = Inr 0" by code_simp
  have finish: "\<exists>r t. finishLaunch demo_launch_client demo_services demo_input ''0xa'' ''draft'' ''0xh'' ''0xt'' tr
      = (Inr (Inr r), t)" for tr
    by (simp add: finishLaunch_def Let_def io_bind_def io_call_def demo_services_def tryMetadataFinalization_def
        finalizeMetadata_def io_return_def io_result_def demo_input_def dev optionalDevBuy_def
        synchronizeCreatedTokenQueries_def synchronized_keys_def io_note_def)
  have up: "ls_upload demo_services = (\<lambda>tr form. Inr ''draft'')" by (simp add: demo_services_def)
  obtain s t1 where 1: "configuredCurveInitialization demo_launch_client sample_hashes demo_services [] = (Inr s, t1)"
    using demo_creates(2)[OF up] by blast
  obtain t2 where 2: "createToken demo_launch_client sample_hashes demo_services demo_input ''0xa'' s t1
      = (Inr (''draft'', ''0xh'', ''0xt''), t2)" using demo_creates(1)[OF up] by blast
  obtain r t3 where "finishLaunch demo_launch_client demo_services demo_input ''0xa'' ''draft'' ''0xh'' ''0xt'' t2
      = (Inr (Inr r), t3)" using finish by blast
  with 1 2 show ?thesis
    by (simp add: launchExecute_def io_bind_def io_throw_if_def io_result_def truthy_def fields chain)
qed

theorem launch_keeps_created_token_witness:
  "\<exists>r t. launchExecute demo_launch_client sample_hashes demo_services demo_input (Some 5042002) (Some ''0xa'') True []
     = (Inr (Inr r), t) \<and> length (writes t) \<le> 2"
proof -
  obtain r t where run: "launchExecute demo_launch_client sample_hashes demo_services demo_input
      (Some 5042002) (Some ''0xa'') True [] = (Inr (Inr r), t)" using demo_launch_runs by blast
  from launch_keeps_created_token[OF run] have "length (writes t) \<le> 2" by force
  with run show ?thesis by blast
qed

end
