(* ===== verification/TransactionModal.thy ===== *)
theory TransactionModal
  imports JsBase
begin

text \<open>
  The dialog every wallet transaction is shown in: the reducer and the phases of
  \<^verbatim>\<open>lib/transaction-modal.ts\<close> and what the user can do to the dialog in
  \<^verbatim>\<open>components/transaction-modal.tsx\<close>.
\<close>

datatype modal_phase =
    MReview | MPreparing | MAwaitingWallet | MSubmitted | MConfirming | MConfirmed
  | MAwaitingApproval | MApprovalSubmitted | MApprovalConfirmed | MPreparingSell
  | MRefreshingState | MSimulatingSwap
  | MAwaitingSellSignature | MSellSubmitted | MSellConfirming
  | MFailed | MRejected | MExpired | MConfirmationUnknown

record modal_state =
  md_open :: bool
  md_phase :: modal_phase

datatype modal_action = ReviewAction | ProgressAction modal_phase | CloseAction

definition closedTransactionModal :: modal_state where
  "closedTransactionModal = \<lparr>md_open = False, md_phase = MReview\<rparr>"

fun transactionModalReducer :: "modal_state \<Rightarrow> modal_action \<Rightarrow> modal_state" where
  "transactionModalReducer s ReviewAction = \<lparr>md_open = True, md_phase = MReview\<rparr>"
| "transactionModalReducer s (ProgressAction phase) = \<lparr>md_open = True, md_phase = phase\<rparr>"
| "transactionModalReducer s CloseAction = s\<lparr>md_open := False\<rparr>"

definition transactionPhaseIsBusy :: "modal_phase \<Rightarrow> bool" where
  "transactionPhaseIsBusy phase \<longleftrightarrow> phase \<in> {MPreparing, MAwaitingWallet, MSubmitted, MConfirming, MAwaitingApproval,
     MApprovalSubmitted, MApprovalConfirmed, MPreparingSell, MRefreshingState, MSimulatingSwap, MAwaitingSellSignature,
     MSellSubmitted, MSellConfirming}"

fun transactionPhaseLabel :: "modal_phase \<Rightarrow> string" where
  "transactionPhaseLabel MReview = ''Review transaction''"
| "transactionPhaseLabel MPreparing = ''Simulating transaction''"
| "transactionPhaseLabel MAwaitingWallet = ''Awaiting wallet confirmation''"
| "transactionPhaseLabel MSubmitted = ''Transaction submitted''"
| "transactionPhaseLabel MConfirming = ''Confirming on Arc Testnet''"
| "transactionPhaseLabel MConfirmed = ''Transaction confirmed''"
| "transactionPhaseLabel MAwaitingApproval = ''Awaiting approval signature''"
| "transactionPhaseLabel MApprovalSubmitted = ''Approval submitted''"
| "transactionPhaseLabel MApprovalConfirmed = ''Approval confirmed''"
| "transactionPhaseLabel MPreparingSell = ''Preparing sell''"
| "transactionPhaseLabel MRefreshingState = ''Refreshing approval and balances''"
| "transactionPhaseLabel MSimulatingSwap = ''Simulating swap on Arc Testnet''"
| "transactionPhaseLabel MAwaitingSellSignature = ''Awaiting sell signature''"
| "transactionPhaseLabel MSellSubmitted = ''Sell submitted''"
| "transactionPhaseLabel MSellConfirming = ''Confirming sell on Arc Testnet''"
| "transactionPhaseLabel MFailed = ''Transaction failed''"
| "transactionPhaseLabel MRejected = ''Wallet request rejected''"
| "transactionPhaseLabel MExpired = ''Quote expired''"
| "transactionPhaseLabel MConfirmationUnknown = ''Confirmation needs attention''"

text \<open>
  What the user does with the open dialog: Escape, a click on the backdrop, the cross, the cancel,
  close or done button, and the confirmation. The result says whether \<^verbatim>\<open>onClose\<close> or
  \<^verbatim>\<open>onConfirm\<close> is called; a closed dialog has no controls.
\<close>

datatype modal_gesture = PressEscape | ClickBackdrop | ClickCross | ClickCancel | ClickDone | ClickConfirm

datatype modal_call = NoCall | CallClose | CallConfirm

definition modal_gesture_call :: "modal_state \<Rightarrow> bool \<Rightarrow> bool \<Rightarrow> modal_gesture \<Rightarrow> modal_call" where
  "modal_gesture_call s hasConfirm confirmDisabled g =
     (let busy = transactionPhaseIsBusy (md_phase s) in
      if \<not> md_open s then NoCall
      else case g of
          PressEscape \<Rightarrow> if \<not> busy then CallClose else NoCall
        | ClickBackdrop \<Rightarrow> if \<not> busy then CallClose else NoCall
        | ClickCross \<Rightarrow> if \<not> busy then CallClose else NoCall
        | ClickCancel \<Rightarrow> if \<not> busy \<and> md_phase s \<noteq> MConfirmed then CallClose else NoCall
        | ClickConfirm \<Rightarrow> if md_phase s = MReview \<and> hasConfirm \<and> \<not> confirmDisabled then CallConfirm else NoCall
        | ClickDone \<Rightarrow> if md_phase s = MConfirmed then CallClose else NoCall)"

text \<open>Nothing can be called while the transaction is under way, a transaction can only be confirmed
  from its review, and every other phase has a way out.\<close>

lemma busy_modal_calls_nothing:
  "transactionPhaseIsBusy (md_phase s) \<Longrightarrow> modal_gesture_call s c d g = NoCall"
  by (cases g) (auto simp: modal_gesture_call_def transactionPhaseIsBusy_def Let_def)

lemma confirm_only_in_review:
  "modal_gesture_call s c d g = CallConfirm \<Longrightarrow> md_open s \<and> md_phase s = MReview \<and> c \<and> \<not> d"
  by (cases g) (auto simp: modal_gesture_call_def Let_def split: if_splits)

lemma idle_modal_closes:
  "md_open s \<Longrightarrow> \<not> transactionPhaseIsBusy (md_phase s) \<Longrightarrow> modal_gesture_call s c d PressEscape = CallClose"
  by (simp add: modal_gesture_call_def Let_def)

end
