(* ===== verification/LockedMachine.thy ===== *)
theory LockedMachine
  imports Main
begin

text \<open>
  The contract the client's forms share. Each is a state machine in which some events start a job (a
  swap, a trade, a launch), a guard in its state is to keep a second job from starting while the first
  is under way, and some events give the guard back. What the contract gives is proved here once; the
  swap panel, the trading panel and the launch form are shown to keep it in their own theories.
\<close>

named_theorems machine_simps \<open>runs of a machine\<close>

fun run_events :: "('e \<Rightarrow> 's \<Rightarrow> 's) \<Rightarrow> 'e list \<Rightarrow> 's \<Rightarrow> 's" where
  "run_events move [] s = s"
| "run_events move (e # es) s = run_events move es (move e s)"

declare run_events.simps [machine_simps]

lemma run_events_append [machine_simps]:
  "run_events move (es @ fs) s = run_events move fs (run_events move es s)"
  by (induction es arbitrary: s) auto

text \<open>Somewhere in a run, an event gives the guard back.\<close>

fun released_in :: "('e \<Rightarrow> 's \<Rightarrow> 's) \<Rightarrow> ('e \<Rightarrow> 's \<Rightarrow> bool) \<Rightarrow> 'e list \<Rightarrow> 's \<Rightarrow> bool" where
  "released_in move releases [] s \<longleftrightarrow> False"
| "released_in move releases (e # es) s \<longleftrightarrow> releases e s \<or> released_in move releases es (move e s)"

lemma not_released:
  "list_all (\<lambda>e. \<forall>s. \<not> releases e s) es \<Longrightarrow> \<not> released_in move releases es s"
  by (induction es arbitrary: s) auto

text \<open>
  \<^verbatim>\<open>starts e s\<close>: in \<^verbatim>\<open>s\<close> the event starts a job. A job is only started with the guard free
  and takes it; only a release gives it back.
\<close>

locale locked_machine =
  fixes move :: "'e \<Rightarrow> 's \<Rightarrow> 's"
    and starts :: "'e \<Rightarrow> 's \<Rightarrow> bool"
    and locked :: "'s \<Rightarrow> bool"
    and releases :: "'e \<Rightarrow> 's \<Rightarrow> bool"
  assumes start_free: "starts e s \<Longrightarrow> \<not> locked s"
    and start_locks: "starts e s \<Longrightarrow> locked (move e s)"
    and keeps_lock: "locked s \<Longrightarrow> \<not> releases e s \<Longrightarrow> locked (move e s)"
begin

lemma run_locked:
  "locked s \<Longrightarrow> \<not> released_in move releases es s \<Longrightarrow> locked (run_events move es s)"
  by (induction es arbitrary: s) (auto intro: keeps_lock)

lemma one_at_a_time:
  assumes "starts e0 s" and "\<not> released_in move releases es (move e0 s)"
  shows "\<not> starts e (run_events move es (move e0 s))"
  using run_locked[OF start_locks[OF assms(1)] assms(2)] start_free by blast

text \<open>Between the starts of two jobs lies a release.\<close>

lemma starts_separated:
  assumes "starts e0 s" and "starts e (run_events move es (move e0 s))"
  shows "released_in move releases es (move e0 s)"
  using one_at_a_time assms by blast

end

end
