(* ===== verification/CreateForm.thy ===== *)
theory CreateForm
  imports TokenLaunch TransactionModal PendingTrades LockedMachine "HOL-Library.AList"
begin

text \<open>
  The launch form of the create page (\<^verbatim>\<open>components/create-token-form.tsx\<close>): its React state as
  one record, editing, review, submission and the retry of a failed first buy as functions on it, the
  effects after a render, and what the page runs for it. The launch itself is in TokenLaunch.
\<close>

subsection \<open>Statuses\<close>

datatype tx_status =
    XIdle | XPreparing | XAwaitingWallet | XSubmitted | XConfirming | XConfirmed | XFailed | XRejected
  | XBuyPreparing | XBuyAwaitingWallet | XBuySubmitted | XBuyConfirming | XBuyConfirmed | XBuyFailed | XBuyRejected

record transaction_state =
  tx_status :: tx_status
  tx_hash :: "string option"
  tx_error :: "string option"

definition idleTransaction :: transaction_state where
  "idleTransaction = \<lparr>tx_status = XIdle, tx_hash = None, tx_error = None\<rparr>"

definition tx_pending :: "tx_status \<Rightarrow> bool" where
  "tx_pending st \<longleftrightarrow> st \<in> {XPreparing, XAwaitingWallet, XSubmitted, XConfirming, XBuyPreparing, XBuyAwaitingWallet,
     XBuySubmitted, XBuyConfirming}"

fun createModalPhase :: "tx_status \<Rightarrow> modal_phase option" where
  "createModalPhase XIdle = None"
| "createModalPhase XPreparing = Some MPreparing"
| "createModalPhase XAwaitingWallet = Some MAwaitingWallet"
| "createModalPhase XSubmitted = Some MSubmitted"
| "createModalPhase XConfirming = Some MConfirming"
| "createModalPhase XConfirmed = Some MConfirmed"
| "createModalPhase XFailed = Some MFailed"
| "createModalPhase XRejected = Some MRejected"
| "createModalPhase XBuyPreparing = Some MPreparing"
| "createModalPhase XBuyAwaitingWallet = Some MAwaitingWallet"
| "createModalPhase XBuySubmitted = Some MSubmitted"
| "createModalPhase XBuyConfirming = Some MConfirming"
| "createModalPhase XBuyConfirmed = Some MConfirmed"
| "createModalPhase XBuyFailed = Some MFailed"
| "createModalPhase XBuyRejected = Some MRejected"

fun createStatusLabel :: "chain_module \<Rightarrow> tx_status \<Rightarrow> string" where
  "createStatusLabel m XPreparing = ''Preparing metadata and factory transaction'' @ ellipsis"
| "createStatusLabel m XAwaitingWallet = ''Confirm the transaction in your connected wallet to create the token'' @ ellipsis"
| "createStatusLabel m XSubmitted = ''Creation transaction submitted.''"
| "createStatusLabel m XConfirming = ''Waiting for '' @ selectedCooketChainName m @ '' creation confirmation and indexing'' @ ellipsis"
| "createStatusLabel m XConfirmed = ''Token creation confirmed.''"
| "createStatusLabel m XFailed = ''Token creation failed.''"
| "createStatusLabel m XRejected = ''Transaction rejected. Token creation was not completed.''"
| "createStatusLabel m XBuyPreparing = ''Token created. Preparing a fresh protected Dev buy quote'' @ ellipsis"
| "createStatusLabel m XBuyAwaitingWallet = ''Token created. Confirm the Dev buy in your connected wallet'' @ ellipsis"
| "createStatusLabel m XBuySubmitted = ''Dev buy transaction submitted.''"
| "createStatusLabel m XBuyConfirming = ''Waiting for Dev buy confirmation'' @ ellipsis"
| "createStatusLabel m XBuyConfirmed = ''Dev buy confirmed.''"
| "createStatusLabel m XBuyFailed = ''Token created, but Dev buy failed.''"
| "createStatusLabel m XBuyRejected = ''Token created, but Dev buy was rejected.''"
| "createStatusLabel m XIdle = ''Review transaction''"

definition hasDevBuy :: "string \<Rightarrow> bool" where
  "hasDevBuy v = (case parseDevBuyNativeUsdcAmount v of Inl e \<Rightarrow> False | Inr n \<Rightarrow> 0 < n)"

subsection \<open>The form\<close>

text \<open>The props, with what the page's \<^verbatim>\<open>execute\<close> has captured of the wallet.\<close>

record form_props =
  fp_connected :: bool
  fp_ready :: bool
  fp_statusMessage :: "string option"
  fp_chainId :: "int option"
  fp_walletAddress :: "string option"
  fp_hasClient :: bool

text \<open>What a running launch has captured.\<close>

record launch_job =
  lj_input :: create_input
  lj_chainId :: "int option"
  lj_creator :: "string option"
  lj_hasClient :: bool

text \<open>
  \<^verbatim>\<open>cf_failure\<close> is the first buy that failed, with the launch its retry closes over;
  \<^verbatim>\<open>cf_reading\<close> is the file the current \<^verbatim>\<open>FileReader\<close> reads; \<^verbatim>\<open>cf_probes\<close> are the images
  that are being loaded, whose handlers are never detached.
\<close>

record create_form =
  cf_props :: form_props
  cf_input :: create_input
  cf_errors :: form_errors
  cf_review :: bool
  cf_tx :: transaction_state
  cf_result :: "create_result option"
  cf_failure :: "(dev_buy_failure \<times> launch_job) option"
  cf_modal :: modal_state
  cf_preview :: string
  cf_submission :: bool
  cf_reading :: "image_file option"
  cf_probes :: "string list"

definition empty_input :: create_input where
  "empty_input = \<lparr>ci_name = '''', ci_symbol = '''', ci_description = '''', ci_websiteUrl = '''', ci_xUrl = '''',
     ci_telegramUrl = '''', ci_discordUrl = '''', ci_imageFile = None, ci_imageUrl = '''', ci_imageSource = ImageFile,
     ci_devBuyNativeUsdc = ''''\<rparr>"

definition mount_form :: "form_props \<Rightarrow> create_form" where
  "mount_form pr = \<lparr>cf_props = pr, cf_input = empty_input, cf_errors = [], cf_review = False, cf_tx = idleTransaction,
     cf_result = None, cf_failure = None, cf_modal = closedTransactionModal, cf_preview = '''', cf_submission = False,
     cf_reading = None, cf_probes = []\<rparr>"

definition form_pending :: "create_form \<Rightarrow> bool" where
  "form_pending p \<longleftrightarrow> tx_pending (tx_status (cf_tx p))"

definition wallet_usable :: "form_props \<Rightarrow> bool" where
  "wallet_usable pr \<longleftrightarrow> fp_connected pr \<and> fp_ready pr"

text \<open>The two effects after a render: the dialog follows a changed status, and a changed image is read or
  loaded. The cleanup of the second aborts the reader, but leaves an image that is loading alone.\<close>

definition follow_tx :: "create_form \<Rightarrow> create_form \<Rightarrow> create_form" where
  "follow_tx before p =
     (if tx_status (cf_tx before) = tx_status (cf_tx p) then p
      else case createModalPhase (tx_status (cf_tx p)) of
          None \<Rightarrow> p
        | Some phase \<Rightarrow> p\<lparr>cf_modal := transactionModalReducer (cf_modal p) (ProgressAction phase)\<rparr>)"

definition image_effect :: "create_form \<Rightarrow> create_form" where
  "image_effect p =
     (let q = p\<lparr>cf_reading := None\<rparr> in
      case ci_imageSource (cf_input p) of
        ImageFile \<Rightarrow> (case ci_imageFile (cf_input p) of None \<Rightarrow> q | Some f \<Rightarrow> q\<lparr>cf_reading := Some f\<rparr>)
      | ImageUrl \<Rightarrow>
          (let imageURL = js_trim (ci_imageUrl (cf_input p)) in
           if imageURL = [] then q else q\<lparr>cf_probes := imageURL # cf_probes q\<rparr>))"

definition form_committed :: "bool \<Rightarrow> create_form \<Rightarrow> create_form \<Rightarrow> create_form" where
  "form_committed newFile before p =
     (let q = follow_tx before p;
          image = (\<lambda>i. (ci_imageFile i, ci_imageSource i, ci_imageUrl i)) in
      if newFile \<or> image (cf_input before) \<noteq> image (cf_input p) then image_effect q else q)"

definition image_load_error :: string where
  "image_load_error = ''Image URL could not be loaded.''"

definition probe_loaded :: "string \<Rightarrow> create_form \<Rightarrow> create_form" where
  "probe_loaded url p =
     (if url \<notin> set (cf_probes p) then p
      else if map_of (cf_errors p) ''image'' = Some image_load_error
      then p\<lparr>cf_probes := remove1 url (cf_probes p), cf_errors := AList.update ''image'' '''' (cf_errors p)\<rparr>
      else p\<lparr>cf_probes := remove1 url (cf_probes p)\<rparr>)"

definition probe_failed :: "string \<Rightarrow> create_form \<Rightarrow> create_form" where
  "probe_failed url p =
     (if url \<notin> set (cf_probes p) then p
      else p\<lparr>cf_probes := remove1 url (cf_probes p),
        cf_errors := AList.update ''image'' image_load_error (cf_errors p)\<rparr>)"

definition preview_read :: "string \<Rightarrow> create_form \<Rightarrow> create_form" where
  "preview_read text_url p =
     (if cf_reading p = None then p else p\<lparr>cf_reading := None, cf_preview := text_url\<rparr>)"


subsection \<open>Editing\<close>

datatype text_field = NameField | SymbolField | AboutField | WebsiteField | XField | TelegramField | DiscordField | DevBuyField

fun field_key :: "text_field \<Rightarrow> string" where
  "field_key NameField = ''name''"
| "field_key SymbolField = ''symbol''"
| "field_key AboutField = ''description''"
| "field_key WebsiteField = ''websiteUrl''"
| "field_key XField = ''xUrl''"
| "field_key TelegramField = ''telegramUrl''"
| "field_key DiscordField = ''discordUrl''"
| "field_key DevBuyField = ''devBuyNativeUsdc''"

fun set_field :: "text_field \<Rightarrow> string \<Rightarrow> create_input \<Rightarrow> create_input" where
  "set_field NameField v i = i\<lparr>ci_name := v\<rparr>"
| "set_field SymbolField v i = i\<lparr>ci_symbol := v\<rparr>"
| "set_field AboutField v i = i\<lparr>ci_description := v\<rparr>"
| "set_field WebsiteField v i = i\<lparr>ci_websiteUrl := v\<rparr>"
| "set_field XField v i = i\<lparr>ci_xUrl := v\<rparr>"
| "set_field TelegramField v i = i\<lparr>ci_telegramUrl := v\<rparr>"
| "set_field DiscordField v i = i\<lparr>ci_discordUrl := v\<rparr>"
| "set_field DevBuyField v i = i\<lparr>ci_devBuyNativeUsdc := v\<rparr>"

datatype field_change = SetText text_field string | SetImageFile "image_file option" | SetImageUrl string

datatype form_command =
    RunLaunch launch_job
  | RunDevBuy dev_buy_failure launch_job
  | OpenToken string
  | DevBuyChanged bool

fun update :: "(string \<Rightarrow> url option) \<Rightarrow> field_change \<Rightarrow> create_form \<Rightarrow> create_form \<times> form_command list" where
  "update U (SetText f v) p =
     (p\<lparr>cf_input := set_field f v (cf_input p), cf_errors := AList.update (field_key f) '''' (cf_errors p)\<rparr>,
      if f = DevBuyField then [DevBuyChanged (hasDevBuy v)] else [])"
| "update U (SetImageFile v) p =
     (p\<lparr>cf_input := (cf_input p)\<lparr>ci_imageFile := v, ci_imageUrl := ''''\<rparr>,
        cf_errors := AList.update ''image'' '''' (AList.update ''imageFile'' '''' (cf_errors p)),
        cf_preview := (if v = None then '''' else cf_preview p)\<rparr>, [])"
| "update U (SetImageUrl v) p =
     (p\<lparr>cf_input := (cf_input p)\<lparr>ci_imageUrl := v, ci_imageFile := None\<rparr>,
        cf_errors := AList.update ''image'' '''' (AList.update ''imageUrl'' '''' (cf_errors p)),
        cf_preview := (if isHTTPSImageURL U (js_trim v) then js_trim v else '''')\<rparr>, [])"

definition switchImageSource :: "image_source \<Rightarrow> create_form \<Rightarrow> create_form" where
  "switchImageSource src p =
     p\<lparr>cf_input := (cf_input p)\<lparr>ci_imageSource := src,
          ci_imageFile := (if src = ImageFile then ci_imageFile (cf_input p) else None),
          ci_imageUrl := (if src = ImageUrl then ci_imageUrl (cf_input p) else '''')\<rparr>,
       cf_preview := '''',
       cf_errors := AList.update ''imageUrl'' '''' (AList.update ''imageFile'' '''' (AList.update ''image'' '''' (cf_errors p)))\<rparr>"

definition openReview :: "(string \<Rightarrow> url option) \<Rightarrow> create_form \<Rightarrow> create_form" where
  "openReview U p =
     (let found = validateCreateToken U (cf_input p); q = p\<lparr>cf_errors := found\<rparr> in
      if found = [] then q\<lparr>cf_review := True\<rparr> else q)"

subsection \<open>Submission\<close>

definition network_message :: "chain_module \<Rightarrow> form_props \<Rightarrow> string" where
  "network_message m pr =
     (case truthy (fp_statusMessage pr) of
        Some t \<Rightarrow> t
      | None \<Rightarrow> ''Connect the browser wallet on '' @ selectedCooketChainName m @ '' before submitting.'')"

text \<open>\<^verbatim>\<open>submit\<close> up to the call of \<^verbatim>\<open>execute\<close>.\<close>

definition submit :: "chain_module \<Rightarrow> (string \<Rightarrow> url option) \<Rightarrow> create_form \<Rightarrow> create_form \<times> form_command list" where
  "submit m U p =
     (let found = validateCreateToken U (cf_input p); pr = cf_props p in
      if cf_submission p then (p, [])
      else if found \<noteq> [] then (p\<lparr>cf_errors := found, cf_review := False\<rparr>, [])
      else if \<not> canCreateToken m (fp_chainId pr) (wallet_usable pr) False
      then (p\<lparr>cf_errors := [(''network'', network_message m pr)]\<rparr>, [])
      else (p\<lparr>cf_submission := True, cf_errors := [], cf_result := None, cf_failure := None\<rparr>,
            [RunLaunch \<lparr>lj_input = cf_input p, lj_chainId = fp_chainId pr, lj_creator = fp_walletAddress pr,
               lj_hasClient = fp_hasClient pr\<rparr>]))"

text \<open>\<^verbatim>\<open>error instanceof Error ? error.message : "..."\<close>, and the rejections the form recognises:
  unlike \<^verbatim>\<open>executeDevBuy\<close>, it does not know \<^verbatim>\<open>cancelled\<close>.\<close>

definition message_or :: "string \<Rightarrow> js_error \<Rightarrow> string" where
  "message_or fallback e = (case e of JsError n t \<Rightarrow> t | JsOther s \<Rightarrow> fallback)"

definition form_rejection :: "string \<Rightarrow> bool" where
  "form_rejection message \<longleftrightarrow> matches_any_ci [''reject'', ''denied''] message"

definition failure_status :: "dev_buy_failure \<Rightarrow> tx_status" where
  "failure_status f = (if dbf_rejected f then XBuyRejected else if dbf_retryable f then XBuyFailed else XBuyConfirming)"

text \<open>The rest of \<^verbatim>\<open>submit\<close>: the result, the \<^verbatim>\<open>catch\<close> and the \<^verbatim>\<open>finally\<close>.\<close>

definition launch_settled ::
    "launch_job \<Rightarrow> (dev_buy_failure + create_result) result \<Rightarrow> create_form \<Rightarrow> create_form \<times> form_command list" where
  "launch_settled j outcome p =
     (case outcome of
        Inr (Inr created) \<Rightarrow>
          (p\<lparr>cf_result := Some created,
             cf_tx := \<lparr>tx_status = XConfirmed, tx_hash = Some (cr_hash created), tx_error = None\<rparr>,
             cf_submission := False\<rparr>, [OpenToken (cr_tokenAddress created)])
      | Inr (Inl f) \<Rightarrow>
          (p\<lparr>cf_result := Some \<lparr>cr_tokenAddress = dbf_tokenAddress f, cr_hash = dbf_creationHash f,
               cr_devBuyHash = dbf_buyHash f, cr_metadataPending = False\<rparr>,
             cf_failure := Some (f, j),
             cf_tx := \<lparr>tx_status = failure_status f,
               tx_hash = Some (or_else (dbf_buyHash f) (dbf_creationHash f)), tx_error = Some (dbf_message f)\<rparr>,
             cf_submission := False\<rparr>, [])
      | Inl e \<Rightarrow>
          (let message = message_or ''Token creation failed.'' e in
           (p\<lparr>cf_tx := \<lparr>tx_status = (if form_rejection message then XRejected else XFailed),
                tx_hash = tx_hash (cf_tx p), tx_error = Some message\<rparr>, cf_submission := False\<rparr>, [])))"

definition retryDevBuy :: "create_form \<Rightarrow> create_form \<times> form_command list" where
  "retryDevBuy p =
     (case cf_failure p of
        None \<Rightarrow> (p, [])
      | Some (f, j) \<Rightarrow>
          if cf_submission p then (p, [])
          else (p\<lparr>cf_submission := True,
                  cf_tx := \<lparr>tx_status = XBuyPreparing, tx_hash = Some (dbf_creationHash f), tx_error = None\<rparr>\<rparr>,
                [RunDevBuy f j]))"

text \<open>The rest of \<^verbatim>\<open>retryDevBuy\<close>: what it throws is an error of \<^verbatim>\<open>executeDevBuy\<close> or one before it.\<close>

definition retry_message :: "js_error + dev_buy_error \<Rightarrow> string" where
  "retry_message e = (case e of Inl reason \<Rightarrow> message_or ''The Dev buy could not be completed.'' reason
     | Inr d \<Rightarrow> dbe_message d)"

definition retry_settled ::
    "dev_buy_failure \<Rightarrow> (dev_buy_error + string) result \<Rightarrow> create_form \<Rightarrow> create_form \<times> form_command list" where
  "retry_settled f outcome p =
     (let failed = (\<lambda>message. (p\<lparr>cf_tx := \<lparr>tx_status = (if form_rejection message then XBuyRejected else XBuyFailed),
             tx_hash = tx_hash (cf_tx p), tx_error = Some message\<rparr>, cf_submission := False\<rparr>, [])) in
      case outcome of
        Inr (Inr devBuyHash) \<Rightarrow>
          (p\<lparr>cf_result := map_option (\<lambda>r. r\<lparr>cr_devBuyHash := Some devBuyHash\<rparr>) (cf_result p), cf_failure := None,
             cf_tx := \<lparr>tx_status = XBuyConfirmed, tx_hash = Some devBuyHash, tx_error = None\<rparr>,
             cf_submission := False\<rparr>, [OpenToken (dbf_tokenAddress f)])
      | Inr (Inl d) \<Rightarrow> failed (retry_message (Inr d))
      | Inl reason \<Rightarrow> failed (retry_message (Inl reason)))"

text \<open>What the page runs for the two commands: the whole launch, and the first buy again with the creator
  and the amount of the launch it belongs to.\<close>

definition run_launch ::
    "client \<Rightarrow> hash_library \<Rightarrow> launch_services \<Rightarrow> launch_job \<Rightarrow> (dev_buy_failure + create_result) io" where
  "run_launch c h sv j = launchExecute c h sv (lj_input j) (lj_chainId j) (lj_creator j) (lj_hasClient j)"

definition run_dev_buy :: "client \<Rightarrow> dev_buy_failure \<Rightarrow> launch_job \<Rightarrow> (dev_buy_error + string) io" where
  "run_dev_buy c f j =
     io_bind (io_result (c_getAddress c (or_else (lj_creator j) ''''))) (\<lambda>creatorAddress.
     io_bind (io_result (parseDevBuyNativeUsdcAmount (ci_devBuyNativeUsdc (lj_input j)))) (\<lambda>amount.
     io_bind (io_throw_if (\<not> lj_hasClient j) ''The connected browser wallet is unavailable.'') (\<lambda>_.
       executeDevBuy c (dbf_tokenAddress f) creatorAddress amount (dbf_creationHash f))))"

subsection \<open>Interleavings\<close>

text \<open>What can happen to the form: new props, input, its buttons, gestures on the dialog, images that were read
  or loaded, and the reports and the ends of a launch and of a retried first buy.\<close>

datatype form_event =
    NewFormProps form_props
  | ChangeField field_change
  | PickImageSource image_source
  | PressReviewMetadata
  | PressEdit
  | PressFactory
  | PressRetry
  | DialogAction modal_gesture
  | PreviewRead string
  | ProbeLoaded string
  | ProbeFailed string
  | TxReport transaction_state
  | LaunchSettled launch_job "(dev_buy_failure + create_result) result"
  | RetrySettled dev_buy_failure "(dev_buy_error + string) result"

text \<open>Which field a change is typed into: the details are not rendered in the review and disabled while pending,
  and only the input of the chosen image source is there. The symbol is typed in upper case.\<close>

fun typed :: "field_change \<Rightarrow> field_change" where
  "typed (SetText SymbolField v) = SetText SymbolField (js_upper v)"
| "typed c = c"

fun rendered :: "field_change \<Rightarrow> create_input \<Rightarrow> bool" where
  "rendered (SetText f v) i \<longleftrightarrow> True"
| "rendered (SetImageFile v) i \<longleftrightarrow> ci_imageSource i = ImageFile"
| "rendered (SetImageUrl v) i \<longleftrightarrow> ci_imageSource i = ImageUrl"

definition editable :: "create_form \<Rightarrow> bool" where
  "editable p \<longleftrightarrow> \<not> cf_review p \<and> \<not> form_pending p"

definition retry_offered :: "create_form \<Rightarrow> bool" where
  "retry_offered p \<longleftrightarrow> cf_result p \<noteq> None \<and> \<not> form_pending p
     \<and> (case cf_failure p of None \<Rightarrow> False | Some (f, j) \<Rightarrow> dbf_retryable f)"

definition factory_offered :: "chain_module \<Rightarrow> create_form \<Rightarrow> bool" where
  "factory_offered m p \<longleftrightarrow> cf_review p \<and> \<not> form_pending p
     \<and> canCreateToken m (fp_chainId (cf_props p)) (wallet_usable (cf_props p)) (form_pending p)"

fun form_handle ::
    "chain_module \<Rightarrow> (string \<Rightarrow> url option) \<Rightarrow> form_event \<Rightarrow> create_form \<Rightarrow> create_form \<times> form_command list" where
  "form_handle m U (NewFormProps pr) p = (p\<lparr>cf_props := pr\<rparr>, [])"
| "form_handle m U (ChangeField c) p = (if editable p \<and> rendered c (cf_input p) then update U (typed c) p else (p, []))"
| "form_handle m U (PickImageSource src) p = ((if editable p then switchImageSource src p else p), [])"
| "form_handle m U PressReviewMetadata p = ((if editable p then openReview U p else p), [])"
| "form_handle m U PressEdit p = ((if cf_review p \<and> \<not> form_pending p then p\<lparr>cf_review := False\<rparr> else p), [])"
| "form_handle m U PressFactory p =
     ((if factory_offered m p then p\<lparr>cf_modal := transactionModalReducer (cf_modal p) ReviewAction\<rparr> else p), [])"
| "form_handle m U PressRetry p = (if retry_offered p then retryDevBuy p else (p, []))"
| "form_handle m U (DialogAction g) p =
     (case modal_gesture_call (cf_modal p) True (\<not> fp_ready (cf_props p)) g of
        NoCall \<Rightarrow> (p, [])
      | CallClose \<Rightarrow> (p\<lparr>cf_modal := transactionModalReducer (cf_modal p) CloseAction\<rparr>, [])
      | CallConfirm \<Rightarrow> submit m U p)"
| "form_handle m U (PreviewRead t) p = (preview_read t p, [])"
| "form_handle m U (ProbeLoaded url) p = (probe_loaded url p, [])"
| "form_handle m U (ProbeFailed url) p = (probe_failed url p, [])"
| "form_handle m U (TxReport st) p = (p\<lparr>cf_tx := st\<rparr>, [])"
| "form_handle m U (LaunchSettled j outcome) p = launch_settled j outcome p"
| "form_handle m U (RetrySettled f outcome) p = retry_settled f outcome p"

fun picks_file :: "form_event \<Rightarrow> bool" where
  "picks_file (ChangeField (SetImageFile (Some f))) = True"
| "picks_file _ = False"

definition form_step ::
    "chain_module \<Rightarrow> (string \<Rightarrow> url option) \<Rightarrow> form_event \<Rightarrow> create_form \<Rightarrow> create_form \<times> form_command list" where
  "form_step m U e p = (case form_handle m U e p of (q, cs) \<Rightarrow>
     (form_committed (picks_file e \<and> editable p \<and> ci_imageSource (cf_input p) = ImageFile) p q, cs))"

abbreviation form_move :: "chain_module \<Rightarrow> (string \<Rightarrow> url option) \<Rightarrow> form_event \<Rightarrow> create_form \<Rightarrow> create_form" where
  "form_move m U e p \<equiv> fst (form_step m U e p)"

abbreviation form_run :: "chain_module \<Rightarrow> (string \<Rightarrow> url option) \<Rightarrow> form_event list \<Rightarrow> create_form \<Rightarrow> create_form" where
  "form_run m U \<equiv> run_events (form_move m U)"


subsection \<open>What a render's effects leave alone\<close>

lemma image_effect_keeps [simp]:
  "cf_props (image_effect p) = cf_props p" "cf_input (image_effect p) = cf_input p"
  "cf_errors (image_effect p) = cf_errors p" "cf_review (image_effect p) = cf_review p" "cf_tx (image_effect p) = cf_tx p"
  "cf_result (image_effect p) = cf_result p" "cf_failure (image_effect p) = cf_failure p"
  "cf_modal (image_effect p) = cf_modal p" "cf_submission (image_effect p) = cf_submission p"
  by (auto simp: image_effect_def Let_def split: image_source.split option.split)

lemma follow_tx_keeps [simp]:
  "cf_props (follow_tx b p) = cf_props p" "cf_input (follow_tx b p) = cf_input p"
  "cf_errors (follow_tx b p) = cf_errors p" "cf_review (follow_tx b p) = cf_review p" "cf_tx (follow_tx b p) = cf_tx p"
  "cf_result (follow_tx b p) = cf_result p" "cf_failure (follow_tx b p) = cf_failure p"
  "cf_submission (follow_tx b p) = cf_submission p" "cf_probes (follow_tx b p) = cf_probes p"
  by (auto simp: follow_tx_def split: option.split)

lemma form_committed_keeps [simp]:
  "cf_props (form_committed n b p) = cf_props p" "cf_input (form_committed n b p) = cf_input p"
  "cf_errors (form_committed n b p) = cf_errors p" "cf_review (form_committed n b p) = cf_review p"
  "cf_tx (form_committed n b p) = cf_tx p" "cf_result (form_committed n b p) = cf_result p"
  "cf_failure (form_committed n b p) = cf_failure p" "cf_submission (form_committed n b p) = cf_submission p"
  "cf_modal (form_committed n b p) = cf_modal (follow_tx b p)"
  by (auto simp: form_committed_def Let_def)

lemma form_step_parts:
  "form_move m U e p = form_committed (picks_file e \<and> editable p \<and> ci_imageSource (cf_input p) = ImageFile) p
     (fst (form_handle m U e p))"
  "snd (form_step m U e p) = snd (form_handle m U e p)"
  by (simp_all add: form_step_def split: prod.split)

lemma update_keeps [simp]:
  "cf_submission (fst (update U c p)) = cf_submission p" "cf_tx (fst (update U c p)) = cf_tx p"
  "cf_props (fst (update U c p)) = cf_props p" "cf_result (fst (update U c p)) = cf_result p"
  "cf_failure (fst (update U c p)) = cf_failure p" "cf_modal (fst (update U c p)) = cf_modal p"
  "cf_review (fst (update U c p)) = cf_review p"
  by (cases c; simp)+

lemma input_events_keep [simp]:
  "cf_submission (switchImageSource src p) = cf_submission p" "cf_tx (switchImageSource src p) = cf_tx p"
  "cf_result (switchImageSource src p) = cf_result p" "cf_failure (switchImageSource src p) = cf_failure p"
  "cf_modal (switchImageSource src p) = cf_modal p"
  "cf_submission (openReview U p) = cf_submission p" "cf_tx (openReview U p) = cf_tx p"
  "cf_result (openReview U p) = cf_result p" "cf_failure (openReview U p) = cf_failure p"
  "cf_modal (openReview U p) = cf_modal p"
  "cf_submission (preview_read t p) = cf_submission p" "cf_tx (preview_read t p) = cf_tx p"
  "cf_result (preview_read t p) = cf_result p" "cf_failure (preview_read t p) = cf_failure p"
  "cf_modal (preview_read t p) = cf_modal p"
  "cf_submission (probe_loaded t p) = cf_submission p" "cf_tx (probe_loaded t p) = cf_tx p"
  "cf_result (probe_loaded t p) = cf_result p" "cf_failure (probe_loaded t p) = cf_failure p"
  "cf_modal (probe_loaded t p) = cf_modal p"
  "cf_submission (probe_failed t p) = cf_submission p" "cf_tx (probe_failed t p) = cf_tx p"
  "cf_result (probe_failed t p) = cf_result p" "cf_failure (probe_failed t p) = cf_failure p"
  "cf_modal (probe_failed t p) = cf_modal p"
  by (simp_all add: switchImageSource_def openReview_def preview_read_def probe_loaded_def probe_failed_def Let_def)

subsection \<open>One launch at a time\<close>

fun is_job :: "form_command \<Rightarrow> bool" where
  "is_job (RunLaunch j) = True"
| "is_job (RunDevBuy f j) = True"
| "is_job _ = False"

fun ends_job :: "form_event \<Rightarrow> bool" where
  "ends_job (LaunchSettled j outcome) = True"
| "ends_job (RetrySettled f outcome) = True"
| "ends_job _ = False"

text \<open>The jobs a step starts, and the conditions under which it does.\<close>

definition form_jobs :: "chain_module \<Rightarrow> (string \<Rightarrow> url option) \<Rightarrow> form_event \<Rightarrow> create_form \<Rightarrow> form_command list" where
  "form_jobs m U e p = filter is_job (snd (form_step m U e p))"

lemma update_starts_nothing: "c' \<in> set (snd (update U c p)) \<Longrightarrow> \<not> is_job c'"
  by (cases c) (auto split: if_splits)

lemma submit_cases:
  "submit m U p = (p, [])
   \<or> (\<exists>errors review. submit m U p = (p\<lparr>cf_errors := errors, cf_review := review\<rparr>, []))
   \<or> (\<not> cf_submission p \<and> validateCreateToken U (cf_input p) = []
      \<and> fp_chainId (cf_props p) = Some (selectedCooketChainId m) \<and> wallet_usable (cf_props p)
      \<and> submit m U p = (p\<lparr>cf_submission := True, cf_errors := [], cf_result := None, cf_failure := None\<rparr>,
          [RunLaunch \<lparr>lj_input = cf_input p, lj_chainId = fp_chainId (cf_props p), lj_creator = fp_walletAddress (cf_props p),
             lj_hasClient = fp_hasClient (cf_props p)\<rparr>]))"
proof (cases "cf_submission p")
  case True
  then show ?thesis by (simp add: submit_def Let_def)
next
  case free: False
  show ?thesis
  proof (cases "validateCreateToken U (cf_input p) = []")
    case False
    with free show ?thesis by (intro disjI2 disjI1 exI) (simp add: submit_def Let_def)
  next
    case True
    have "submit m U p = (p\<lparr>cf_errors := [(''network'', network_message m (cf_props p))], cf_review := cf_review p\<rparr>, [])"
      if "\<not> canCreateToken m (fp_chainId (cf_props p)) (wallet_usable (cf_props p)) False"
      using free True that by (simp add: submit_def Let_def)
    then show ?thesis using free True
      by (cases "canCreateToken m (fp_chainId (cf_props p)) (wallet_usable (cf_props p)) False")
        (simp add: submit_def Let_def canCreateToken_def isSelectedCooketChain_def, blast)
  qed
qed

lemma form_jobs_cases:
  assumes "c \<in> set (form_jobs m U e p)"
  shows "(\<exists>g. e = DialogAction g \<and> modal_gesture_call (cf_modal p) True (\<not> fp_ready (cf_props p)) g = CallConfirm
          \<and> submit m U p = (p\<lparr>cf_submission := True, cf_errors := [], cf_result := None, cf_failure := None\<rparr>, [c]))
    \<or> (e = PressRetry \<and> retry_offered p \<and> (\<exists>f j. c = RunDevBuy f j \<and> cf_failure p = Some (f, j)))"
proof (cases e)
  case (DialogAction g)
  with assms have call: "modal_gesture_call (cf_modal p) True (\<not> fp_ready (cf_props p)) g = CallConfirm"
    "c \<in> set (snd (submit m U p))"
    by (auto simp: form_jobs_def form_step_parts split: modal_call.splits)
  with submit_cases[of m U p] DialogAction show ?thesis by auto
qed (use assms update_starts_nothing in \<open>auto simp: form_jobs_def form_step_parts launch_settled_def retry_settled_def
  retryDevBuy_def Let_def split: if_splits sum.splits option.splits prod.splits\<close>)

lemma form_jobs_lock:
  assumes "form_jobs m U e p \<noteq> []"
  shows "\<not> cf_submission p \<and> cf_submission (form_move m U e p)"
proof -
  obtain c where c: "c \<in> set (form_jobs m U e p)" using assms by (cases "form_jobs m U e p") auto
  have "c \<in> set (snd (form_handle m U e p))" using c by (simp add: form_jobs_def form_step_parts)
  then have free: "\<not> cf_submission p"
    using form_jobs_cases[OF c] by (auto simp: submit_def retryDevBuy_def split: if_splits option.splits prod.splits)
  with form_jobs_cases[OF c] show ?thesis
    by (auto simp: form_step_parts retryDevBuy_def split: option.splits prod.splits)
qed

lemma locked_form_keeps:
  assumes "cf_submission p" and "\<not> ends_job e"
  shows "cf_submission (form_move m U e p)"
proof -
  have "submit m U p = (p, [])" using assms(1) by (simp add: submit_def Let_def)
  then show ?thesis using assms
    by (cases e) (auto simp: form_step_parts retryDevBuy_def split: modal_call.split option.split prod.split)
qed

interpretation form_lock: locked_machine "form_move m U" "\<lambda>e p. form_jobs m U e p \<noteq> []" cf_submission "\<lambda>e p. ends_job e" for m U
  by unfold_locales (use form_jobs_lock locked_form_keeps in blast)+

text \<open>C13: the form runs one launch or retried first buy at a time: once a step has started one, no later
  step starts another before an end of a launch or a retry has arrived, whatever the user, the wallet and
  the reports of the running one do in between.\<close>

theorem one_launch_at_a_time:
  assumes "form_jobs m U e0 p \<noteq> []" and "list_all (\<lambda>e. \<not> ends_job e) es"
  shows "form_jobs m U e (form_run m U es (form_move m U e0 p)) = []"
proof -
  have "\<not> released_in (form_move m U) (\<lambda>e p. ends_job e) es (form_move m U e0 p)"
    by (rule not_released) (use assms(2) in \<open>simp add: list_all_iff\<close>)
  from form_lock.one_at_a_time[OF assms(1) this] show ?thesis by simp
qed


subsection \<open>What is launched\<close>

text \<open>A computation whose first transaction satisfies \<^verbatim>\<open>S\<close>, with at most \<^verbatim>\<open>n\<close> further
  ones; if it sends none it throws.\<close>

definition opens_with :: "(call_spec \<Rightarrow> bool) \<Rightarrow> nat \<Rightarrow> 'a io \<Rightarrow> bool" where
  "opens_with S n m \<longleftrightarrow> (\<forall>tr r t. m tr = (r, t) \<longrightarrow>
     (\<exists>ws. writes t = writes tr @ ws \<and> length ws \<le> Suc n \<and> (if ws = [] then \<exists>e. r = Inl e else S (hd ws))))"

lemma opens_throw: "opens_with S n (io_throw e)"
  by (auto simp: opens_with_def io_throw_def)

lemma opens_read_bind:
  assumes "read_only m" and "\<And>a. opens_with S n (f a)"
  shows "opens_with S n (io_bind m f)"
proof (unfold opens_with_def, intro allI impI)
  fix tr r t' assume run: "io_bind m f tr = (r, t')"
  obtain r0 t where m: "m tr = (r0, t)" by (cases "m tr")
  note same = read_only_writes[OF assms(1) m]
  show "\<exists>ws. writes t' = writes tr @ ws \<and> length ws \<le> Suc n \<and> (if ws = [] then \<exists>e. r = Inl e else S (hd ws))"
  proof (cases r0)
    case (Inl e)
    with run m same show ?thesis by (auto simp: io_bind_def)
  next
    case (Inr a)
    with run m have "f a t = (r, t')" by (simp add: io_bind_def)
    from assms(2)[unfolded opens_with_def, rule_format, OF this] same show ?thesis by simp
  qed
qed

lemma opens_bind:
  assumes "opens_with S 0 m" and "\<And>a. at_most_writes n (f a)"
  shows "opens_with S n (io_bind m f)"
proof (unfold opens_with_def, intro allI impI)
  fix tr r t' assume run: "io_bind m f tr = (r, t')"
  obtain r0 t where m: "m tr = (r0, t)" by (cases "m tr")
  from assms(1)[unfolded opens_with_def, rule_format, OF m] obtain ws where ws: "writes t = writes tr @ ws"
    "length ws \<le> 1" "if ws = [] then \<exists>e. r0 = Inl e else S (hd ws)" by auto
  show "\<exists>ws. writes t' = writes tr @ ws \<and> length ws \<le> Suc n \<and> (if ws = [] then \<exists>e. r = Inl e else S (hd ws))"
  proof (cases r0)
    case (Inl e)
    with run m have "r = Inl e" "t' = t" by (auto simp: io_bind_def)
    with ws show ?thesis by (intro exI[of _ ws]) (auto split: if_splits)
  next
    case (Inr a)
    with run m have fa: "f a t = (r, t')" by (simp add: io_bind_def)
    obtain vs where "writes t' = writes t @ vs" "length vs \<le> n"
      using assms(2)[unfolded at_most_writes_def, rule_format, of a t] fa by auto
    with ws Inr show ?thesis by (intro exI[of _ "ws @ vs"]) (auto split: if_splits)
  qed
qed

lemma at_most_read_only: "read_only m \<Longrightarrow> at_most_writes 0 m"
  unfolding at_most_writes_def by (metis append_Nil2 le_zero_eq list.size(3) prod.collapse read_only_writes)

lemma opens_signed: "S request \<Longrightarrow> opens_with S 0 (signedWrite c account request)"
proof (unfold opens_with_def, intro allI impI)
  fix tr r t assume s: "S request" and run: "signedWrite c account request tr = (r, t)"
  show "\<exists>ws. writes t = writes tr @ ws \<and> length ws \<le> Suc 0 \<and> (if ws = [] then \<exists>e. r = Inl e else S (hd ws))"
  proof (cases r)
    case (Inl e)
    from submitsD(2)[OF submits_signed run[unfolded Inl]] obtain n where "writes t = writes tr @ take n [request]" by blast
    with s Inl show ?thesis by (cases n) (auto intro: exI[of _ "[]"] exI[of _ "[request]"])
  next
    case (Inr a)
    from submitsD(1)[OF submits_signed run[unfolded Inr]] s show ?thesis by auto
  qed
qed

lemma opens_simulate:
  assumes "\<And>q request. c_simulate c q spec = Inr request \<Longrightarrow> opens_with S n (f request)"
  shows "opens_with S n (io_bind (simulateContract c spec) f)"
  unfolding opens_with_def
proof (intro allI impI)
  fix tr r t assume run: "io_bind (simulateContract c spec) f tr = (r, t)"
  show "\<exists>ws. writes t = writes tr @ ws \<and> length ws \<le> Suc n \<and> (if ws = [] then \<exists>e. r = Inl e else S (hd ws))"
  proof (cases "c_simulate c tr spec")
    case (Inl e)
    then have "r = Inl e" "t = tr @ [EvSimulate spec]" using run
      by (simp_all add: simulateContract_def io_bind_def io_call_def)
    then show ?thesis by (intro exI[of _ "[]"]) simp
  next
    case (Inr request)
    then have "f request (tr @ [EvSimulate spec]) = (r, t)" using run by (simp add: simulateContract_def io_bind_def io_call_def)
    from assms[OF Inr, unfolded opens_with_def, rule_format, OF this] show ?thesis by simp
  qed
qed

text \<open>The creation of a token from an input, as the simulation returned it for the account.\<close>

definition creates :: "client \<Rightarrow> string \<Rightarrow> create_input \<Rightarrow> call_spec \<Rightarrow> bool" where
  "creates c account input request \<longleftrightarrow>
     (\<exists>factory creator salt q. truthy (cooketFactory (c_contracts c)) = Some factory \<and> c_getAddress c account = Inr creator
        \<and> c_simulate c q \<lparr>call_to = factory, call_fn = ''createToken'',
             call_args = [AText (js_trim (ci_name input)), AText (js_trim (ci_symbol input)), AText salt],
             call_account = creator, call_value = 0\<rparr> = Inr request)"

lemma submitCreateToken_opens:
  assumes "c_getAddress c account = Inr creator"
  shows "opens_with (creates c account input) 0
    (submitCreateToken c h creator (js_trim (ci_name input)) (js_trim (ci_symbol input)) (SaltText salt))"
proof (cases "truthy (cooketFactory (c_contracts c))")
  case None
  then show ?thesis unfolding submitCreateToken_def
    by (auto intro!: opens_read_bind opens_throw gate_read_only)
next
  case (Some factory)
  show ?thesis unfolding submitCreateToken_def Some option.case create_salt.case
    by (rule opens_read_bind[OF gate_read_only], rule opens_read_bind, rule emits_return, rule opens_simulate, rule opens_signed)
      (use Some assms in \<open>auto simp: creates_def\<close>)
qed

lemma createToken_opens:
  assumes "c_getAddress c account = Inr creator"
  shows "opens_with (creates c account input) 0 (createToken c h sv input creator salt)"
  unfolding createToken_def
  by (rule opens_read_bind[OF report_read_only], rule opens_read_bind[OF uploads_read_only(1)],
      rule opens_read_bind[OF report_read_only], rule opens_bind[OF submitCreateToken_opens[OF assms]],
      rule at_most_read_only) (intro emits_intros)

lemma launchExecute_opens: "opens_with (creates c account input) 1 (launchExecute c h sv input chainId (Some account) hasWallet)"
proof (cases "truthy (Some account)")
  case None
  then show ?thesis unfolding launchExecute_def by (auto intro!: opens_read_bind opens_throw emits_throw_if)
next
  case (Some a)
  then have a: "a = account" by (auto simp: truthy_def split: if_splits)
  have rest: "opens_with (creates c account input) 1 (io_bind (io_result (c_getAddress c account)) (\<lambda>creator.
      io_bind (createToken c h sv input creator salt) (\<lambda>(draft, hash, token).
        finishLaunch c sv input creator draft hash token)))" for salt
  proof (cases "c_getAddress c account")
    case (Inl e)
    then show ?thesis by (auto simp: opens_with_def io_result_def io_bind_def)
  next
    case (Inr creator)
    have "opens_with (creates c account input) 1 (io_bind (createToken c h sv input creator salt)
        (\<lambda>(draft, hash, token). finishLaunch c sv input creator draft hash token))"
      by (rule opens_bind[OF createToken_opens[OF Inr]]) (simp add: split_beta finishLaunch_at_most[unfolded One_nat_def])
    then show ?thesis by (simp add: Inr io_result_def io_bind_def opens_with_def)
  qed
  show ?thesis unfolding launchExecute_def Some option.case a
    by (rule opens_read_bind[OF emits_throw_if], rule opens_read_bind[OF emits_throw_if],
        rule opens_read_bind[OF uploads_read_only(3)], rule rest)
qed


lemma validate_lengths:
  "validateCreateToken U input = [] \<Longrightarrow> 0 < length (js_trim (ci_name input)) \<and> length (js_trim (ci_name input)) \<le> 64
     \<and> 0 < length (js_trim (ci_symbol input)) \<and> length (js_trim (ci_symbol input)) \<le> 16"
  by (simp add: validateCreateToken_accepts)

text \<open>C12: what is launched is what was reviewed and accepted. A form starts a launch only from the open review
  of its dialog, with no other one running, for a connected and ready wallet on the selected chain and an
  input that passes every check; and whatever the node, the wallet and the API answer, the first
  transaction the wallet receives is the creation the factory simulated for that wallet, with exactly the
  trimmed name and symbol of that input (1 to 64 and 1 to 16 bytes) and no value, with at most one
  transaction after it; a launch that sends none ends with an error.\<close>

theorem launch_is_reviewed:
  assumes "RunLaunch j \<in> set (form_jobs m U e p)" and "run_launch c h sv j tr = (out, t)"
    and "lj_creator j = Some account"
  shows "(\<exists>g. e = DialogAction g) \<and> md_open (cf_modal p) \<and> md_phase (cf_modal p) = MReview \<and> \<not> cf_submission p
    \<and> wallet_usable (cf_props p) \<and> lj_chainId j = Some (selectedCooketChainId m)
    \<and> lj_input j = cf_input p \<and> validateCreateToken U (cf_input p) = []
    \<and> 0 < length (js_trim (ci_name (cf_input p))) \<and> length (js_trim (ci_name (cf_input p))) \<le> 64
    \<and> 0 < length (js_trim (ci_symbol (cf_input p))) \<and> length (js_trim (ci_symbol (cf_input p))) \<le> 16
    \<and> (\<exists>ws. writes t = writes tr @ ws \<and> length ws \<le> 2
         \<and> (if ws = [] then \<exists>reason. out = Inl reason else creates c account (cf_input p) (hd ws)))"
proof -
  obtain g where g: "e = DialogAction g" "modal_gesture_call (cf_modal p) True (\<not> fp_ready (cf_props p)) g = CallConfirm"
    "submit m U p = (p\<lparr>cf_submission := True, cf_errors := [], cf_result := None, cf_failure := None\<rparr>, [RunLaunch j])"
    using form_jobs_cases[OF assms(1)] by auto
  from g(3) submit_cases[of m U p] have s: "\<not> cf_submission p" "validateCreateToken U (cf_input p) = []"
    "fp_chainId (cf_props p) = Some (selectedCooketChainId m)" "wallet_usable (cf_props p)"
    "j = \<lparr>lj_input = cf_input p, lj_chainId = fp_chainId (cf_props p), lj_creator = fp_walletAddress (cf_props p),
          lj_hasClient = fp_hasClient (cf_props p)\<rparr>" by auto
  have "run_launch c h sv j = launchExecute c h sv (cf_input p) (lj_chainId j) (Some account) (lj_hasClient j)"
    using assms(3) s(5) by (simp add: run_launch_def)
  with launchExecute_opens assms(2) have "\<exists>ws. writes t = writes tr @ ws \<and> length ws \<le> 2
      \<and> (if ws = [] then \<exists>reason. out = Inl reason else creates c account (cf_input p) (hd ws))"
    unfolding opens_with_def numeral_2_eq_2 One_nat_def by metis
  moreover have "lj_input j = cf_input p" "lj_chainId j = Some (selectedCooketChainId m)" using s(3,5) by simp_all
  ultimately show ?thesis
    using g(1) confirm_only_in_review[OF g(2)] s(1-4) validate_lengths[OF s(2)] by blast
qed

subsection \<open>A created token that is reported as rejected\<close>

text \<open>C37: a refused signature hides a created token. Let a launch create its token (the factory's launch event
  of this wallet is in a successful receipt) and the wallet then refuse to sign the metadata claim. The launch
  ends with that error, and the form shows no token, no result and a rejection whose label says that token
  creation was not completed; once the dialog is closed, its confirmation starts the same launch again,
  which creates a second token.\<close>

theorem refused_claim_hides_token:
  assumes "configuredCurveInitialization c h sv tr = (Inr salt, t1)" and "c_getAddress c account = Inr creator"
    and "createToken c h sv (lj_input j) creator salt t1 = (Inr (draft, hash, token), t2)"
    and "ls_sign sv t2 creator (metadataClaimMessage (selectedCooketChainId (c_chain c)) draft token hash)
           = Inl (JsError n message)" and "form_rejection message"
    and "lj_chainId j = Some (selectedCooketChainId m)" and "lj_creator j = Some account" and "account \<noteq> []"
    and "lj_hasClient j" and "c_chain c = m" and "cf_submission p" and "form_pending p" and "cf_review p"
    and "cf_input p = lj_input j" and "cf_result p = None" and "validateCreateToken U (lj_input j) = []"
    and "cf_props p = \<lparr>fp_connected = True, fp_ready = True, fp_statusMessage = sm, fp_chainId = lj_chainId j,
           fp_walletAddress = lj_creator j, fp_hasClient = True\<rparr>"
  shows "\<exists>t request q. run_launch c h sv j tr = (Inl (JsError n message), t) \<and> writes t = writes tr @ [request]
    \<and> token_created c creator t1 request hash token
    \<and> q = form_run m U [LaunchSettled j (Inl (JsError n message))] p
    \<and> cf_result q = None \<and> cf_failure q = cf_failure p \<and> md_phase (cf_modal q) = MRejected
    \<and> createStatusLabel m (tx_status (cf_tx q)) = ''Transaction rejected. Token creation was not completed.''
    \<and> form_jobs m U (DialogAction ClickConfirm) (form_run m U [DialogAction PressEscape, PressFactory] q)
        = [RunLaunch j]"
proof -
  let ?e = "JsError n message"
  obtain request where r: "writes t2 = writes t1 @ [request]" "token_created c creator t1 request hash token"
    using createToken_Inr[OF assms(3)] by blast
  have t1: "writes t1 = writes tr" by (rule read_only_writes[OF uploads_read_only(3) assms(1)])
  have run: "\<exists>t. run_launch c h sv j tr = (Inl ?e, t) \<and> writes t = writes t2"
    using assms(1-4,6-10) by (simp add: run_launch_def launchExecute_def io_throw_if_def io_bind_def io_result_def truthy_def
        finishLaunch_def Let_def io_call_def throw_if_def)
  define q where "q = form_run m U [LaunchSettled j (Inl ?e)] p"
  define p1 where "p1 = fst (launch_settled j (Inl ?e) p)"
  have p1: "tx_status (cf_tx p1) = XRejected" "cf_result p1 = cf_result p" "cf_failure p1 = cf_failure p"
    "cf_props p1 = cf_props p" "cf_input p1 = cf_input p" "cf_review p1 = cf_review p" "\<not> cf_submission p1"
    "tx_error (cf_tx p1) = Some message"
    using assms(5) by (simp_all add: p1_def launch_settled_def message_or_def Let_def)
  have moved: "tx_status (cf_tx p) \<noteq> XRejected" using assms(12) by (auto simp: form_pending_def tx_pending_def)
  have q: "cf_modal q = \<lparr>md_open = True, md_phase = MRejected\<rparr>" "cf_props q = cf_props p" "cf_input q = cf_input p"
    "cf_review q" "\<not> cf_submission q" "cf_result q = None" "cf_failure q = cf_failure p" "tx_status (cf_tx q) = XRejected"
    using p1 moved assms(13,15) by (simp_all add: q_def machine_simps form_step_parts p1_def[symmetric] follow_tx_def)
  let ?q1 = "form_move m U (DialogAction PressEscape) q"
  have q1: "cf_modal ?q1 = \<lparr>md_open = False, md_phase = MRejected\<rparr>" "cf_props ?q1 = cf_props p"
    "cf_input ?q1 = cf_input p" "cf_review ?q1" "\<not> cf_submission ?q1" "tx_status (cf_tx ?q1) = XRejected"
    using q by (simp_all add: form_step_parts modal_gesture_call_def transactionPhaseIsBusy_def follow_tx_def)
  let ?q2 = "form_move m U PressFactory ?q1"
  have offered: "factory_offered m ?q1"
    using q1 assms(6,17) by (simp add: factory_offered_def form_pending_def tx_pending_def canCreateToken_def
        isSelectedCooketChain_def wallet_usable_def)
  then have q2: "cf_modal ?q2 = \<lparr>md_open = True, md_phase = MReview\<rparr>" "cf_props ?q2 = cf_props p"
    "cf_input ?q2 = lj_input j" "\<not> cf_submission ?q2"
    using q1 assms(14) by (simp_all add: form_step_parts follow_tx_def)
  have "submit m U ?q2 = (?q2\<lparr>cf_submission := True, cf_errors := [], cf_result := None, cf_failure := None\<rparr>, [RunLaunch j])"
    using q2 assms(6,9,16,17) by (cases j) (simp add: submit_def Let_def canCreateToken_def isSelectedCooketChain_def wallet_usable_def)
  then have "form_jobs m U (DialogAction ClickConfirm) ?q2 = [RunLaunch j]"
    using q2 assms(17) by (simp add: form_jobs_def form_step_parts modal_gesture_call_def)
  then have again: "form_jobs m U (DialogAction ClickConfirm) (form_run m U [DialogAction PressEscape, PressFactory] q)
      = [RunLaunch j]" by (simp add: machine_simps)
  show ?thesis using run r t1 q again unfolding q_def by auto
qed


subsection \<open>The retry of a first buy\<close>

lemma reports_keep:
  "list_all (\<lambda>e. \<exists>st. e = TxReport st) reports \<Longrightarrow>
     cf_result (form_run m U reports q) = cf_result q \<and> cf_failure (form_run m U reports q) = cf_failure q"
proof (induction reports arbitrary: q)
  case (Cons e es)
  then obtain st where "e = TxReport st" by auto
  then show ?case using Cons by (simp add: form_step_parts)
qed simp

text \<open>A retried first buy whose transaction is still open is offered again. Let the form offer the retry of
  a first buy, and let that retry be sent to the wallet, which returns a transaction whose fate stays
  unknown, so that its error says it must not be retried. The form keeps the error of the first attempt:
  closing the dialog and pressing the button, which is still there, runs the purchase once more, and the
  wallet may be asked to pay twice.\<close>

theorem open_retry_offered_again:
  assumes "retry_offered p" and "\<not> cf_submission p" and "cf_failure p = Some (f, j)"
    and "run_dev_buy c f j tr = (Inr (Inl d), t)" and "bought_as c tr t h" and "\<not> dbe_retryable d"
    and "list_all (\<lambda>e. \<exists>st. e = TxReport st) reports"
  shows "form_jobs m U PressRetry p = [RunDevBuy f j]
    \<and> form_jobs m U PressRetry (form_run m U (PressRetry # reports @ [RetrySettled f (Inr (Inl d)), DialogAction PressEscape]) p)
        = [RunDevBuy f j]"
proof -
  let ?kept = "\<lambda>q. cf_result q = cf_result p \<and> cf_failure q = Some (f, j)"
  have start: "form_jobs m U PressRetry p = [RunDevBuy f j]"
    using assms(1-3) by (simp add: form_jobs_def form_step_parts retryDevBuy_def)
  have "?kept (form_move m U PressRetry p)" using assms(1-3) by (simp add: form_step_parts retryDevBuy_def)
  moreover have "?kept (form_run m U reports q)" if "?kept q" for q
    using reports_keep[OF assms(7), of m U q] that by simp
  ultimately have k: "?kept (form_run m U (PressRetry # reports) p)" by simp
  let ?q = "form_run m U (PressRetry # reports) p"
  let ?q1 = "form_move m U (RetrySettled f (Inr (Inl d))) ?q"
  have q1: "?kept ?q1" "\<not> cf_submission ?q1" "\<not> form_pending ?q1"
    using k by (simp_all add: form_step_parts retry_settled_def Let_def form_pending_def tx_pending_def)
  let ?q2 = "form_move m U (DialogAction PressEscape) ?q1"
  have q2: "?kept ?q2" "\<not> cf_submission ?q2" "\<not> form_pending ?q2"
    using q1 by (simp_all add: form_step_parts form_pending_def modal_gesture_call_def Let_def)
  have "retry_offered ?q2" using q2 assms(1,3) by (simp add: retry_offered_def)
  then have "form_jobs m U PressRetry ?q2 = [RunDevBuy f j]"
    using q2(1,2) by (simp add: form_jobs_def form_step_parts retryDevBuy_def)
  then show ?thesis using start by (simp add: machine_simps)
qed

text \<open>What the user and the wallet can do, as opposed to the ends and reports of a running job.\<close>

fun outside_event :: "form_event \<Rightarrow> bool" where
  "outside_event (TxReport st) = False"
| "outside_event (LaunchSettled j outcome) = False"
| "outside_event (RetrySettled f outcome) = False"
| "outside_event _ = True"

lemma waiting_step:
  assumes "tx_status (cf_tx p) = XBuyConfirming" and "cf_modal p = \<lparr>md_open = True, md_phase = MConfirming\<rparr>"
    and "outside_event e"
  shows "tx_status (cf_tx (form_move m U e p)) = XBuyConfirming
    \<and> cf_modal (form_move m U e p) = \<lparr>md_open = True, md_phase = MConfirming\<rparr> \<and> snd (form_step m U e p) = []"
proof -
  have "form_pending p" using assms(1) by (simp add: form_pending_def tx_pending_def)
  moreover have "modal_gesture_call (cf_modal p) True d g = NoCall" for d g
    by (rule busy_modal_calls_nothing) (simp add: assms(2) transactionPhaseIsBusy_def)
  ultimately show ?thesis using assms
    by (cases e) (auto simp: form_step_parts follow_tx_def editable_def retry_offered_def factory_offered_def)
qed

text \<open>A first buy without a definitive receipt leaves the form for good. When a launch ends with a first buy
  that is neither rejected nor retryable, the form waits for a confirmation that nothing will report: no
  job is running, and whatever the user does, whatever the wallet does and whichever images load, the
  status and the busy dialog stay, the dialog cannot be closed and no command is ever given.\<close>

theorem unresolved_first_buy_blocks_form:
  assumes "\<not> dbf_rejected f" and "\<not> dbf_retryable f" and "tx_status (cf_tx p) \<noteq> XBuyConfirming"
    and "list_all outside_event es" and "outside_event e"
  shows "let q = form_run m U (LaunchSettled j (Inr (Inl f)) # es) p in
    \<not> cf_submission (form_move m U (LaunchSettled j (Inr (Inl f))) p)
    \<and> form_pending q \<and> md_open (cf_modal q) \<and> transactionPhaseIsBusy (md_phase (cf_modal q))
    \<and> (\<forall>g. modal_gesture_call (cf_modal q) True d g = NoCall) \<and> snd (form_step m U e q) = []"
proof -
  let ?p = "form_move m U (LaunchSettled j (Inr (Inl f))) p"
  let ?waits = "\<lambda>q. tx_status (cf_tx q) = XBuyConfirming \<and> cf_modal q = \<lparr>md_open = True, md_phase = MConfirming\<rparr>"
  have p: "?waits ?p" "\<not> cf_submission ?p"
    using assms(1-3) by (auto simp: form_step_parts launch_settled_def failure_status_def follow_tx_def)
  have "?waits (form_run m U es q)" if "?waits q" for q
    using assms(4) that by (induction es arbitrary: q) (auto simp: waiting_step)
  then have w: "?waits (form_run m U es ?p)" using p by blast
  then have "form_pending (form_run m U es ?p)" "snd (form_step m U e (form_run m U es ?p)) = []"
    using waiting_step[OF _ _ assms(5)] by (auto simp: form_pending_def tx_pending_def)
  moreover have "modal_gesture_call (cf_modal (form_run m U es ?p)) True d g = NoCall" for g
    by (rule busy_modal_calls_nothing) (use w in \<open>simp add: transactionPhaseIsBusy_def\<close>)
  ultimately show ?thesis using w p by (simp add: Let_def transactionPhaseIsBusy_def)
qed

subsection \<open>Images that load late\<close>

text \<open>An image that could not be loaded reports its error after its address has been replaced, also when the
  image of the new address has been loaded by then.\<close>

theorem replaced_image_reports_error:
  assumes "editable p" and "ci_imageSource (cf_input p) = ImageUrl" and "js_trim a \<noteq> []" and "js_trim b \<noteq> []"
    and "a \<noteq> b" and "js_trim a \<noteq> js_trim b" and "ci_imageUrl (cf_input p) \<noteq> a"
  shows "let q = form_run m U [ChangeField (SetImageUrl a), ChangeField (SetImageUrl b), ProbeLoaded (js_trim b),
      ProbeFailed (js_trim a)] p in
    ci_imageUrl (cf_input q) = b \<and> map_of (cf_errors q) ''image'' = Some image_load_error"
proof -
  have probe: "form_move m U (ProbeLoaded u) r = probe_loaded u r" "form_move m U (ProbeFailed u) r = probe_failed u r" for u r
    by (simp_all add: form_step_parts form_committed_def follow_tx_def probe_loaded_def probe_failed_def Let_def)
  let ?p1 = "form_move m U (ChangeField (SetImageUrl a)) p"
  have p1: "editable ?p1" "ci_imageSource (cf_input ?p1) = ImageUrl" "ci_imageUrl (cf_input ?p1) = a"
    "js_trim a \<in> set (cf_probes ?p1)"
    using assms(1-3,7) by (simp_all add: form_step_parts editable_def form_pending_def form_committed_def image_effect_def
        follow_tx_def Let_def)
  define r where "r = form_move m U (ChangeField (SetImageUrl b)) ?p1"
  have r: "ci_imageUrl (cf_input r) = b" "js_trim a \<in> set (cf_probes r)"
    using p1 assms(4,5) by (simp_all add: r_def form_step_parts form_committed_def image_effect_def follow_tx_def Let_def)
  have "ci_imageUrl (cf_input (probe_loaded (js_trim b) r)) = b" "js_trim a \<in> set (cf_probes (probe_loaded (js_trim b) r))"
    using r assms(6) by (simp_all add: probe_loaded_def)
  then show ?thesis by (simp add: machine_simps Let_def probe r_def[symmetric] probe_failed_def update_conv')
qed


subsection \<open>Concrete launches\<close>

definition demo_form_props :: form_props where
  "demo_form_props = \<lparr>fp_connected = True, fp_ready = True, fp_statusMessage = None, fp_chainId = Some 5042002,
     fp_walletAddress = Some ''0xa'', fp_hasClient = True\<rparr>"

definition demo_reviewed :: create_form where
  "demo_reviewed = (mount_form demo_form_props)\<lparr>cf_input := demo_input, cf_review := True,
     cf_modal := \<lparr>md_open = True, md_phase = MReview\<rparr>\<rparr>"

definition demo_launch :: launch_job where
  "demo_launch = \<lparr>lj_input = demo_input, lj_chainId = Some 5042002, lj_creator = Some ''0xa'', lj_hasClient = True\<rparr>"

definition no_urls :: "string \<Rightarrow> url option" where
  "no_urls s = None"

lemma demo_input_valid: "validateCreateToken no_urls demo_input = []"
  by code_simp

lemma demo_launch_job: "form_jobs sample_module no_urls (DialogAction ClickConfirm) demo_reviewed = [RunLaunch demo_launch]"
proof -
  have "form_handle sample_module no_urls (DialogAction ClickConfirm) demo_reviewed = submit sample_module no_urls demo_reviewed"
    by (simp add: demo_reviewed_def mount_form_def demo_form_props_def modal_gesture_call_def)
  moreover have "snd (submit sample_module no_urls demo_reviewed) = [RunLaunch demo_launch]"
    by (simp add: demo_reviewed_def mount_form_def demo_form_props_def submit_def demo_input_valid canCreateToken_def
        isSelectedCooketChain_def wallet_usable_def selectedCooketChainId_def sample_module_def sample_chain_def demo_launch_def)
  ultimately show ?thesis by (simp add: form_jobs_def form_step_parts)
qed

theorem one_launch_at_a_time_witness:
  "form_jobs sample_module no_urls (DialogAction ClickConfirm) (form_run sample_module no_urls
     [DialogAction PressEscape, TxReport idleTransaction, PressFactory]
     (form_move sample_module no_urls (DialogAction ClickConfirm) demo_reviewed)) = []"
  by (rule one_launch_at_a_time) (simp_all add: demo_launch_job)

theorem launch_is_reviewed_witness:
  "\<exists>out t. run_launch demo_launch_client sample_hashes demo_services demo_launch [] = (out, t) \<and> length (writes t) \<le> 2"
proof -
  obtain out t where run: "run_launch demo_launch_client sample_hashes demo_services demo_launch [] = (out, t)" by fastforce
  have "RunLaunch demo_launch \<in> set (form_jobs sample_module no_urls (DialogAction ClickConfirm) demo_reviewed)"
    by (simp add: demo_launch_job)
  from launch_is_reviewed[OF this run, of "''0xa''"] have "length (writes t) \<le> 2" by (auto simp: demo_launch_def)
  with run show ?thesis by blast
qed

text \<open>A wallet connection that breaks while the receipt of a purchase is awaited.\<close>

definition stuck :: client where
  "stuck = demo\<lparr>c_waitReceipt := \<lambda>tr h. (None, Inl (Err ''socket closed''))\<rparr>"

definition small_buy :: create_input where
  "small_buy = demo_input\<lparr>ci_devBuyNativeUsdc := ''0.00000000000000004''\<rparr>"

definition demo_failure :: dev_buy_failure where
  "demo_failure = devBuyFailed ''0xt'' ''0xh'' (devBuyFailure (Err ''quote expired'') None)"

lemma stuck_buy:
  "\<exists>d t. executeDevBuy stuck ''0xt'' ''0xa'' 40 ''0xh'' [] = (Inr (Inl d), t) \<and> \<not> dbe_retryable d
     \<and> bought_as stuck [] t ''0xh''"
proof -
  have fields: "c_chain stuck = c_chain demo" "c_env stuck = c_env demo" "c_contracts stuck = c_contracts demo"
    "c_getAddress stuck = c_getAddress demo" "c_readText stuck = c_readText demo" "c_walletAccount stuck = c_walletAccount demo"
    "c_walletChainId stuck = c_walletChainId demo" "c_walletAddresses stuck = c_walletAddresses demo" "c_write stuck = c_write demo"
    by (simp_all add: stuck_def)
  have gate: "gate stuck tr = (Inr (), tr)" for tr
    using gate_demo[of tr] unfolding gate_def fields .
  have curve: "requireCurve stuck token tr = (Inr ''0xc'', tr @ [EvRead ''0xf'' ''curveOf'' [AText token]])" for token tr
    using requireCurve_demo[of token tr] unfolding requireCurve_def resolveCurveAddress_def readText_def fields .
  have sign: "signedWrite stuck ''0xa'' request tr
      = (Inr ''0xh'', tr @ [EvWalletChainId, EvWalletAddresses, EvWrite request])" for request tr
    using signedWrite_demo[of request tr]
    unfolding signedWrite_def assertActiveWalletClient_def equalAddresses_def writeContract_def fields .
  have more: "c_now stuck = (\<lambda>tr. 1000000)" "c_simulate stuck = (\<lambda>tr spec. Inr spec)" "c_balance stuck = (\<lambda>tr a. Inr 100)"
    "c_estimateGas stuck = (\<lambda>tr spec. Inr 2)" "c_gasPrice stuck = (\<lambda>tr. Inr 3)" "c_latestTimestamp stuck = (\<lambda>tr. Inr 1000)"
    "c_readInt stuck = (\<lambda>tr a f args. Inr (if f = ''allowance'' \<and> writes tr = [] then 0 else 50))"
    "c_readBool stuck = (\<lambda>tr a f args. Inr False)"
    "c_quoteBuy stuck = (\<lambda>tr a n. Inr \<lparr>bq_acceptedGross = n, bq_netCurveInput = n, bq_protocolFee = 0,
        bq_creatorFee = 0, bq_tokensOut = 5\<rparr>)"
    by (simp_all add: stuck_def demo_def)
  have least: "minOutputWithSlippage 5 DEFAULT_BUY_SLIPPAGE_BPS = Inr 4" by code_simp
  have state: "\<exists>s t. readTradeState stuck ''0xt'' (Some ''0xa'') tr = (Inr s, t) \<and> writes t = writes tr" for tr
    by (simp add: readTradeState_def curve io_defs request_defs more truthy_def)
  have quote: "\<exists>q t. quoteBuyByBudget stuck ''0xt'' 40 DEFAULT_BUY_SLIPPAGE_BPS tr = (Inr q, t) \<and> writes t = writes tr
      \<and> bud_tokenAmount q = 5 \<and> bud_slippageBps q = DEFAULT_BUY_SLIPPAGE_BPS \<and> bud_maxReserveIn q = 40
      \<and> 1000 < bud_deadline q" for tr
    by (simp add: quoteBuyByBudget_def readBuyQuote_def quoteDeadline_def curve io_defs request_defs more or_else_def
        transactionDeadline_def)
  have buy: "\<exists>p request. submitBuy stuck ''0xa'' ''0xt'' q (\<lambda>tr. Inr ()) tr = (Inr ''0xh'', p @ [EvWrite request])
      \<and> writes p = writes tr"
    if "bud_tokenAmount q = 5" "bud_slippageBps q = DEFAULT_BUY_SLIPPAGE_BPS" "bud_maxReserveIn q = 40" "1000 < bud_deadline q"
    for q tr
    using that by (simp add: submitBuy_def gate curve sign assertBuyQuoteFresh_def io_defs request_defs more least)
  have submitted: "\<exists>p request. submitDevBuy stuck ''0xt'' ''0xa'' 40 ''0xh'' tr = (Inr ''0xh'', p @ [EvWrite request])
      \<and> writes p = writes tr" for tr
  proof -
    obtain s t where 1: "readTradeState stuck ''0xt'' (Some ''0xa'') tr = (Inr s, t)" "writes t = writes tr"
      using state by blast
    obtain q t' where 2: "quoteBuyByBudget stuck ''0xt'' 40 DEFAULT_BUY_SLIPPAGE_BPS t = (Inr q, t')" "writes t' = writes t"
      "bud_tokenAmount q = 5" "bud_slippageBps q = DEFAULT_BUY_SLIPPAGE_BPS" "bud_maxReserveIn q = 40" "1000 < bud_deadline q"
      using quote by blast
    from buy[OF 2(3-6), of "t' @ [EvCallback ''report'' [''dev_buy_awaiting_wallet'', ''0xh'']]"] 1 2(1,2)
    show ?thesis by (simp add: submitDevBuy_def io_bind_def report_def io_note_def)
  qed
  obtain p request where run: "submitDevBuy stuck ''0xt'' ''0xa'' 40 ''0xh'' [EvCallback ''report'' [''dev_buy_preparing'', ''0xh'']]
      = (Inr ''0xh'', p @ [EvWrite request])" "writes p = []" using submitted by fastforce
  have fails: "\<exists>t. confirmTrade stuck ''0xh'' Buy ''0xt'' ''0xa'' None tr = (Inl (Err ''socket closed''), t) \<and> writes t = writes tr" for tr
  proof -
    have "\<not> isReceiptTimeout (Err ''socket closed'')" by code_simp
    then show ?thesis by (simp add: confirmTrade_def curve io_defs request_defs) (simp add: stuck_def io_throw_def)
  qed
  have conf: "\<exists>d t. confirmDevBuy stuck ''0xt'' ''0xa'' ''0xh'' tr = (Inr (Inl d), t) \<and> \<not> dbe_retryable d \<and> writes t = writes tr" for tr
  proof -
    let ?tr = "tr @ [EvCallback ''report'' [''dev_buy_submitted'', ''0xh''], EvCallback ''report'' [''dev_buy_confirming'', ''0xh'']]"
    obtain t where "confirmTrade stuck ''0xh'' Buy ''0xt'' ''0xa'' None ?tr = (Inl (Err ''socket closed''), t)" "writes t = writes ?tr"
      using fails by blast
    then show ?thesis
      by (simp add: confirmDevBuy_def report_def io_bind_def io_note_def io_attempt_def io_return_def devBuyFailure_def truthy_def Let_def)
  qed
  obtain d t where end_run: "confirmDevBuy stuck ''0xt'' ''0xa'' ''0xh'' (p @ [EvWrite request]) = (Inr (Inl d), t)"
    "\<not> dbe_retryable d" "writes t = [request]" using conf[of "p @ [EvWrite request]"] run(2) by auto
  have "c_write stuck [] request = Inr ''0xh''" by (simp add: stuck_def demo_def)
  then have "bought_as stuck [] t ''0xh''" using end_run(3) by (auto simp: wallet_answered_def intro!: exI[of _ "[]"])
  then show ?thesis using run end_run
    by (simp add: executeDevBuy_def report_def io_bind_def io_note_def io_attempt_def)
qed


definition small_launch :: launch_job where
  "small_launch = demo_launch\<lparr>lj_input := small_buy\<rparr>"

definition demo_retryable :: create_form where
  "demo_retryable = fst (launch_settled small_launch (Inr (Inl demo_failure)) (mount_form demo_form_props))"

theorem open_retry_offered_again_witness:
  "\<exists>d t. run_dev_buy stuck demo_failure small_launch [] = (Inr (Inl d), t) \<and> bought_as stuck [] t ''0xh''
    \<and> form_jobs sample_module no_urls PressRetry demo_retryable = [RunDevBuy demo_failure small_launch]
    \<and> form_jobs sample_module no_urls PressRetry (form_run sample_module no_urls
        [PressRetry, TxReport idleTransaction, RetrySettled demo_failure (Inr (Inl d)), DialogAction PressEscape] demo_retryable)
      = [RunDevBuy demo_failure small_launch]"
proof -
  obtain d t where buy: "executeDevBuy stuck ''0xt'' ''0xa'' 40 ''0xh'' [] = (Inr (Inl d), t)" "\<not> dbe_retryable d"
    "bought_as stuck [] t ''0xh''" using stuck_buy by blast
  have amount: "parseDevBuyNativeUsdcAmount ''0.00000000000000004'' = Inr 40" by code_simp
  have "c_getAddress stuck = Inr" by (simp add: stuck_def demo_def)
  then have run: "run_dev_buy stuck demo_failure small_launch [] = (Inr (Inl d), t)"
    using buy(1) by (simp add: run_dev_buy_def small_launch_def demo_launch_def small_buy_def demo_failure_def devBuyFailed_def
        or_else_def io_bind_def io_result_def io_throw_if_def amount)
  have "dbf_retryable demo_failure"
    by (simp add: demo_failure_def devBuyFailed_def devBuyFailure_def truthy_def Let_def)
  moreover have "\<not> dbf_rejected demo_failure" by code_simp
  ultimately have p: "retry_offered demo_retryable" "\<not> cf_submission demo_retryable"
    "cf_failure demo_retryable = Some (demo_failure, small_launch)"
    by (simp_all add: demo_retryable_def launch_settled_def retry_offered_def form_pending_def tx_pending_def failure_status_def)
  have "list_all (\<lambda>e. \<exists>st. e = TxReport st) [TxReport idleTransaction]" by simp
  from open_retry_offered_again[OF p run buy(3,2) this] run buy(3) show ?thesis by auto
qed

theorem unresolved_first_buy_blocks_form_witness:
  "\<not> cf_submission (form_move sample_module no_urls
       (LaunchSettled small_launch (Inr (Inl (demo_failure\<lparr>dbf_retryable := False\<rparr>)))) demo_reviewed)
   \<and> snd (form_step sample_module no_urls PressRetry (form_run sample_module no_urls
       [LaunchSettled small_launch (Inr (Inl (demo_failure\<lparr>dbf_retryable := False\<rparr>))), DialogAction PressEscape, PressEdit]
       demo_reviewed)) = []"
proof -
  have "\<not> dbf_rejected (demo_failure\<lparr>dbf_retryable := False\<rparr>)" by code_simp
  from unresolved_first_buy_blocks_form[OF this, where p = demo_reviewed and es = "[DialogAction PressEscape, PressEdit]"
      and e = PressRetry and m = sample_module and U = no_urls and j = small_launch]
  show ?thesis by (simp add: Let_def demo_reviewed_def mount_form_def idleTransaction_def)
qed

definition refusing_services :: launch_services where
  "refusing_services = demo_services\<lparr>ls_sign := \<lambda>tr account m. Inl (Err ''User rejected the request.'')\<rparr>"

definition demo_confirming :: create_form where
  "demo_confirming = demo_reviewed\<lparr>cf_submission := True, cf_tx := \<lparr>tx_status = XConfirming, tx_hash = Some ''0xh'', tx_error = None\<rparr>,
     cf_modal := \<lparr>md_open = True, md_phase = MConfirming\<rparr>\<rparr>"

theorem refused_claim_hides_token_witness:
  "\<exists>t request. run_launch demo_launch_client sample_hashes refusing_services demo_launch []
      = (Inl (Err ''User rejected the request.''), t) \<and> writes t = [request]
    \<and> form_jobs sample_module no_urls (DialogAction ClickConfirm) (form_run sample_module no_urls
        [LaunchSettled demo_launch (Inl (Err ''User rejected the request.'')), DialogAction PressEscape, PressFactory] demo_confirming)
      = [RunLaunch demo_launch]"
proof -
  have up: "ls_upload refusing_services = (\<lambda>tr form. Inr ''draft'')" by (simp add: refusing_services_def demo_services_def)
  obtain s t1 where 1: "configuredCurveInitialization demo_launch_client sample_hashes refusing_services [] = (Inr s, t1)"
    using demo_creates(2)[OF up] by blast
  have inp: "lj_input demo_launch = demo_input" by (simp add: demo_launch_def)
  obtain t2 where 2: "createToken demo_launch_client sample_hashes refusing_services (lj_input demo_launch) ''0xa'' s t1
      = (Inr (''draft'', ''0xh'', ''0xt''), t2)" unfolding inp using demo_creates(1)[OF up] by blast
  have address: "c_getAddress demo_launch_client ''0xa'' = Inr ''0xa''" by (simp add: demo_launch_client_def demo_def)
  have refused: "ls_sign refusing_services t2 ''0xa'' (metadataClaimMessage (selectedCooketChainId (c_chain demo_launch_client))
      ''draft'' ''0xt'' ''0xh'') = Inl (Err ''User rejected the request.'')" by (simp add: refusing_services_def)
  have rejection: "form_rejection ''User rejected the request.''" by code_simp
  note rule = refused_claim_hides_token[OF 1 address 2 refused rejection, where m = sample_module
      and U = no_urls and p = demo_confirming and sm = None]
  have "c_chain demo_launch_client = sample_module" by (simp add: demo_launch_client_def demo_def)
  then show ?thesis using rule demo_input_valid
    by (simp add: demo_confirming_def demo_reviewed_def mount_form_def demo_launch_def demo_form_props_def
        selectedCooketChainId_def sample_module_def sample_chain_def form_pending_def tx_pending_def machine_simps) blast
qed

end
