(* ===== verification/UniswapSwap.thy ===== *)
theory UniswapSwap
  imports CurveTrading
begin

text \<open>
  Swapping a graduated token on its canonical Uniswap pool (\<^verbatim>\<open>lib/uniswap-v3.ts\<close>, and the
  wallet transport, the exact approval and the error texts of
  \<^verbatim>\<open>components/graduated-token-swap.tsx\<close>). A request under a timeout ends with the timeout's
  error when the timer fired first; which of the two happens is up to the outside.
\<close>

subsection \<open>Errors and timeouts\<close>

definition simulation_error :: "string \<Rightarrow> js_error" where
  "simulation_error m = JsError ''GraduatedSwapSimulationError'' m"

text \<open>\<^verbatim>\<open>Math.ceil(timeoutMs / 1_000)\<close>, as text; only reached with a positive finite time.\<close>

definition seconds_text :: "jsnum \<Rightarrow> string" where
  "seconds_text timeoutMs = (case timeoutMs of Fin q \<Rightarrow> int_text \<lceil>q / 1000\<rceil> | _ \<Rightarrow> ''NaN'')"

definition simulation_timeout_error :: "jsnum \<Rightarrow> js_error" where
  "simulation_timeout_error timeoutMs =
     JsError ''GraduatedSwapSimulationTimeoutError''
       (''Swap simulation timed out after '' @ seconds_text timeoutMs @ '' seconds.'')"

definition rpc_error :: "string \<Rightarrow> js_error" where
  "rpc_error m = JsError ''GraduatedSwapRpcError'' m"

definition rpc_timeout_error :: "jsnum \<Rightarrow> string \<Rightarrow> js_error" where
  "rpc_timeout_error timeoutMs operation =
     JsError ''GraduatedSwapRpcTimeoutError''
       (operation @ '' timed out after '' @ seconds_text timeoutMs @ '' seconds.'')"

fun has_name :: "string list \<Rightarrow> js_error \<Rightarrow> bool" where
  "has_name ns (JsError n m) = (n \<in> set ns)"
| "has_name ns (JsOther s) = False"

abbreviation is_rpc_timeout :: "js_error \<Rightarrow> bool" where
  "is_rpc_timeout \<equiv> has_name [''GraduatedSwapRpcTimeoutError'']"

text \<open>\<^verbatim>\<open>instanceof GraduatedSwapRpcError\<close>; the timeout class extends it.\<close>

abbreviation is_rpc_error :: "js_error \<Rightarrow> bool" where
  "is_rpc_error \<equiv> has_name [''GraduatedSwapRpcError'', ''GraduatedSwapRpcTimeoutError'']"

definition simulationFailure :: "js_error \<Rightarrow> js_error" where
  "simulationFailure reason =
     (if has_name [''GraduatedSwapSimulationError'', ''GraduatedSwapSimulationTimeoutError''] reason then reason
      else simulation_error (error_text reason))"

definition withAbortableTimeout :: "client \<Rightarrow> 'a io \<Rightarrow> jsnum \<Rightarrow> js_error \<Rightarrow> string \<Rightarrow> 'a io" where
  "withAbortableTimeout c run timeoutMs timeoutError invalidMessage tr =
     (if \<not> positive_finite timeoutMs then (Inl (Err invalidMessage), tr)
      else case run tr of (r, t) \<Rightarrow> if c_timerFired c t then (Inl timeoutError, t) else (r, t))"

definition withGraduatedRpcTimeout :: "client \<Rightarrow> 'a io \<Rightarrow> jsnum \<Rightarrow> string \<Rightarrow> 'a io" where
  "withGraduatedRpcTimeout c run timeoutMs operation =
     io_catch (withAbortableTimeout c run timeoutMs (rpc_timeout_error timeoutMs operation)
         ''Swap RPC timeout must be positive.'')
       (\<lambda>reason. io_throw (if is_rpc_timeout reason then reason else rpc_error (error_text reason)))"

definition graduated_rpc_timeout :: jsnum where
  "graduated_rpc_timeout = Fin 15000"

lemma withAbortableTimeout_emits [emits_intros]:
  "emits P m \<Longrightarrow> emits P (withAbortableTimeout c m ms e msg)"
  by (auto simp: emits_def withAbortableTimeout_def split_beta)

lemma withGraduatedRpcTimeout_emits [emits_intros]:
  "emits P m \<Longrightarrow> emits P (withGraduatedRpcTimeout c m ms operation)"
  unfolding withGraduatedRpcTimeout_def by (intro emits_intros)

lemma withGraduatedRpcTimeout_Inr [io_inv]:
  "withGraduatedRpcTimeout c m ms operation tr = (Inr a, t) \<longleftrightarrow>
     positive_finite ms \<and> m tr = (Inr a, t) \<and> \<not> c_timerFired c t"
  by (auto simp: withGraduatedRpcTimeout_def withAbortableTimeout_def io_catch_def io_throw_def
      split: prod.splits sum.splits if_splits)

text \<open>Whatever goes wrong under the RPC timeout surfaces as an RPC error.\<close>

lemma withGraduatedRpcTimeout_Inl:
  "withGraduatedRpcTimeout c m ms operation tr = (Inl e, t) \<Longrightarrow> is_rpc_error e"
  by (auto simp: withGraduatedRpcTimeout_def withAbortableTimeout_def io_catch_def io_throw_def rpc_error_def
      rpc_timeout_error_def split: prod.splits sum.splits if_splits elim: has_name.elims)

subsection \<open>Reads\<close>

definition input_token :: "string \<Rightarrow> trade_side \<Rightarrow> string" where
  "input_token token side = (if side = Buy then ARC_CANONICAL_USDC else token)"

definition readGraduatedTokenDecimals :: "client \<Rightarrow> string \<Rightarrow> jsnum \<Rightarrow> int io" where
  "readGraduatedTokenDecimals c token timeoutMs =
     withGraduatedRpcTimeout c (readInt c token ''decimals'' []) timeoutMs ''Reading token decimals''"

definition readGraduatedAllowance :: "client \<Rightarrow> string \<Rightarrow> string \<Rightarrow> string \<Rightarrow> trade_side \<Rightarrow> jsnum \<Rightarrow> int io" where
  "readGraduatedAllowance c token wallet router side timeoutMs =
     withGraduatedRpcTimeout c
       (readInt c (input_token token side) ''allowance'' [AText wallet, AText router]) timeoutMs
       ''Refreshing token allowance''"

record graduated_state =
  gs_usdc :: int
  gs_token :: int
  gs_allowance :: int

definition readGraduatedSwapState ::
    "client \<Rightarrow> string \<Rightarrow> string \<Rightarrow> string \<Rightarrow> trade_side \<Rightarrow> jsnum \<Rightarrow> graduated_state io" where
  "readGraduatedSwapState c token wallet router side timeoutMs =
     withGraduatedRpcTimeout c
       (io_bind (io_both (readInt c ARC_CANONICAL_USDC ''balanceOf'' [AText wallet])
                (io_both (readInt c token ''balanceOf'' [AText wallet])
                         (readInt c (input_token token side) ''allowance'' [AText wallet, AText router])))
         (\<lambda>(usdc, balance, allowance).
           io_return \<lparr>gs_usdc = usdc, gs_token = balance, gs_allowance = allowance\<rparr>))
       timeoutMs ''Refreshing swap balances and allowance''"

fun waitForGraduatedAllowance :: "client \<Rightarrow> int io \<Rightarrow> int \<Rightarrow> nat list \<Rightarrow> jsnum \<Rightarrow> int io" where
  "waitForGraduatedAllowance c readAllowance required [] timeoutMs =
     io_throw (Err ''Confirmed approval is still insufficient; swap was not submitted.'')"
| "waitForGraduatedAllowance c readAllowance required (d # ds) timeoutMs =
     io_bind (if 0 < d then io_note (EvDelay d) else io_return ()) (\<lambda>_.
     io_bind (withGraduatedRpcTimeout c readAllowance timeoutMs ''Refreshing token allowance'') (\<lambda>allowance.
       if required \<le> allowance then io_return allowance
       else waitForGraduatedAllowance c readAllowance required ds timeoutMs))"

definition graduated_allowance_poll_delays :: "nat list" where
  "graduated_allowance_poll_delays = [0, 250, 500, 1000, 1500]"

subsection \<open>Configuration and the canonical pool\<close>

definition ARC_TESTNET_V3_FACTORY :: string where
  "ARC_TESTNET_V3_FACTORY = ''0xc70593E016A5d50451b1A2Cf3173E7d77F120B37''"

definition CANONICAL_POOL_FEE :: int where
  "CANONICAL_POOL_FEE = 10000"

record uniswap_config =
  uc_quoter :: string
  uc_router :: string
  uc_factory :: string

definition uniswap_variables :: "string list" where
  "uniswap_variables = [''NEXT_PUBLIC_ARC_TESTNET_UNISWAP_V3_QUOTER_V2'',
     ''NEXT_PUBLIC_ARC_TESTNET_UNISWAP_V3_SWAP_ROUTER'', ''NEXT_PUBLIC_ARC_TESTNET_UNISWAP_V3_FACTORY'',
     ''NEXT_PUBLIC_ARC_TESTNET_CANONICAL_USDC'']"

definition trimmed_value :: "process_env \<Rightarrow> string \<Rightarrow> string" where
  "trimmed_value env name = (case env name of None \<Rightarrow> '''' | Some v \<Rightarrow> js_trim v)"

definition configuredUniswapV3 ::
    "(string \<Rightarrow> string result) \<Rightarrow> process_env \<Rightarrow> uniswap_config option result" where
  "configuredUniswapV3 getAddress env =
     (let q = trimmed_value env ''NEXT_PUBLIC_ARC_TESTNET_UNISWAP_V3_QUOTER_V2'';
          r = trimmed_value env ''NEXT_PUBLIC_ARC_TESTNET_UNISWAP_V3_SWAP_ROUTER'';
          f = trimmed_value env ''NEXT_PUBLIC_ARC_TESTNET_UNISWAP_V3_FACTORY'';
          u = trimmed_value env ''NEXT_PUBLIC_ARC_TESTNET_CANONICAL_USDC''
      in if list_all (\<lambda>v. v = []) [q, r, f, u] then Inr None
      else
        try_bind (throw_if (list_ex (\<lambda>v. v = [] \<or> \<not> address_pattern v) [q, r, f, u])
          ''Arc Testnet Uniswap configuration is incomplete or invalid.'') (\<lambda>_.
        try_bind (getAddress q) (\<lambda>quoter.
        try_bind (getAddress r) (\<lambda>router.
        try_bind (getAddress f) (\<lambda>factory.
        try_bind (getAddress u) (\<lambda>usdc.
        try_bind (getAddress ARC_CANONICAL_USDC) (\<lambda>canonical.
        try_bind (throw_if (usdc \<noteq> canonical) ''Arc Testnet canonical USDC configuration mismatch.'') (\<lambda>_.
        try_bind (getAddress ARC_TESTNET_V3_FACTORY) (\<lambda>known.
        try_bind (throw_if (factory \<noteq> known) ''Arc Testnet Uniswap factory configuration mismatch.'') (\<lambda>_.
        try_bind (throw_if (\<not> distinct (map js_lower [quoter, router, factory, usdc]))
          ''Arc Testnet Uniswap addresses must be distinct.'') (\<lambda>_.
          Inr (Some \<lparr>uc_quoter = quoter, uc_router = router, uc_factory = factory\<rparr>))))))))))))"

record validated_pool = uniswap_config +
  vp_pool :: string
  vp_token :: string
  vp_token0 :: string
  vp_token1 :: string

definition require_code :: "string option \<Rightarrow> string \<Rightarrow> string \<Rightarrow> unit io" where
  "require_code code before chainName =
     io_throw_if (no_code code) (before @ '' has no deployed bytecode on '' @ chainName @ ''.'')"

record pool_links =
  pl_token0 :: string
  pl_token1 :: string
  pl_fee :: int
  pl_factory :: string
  pl_quoterFactory :: string
  pl_quoterWeth :: string
  pl_routerFactory :: string
  pl_routerWeth :: string

text \<open>The second round of reads: what the pool and the periphery say of themselves.\<close>

definition readPoolLinks :: "client \<Rightarrow> string \<Rightarrow> uniswap_config \<Rightarrow> pool_links io" where
  "readPoolLinks c pool config =
     io_bind (io_both (readText c pool ''token0'' []) (io_both (readText c pool ''token1'' [])
             (io_both (readInt c pool ''fee'' []) (io_both (readText c pool ''factory'' [])
             (io_both (readText c (uc_quoter config) ''factory'' []) (io_both (readText c (uc_quoter config) ''WETH9'' [])
             (io_both (readText c (uc_router config) ''factory'' []) (readText c (uc_router config) ''WETH9'' []))))))))
       (\<lambda>(token0, token1, fee, factory, quoterFactory, quoterWeth, routerFactory, routerWeth).
         io_return \<lparr>pl_token0 = token0, pl_token1 = token1, pl_fee = fee, pl_factory = factory,
           pl_quoterFactory = quoterFactory, pl_quoterWeth = quoterWeth, pl_routerFactory = routerFactory,
           pl_routerWeth = routerWeth\<rparr>)"

text \<open>The loop over the three factories.\<close>

fun allLinked :: "(string \<Rightarrow> string result) \<Rightarrow> string \<Rightarrow> string list \<Rightarrow> unit result" where
  "allLinked getAddress factory [] = Inr ()"
| "allLinked getAddress factory (a # as) =
     try_bind (getAddress a) (\<lambda>x.
     try_bind (throw_if (js_lower x \<noteq> js_lower factory)
       ''The pool or configured periphery is not linked to the selected chain's canonical Uniswap V3 factory.'')
       (\<lambda>_. allLinked getAddress factory as))"

text \<open>The set of the two tokens is not exactly USDC and the token; the token's own address is only
  looked at when the rest of the test did not settle it.\<close>

definition wrongPair :: "(string \<Rightarrow> string result) \<Rightarrow> string \<Rightarrow> string \<Rightarrow> string \<Rightarrow> bool result" where
  "wrongPair getAddress t0 t1 token =
     (let pair = [js_lower t0, js_lower t1] in
      if \<not> distinct pair \<or> js_lower ARC_CANONICAL_USDC \<notin> set pair then Inr True
      else try_bind (getAddress token) (\<lambda>own. Inr (js_lower own \<notin> set pair)))"

definition checkPoolLinks ::
    "(string \<Rightarrow> string result) \<Rightarrow> uniswap_config \<Rightarrow> string \<Rightarrow> string \<Rightarrow> pool_links \<Rightarrow> validated_pool result" where
  "checkPoolLinks getAddress config pool token l =
     try_bind (getAddress (pl_token0 l)) (\<lambda>t0.
     try_bind (getAddress (pl_token1 l)) (\<lambda>t1.
     try_bind (wrongPair getAddress t0 t1 token) (\<lambda>wrong.
     try_bind (throw_if wrong
        ''The canonical pool pair is not exactly ERC20 USDC and this graduated token.'') (\<lambda>_.
     try_bind (throw_if (pl_fee l \<noteq> CANONICAL_POOL_FEE)
        ''The canonical pool must use the 1% Uniswap V3 fee tier.'') (\<lambda>_.
     try_bind (allLinked getAddress (uc_factory config) [pl_factory l, pl_quoterFactory l, pl_routerFactory l]) (\<lambda>_.
     try_bind (getAddress (pl_quoterWeth l)) (\<lambda>qw.
     try_bind (getAddress (pl_routerWeth l)) (\<lambda>rw.
     try_bind (getAddress ARC_CANONICAL_USDC) (\<lambda>usdc.
     try_bind (throw_if (qw \<noteq> rw \<or> qw = usdc)
        ''Configured periphery does not share the UnsupportedProtocol no-WETH marker.'') (\<lambda>_.
     try_bind (getAddress pool) (\<lambda>p.
     try_bind (getAddress token) (\<lambda>own.
       Inr \<lparr>uc_quoter = uc_quoter config, uc_router = uc_router config, uc_factory = uc_factory config,
         vp_pool = p, vp_token = own, vp_token0 = t0, vp_token1 = t1\<rparr>))))))))))))"

definition requireCodes :: "client \<Rightarrow> string \<Rightarrow> uniswap_config \<Rightarrow> unit io" where
  "requireCodes c pool config =
     (let name = selectedCooketChainName (c_chain c) in
     io_bind (io_both (getBytecode c pool) (io_both (getBytecode c (uc_quoter config))
             (io_both (getBytecode c (uc_router config)) (io_both (getBytecode c (uc_factory config))
                      (getBytecode c ARC_CANONICAL_USDC))))) (\<lambda>(poolCode, quoterCode, routerCode, factoryCode, usdcCode).
     io_bind (require_code poolCode ''The indexed canonical pool'' name) (\<lambda>_.
     io_bind (require_code quoterCode ''Configured QuoterV2'' name) (\<lambda>_.
     io_bind (require_code routerCode ''Configured SwapRouter'' name) (\<lambda>_.
       io_throw_if (no_code factoryCode \<or> no_code usdcCode)
        (''Configured canonical Uniswap dependency has no deployed bytecode on '' @ name @ ''.''))))))"

definition validateCanonicalPool :: "client \<Rightarrow> string \<Rightarrow> string \<Rightarrow> validated_pool io" where
  "validateCanonicalPool c pool token =
     io_bind (io_result (configuredUniswapV3 (c_getAddress c) (c_env c))) (\<lambda>found.
     case found of
       None \<Rightarrow> io_throw (Err (''Uniswap V3 configuration is unavailable for ''
                  @ selectedCooketChainName (c_chain c) @ ''.''))
     | Some config \<Rightarrow>
         io_bind (requireCodes c pool config) (\<lambda>_.
         io_bind (readPoolLinks c pool config) (\<lambda>links.
           io_result (checkPoolLinks (c_getAddress c) config pool token links))))"

subsection \<open>Quoting and the payload\<close>

definition quoteGraduatedSwap ::
    "client \<Rightarrow> validated_pool \<Rightarrow> trade_side \<Rightarrow> int \<Rightarrow> jsnum \<Rightarrow> string \<Rightarrow> graduated_quote io" where
  "quoteGraduatedSwap c pool side amountIn slippageBps wallet =
     io_bind (io_throw_if (amountIn \<le> 0) ''Enter an amount greater than zero.'') (\<lambda>_.
     (let tokenIn = (if side = Buy then ARC_CANONICAL_USDC else vp_token pool);
          tokenOut = (if side = Buy then vp_token pool else ARC_CANONICAL_USDC) in
     io_bind (withGraduatedRpcTimeout c
         (readInt c (uc_quoter pool) ''quoteExactInputSingle''
            [AText tokenIn, AText tokenOut, AInt amountIn, AInt CANONICAL_POOL_FEE, AInt 0])
         graduated_rpc_timeout ''Swap quote'') (\<lambda>amountOut.
     io_bind (dateNow c) (\<lambda>now.
     io_bind (io_result (minimumOutput amountOut slippageBps)) (\<lambda>least.
       io_return \<lparr>gq_side = side, gq_amountIn = amountIn, gq_amountOut = amountOut, gq_minimumOut = least,
         gq_slippageBps = slippageBps, gq_createdAt = now, gq_deadline = transactionDeadline now,
         gq_pool = vp_pool pool, gq_wallet = wallet, gq_chainId = selectedCooketChainId (c_chain c)\<rparr>)))))"

text \<open>A transaction for the wallet; its data is the encoding of a call, by viem's encoder.\<close>

record swap_transaction =
  sx_to :: string
  sx_data :: string
  sx_value :: int

type_synonym call_encoder = "string \<Rightarrow> arg list \<Rightarrow> string"

definition buildGraduatedSwapTransaction ::
    "call_encoder \<Rightarrow> validated_pool \<Rightarrow> graduated_quote \<Rightarrow> string \<Rightarrow> swap_transaction" where
  "buildGraduatedSwapTransaction encode pool quote recipient =
     \<lparr>sx_to = uc_router pool,
      sx_data = encode ''exactInputSingle''
        [AText (if gq_side quote = Buy then ARC_CANONICAL_USDC else vp_token pool),
         AText (if gq_side quote = Buy then vp_token pool else ARC_CANONICAL_USDC),
         AInt CANONICAL_POOL_FEE, AText recipient, AInt (gq_deadline quote), AInt (gq_amountIn quote),
         AInt (gq_minimumOut quote), AInt 0],
      sx_value = 0\<rparr>"

definition approvalCall :: "call_encoder \<Rightarrow> string \<Rightarrow> string \<Rightarrow> int \<Rightarrow> swap_transaction result" where
  "approvalCall encode token spender amount =
     try_bind (throw_if (amount \<le> 0) ''Approval amount must be greater than zero.'') (\<lambda>_.
       Inr \<lparr>sx_to = token, sx_data = encode ''approve'' [AText spender, AInt amount], sx_value = 0\<rparr>)"

text \<open>The payload as the wallet request it becomes.\<close>

definition transaction_spec :: "string \<Rightarrow> swap_transaction \<Rightarrow> call_spec" where
  "transaction_spec account x =
     \<lparr>call_to = sx_to x, call_fn = ''sendTransaction'', call_args = [AText (sx_data x)],
      call_account = account, call_value = sx_value x\<rparr>"

definition simulateGraduatedSwapTransaction :: "client \<Rightarrow> swap_transaction \<Rightarrow> string \<Rightarrow> jsnum \<Rightarrow> call_spec io" where
  "simulateGraduatedSwapTransaction c x account timeoutMs =
     io_catch (withAbortableTimeout c
         (io_call (EvEthCall (transaction_spec account x)) (\<lambda>tr. c_simulate c tr (transaction_spec account x)))
         timeoutMs (simulation_timeout_error timeoutMs) ''Swap simulation timeout must be positive.'')
       (\<lambda>reason. io_throw (if has_name [''GraduatedSwapSimulationTimeoutError''] reason then reason
                           else simulationFailure reason))"

subsection \<open>The single-click flow\<close>

record swap_input =
  si_side :: trade_side
  si_amountIn :: int
  si_initialState :: graduated_state
  si_readAllowance :: "int io"
  si_approve :: "unit io"
  si_assertContext :: "unit io"
  si_buildTransaction :: swap_transaction
  si_send :: "swap_transaction \<Rightarrow> string io"
  si_allowanceDelays :: "nat list option"
  si_rpcTimeoutMs :: "jsnum option"

definition orchestrateGraduatedSwap :: "client \<Rightarrow> swap_input \<Rightarrow> string io" where
  "orchestrateGraduatedSwap c i =
     io_bind (gate c) (\<lambda>_.
     (let rpcTimeoutMs = or_else (si_rpcTimeoutMs i) graduated_rpc_timeout in
     io_bind (si_assertContext i) (\<lambda>_.
     io_bind (io_throw_if (si_side i = Buy \<and> gs_usdc (si_initialState i) < si_amountIn i)
        ''Insufficient canonical ERC20 USDC balance.'') (\<lambda>_.
     io_bind (io_throw_if (si_side i = Sell \<and> gs_token (si_initialState i) < si_amountIn i)
        ''Insufficient token balance.'') (\<lambda>_.
     io_bind (if gs_allowance (si_initialState i) < si_amountIn i
              then io_bind (si_approve i) (\<lambda>_.
                   io_bind (waitForGraduatedAllowance c (si_readAllowance i) (si_amountIn i)
                     (or_else (si_allowanceDelays i) graduated_allowance_poll_delays) rpcTimeoutMs) (\<lambda>_.
                     io_return ()))
              else io_return ()) (\<lambda>_.
     io_bind (si_assertContext i) (\<lambda>_.
       si_send i (si_buildTransaction i))))))))"

definition walletTransport :: "client \<Rightarrow> string \<Rightarrow> swap_transaction \<Rightarrow> string io" where
  "walletTransport c wallet x = io_bind (gate c) (\<lambda>_. signedWrite c wallet (transaction_spec wallet x))"

text \<open>The state the panel shows is set through \<^verbatim>\<open>setStatus\<close> and \<^verbatim>\<open>setHash\<close>; both are events.\<close>

definition setStatus :: "string \<Rightarrow> unit io" where
  "setStatus s = io_note (EvCallback ''setStatus'' [s])"

definition setHash :: "string list \<Rightarrow> unit io" where
  "setHash h = io_note (EvCallback ''setHash'' h)"

definition approveExactly ::
    "client \<Rightarrow> call_encoder \<Rightarrow> string \<Rightarrow> string \<Rightarrow> int \<Rightarrow> string \<Rightarrow> unit io" where
  "approveExactly c encode token router amount wallet =
     io_bind (setStatus ''awaiting_approval'') (\<lambda>_.
     io_bind (io_result (approvalCall encode token router amount)) (\<lambda>call.
     io_bind (walletTransport c wallet call) (\<lambda>approvalHash.
     io_bind (setHash [approvalHash]) (\<lambda>_.
     io_bind (setStatus ''approval_confirming'') (\<lambda>_.
     io_bind (waitForTransactionReceipt c approvalHash (Some 120000)) (\<lambda>(_, receipt).
     io_bind (io_throw_if (rc_status receipt \<noteq> ''success'') ''The token approval transaction reverted.'') (\<lambda>_.
       setStatus ''approval_confirmed'')))))))"

text \<open>The error text of the panel: an RPC error is reported as happening before any wallet request.\<close>

definition swapErrorMessage :: "js_error \<Rightarrow> string" where
  "swapErrorMessage reason =
     (if is_rpc_timeout reason
      then error_text reason @ '' No wallet request was made. Check the Arc Testnet RPC connection and try again.''
      else if is_rpc_error reason
      then ''Arc Testnet RPC could not refresh token allowance. Check the network connection and try again. No wallet request was made.''
      else error_text reason)"

text \<open>\<^verbatim>\<open>assertContext\<close> of the panel's \<^verbatim>\<open>submit\<close>: the wallet and chain of the last render.\<close>

definition stale_quote_message :: string where
  "stale_quote_message = ''This quote is stale or the wallet/network changed. Request a fresh quote.''"

definition assertContext ::
    "client \<Rightarrow> (trace \<Rightarrow> string option \<times> int option) \<Rightarrow> graduated_quote \<Rightarrow> string \<Rightarrow> int option \<Rightarrow> string \<Rightarrow> unit io" where
  "assertContext c current quote wallet chainId pool =
     io_bind (io_check (\<lambda>tr. Inr (current tr))) (\<lambda>(nowWallet, nowChain).
     if map_option js_lower nowWallet \<noteq> Some (js_lower wallet) \<or> nowChain \<noteq> chainId
     then io_throw (Err stale_quote_message)
     else io_bind (dateNow c) (\<lambda>now.
       io_throw_if (\<not> quoteIsFresh quote wallet pool (or_else chainId 0) now) stale_quote_message))"

text \<open>What \<^verbatim>\<open>submit\<close> of the panel runs for a reviewed quote.\<close>

definition panel_swap ::
    "client \<Rightarrow> call_encoder \<Rightarrow> (trace \<Rightarrow> string option \<times> int option) \<Rightarrow> validated_pool \<Rightarrow> string \<Rightarrow> int option
       \<Rightarrow> string \<Rightarrow> graduated_quote \<Rightarrow> trade_side \<Rightarrow> graduated_state \<Rightarrow> string io" where
  "panel_swap c encode current pool wallet chainId tokenAddress quote side state =
     orchestrateGraduatedSwap c
       \<lparr>si_side = side, si_amountIn = gq_amountIn quote, si_initialState = state,
        si_readAllowance = io_bind (setStatus ''refreshing_state'') (\<lambda>_.
          readGraduatedAllowance c tokenAddress wallet (uc_router pool) side graduated_rpc_timeout),
        si_approve = approveExactly c encode (input_token tokenAddress side) (uc_router pool) (gq_amountIn quote) wallet,
        si_assertContext = assertContext c current quote wallet chainId (vp_pool pool),
        si_buildTransaction = buildGraduatedSwapTransaction encode pool quote wallet,
        si_send = (\<lambda>x. io_bind (setHash []) (\<lambda>_. io_bind (setStatus ''awaiting_wallet'') (\<lambda>_. walletTransport c wallet x))),
        si_allowanceDelays = None, si_rpcTimeoutMs = None\<rparr>"

subsection \<open>Guards of the flow\<close>

lemma walletTransport_guarded [guarded_intros]: "guarded (signer_verified c wallet) (walletTransport c wallet x)"
  unfolding walletTransport_def by (intro guarded_intros guarded_read_only[OF gate_read_only])

lemma set_read_only [emits_intros]: "read_only (setStatus s)" "read_only (setHash h)"
  unfolding setStatus_def setHash_def by (intro emits_intros; simp)+

lemma approveExactly_guarded [guarded_intros]:
  "guarded (signer_verified c wallet) (approveExactly c encode token router amount wallet)"
  unfolding approveExactly_def
  by (intro guarded_intros) (intro guarded_read_only emits_intros; simp)+

lemma waitForGraduatedAllowance_read_only [emits_intros]:
  "read_only m \<Longrightarrow> read_only (waitForGraduatedAllowance c m required ds ms)"
  by (induction ds) (auto intro!: emits_intros)

lemma assertContext_read_only [emits_intros]: "read_only (assertContext c current quote wallet chainId pool)"
  unfolding assertContext_def by (intro emits_intros)

lemma readGraduatedAllowance_read_only [emits_intros]:
  "read_only (readGraduatedAllowance c token wallet router side ms)"
  unfolding readGraduatedAllowance_def by (intro emits_intros)

lemma orchestrate_guarded:
  assumes "guarded G (si_approve i)" and "read_only (si_assertContext i)"
    and "read_only (si_readAllowance i)" and "\<And>x. guarded G (si_send i x)"
  shows "guarded G (orchestrateGraduatedSwap c i)"
  unfolding orchestrateGraduatedSwap_def Let_def using assms
  by (intro guarded_bind guarded_if guarded_read_only[OF gate_read_only] guarded_read_only[OF emits_throw_if]
      guarded_read_only[OF emits_return] guarded_read_only[OF waitForGraduatedAllowance_read_only]
      guarded_read_only[where m = "si_assertContext i"])

lemma panel_swap_guarded:
  "guarded (signer_verified c wallet) (panel_swap c encode current pool wallet chainId token quote side state)"
  unfolding panel_swap_def
proof (rule orchestrate_guarded, unfold swap_input.simps)
  show "read_only (assertContext c current quote wallet chainId (vp_pool pool))"
    by (rule assertContext_read_only)
  show "read_only (io_bind (setStatus ''refreshing_state'')
      (\<lambda>_. readGraduatedAllowance c token wallet (uc_router pool) side graduated_rpc_timeout))"
    by (intro emits_intros)
  show "guarded (signer_verified c wallet) (io_bind (setHash []) (\<lambda>_. io_bind (setStatus ''awaiting_wallet'')
      (\<lambda>_. walletTransport c wallet x)))" for x
    by (intro guarded_intros guarded_read_only[OF set_read_only(1)] guarded_read_only[OF set_read_only(2)])
qed (rule approveExactly_guarded)

interpretation swap_flow: signed_flow c wallet "panel_swap c encode current pool wallet chainId token quote side state"
  for c wallet encode current pool chainId token quote side state
  by unfold_locales (rule panel_swap_guarded)

subsection \<open>Properties\<close>

lemma allLinked_Inr:
  "allLinked getAddress factory as = Inr u \<longleftrightarrow> (\<forall>a \<in> set as. \<exists>x. getAddress a = Inr x \<and> same_address x factory)"
  by (induction as) (auto simp: try_bind_Inr_iff same_address_def)

lemma wrongPair_False:
  "wrongPair getAddress t0 t1 token = Inr False \<longleftrightarrow>
     (\<exists>own. getAddress token = Inr own \<and> \<not> same_address t0 t1
        \<and> ((same_address t0 ARC_CANONICAL_USDC \<and> same_address t1 own)
          \<or> (same_address t1 ARC_CANONICAL_USDC \<and> same_address t0 own)
          \<or> (same_address own ARC_CANONICAL_USDC
             \<and> (same_address t0 ARC_CANONICAL_USDC \<or> same_address t1 ARC_CANONICAL_USDC))))"
proof (cases "getAddress token")
  case (Inl e)
  then show ?thesis by (simp add: wrongPair_def Let_def)
next
  case (Inr own)
  define a b d e where "a = js_lower t0" "b = js_lower t1" "d = js_lower ARC_CANONICAL_USDC" "e = js_lower own"
  note names = this[symmetric]
  have "(if \<not> distinct [a, b] \<or> d \<notin> set [a, b] then Inr True else (Inr (e \<notin> set [a, b]) :: bool result)) = Inr False
     \<longleftrightarrow> a \<noteq> b \<and> (a = d \<and> b = e \<or> b = d \<and> a = e \<or> e = d \<and> (a = d \<or> b = d))"
    by auto
  moreover have "(\<exists>x. Inr own = (Inr x :: string result) \<and> P x) = P own" for P by simp
  ultimately show ?thesis
    unfolding wrongPair_def Let_def same_address_def Inr try_bind_simps names by (simp add: names)
qed

text \<open>What the checks of a pool's links establish.\<close>

definition pool_linked :: "(string \<Rightarrow> string result) \<Rightarrow> uniswap_config \<Rightarrow> pool_links \<Rightarrow> validated_pool \<Rightarrow> bool" where
  "pool_linked getAddress config l v \<longleftrightarrow>
     uc_quoter v = uc_quoter config \<and> uc_router v = uc_router config \<and> uc_factory v = uc_factory config
     \<and> getAddress (pl_token0 l) = Inr (vp_token0 v) \<and> getAddress (pl_token1 l) = Inr (vp_token1 v)
     \<and> \<not> same_address (vp_token0 v) (vp_token1 v)
     \<and> (same_address (vp_token0 v) ARC_CANONICAL_USDC \<and> same_address (vp_token1 v) (vp_token v)
        \<or> same_address (vp_token1 v) ARC_CANONICAL_USDC \<and> same_address (vp_token0 v) (vp_token v))
     \<and> pl_fee l = 10000
     \<and> (\<forall>a \<in> {pl_factory l, pl_quoterFactory l, pl_routerFactory l}.
          \<exists>x. getAddress a = Inr x \<and> same_address x (uc_factory config))
     \<and> (\<exists>w. getAddress (pl_quoterWeth l) = Inr w \<and> getAddress (pl_routerWeth l) = Inr w
          \<and> getAddress ARC_CANONICAL_USDC \<noteq> Inr w)"

lemma checkPoolLinks_steps:
  assumes "checkPoolLinks getAddress config pool token l = Inr v"
  shows "wrongPair getAddress (vp_token0 v) (vp_token1 v) token = Inr False"
    and "uc_quoter v = uc_quoter config \<and> uc_router v = uc_router config \<and> uc_factory v = uc_factory config"
    and "getAddress (pl_token0 l) = Inr (vp_token0 v)" and "getAddress (pl_token1 l) = Inr (vp_token1 v)"
    and "pl_fee l = CANONICAL_POOL_FEE"
    and "allLinked getAddress (uc_factory config) [pl_factory l, pl_quoterFactory l, pl_routerFactory l] = Inr ()"
    and "\<exists>w. getAddress (pl_quoterWeth l) = Inr w \<and> getAddress (pl_routerWeth l) = Inr w
          \<and> getAddress ARC_CANONICAL_USDC \<noteq> Inr w"
    and "getAddress pool = Inr (vp_pool v)" and "getAddress token = Inr (vp_token v)"
proof -
  note run = assms[unfolded checkPoolLinks_def try_bind_Inr_iff throw_if_Inr_iff]
  from run obtain t0 t1 wrong u qw rw usdc p own where steps:
      "getAddress (pl_token0 l) = Inr t0" "getAddress (pl_token1 l) = Inr t1"
      "wrongPair getAddress t0 t1 token = Inr wrong" "\<not> wrong" "\<not> pl_fee l \<noteq> CANONICAL_POOL_FEE"
      "allLinked getAddress (uc_factory config) [pl_factory l, pl_quoterFactory l, pl_routerFactory l] = Inr u"
      "getAddress (pl_quoterWeth l) = Inr qw" "getAddress (pl_routerWeth l) = Inr rw"
      "getAddress ARC_CANONICAL_USDC = Inr usdc" "\<not> (qw \<noteq> rw \<or> qw = usdc)"
      "getAddress pool = Inr p" "getAddress token = Inr own"
      "v = \<lparr>uc_quoter = uc_quoter config, uc_router = uc_router config, uc_factory = uc_factory config,
         vp_pool = p, vp_token = own, vp_token0 = t0, vp_token1 = t1\<rparr>"
    by (elim exE conjE) blast
  note v = steps(13)
  show "wrongPair getAddress (vp_token0 v) (vp_token1 v) token = Inr False" using steps(3,4) v by simp
  show "uc_quoter v = uc_quoter config \<and> uc_router v = uc_router config \<and> uc_factory v = uc_factory config"
    using v by simp
  show "getAddress (pl_token0 l) = Inr (vp_token0 v)" using steps(1) v by simp
  show "getAddress (pl_token1 l) = Inr (vp_token1 v)" using steps(2) v by simp
  show "pl_fee l = CANONICAL_POOL_FEE" using steps(5) by simp
  show "allLinked getAddress (uc_factory config) [pl_factory l, pl_quoterFactory l, pl_routerFactory l] = Inr ()"
    using steps(6) by (simp del: allLinked.simps)
  show "\<exists>w. getAddress (pl_quoterWeth l) = Inr w \<and> getAddress (pl_routerWeth l) = Inr w
          \<and> getAddress ARC_CANONICAL_USDC \<noteq> Inr w" using steps(7-10) by auto
  show "getAddress pool = Inr (vp_pool v)" using steps(11) v by simp
  show "getAddress token = Inr (vp_token v)" using steps(12) v by simp
qed

lemma checkPoolLinks_Inr:
  assumes "checkPoolLinks getAddress config pool token l = Inr v"
    and "\<not> same_address (vp_token v) ARC_CANONICAL_USDC"
  shows "pool_linked getAddress config l v \<and> getAddress pool = Inr (vp_pool v) \<and> getAddress token = Inr (vp_token v)"
proof -
  note f = checkPoolLinks_steps[OF assms(1)]
  obtain own where own: "getAddress token = Inr own"
      "\<not> same_address (vp_token0 v) (vp_token1 v)
        \<and> ((same_address (vp_token0 v) ARC_CANONICAL_USDC \<and> same_address (vp_token1 v) own)
          \<or> (same_address (vp_token1 v) ARC_CANONICAL_USDC \<and> same_address (vp_token0 v) own)
          \<or> (same_address own ARC_CANONICAL_USDC
             \<and> (same_address (vp_token0 v) ARC_CANONICAL_USDC \<or> same_address (vp_token1 v) ARC_CANONICAL_USDC)))"
    using f(1)[unfolded wrongPair_False] by (elim exE conjE) blast
  have "own = vp_token v" using own(1) f(9) by simp
  with own(2) assms(2) have "\<not> same_address (vp_token0 v) (vp_token1 v)
     \<and> (same_address (vp_token0 v) ARC_CANONICAL_USDC \<and> same_address (vp_token1 v) (vp_token v)
        \<or> same_address (vp_token1 v) ARC_CANONICAL_USDC \<and> same_address (vp_token0 v) (vp_token v))" by blast
  moreover note f(6)[unfolded allLinked_Inr]
  ultimately show ?thesis
    unfolding pool_linked_def using f(2-5) f(7-9) by (simp add: CANONICAL_POOL_FEE_def)
qed

text \<open>C21: a pool of a token other than USDC is accepted only when, by the node's answers after the
  addresses' code has been checked, its two tokens are exactly canonical USDC and that token, its fee
  is the 1% tier, the pool and both periphery contracts name the configured factory, and the
  periphery shares a marker that is not USDC; the contracts quoted and paid through are the
  configured ones, and nothing is sent.\<close>

theorem validateCanonicalPool_sound:
  assumes "validateCanonicalPool c pool token tr = (Inr v, t)"
    and "\<not> same_address (vp_token v) ARC_CANONICAL_USDC"
  shows "\<exists>config l t1. configuredUniswapV3 (c_getAddress c) (c_env c) = Inr (Some config)
    \<and> requireCodes c pool config tr = (Inr (), t1) \<and> readPoolLinks c pool config t1 = (Inr l, t)
    \<and> pool_linked (c_getAddress c) config l v
    \<and> c_getAddress c pool = Inr (vp_pool v) \<and> c_getAddress c token = Inr (vp_token v)
    \<and> writes t = writes tr"
proof -
  from assms(1) obtain config l t1 where run: "configuredUniswapV3 (c_getAddress c) (c_env c) = Inr (Some config)"
      "requireCodes c pool config tr = (Inr (), t1)" "readPoolLinks c pool config t1 = (Inr l, t)"
      "checkPoolLinks (c_getAddress c) config pool token l = Inr v"
    unfolding validateCanonicalPool_def by (auto simp: io_inv)
  have "read_only (validateCanonicalPool c pool token)"
    unfolding validateCanonicalPool_def requireCodes_def readPoolLinks_def require_code_def Let_def
    by (intro emits_intros)
  from read_only_writes[OF this assms(1)] checkPoolLinks_Inr[OF run(4) assms(2)] run(1-3)
  show ?thesis by blast
qed

text \<open>The two requests of a swap: the approval when the reviewed allowance is short, and the swap.\<close>

definition approve_transaction :: "call_encoder \<Rightarrow> string \<Rightarrow> string \<Rightarrow> int \<Rightarrow> swap_transaction" where
  "approve_transaction encode token spender amount =
     \<lparr>sx_to = token, sx_data = encode ''approve'' [AText spender, AInt amount], sx_value = 0\<rparr>"

definition swap_requests ::
    "call_encoder \<Rightarrow> validated_pool \<Rightarrow> string \<Rightarrow> string \<Rightarrow> graduated_quote \<Rightarrow> trade_side \<Rightarrow> graduated_state \<Rightarrow> call_spec list" where
  "swap_requests encode pool wallet token quote side state =
     (if gs_allowance state < gq_amountIn quote
      then [transaction_spec wallet (approve_transaction encode (input_token token side) (uc_router pool) (gq_amountIn quote))]
      else []) @ [transaction_spec wallet (buildGraduatedSwapTransaction encode pool quote wallet)]"

lemma walletTransport_submits: "submits [transaction_spec wallet x] (walletTransport c wallet x)"
  unfolding walletTransport_def by (intro submits_read_bind gate_read_only submits_signed)

lemma approveExactly_submits:
  "submits [transaction_spec wallet (approve_transaction encode token router amount)]
     (approveExactly c encode token router amount wallet)"
proof (cases "amount \<le> 0")
  case True
  have stop: "io_bind (io_throw e) f = io_throw e" for e and f :: "swap_transaction \<Rightarrow> unit io"
    by (simp add: io_bind_def io_throw_def fun_eq_iff)
  have "approvalCall encode token router amount = Inl (Err ''Approval amount must be greater than zero.'')"
    using True by (simp add: approvalCall_def throw_if_def)
  then have "io_result (approvalCall encode token router amount)
      = io_throw (Err ''Approval amount must be greater than zero.'')"
    by (simp add: io_result_def io_throw_def fun_eq_iff)
  then have "approveExactly c encode token router amount wallet
      = io_bind (setStatus ''awaiting_approval'') (\<lambda>_. io_throw (Err ''Approval amount must be greater than zero.''))"
    unfolding approveExactly_def by (simp add: stop)
  then show ?thesis by (simp add: submits_read_bind set_read_only submits_throw)
next
  case False
  then have call: "approvalCall encode token router amount = Inr (approve_transaction encode token router amount)"
    by (simp add: approvalCall_def throw_if_def approve_transaction_def)
  have bound: "io_bind (io_result (Inr a)) f = f a" for a and f :: "swap_transaction \<Rightarrow> unit io"
    by (simp add: io_bind_def io_result_def fun_eq_iff)
  show ?thesis unfolding approveExactly_def call bound
    by (rule submits_read_bind[OF set_read_only(1)], rule submits_bind_read[OF walletTransport_submits])
      (intro emits_intros)
qed

lemma panel_swap_submits:
  "submits (swap_requests encode pool wallet token quote side state)
     (panel_swap c encode current pool wallet chainId token quote side state)"
proof -
  let ?allowance = "io_bind (setStatus ''refreshing_state'')
    (\<lambda>_. readGraduatedAllowance c token wallet (uc_router pool) side graduated_rpc_timeout)"
  let ?spec = "transaction_spec wallet (buildGraduatedSwapTransaction encode pool quote wallet)"
  have read: "read_only ?allowance" by (intro emits_intros)
  have approve: "submits (if gs_allowance state < gq_amountIn quote
        then [transaction_spec wallet (approve_transaction encode (input_token token side) (uc_router pool) (gq_amountIn quote))]
        else [])
      (if gs_allowance state < gq_amountIn quote
       then io_bind (approveExactly c encode (input_token token side) (uc_router pool) (gq_amountIn quote) wallet) (\<lambda>_.
            io_bind (waitForGraduatedAllowance c ?allowance (gq_amountIn quote) ds ms) (\<lambda>_. io_return ()))
       else io_return ())" for ds ms
  proof (cases "gs_allowance state < gq_amountIn quote")
    case True
    have "read_only (io_bind (waitForGraduatedAllowance c ?allowance (gq_amountIn quote) ds ms) (\<lambda>_. io_return ()))"
      by (intro emits_bind waitForGraduatedAllowance_read_only read emits_return)
    with True show ?thesis by (simp add: submits_bind_read[OF approveExactly_submits])
  qed (simp add: submits_read_only emits_return)
  have send: "submits [?spec] (io_bind (setHash []) (\<lambda>_. io_bind (setStatus ''awaiting_wallet'')
      (\<lambda>_. walletTransport c wallet (buildGraduatedSwapTransaction encode pool quote wallet))))"
    by (intro submits_read_bind set_read_only walletTransport_submits)
  show ?thesis
    unfolding panel_swap_def orchestrateGraduatedSwap_def Let_def swap_input.simps swap_requests_def
    by (intro submits_read_bind submits_bind[OF approve] gate_read_only assertContext_read_only
        emits_throw_if send)
qed

lemma assertContext_Inr [io_inv]:
  "assertContext c current quote wallet chainId pool tr = (Inr u, t) \<longleftrightarrow>
     (\<exists>w. current tr = (Some w, chainId) \<and> same_address w wallet) \<and> t = tr @ [EvNow]
     \<and> quoteIsFresh quote wallet pool (or_else chainId 0) (c_now c tr)"
  by (cases "current tr")
    (auto simp: assertContext_def io_inv dateNow_def same_address_def)

lemma waitForGraduatedAllowance_Inr:
  assumes "read_only read" and "waitForGraduatedAllowance c read required ds ms tr = (Inr a, t)"
  shows "required \<le> a \<and> (\<exists>s. read (tr @ s) = (Inr a, t))"
  using assms(2)
proof (induction ds arbitrary: tr)
  case Nil
  then show ?case by (simp add: io_inv)
next
  case (Cons d ds)
  from Cons.prems obtain t1 t2 b where steps:
      "(if 0 < d then io_note (EvDelay d) else io_return ()) tr = (Inr (), t1)"
      "withGraduatedRpcTimeout c read ms ''Refreshing token allowance'' t1 = (Inr b, t2)"
      "(if required \<le> b then io_return b else waitForGraduatedAllowance c read required ds ms) t2 = (Inr a, t)"
    by (auto simp: io_bind_Inr)
  obtain s1 where t1: "t1 = tr @ s1" using steps(1) by (auto simp: io_inv split: if_splits)
  have run: "read t1 = (Inr b, t2)" using steps(2) by (simp add: io_inv)
  obtain s2 where t2: "t2 = t1 @ s2" using emitsD[OF assms(1) run] by (auto simp: grows_def)
  show ?case
  proof (cases "required \<le> b")
    case True
    then show ?thesis using steps(3) t1 run by (auto simp: io_inv)
  next
    case False
    then have "waitForGraduatedAllowance c read required ds ms t2 = (Inr a, t)" using steps(3) by simp
    from Cons.IH[OF this] show ?thesis unfolding t2 t1 by (metis append.assoc)
  qed
qed

lemma walletTransport_Inr [io_inv]:
  "walletTransport c wallet x tr = (Inr h, t) \<longleftrightarrow>
     gate c tr = (Inr (), tr) \<and> signedWrite c wallet (transaction_spec wallet x) tr = (Inr h, t)"
  by (auto simp: walletTransport_def io_bind_Inr gate_def io_result_Inr)

definition allowance_observed :: "client \<Rightarrow> string \<Rightarrow> string \<Rightarrow> string \<Rightarrow> int \<Rightarrow> trace \<Rightarrow> bool" where
  "allowance_observed c token wallet router amount p \<longleftrightarrow>
     (\<exists>t0 a. p = t0 @ [EvRead token ''allowance'' [AText wallet, AText router]]
        \<and> c_readInt c t0 token ''allowance'' [AText wallet, AText router] = Inr a \<and> amount \<le> a)"

lemma panel_approval_Inr:
  assumes "waitForGraduatedAllowance c
      (io_bind (setStatus ''refreshing_state'') (\<lambda>_. readGraduatedAllowance c token wallet router side ms))
      required ds ms' tr = (Inr a, t)"
  shows "allowance_observed c (input_token token side) wallet router required t"
proof -
  have read: "read_only (io_bind (setStatus ''refreshing_state'')
      (\<lambda>_. readGraduatedAllowance c token wallet router side ms))" by (intro emits_intros)
  obtain s where "required \<le> a" "io_bind (setStatus ''refreshing_state'')
      (\<lambda>_. readGraduatedAllowance c token wallet router side ms) (tr @ s) = (Inr a, t)"
    using waitForGraduatedAllowance_Inr[OF read assms] by blast
  then show ?thesis
    by (auto simp: allowance_observed_def setStatus_def readGraduatedAllowance_def readInt_def io_inv)
qed

text \<open>C7: a swap that returned was sent as the last request, after the gate was open, the reviewed
  balance of the input token covered the amount, the reviewed or a later observed allowance covered
  it, and the quote was still fresh for the wallet and chain of that moment; the wallet was verified
  directly before the request.\<close>

theorem panel_swap_sends_fresh_quote:
  assumes "panel_swap c encode current pool wallet chainId token quote side state tr = (Inr h, t)"
  shows "assertArcProtocolEconomicsReady (c_env c) (c_chain c) = Inr ()
    \<and> gq_amountIn quote \<le> (if side = Buy then gs_usdc state else gs_token state)
    \<and> (\<exists>p w. t = p @ [EvNow, EvCallback ''setHash'' [], EvCallback ''setStatus'' [''awaiting_wallet''],
                      EvWalletChainId, EvWalletAddresses,
                      EvWrite (transaction_spec wallet (buildGraduatedSwapTransaction encode pool quote wallet))]
         \<and> writes p = writes tr @ butlast (swap_requests encode pool wallet token quote side state)
         \<and> current p = (Some w, chainId) \<and> same_address w wallet
         \<and> quoteIsFresh quote wallet (vp_pool pool) (or_else chainId 0) (c_now c p)
         \<and> (gq_amountIn quote \<le> gs_allowance state
            \<or> allowance_observed c (input_token token side) wallet (uc_router pool) (gq_amountIn quote) p))"
proof -
  define swap where "swap = transaction_spec wallet (buildGraduatedSwapTransaction encode pool quote wallet)"
  note run = assms[unfolded panel_swap_def orchestrateGraduatedSwap_def Let_def swap_input.simps or_else_def
      option.case io_bind_Inr assertContext_Inr io_throw_if_Inr]
  obtain u u' t1 p w v t2 v' t3 where gate: "gate c tr = (Inr u, t1)"
    and balance: "\<not> (side = Buy \<and> gs_usdc state < gq_amountIn quote)"
      "\<not> (side = Sell \<and> gs_token state < gq_amountIn quote)"
    and mid: "(if gs_allowance state < gq_amountIn quote
       then io_bind (approveExactly c encode (input_token token side) (uc_router pool) (gq_amountIn quote) wallet) (\<lambda>_.
            io_bind (waitForGraduatedAllowance c (io_bind (setStatus ''refreshing_state'')
                (\<lambda>_. readGraduatedAllowance c token wallet (uc_router pool) side graduated_rpc_timeout))
              (gq_amountIn quote) graduated_allowance_poll_delays graduated_rpc_timeout) (\<lambda>_. io_return ()))
       else io_return ()) (t1 @ [EvNow]) = (Inr u', p)"
    and ctx: "current p = (Some w, chainId)" "same_address w wallet"
      "quoteIsFresh quote wallet (vp_pool pool) (case chainId of Some a \<Rightarrow> a | None \<Rightarrow> 0) (c_now c p)"
    and send: "setHash [] (p @ [EvNow]) = (Inr v, t2)" "setStatus ''awaiting_wallet'' t2 = (Inr v', t3)"
       "walletTransport c wallet (buildGraduatedSwapTransaction encode pool quote wallet) t3 = (Inr h, t)"
    using run by (elim exE conjE) (simp only: simp_thms; blast)
  have t: "t = p @ [EvNow, EvCallback ''setHash'' [], EvCallback ''setStatus'' [''awaiting_wallet''],
      EvWalletChainId, EvWalletAddresses, EvWrite swap]"
    using send by (auto simp: io_inv setHash_def setStatus_def swap_def Let_def)
  have "writes t = writes tr @ swap_requests encode pool wallet token quote side state"
    using submitsD(1)[OF panel_swap_submits assms] .
  then have "writes p @ [swap] = writes tr @ swap_requests encode pool wallet token quote side state"
    using t by simp
  then have "writes p = writes tr @ butlast (swap_requests encode pool wallet token quote side state)"
    unfolding swap_requests_def swap_def[symmetric] by (simp flip: append_assoc)
  moreover have "assertArcProtocolEconomicsReady (c_env c) (c_chain c) = Inr ()"
    using gate by (simp add: gate_def io_inv)
  moreover have "gq_amountIn quote \<le> (if side = Buy then gs_usdc state else gs_token state)"
    using balance by (cases side) auto
  moreover have "allowance_observed c (input_token token side) wallet (uc_router pool) (gq_amountIn quote) p"
    if "\<not> gq_amountIn quote \<le> gs_allowance state"
    using mid that panel_approval_Inr by (auto simp: io_bind_Inr io_return_Inr not_le)
  ultimately show ?thesis using t ctx unfolding swap_def or_else_def by blast
qed

text \<open>However a swap ends, the wallet was asked for at most the exact approval and then the swap,
  in this order: the approval only when the reviewed allowance was short, and the swap only after
  everything before it succeeded.\<close>

theorem panel_swap_requests_prefix:
  assumes "panel_swap c encode current pool wallet chainId token quote side state tr = (r, t)"
  shows "\<exists>n. writes t = writes tr @ take n (swap_requests encode pool wallet token quote side state)"
  using panel_swap_submits assms by (rule submits_prefix)

subsection \<open>Concrete runs\<close>

definition demo_pool :: validated_pool where
  "demo_pool = \<lparr>uc_quoter = ''0xq'', uc_router = ''0xr'', uc_factory = ''0xf'', vp_pool = ''0xp'', vp_token = ''0xt'',
     vp_token0 = ARC_CANONICAL_USDC, vp_token1 = ''0xt''\<rparr>"

definition demo_quote :: graduated_quote where
  "demo_quote = \<lparr>gq_side = Buy, gq_amountIn = 40, gq_amountOut = 5, gq_minimumOut = 4, gq_slippageBps = Fin 100,
     gq_createdAt = 1000000, gq_deadline = 1300, gq_pool = ''0xp'', gq_wallet = ''0xa'', gq_chainId = 5042002\<rparr>"

definition demo_encode :: call_encoder where
  "demo_encode f args = f"

definition demo_context :: "trace \<Rightarrow> string option \<times> int option" where
  "demo_context tr = (Some ''0xa'', Some 5042002)"

definition short_state :: graduated_state where
  "short_state = \<lparr>gs_usdc = 50, gs_token = 0, gs_allowance = 0\<rparr>"

lemma demo_context_holds:
  "assertContext c demo_context demo_quote ''0xa'' (Some 5042002) ''0xp'' tr = (Inr (), tr @ [EvNow])"
  if "c_now c = (\<lambda>tr. 1000000)" for c
  using that
  by (simp add: assertContext_def io_defs dateNow_def demo_context_def demo_quote_def quoteIsFresh_def quote_ttl_ms_def
      or_else_def)

lemma walletTransport_demo:
  "walletTransport demo ''0xa'' x tr = (Inr ''0xh'', tr @ [EvWalletChainId, EvWalletAddresses,
     EvWrite (transaction_spec ''0xa'' x)])"
  by (simp add: walletTransport_def io_bind_def)

abbreviation demo_swap :: "client \<Rightarrow> string io" where
  "demo_swap c \<equiv> panel_swap c demo_encode demo_context demo_pool ''0xa'' (Some 5042002) ''0xt'' demo_quote Buy short_state"

lemma demo_approve:
  "approveExactly demo demo_encode token router 40 ''0xa'' tr = (Inr (), tr @
     [EvCallback ''setStatus'' [''awaiting_approval''], EvWalletChainId, EvWalletAddresses,
      EvWrite (transaction_spec ''0xa'' (approve_transaction demo_encode token router 40)),
      EvCallback ''setHash'' [''0xh''], EvCallback ''setStatus'' [''approval_confirming''],
      EvWaitReceipt ''0xh'' (Some 120000), EvCallback ''setStatus'' [''approval_confirmed'']])"
proof -
  have wait: "c_waitReceipt demo = (\<lambda>tr h. (None, Inr demo_receipt))" by (simp add: demo_def)
  show ?thesis
    by (simp add: approveExactly_def approvalCall_def throw_if_def io_defs setStatus_def setHash_def
        walletTransport_demo waitForTransactionReceipt_def wait demo_receipt_def approve_transaction_def)
qed

lemma demo_wait:
  assumes "writes tr \<noteq> []"
  shows "waitForGraduatedAllowance demo
      (io_bind (setStatus ''refreshing_state'') (\<lambda>_. readGraduatedAllowance demo ''0xt'' ''0xa'' ''0xr'' Buy graduated_rpc_timeout))
      40 graduated_allowance_poll_delays graduated_rpc_timeout tr
    = (Inr 50, tr @ [EvCallback ''setStatus'' [''refreshing_state''],
        EvRead ARC_CANONICAL_USDC ''allowance'' [AText ''0xa'', AText ''0xr'']])"
proof -
  have fields: "c_readInt demo = (\<lambda>tr a f args. Inr (if f = ''allowance'' \<and> writes tr = [] then 0 else 50))"
    "c_timerFired demo = (\<lambda>tr. False)" by (simp_all add: demo_def)
  have ms: "positive_finite graduated_rpc_timeout" by (simp add: graduated_rpc_timeout_def)
  show ?thesis using assms
    by (simp add: graduated_allowance_poll_delays_def readGraduatedAllowance_def input_token_def
        withGraduatedRpcTimeout_def withAbortableTimeout_def io_defs setStatus_def readInt_def fields ms)
qed

lemma set_run: "setStatus st tr = (Inr (), tr @ [EvCallback ''setStatus'' [st]])"
  "setHash h tr = (Inr (), tr @ [EvCallback ''setHash'' h])"
  by (simp_all add: setStatus_def setHash_def io_note_def)

lemma demo_fields:
  "uc_router demo_pool = ''0xr''" "vp_pool demo_pool = ''0xp''" "gq_amountIn demo_quote = 40"
  "gs_usdc short_state = 50" "gs_allowance short_state = 0"
  by (simp_all add: demo_pool_def demo_quote_def short_state_def)

lemma demo_swap_returns: "\<exists>t. demo_swap demo [] = (Inr ''0xh'', t)"
proof -
  have now: "c_now demo = (\<lambda>tr. 1000000)" by (simp add: demo_def)
  show ?thesis
    by (simp add: panel_swap_def orchestrateGraduatedSwap_def Let_def io_bind_def io_throw_if_def io_result_def
        io_return_def demo_context_holds[OF now] demo_approve demo_wait set_run walletTransport_demo or_else_def demo_fields)
qed

theorem panel_swap_sends_fresh_quote_witness:
  "\<exists>t p. demo_swap demo [] = (Inr ''0xh'', t) \<and> quoteIsFresh demo_quote ''0xa'' ''0xp'' 5042002 (c_now demo p)"
proof -
  obtain t where run: "demo_swap demo [] = (Inr ''0xh'', t)" using demo_swap_returns by blast
  from panel_swap_sends_fresh_quote[OF run] run show ?thesis
    by (auto simp: or_else_def demo_fields)
qed

theorem panel_swap_requests_prefix_witness:
  "\<exists>t n. demo_swap demo [] = (Inr ''0xh'', t)
     \<and> writes t = take n (swap_requests demo_encode demo_pool ''0xa'' ''0xt'' demo_quote Buy short_state)"
proof -
  obtain t where run: "demo_swap demo [] = (Inr ''0xh'', t)" using demo_swap_returns by blast
  from panel_swap_requests_prefix[OF run] run show ?thesis by simp
qed

text \<open>The node of the next property answers everything but the allowance after the approval.\<close>

definition failing :: client where
  "failing = demo\<lparr>c_readInt := \<lambda>tr a f args. Inl (Err ''boom'')\<rparr>"

text \<open>The panel's error text can be wrong: when the allowance cannot be read again after the approval, the
  user is told that no wallet request was made although the approval had been sent and confirmed.\<close>

theorem error_text_denies_sent_approval:
  "\<exists>e t. demo_swap failing [] = (Inl e, t)
     \<and> swapErrorMessage e = ''Arc Testnet RPC could not refresh token allowance. Check the network connection and try again. No wallet request was made.''
     \<and> writes t = [transaction_spec ''0xa'' (approve_transaction demo_encode ARC_CANONICAL_USDC ''0xr'' 40)]"
proof -
  have sel: "c_env failing = c_env demo" "c_chain failing = c_chain demo" "c_walletAccount failing = c_walletAccount demo"
    "c_walletChainId failing = c_walletChainId demo" "c_walletAddresses failing = c_walletAddresses demo"
    "c_getAddress failing = c_getAddress demo" "c_write failing = c_write demo" by (simp_all add: failing_def)
  have same: "gate failing tr = gate demo tr" "walletTransport failing ''0xa'' x tr = walletTransport demo ''0xa'' x tr" for tr x
    unfolding gate_def walletTransport_def signedWrite_def assertActiveWalletClient_def equalAddresses_def
      writeContract_def sel by (rule refl)+
  have now: "c_now failing = (\<lambda>tr. 1000000)"
    and wait: "c_waitReceipt failing = (\<lambda>tr h. (None, Inr demo_receipt))" by (simp_all add: failing_def demo_def)
  have fields: "c_readInt failing = (\<lambda>tr a f args. Inl (Err ''boom''))"
    "c_timerFired failing = (\<lambda>tr. False)" by (simp_all add: failing_def demo_def)
  have ms: "positive_finite graduated_rpc_timeout" by (simp add: graduated_rpc_timeout_def)
  have approve: "approveExactly failing demo_encode token ''0xr'' 40 ''0xa'' tr
      = approveExactly demo demo_encode token ''0xr'' 40 ''0xa'' tr" for token tr
    unfolding demo_approve
    by (simp add: approveExactly_def approvalCall_def throw_if_def io_bind_def io_result_def io_throw_if_def set_run same
        walletTransport_demo waitForTransactionReceipt_def io_call_def wait demo_receipt_def approve_transaction_def)
  have read: "waitForGraduatedAllowance failing
      (io_bind (setStatus ''refreshing_state'') (\<lambda>_. readGraduatedAllowance failing ''0xt'' ''0xa'' ''0xr'' Buy graduated_rpc_timeout))
      40 graduated_allowance_poll_delays graduated_rpc_timeout tr
    = (Inl (rpc_error ''boom''), tr @ [EvCallback ''setStatus'' [''refreshing_state''],
        EvRead ARC_CANONICAL_USDC ''allowance'' [AText ''0xa'', AText ''0xr'']])" for tr
    by (simp add: graduated_allowance_poll_delays_def readGraduatedAllowance_def input_token_def rpc_error_def
        withGraduatedRpcTimeout_def withAbortableTimeout_def io_defs setStatus_def readInt_def fields ms)
  have token: "input_token ''0xt'' Buy = ARC_CANONICAL_USDC" by (simp add: input_token_def)
  show ?thesis
    by (simp add: panel_swap_def orchestrateGraduatedSwap_def Let_def io_bind_def io_throw_if_def io_result_def
        io_return_def demo_context_holds[OF now] same approve demo_approve read or_else_def demo_fields token
        swapErrorMessage_def rpc_error_def)
qed

text \<open>A configured environment and a node whose pool is in order.\<close>

definition pool_env :: process_env where
  "pool_env name =
     (if name = ''NEXT_PUBLIC_ARC_TESTNET_UNISWAP_V3_QUOTER_V2'' then Some ''0x1111111111111111111111111111111111111111''
      else if name = ''NEXT_PUBLIC_ARC_TESTNET_UNISWAP_V3_SWAP_ROUTER'' then Some ''0x2222222222222222222222222222222222222222''
      else if name = ''NEXT_PUBLIC_ARC_TESTNET_UNISWAP_V3_FACTORY'' then Some ARC_TESTNET_V3_FACTORY
      else if name = ''NEXT_PUBLIC_ARC_TESTNET_CANONICAL_USDC'' then Some ARC_CANONICAL_USDC else None)"

definition pool_config :: uniswap_config where
  "pool_config = \<lparr>uc_quoter = ''0x1111111111111111111111111111111111111111'',
     uc_router = ''0x2222222222222222222222222222222222222222'', uc_factory = ARC_TESTNET_V3_FACTORY\<rparr>"

definition pool_client :: client where
  "pool_client = demo\<lparr>c_env := pool_env,
     c_readText := (\<lambda>tr a f args. Inr (if f = ''token0'' then ARC_CANONICAL_USDC else if f = ''token1'' then ''0xt''
        else if f = ''factory'' then ARC_TESTNET_V3_FACTORY else ''0xw'')),
     c_readInt := (\<lambda>tr a f args. Inr 10000)\<rparr>"

lemma pool_configured: "configuredUniswapV3 Inr pool_env = Inr (Some pool_config)"
  by code_simp

lemma pool_links_checked:
  "checkPoolLinks Inr pool_config ''0xp'' ''0xt''
     \<lparr>pl_token0 = ARC_CANONICAL_USDC, pl_token1 = ''0xt'', pl_fee = 10000, pl_factory = ARC_TESTNET_V3_FACTORY,
      pl_quoterFactory = ARC_TESTNET_V3_FACTORY, pl_quoterWeth = ''0xw'', pl_routerFactory = ARC_TESTNET_V3_FACTORY,
      pl_routerWeth = ''0xw''\<rparr>
   = Inr \<lparr>uc_quoter = uc_quoter pool_config, uc_router = uc_router pool_config, uc_factory = uc_factory pool_config,
         vp_pool = ''0xp'', vp_token = ''0xt'', vp_token0 = ARC_CANONICAL_USDC, vp_token1 = ''0xt''\<rparr>"
  by code_simp

lemma pool_validates: "\<exists>v t. validateCanonicalPool pool_client ''0xp'' ''0xt'' [] = (Inr v, t) \<and> vp_token v = ''0xt''"
proof -
  have fields: "c_env pool_client = pool_env" "c_getAddress pool_client = Inr"
    "c_code pool_client = (\<lambda>tr a. Inr (Some ''0x60''))" "c_readInt pool_client = (\<lambda>tr a f args. Inr 10000)"
    "c_readText pool_client = (\<lambda>tr a f args. Inr (if f = ''token0'' then ARC_CANONICAL_USDC
        else if f = ''token1'' then ''0xt'' else if f = ''factory'' then ARC_TESTNET_V3_FACTORY else ''0xw''))"
    by (simp_all add: pool_client_def demo_def)
  have code: "no_code (Some ''0x60'') = False" by code_simp
  have "requireCodes pool_client ''0xp'' pool_config tr = (Inr (), tr @ [EvCode ''0xp'', EvCode (uc_quoter pool_config),
      EvCode (uc_router pool_config), EvCode (uc_factory pool_config), EvCode ARC_CANONICAL_USDC])" for tr
    by (simp add: requireCodes_def Let_def io_defs request_defs fields require_code_def code)
  note codes = this
  have "\<exists>t. readPoolLinks pool_client ''0xp'' pool_config tr = (Inr \<lparr>pl_token0 = ARC_CANONICAL_USDC,
      pl_token1 = ''0xt'', pl_fee = 10000, pl_factory = ARC_TESTNET_V3_FACTORY,
      pl_quoterFactory = ARC_TESTNET_V3_FACTORY, pl_quoterWeth = ''0xw'', pl_routerFactory = ARC_TESTNET_V3_FACTORY,
      pl_routerWeth = ''0xw''\<rparr>, t)" for tr
    by (simp add: readPoolLinks_def io_defs request_defs fields)
  then obtain f where links: "readPoolLinks pool_client ''0xp'' pool_config tr = (Inr \<lparr>pl_token0 = ARC_CANONICAL_USDC,
      pl_token1 = ''0xt'', pl_fee = 10000, pl_factory = ARC_TESTNET_V3_FACTORY,
      pl_quoterFactory = ARC_TESTNET_V3_FACTORY, pl_quoterWeth = ''0xw'', pl_routerFactory = ARC_TESTNET_V3_FACTORY,
      pl_routerWeth = ''0xw''\<rparr>, f tr)" for tr by metis
  show ?thesis
    by (simp add: validateCanonicalPool_def io_bind_def fields io_result_def pool_configured codes links
        pool_links_checked)
qed

theorem validateCanonicalPool_sound_witness:
  "\<exists>v t. validateCanonicalPool pool_client ''0xp'' ''0xt'' [] = (Inr v, t) \<and> writes t = [] \<and> vp_token v = ''0xt''"
proof -
  obtain v t where run: "validateCanonicalPool pool_client ''0xp'' ''0xt'' [] = (Inr v, t)" "vp_token v = ''0xt''"
    using pool_validates by blast
  have "\<not> same_address ''0xt'' ARC_CANONICAL_USDC" by code_simp
  then have "\<not> same_address (vp_token v) ARC_CANONICAL_USDC" using run(2) by simp
  from validateCanonicalPool_sound[OF run(1) this] run show ?thesis by auto
qed

text \<open>The Uniswap configuration: with none of the four variables set the feature is off; it is
  accepted only when all four are addresses, the factory and USDC are, checksummed, the ones known for
  Arc Testnet, and the four are pairwise different whatever their case; an error means that something
  was configured.\<close>

theorem configuredUniswapV3_spec:
  "case configuredUniswapV3 getAddress env of
     Inr None \<Rightarrow> list_all (\<lambda>name. trimmed_value env name = []) uniswap_variables
   | Inr (Some config) \<Rightarrow> list_all (\<lambda>name. address_pattern (trimmed_value env name)) uniswap_variables
       \<and> getAddress (trimmed_value env ''NEXT_PUBLIC_ARC_TESTNET_UNISWAP_V3_QUOTER_V2'') = Inr (uc_quoter config)
       \<and> getAddress (trimmed_value env ''NEXT_PUBLIC_ARC_TESTNET_UNISWAP_V3_SWAP_ROUTER'') = Inr (uc_router config)
       \<and> getAddress (trimmed_value env ''NEXT_PUBLIC_ARC_TESTNET_UNISWAP_V3_FACTORY'') = Inr (uc_factory config)
       \<and> getAddress ARC_TESTNET_V3_FACTORY = Inr (uc_factory config)
       \<and> (\<exists>usdc. getAddress (trimmed_value env ''NEXT_PUBLIC_ARC_TESTNET_CANONICAL_USDC'') = Inr usdc
            \<and> getAddress ARC_CANONICAL_USDC = Inr usdc
            \<and> distinct (map js_lower [uc_quoter config, uc_router config, uc_factory config, usdc]))
   | Inl e \<Rightarrow> list_ex (\<lambda>name. trimmed_value env name \<noteq> []) uniswap_variables"
proof -
  define q r f u where names:
    "q = trimmed_value env ''NEXT_PUBLIC_ARC_TESTNET_UNISWAP_V3_QUOTER_V2''"
    "r = trimmed_value env ''NEXT_PUBLIC_ARC_TESTNET_UNISWAP_V3_SWAP_ROUTER''"
    "f = trimmed_value env ''NEXT_PUBLIC_ARC_TESTNET_UNISWAP_V3_FACTORY''"
    "u = trimmed_value env ''NEXT_PUBLIC_ARC_TESTNET_CANONICAL_USDC''"
  have vars: "list_all (\<lambda>name. trimmed_value env name = []) uniswap_variables \<longleftrightarrow> q = [] \<and> r = [] \<and> f = [] \<and> u = []"
    "list_all (\<lambda>name. address_pattern (trimmed_value env name)) uniswap_variables
       \<longleftrightarrow> address_pattern q \<and> address_pattern r \<and> address_pattern f \<and> address_pattern u"
    "list_ex (\<lambda>name. trimmed_value env name \<noteq> []) uniswap_variables \<longleftrightarrow> q \<noteq> [] \<or> r \<noteq> [] \<or> f \<noteq> [] \<or> u \<noteq> []"
    by (simp_all add: uniswap_variables_def names)
  note def = configuredUniswapV3_def[of getAddress env, folded names, unfolded Let_def]
  show ?thesis
  proof (cases "list_all (\<lambda>v. v = []) [q, r, f, u]")
    case True
    then show ?thesis unfolding def vars by simp
  next
    case False
    then have some: "q \<noteq> [] \<or> r \<noteq> [] \<or> f \<noteq> [] \<or> u \<noteq> []" by simp
    show ?thesis
    proof (cases "configuredUniswapV3 getAddress env")
      case (Inl e)
      then show ?thesis using some unfolding vars by simp
    next
      case (Inr found)
      note run = Inr[unfolded def if_not_P[OF False] try_bind_Inr_iff throw_if_Inr_iff]
      obtain quoter router factory usdc where steps:
          "\<not> list_ex (\<lambda>v. v = [] \<or> \<not> address_pattern v) [q, r, f, u]"
          "getAddress q = Inr quoter" "getAddress r = Inr router" "getAddress f = Inr factory" "getAddress u = Inr usdc"
          "getAddress ARC_CANONICAL_USDC = Inr usdc" "getAddress ARC_TESTNET_V3_FACTORY = Inr factory"
          "distinct (map js_lower [quoter, router, factory, usdc])"
          "found = Some \<lparr>uc_quoter = quoter, uc_router = router, uc_factory = factory\<rparr>"
        using run[unfolded not_not] by (elim exE conjE) blast
      show ?thesis using steps Inr unfolding names[symmetric] vars by simp
    qed
  qed
qed

lemma quoteGraduatedSwap_Inr:
  assumes "quoteGraduatedSwap c pool side amountIn bps wallet tr = (Inr q, t)"
  shows "0 < amountIn \<and> writes t = writes tr
    \<and> (\<exists>now. gq_createdAt q = now \<and> (\<exists>t0. c_now c t0 = now \<and> t = t0 @ [EvNow])
        \<and> minimumOutput (gq_amountOut q) bps = Inr (gq_minimumOut q) \<and> gq_deadline q = transactionDeadline now
        \<and> gq_side q = side \<and> gq_amountIn q = amountIn \<and> gq_slippageBps q = bps
        \<and> gq_pool q = vp_pool pool \<and> gq_wallet q = wallet \<and> gq_chainId q = selectedCooketChainId (c_chain c)
        \<and> c_readInt c tr (uc_quoter pool) ''quoteExactInputSingle''
            [AText (input_token (vp_token pool) side),
             AText (if side = Buy then vp_token pool else ARC_CANONICAL_USDC), AInt amountIn, AInt 10000, AInt 0]
            = Inr (gq_amountOut q))"
  using assms
  by (auto simp: quoteGraduatedSwap_def Let_def io_inv readInt_def dateNow_def input_token_def CANONICAL_POOL_FEE_def)

text \<open>A quote of the graduated swap is the quoter's answer for the canonical pool, its minimum is
  strictly below the quoted output and at least 80 percent of it, and it is fresh for the wallet, the
  pool and the selected chain, whatever case their addresses are written in, exactly in the 60 seconds
  after it was made: the deadline inside it never ends that window early.\<close>

theorem quoteGraduatedSwap_fresh:
  assumes "quoteGraduatedSwap c pool side amountIn bps wallet tr = (Inr q, t)"
  shows "c_readInt c tr (uc_quoter pool) ''quoteExactInputSingle''
            [AText (input_token (vp_token pool) side),
             AText (if side = Buy then vp_token pool else ARC_CANONICAL_USDC), AInt amountIn, AInt 10000, AInt 0]
          = Inr (gq_amountOut q)
    \<and> gq_minimumOut q < gq_amountOut q \<and> 8 * gq_amountOut q div 10 \<le> gq_minimumOut q
    \<and> (quoteIsFresh q w p chain now \<longleftrightarrow> same_address wallet w \<and> same_address (vp_pool pool) p
         \<and> selectedCooketChainId (c_chain c) = chain \<and> now < gq_createdAt q + 60000)
    \<and> writes t = writes tr"
proof -
  note q = quoteGraduatedSwap_Inr[OF assms]
  have least: "minimumOutput (gq_amountOut q) bps = Inr (gq_minimumOut q)" using q by blast
  have "gq_minimumOut q < gq_amountOut q \<and> 8 * gq_amountOut q div 10 \<le> gq_minimumOut q"
    by (rule minimumOutput_bounds[OF least])
  moreover have "gq_deadline q = transactionDeadline (gq_createdAt q)" using q by blast
  ultimately show ?thesis using q quoteIsFresh_window[of q w p chain now] by (auto simp: quote_ttl_ms_def)
qed

theorem quoteGraduatedSwap_fresh_witness:
  "\<exists>q t. quoteGraduatedSwap demo demo_pool Buy 40 (Fin 100) ''0xa'' [] = (Inr q, t) \<and> gq_minimumOut q < gq_amountOut q
     \<and> quoteIsFresh q ''0xA'' ''0xp'' 5042002 1059999"
proof -
  have fields: "c_readInt demo = (\<lambda>tr a f args. Inr (if f = ''allowance'' \<and> writes tr = [] then 0 else 50))"
    "c_timerFired demo = (\<lambda>tr. False)" "c_now demo = (\<lambda>tr. 1000000)"
    "selectedCooketChainId (c_chain demo) = 5042002"
    by (simp_all add: demo_def selectedCooketChainId_def sample_module_def sample_chain_def)
  have ms: "positive_finite graduated_rpc_timeout" by (simp add: graduated_rpc_timeout_def)
  have least: "minimumOutput 50 (Fin 100) = Inr 49" by code_simp
  have "\<exists>q t. quoteGraduatedSwap demo demo_pool Buy 40 (Fin 100) ''0xa'' [] = (Inr q, t) \<and> gq_createdAt q = 1000000"
    by (simp add: quoteGraduatedSwap_def Let_def io_defs request_defs withGraduatedRpcTimeout_def
        withAbortableTimeout_def fields ms least)
  then obtain q t where run: "quoteGraduatedSwap demo demo_pool Buy 40 (Fin 100) ''0xa'' [] = (Inr q, t)"
      "gq_createdAt q = 1000000" by blast
  have "same_address ''0xa'' ''0xA''" by code_simp
  then show ?thesis using quoteGraduatedSwap_fresh[OF run(1), of "''0xA''" "''0xp''" 5042002 1059999] run fields
    by (auto simp: demo_fields same_address_def)
qed

end
