(* ===== verification/TradePanel.thy ===== *)
theory TradePanel
  imports TransactionModal TradeConfirmation CreateInput LockedMachine
begin

text \<open>
  The buy and sell panel of a token (\<^verbatim>\<open>components/token-trade-panel.tsx\<close>): its React state and
  refs as one record, each handler and effect as a function on it, and the interleaving of handlers,
  progress reports, answers and new props as a list of events. What a running trade captured when it
  started (its closure) is a job.
\<close>

subsection \<open>Data\<close>

datatype trade_status =
    TIdle | TPreparing | TAwaitingApproval | TApprovalConfirming | TApprovalConfirmed | TPreparingSell
  | TAwaitingSellSignature | TAwaitingWallet | TSubmitted | TConfirming | TConfirmationUnknown
  | TConfirmed | TReverted | TReplaced | TRejected | TExpired | TFailed

datatype trade_quote = BuyQuote budget_quote | SellQuote protected_sell_quote

fun quote_side :: "trade_quote \<Rightarrow> trade_side" where
  "quote_side (BuyQuote q) = Buy"
| "quote_side (SellQuote q) = Sell"

fun quote_deadline :: "trade_quote \<Rightarrow> int" where
  "quote_deadline (BuyQuote q) = bud_deadline q"
| "quote_deadline (SellQuote q) = psq_deadline q"

record quote_record =
  qr_quote :: trade_quote
  qr_createdAt :: int
  qr_identity :: string
  qr_fingerprint :: string
  qr_chain :: "int option"

record panel_props =
  pp_connected :: bool
  pp_ready :: bool
  pp_message :: "string option"
  pp_chain :: "int option"
  pp_wallet :: "string option"
  pp_token :: string
  pp_symbol :: string
  pp_state :: "curve_trade_state option"
  pp_statePending :: bool
  pp_stateError :: "string option"

definition QUOTE_TTL_MS :: int where
  "QUOTE_TTL_MS = 60000"

definition blockingStatuses :: "trade_status list" where
  "blockingStatuses = [TPreparing, TAwaitingApproval, TApprovalConfirming, TApprovalConfirmed, TPreparingSell,
     TAwaitingSellSignature, TAwaitingWallet, TSubmitted, TConfirming, TConfirmationUnknown]"

fun tradeModalPhase :: "trade_status \<Rightarrow> trade_side \<Rightarrow> modal_phase option" where
  "tradeModalPhase TIdle side = None"
| "tradeModalPhase TPreparing side = Some MPreparing"
| "tradeModalPhase TAwaitingApproval side = Some MAwaitingApproval"
| "tradeModalPhase TApprovalConfirming side = Some MApprovalSubmitted"
| "tradeModalPhase TApprovalConfirmed side = Some MApprovalConfirmed"
| "tradeModalPhase TPreparingSell side = Some MPreparingSell"
| "tradeModalPhase TAwaitingSellSignature side = Some MAwaitingSellSignature"
| "tradeModalPhase TAwaitingWallet side = Some MAwaitingWallet"
| "tradeModalPhase TSubmitted side = Some (if side = Sell then MSellSubmitted else MSubmitted)"
| "tradeModalPhase TConfirming side = Some (if side = Sell then MSellConfirming else MConfirming)"
| "tradeModalPhase TConfirmationUnknown side = Some MConfirmationUnknown"
| "tradeModalPhase TConfirmed side = Some MConfirmed"
| "tradeModalPhase TReverted side = Some MFailed"
| "tradeModalPhase TReplaced side = Some MFailed"
| "tradeModalPhase TRejected side = Some MRejected"
| "tradeModalPhase TExpired side = Some MExpired"
| "tradeModalPhase TFailed side = Some MFailed"

subsection \<open>Texts and amounts\<close>

text \<open>\<^verbatim>\<open>wallet?.toLowerCase() ?? 'no-wallet'\<close> before the token.\<close>

definition tradeIdentity :: "string \<Rightarrow> string option \<Rightarrow> string" where
  "tradeIdentity token wallet =
     (case wallet of None \<Rightarrow> ''no-wallet'' | Some w \<Rightarrow> js_lower w) @ '':'' @ js_lower token"

definition join_colon :: "string list \<Rightarrow> string" where
  "join_colon parts = (case parts of [] \<Rightarrow> [] | p # ps \<Rightarrow> p @ concat (map (\<lambda>s. CHR '':'' # s) ps))"

definition tradeStateFingerprint :: "curve_trade_state option \<Rightarrow> trade_side \<Rightarrow> string" where
  "tradeStateFingerprint state side =
     (case state of
        None \<Rightarrow> ''unavailable''
      | Some s \<Rightarrow>
          join_colon (map int_text [ts_curveSupply s, ts_soldSupply s, ts_reserveBalance s, ts_graduationThreshold s,
            ts_lifecycle s, (if side = Buy then ts_nativeBalance s else ts_tokenBalance s), ts_decimals s]))"

text \<open>\<^verbatim>\<open>Number(deadline) * 1000\<close>; below 2^53 the product of safe size is exact.\<close>

definition quoteExpiresAt :: "quote_record \<Rightarrow> int" where
  "quoteExpiresAt r =
     (let deadline = (case double_of (of_int (quote_deadline (qr_quote r))) of Fin q \<Rightarrow> double_of (q * 1000) | n \<Rightarrow> n) in
      min (qr_createdAt r + QUOTE_TTL_MS)
        (if is_safe_integer deadline then int_of_num deadline else qr_createdAt r + QUOTE_TTL_MS))"

text \<open>\<^verbatim>\<open>parseEther\<close>, \<^verbatim>\<open>parseUnits\<close> and \<^verbatim>\<open>formatTokenSymbol\<close> are parameters here.\<close>

record panel_library =
  pl_parseUnits :: "string \<Rightarrow> int \<Rightarrow> int result"
  pl_formatSymbol :: "string \<Rightarrow> string"

definition parsePositiveAmount :: "panel_library \<Rightarrow> string \<Rightarrow> int \<Rightarrow> string \<Rightarrow> int result" where
  "parsePositiveAmount L v decimals symbol =
     (let displaySymbol = (if symbol = ''native USDC'' then symbol else pl_formatSymbol L symbol) in
      try_bind (throw_if (\<not> decimal_pattern (js_trim v)) (''Enter a valid '' @ displaySymbol @ '' amount.'')) (\<lambda>_.
      try_bind (pl_parseUnits L (js_trim v) decimals) (\<lambda>parsed.
      try_bind (throw_if (parsed \<le> 0) (''Enter a '' @ displaySymbol @ '' amount greater than zero.'')) (\<lambda>_.
        Inr parsed))))"

text \<open>\<^verbatim>\<open>/^\d+(\.\d{1,2})?$/\<close>.\<close>

definition slippage_pattern :: "string \<Rightarrow> bool" where
  "slippage_pattern s =
     (case split_dot s of
        (w, None) \<Rightarrow> all_digits w
      | (w, Some f) \<Rightarrow> all_digits w \<and> all_digits f \<and> length f \<le> 2)"

text \<open>\<^verbatim>\<open>Math.round\<close>: the nearest integer, halves up.\<close>

fun math_round :: "jsnum \<Rightarrow> jsnum" where
  "math_round (Fin q) = Fin (of_int \<lfloor>q + 1 / 2\<rfloor>)"
| "math_round n = n"

fun num_times_100 :: "jsnum \<Rightarrow> jsnum" where
  "num_times_100 (Fin q) = double_of (q * 100)"
| "num_times_100 n = n"

definition parseSlippageBps :: "string \<Rightarrow> int result" where
  "parseSlippageBps v =
     (if \<not> slippage_pattern (js_trim v) then Inl (Err ''Enter slippage with at most two decimal places.'')
      else let bps = math_round (num_times_100 (number_of_decimal (js_trim v))) in
        if \<not> is_integer_num bps \<or> int_of_num bps < 0 \<or> int_of_num bps > 5000
        then Inl (Err ''Slippage must be between 0% and 50%.'')
        else Inr (int_of_num bps))"

definition quoteInputIsValid :: "panel_library \<Rightarrow> string \<Rightarrow> int \<Rightarrow> string \<Rightarrow> string \<Rightarrow> bool" where
  "quoteInputIsValid L v decimals symbol slippage =
     (case parsePositiveAmount L v decimals symbol of
        Inl e \<Rightarrow> False
      | Inr amount \<Rightarrow> (case parseSlippageBps slippage of Inl e \<Rightarrow> False | Inr bps \<Rightarrow> True))"

definition safeMessage :: "js_error \<Rightarrow> string" where
  "safeMessage reason =
     (let message = (case reason of JsError n m \<Rightarrow> m | JsOther s \<Rightarrow> ''The trade could not be completed.'') in
      if matches_any_ci [''private key'', ''seed phrase'', ''authorization''] message
      then ''The wallet operation failed safely.''
      else if matches_any_ci rejection_pattern message
      then ''The wallet request was rejected. No transaction hash was submitted.''
      else message)"

definition isDefinitivePreSubmissionFailure :: "js_error \<Rightarrow> bool" where
  "isDefinitivePreSubmissionFailure reason =
     matches_any_ci [''reject'', ''denied'', ''cancelled'', ''revert'', ''simulation'', ''insufficient'', ''quote expired'']
       (error_text reason)"

text \<open>\<^verbatim>\<open>amount * BigInt(price) / 10n ** BigInt(decimals)\<close>, with \<^verbatim>\<open>null\<close> for what throws.\<close>

definition tokenValueWei :: "int \<Rightarrow> int \<Rightarrow> string \<Rightarrow> int option" where
  "tokenValueWei amount decimals priceWei =
     (case js_bigint priceWei of
        None \<Rightarrow> None
      | Some price \<Rightarrow> if decimals < 0 then None else Some (big_div (amount * price) (10 ^ nat decimals)))"

subsection \<open>The panel\<close>

record panel =
  p_props :: panel_props
  p_side :: trade_side
  p_amount :: string
  p_slippage :: string
  p_quote :: "quote_record option"
  p_stale :: bool
  p_loading :: bool
  p_status :: trade_status
  p_hash :: "string option"
  p_error :: string
  p_modal :: modal_state
  p_recovery :: "trade_recovery option"
  p_operation :: bool
  p_interaction :: bool
  p_approvalHash :: "string option"
  p_submittedHash :: "string option"
  p_submittedAt :: "jsnum option"
  p_generation :: nat
  p_request :: nat
  p_latest :: "string \<times> int option \<times> string"
  p_previous :: string
  p_storage :: storage
  p_confirmed :: nat

definition p_identity :: "panel \<Rightarrow> string" where
  "p_identity p = tradeIdentity (pp_token (p_props p)) (pp_wallet (p_props p))"

definition p_fingerprint :: "panel \<Rightarrow> string" where
  "p_fingerprint p = tradeStateFingerprint (pp_state (p_props p)) (p_side p)"

definition locked :: "panel \<Rightarrow> bool" where
  "locked p \<longleftrightarrow> p_status p \<in> set blockingStatuses"

definition sideAllowed :: "panel \<Rightarrow> bool" where
  "sideAllowed p =
     (case pp_state (p_props p) of
        None \<Rightarrow> False
      | Some s \<Rightarrow> ts_lifecycle s = 0 \<or> p_side p = Sell \<and> ts_lifecycle s = 1)"

definition ellipsis :: string where
  "ellipsis = [char_of (226 :: nat), char_of (128 :: nat), char_of (166 :: nat)]"

text \<open>The message of \<^verbatim>\<open>guard\<close>; the name of the chain is a constant of the client.\<close>

definition panel_guard :: "chain_module \<Rightarrow> panel_props \<Rightarrow> string option" where
  "panel_guard m pr =
     (let preparing = (case truthy (pp_message pr) of Some t \<Rightarrow> t | None \<Rightarrow> ''Preparing the active wallet'' @ ellipsis) in
      if \<not> pp_connected pr then Some ''Connect an external wallet to trade.''
      else if truthy (pp_wallet pr) = None then Some preparing
      else if pp_chain pr \<noteq> Some (selectedCooketChainId m)
      then Some (''Wrong network. Use '' @ selectedCooketChainName m @ '' ('' @ int_text (selectedCooketChainId m) @ '').'')
      else if \<not> pp_ready pr then Some preparing
      else None)"

definition pending_message :: string where
  "pending_message = ''A submitted transaction still needs a definitive receipt before another trade is allowed.''"

text \<open>The pending trade of the wallet and token shown; no wallet, no trade.\<close>

definition read_pending :: "panel_props \<Rightarrow> storage \<Rightarrow> pending_trade option \<times> storage" where
  "read_pending pr s =
     (case truthy (pp_wallet pr) of None \<Rightarrow> (None, s) | Some w \<Rightarrow> readPendingTrade (pp_token pr) w s)"

text \<open>The first render: \<^verbatim>\<open>useState\<close>, \<^verbatim>\<open>useRef\<close> and \<^verbatim>\<open>useReducer\<close> with their initial values.\<close>

definition mount_panel :: "string \<Rightarrow> panel_props \<Rightarrow> storage \<Rightarrow> panel" where
  "mount_panel defaultSlippage pr s =
     (case read_pending pr s of
        (initialRecovery, s') \<Rightarrow>
          let side = (case initialRecovery of None \<Rightarrow> Buy | Some t \<Rightarrow> pt_side t);
              identity = tradeIdentity (pp_token pr) (pp_wallet pr) in
          \<lparr>p_props = pr, p_side = side, p_amount = '''', p_slippage = defaultSlippage, p_quote = None, p_stale = False,
           p_loading = False, p_status = (if initialRecovery = None then TIdle else TConfirmationUnknown),
           p_hash = Option.bind initialRecovery pt_hash,
           p_error = (if initialRecovery = None then '''' else pending_message),
           p_modal = (if initialRecovery = None then closedTransactionModal
             else \<lparr>md_open = True, md_phase = MConfirmationUnknown\<rparr>),
           p_recovery = Option.bind initialRecovery pt_recovery, p_operation = False, p_interaction = False,
           p_approvalHash = None, p_submittedHash = Option.bind initialRecovery pt_hash,
           p_submittedAt = map_option pt_submittedAt initialRecovery, p_generation = 0, p_request = 0,
           p_latest = (identity, pp_chain pr, tradeStateFingerprint (pp_state pr) side), p_previous = identity,
           p_storage = s', p_confirmed = 0\<rparr>)"

text \<open>The effect of a changed identity: every ref and state of the old wallet and token is dropped and
  the pending trade of the new one restored.\<close>

definition restore_identity :: "panel \<Rightarrow> panel" where
  "restore_identity p =
     (if p_previous p = p_identity p then p
      else case read_pending (p_props p) (p_storage p) of
        (pending, s') \<Rightarrow>
          p\<lparr>p_previous := p_identity p, p_generation := p_generation p + 1, p_request := p_request p + 1,
            p_operation := False, p_interaction := False, p_approvalHash := None,
            p_recovery := Option.bind pending pt_recovery, p_submittedHash := Option.bind pending pt_hash,
            p_submittedAt := map_option pt_submittedAt pending,
            p_side := (case pending of None \<Rightarrow> Buy | Some t \<Rightarrow> pt_side t), p_quote := None, p_stale := False,
            p_loading := False, p_status := (if pending = None then TIdle else TConfirmationUnknown),
            p_hash := Option.bind pending pt_hash, p_error := (if pending = None then '''' else pending_message),
            p_storage := s'\<rparr>)"

definition remember_latest :: "panel \<Rightarrow> panel" where
  "remember_latest p = p\<lparr>p_latest := (p_identity p, pp_chain (p_props p), p_fingerprint p)\<rparr>"

text \<open>The modal follows the status when the status or the side has changed.\<close>

definition follow_status :: "panel \<Rightarrow> panel \<Rightarrow> panel" where
  "follow_status before p =
     (if p_status before = p_status p \<and> p_side before = p_side p then p
      else case tradeModalPhase (p_status p) (p_side p) of
          None \<Rightarrow> p
        | Some phase \<Rightarrow> p\<lparr>p_modal := transactionModalReducer (p_modal p) (ProgressAction phase)\<rparr>)"

text \<open>What React does after a handler: it renders, runs the effects whose inputs changed, and renders
  again for the state these set.\<close>

definition committed :: "panel \<Rightarrow> panel \<Rightarrow> panel" where
  "committed before p =
     (let q = restore_identity (follow_status before p) in remember_latest (follow_status p q))"

subsection \<open>Persistence and resolution\<close>

definition submitted_at :: "panel \<Rightarrow> int \<Rightarrow> jsnum" where
  "submitted_at p now = (case p_submittedAt p of None \<Rightarrow> num_of now | Some t \<Rightarrow> t)"

definition persist_trade ::
    "trade_side \<Rightarrow> string \<Rightarrow> pending_status \<Rightarrow> string \<Rightarrow> string \<Rightarrow> trade_recovery option \<Rightarrow> int \<Rightarrow> panel \<Rightarrow> panel" where
  "persist_trade side hash status wallet token nextRecovery now p =
     p\<lparr>p_submittedAt := Some (submitted_at p now),
       p_storage := persistPendingTrade
         \<lparr>pt_walletAddress = wallet, pt_tokenAddress = token, pt_side = side, pt_hash = Some hash, pt_status = status,
          pt_submittedAt = submitted_at p now,
          pt_recovery = (case nextRecovery of None \<Rightarrow> p_recovery p | Some r \<Rightarrow> Some r)\<rparr> (p_storage p)\<rparr>"

definition persistHashlessUnknown :: "trade_side \<Rightarrow> string \<Rightarrow> string \<Rightarrow> int \<Rightarrow> panel \<Rightarrow> panel" where
  "persistHashlessUnknown side wallet token now p =
     p\<lparr>p_submittedAt := Some (submitted_at p now),
       p_storage := persistPendingTrade
         \<lparr>pt_walletAddress = wallet, pt_tokenAddress = token, pt_side = side, pt_hash = None,
          pt_status = PConfirmationUnknown, pt_submittedAt = submitted_at p now, pt_recovery = None\<rparr> (p_storage p)\<rparr>"

fun reason_text :: "replacement_reason option \<Rightarrow> string" where
  "reason_text (Some RCancelled) = ''cancelled''"
| "reason_text (Some RReplaced) = ''replaced''"
| "reason_text (Some RRepriced) = ''repriced''"
| "reason_text None = ''replaced''"

definition applyResolution ::
    "chain_module \<Rightarrow> trade_confirmation \<Rightarrow> trade_side \<Rightarrow> string \<Rightarrow> string \<Rightarrow> string \<Rightarrow> int \<Rightarrow> panel \<Rightarrow> panel" where
  "applyResolution m r side wallet token operationIdentity now p =
     (if fst (p_latest p) \<noteq> operationIdentity then p
      else if tc_status r = Pending
      then (persist_trade side (tc_hash r) PConfirmationUnknown wallet token (tc_recovery r) now
             (p\<lparr>p_hash := Some (tc_hash r), p_submittedHash := Some (tc_hash r), p_recovery := tc_recovery r\<rparr>))
             \<lparr>p_status := TConfirmationUnknown,
              p_error := ''No final receipt is available yet. New submissions remain blocked.''\<rparr>
      else
        let q = p\<lparr>p_hash := Some (tc_hash r), p_storage := clearPendingTrade token wallet (p_storage p),
                  p_submittedHash := None, p_submittedAt := None, p_recovery := None, p_quote := None, p_stale := False\<rparr> in
        if tc_status r = Confirmed
        then q\<lparr>p_status := TConfirmed, p_error := '''', p_confirmed := p_confirmed p + 1\<rparr>
        else if tc_status r = Reverted
        then q\<lparr>p_status := TReverted,
               p_error := ''The transaction reverted on '' @ selectedCooketChainName m @ ''. No trade was applied.''\<rparr>
        else q\<lparr>p_status := TReplaced,
               p_error := ''The original transaction was '' @ reason_text (tc_reason r)
                 @ ''. Review the replacement before trading again.''\<rparr>)"

subsection \<open>Quotes\<close>

record quote_job =
  qj_id :: nat
  qj_side :: trade_side
  qj_amount :: int
  qj_bps :: int
  qj_identity :: string
  qj_fingerprint :: string
  qj_chain :: "int option"

definition p_lifecycle :: "panel \<Rightarrow> int option" where
  "p_lifecycle p = map_option ts_lifecycle (pp_state (p_props p))"

definition p_decimals :: "panel \<Rightarrow> int" where
  "p_decimals p = (case pp_state (p_props p) of None \<Rightarrow> 18 | Some s \<Rightarrow> ts_decimals s)"

text \<open>\<^verbatim>\<open>getQuote\<close> up to its first \<^verbatim>\<open>await\<close>: the request it makes, when it makes one.\<close>

definition getQuote :: "panel_library \<Rightarrow> panel \<Rightarrow> panel \<times> quote_job option" where
  "getQuote L p =
     (let p1 = p\<lparr>p_request := p_request p + 1, p_error := '''', p_quote := None, p_stale := False\<rparr> in
      case parseSlippageBps (p_slippage p) of
        Inl e \<Rightarrow> (p1\<lparr>p_error := safeMessage e\<rparr>, None)
      | Inr bps \<Rightarrow>
          if \<not> sideAllowed p
          then (p1\<lparr>p_error := (if p_side p = Buy \<and> p_lifecycle p = Some 1
                  then ''New buys are paused while graduation is pending. Selling remains available.''
                  else ''This trade is unavailable for the current curve lifecycle.'')\<rparr>, None)
          else
            (case (if p_side p = Buy then parsePositiveAmount L (p_amount p) 18 ''native USDC''
                   else parsePositiveAmount L (p_amount p) (p_decimals p) (pp_symbol (p_props p))) of
               Inl e \<Rightarrow> (p1\<lparr>p_status := TFailed, p_error := safeMessage e, p_loading := False\<rparr>, None)
             | Inr amount \<Rightarrow>
                 (p1\<lparr>p_status := TIdle, p_loading := True\<rparr>,
                  Some \<lparr>qj_id = p_request p + 1, qj_side = p_side p, qj_amount = amount, qj_bps = bps,
                    qj_identity = p_identity p, qj_fingerprint = p_fingerprint p, qj_chain = pp_chain (p_props p)\<rparr>)))"

text \<open>The rest of \<^verbatim>\<open>getQuote\<close>, when the quote or the failure of the request \<^verbatim>\<open>j\<close> arrives.\<close>

definition quoteAnswered :: "chain_module \<Rightarrow> quote_job \<Rightarrow> trade_quote result \<Rightarrow> int \<Rightarrow> panel \<Rightarrow> panel" where
  "quoteAnswered m j answer now p =
     (if p_request p \<noteq> qj_id j then p
      else
        (case answer of
           Inl e \<Rightarrow> p\<lparr>p_status := TFailed, p_error := safeMessage e\<rparr>
         | Inr q \<Rightarrow>
             if fst (p_latest p) \<noteq> qj_identity j \<or> snd (snd (p_latest p)) \<noteq> qj_fingerprint j
                \<or> fst (snd (p_latest p)) \<noteq> qj_chain j \<or> qj_chain j \<noteq> Some (selectedCooketChainId m)
             then p
             else p\<lparr>p_quote := Some \<lparr>qr_quote = q, qr_createdAt = now, qr_identity = qj_identity j,
                      qr_fingerprint = qj_fingerprint j, qr_chain = qj_chain j\<rparr>\<rparr>)
        \<lparr>p_loading := False\<rparr>)"

definition invalidateQuote :: "panel \<Rightarrow> panel" where
  "invalidateQuote p = p\<lparr>p_request := p_request p + 1, p_quote := None, p_stale := False, p_loading := False,
     p_error := '''', p_status := TIdle\<rparr>"

definition changeAmount :: "string \<Rightarrow> panel \<Rightarrow> panel" where
  "changeAmount v p = invalidateQuote (p\<lparr>p_amount := v\<rparr>)"

definition changeSlippage :: "string \<Rightarrow> panel \<Rightarrow> panel" where
  "changeSlippage v p = invalidateQuote (p\<lparr>p_slippage := v\<rparr>)"

definition changeSide :: "trade_side \<Rightarrow> panel \<Rightarrow> panel" where
  "changeSide v p = (if locked p then p else (invalidateQuote (p\<lparr>p_side := v\<rparr>))\<lparr>p_hash := None\<rparr>)"

subsection \<open>Submission\<close>

record trade_job =
  tj_side :: trade_side
  tj_wallet :: string
  tj_token :: string
  tj_identity :: string
  tj_generation :: nat
  tj_record :: quote_record

definition submit_refusal :: "chain_module \<Rightarrow> panel_library \<Rightarrow> quote_record \<Rightarrow> panel \<Rightarrow> panel option" where
  "submit_refusal m L record p =
     (let q = qr_quote record in
      if qr_identity record \<noteq> p_identity p \<or> qr_fingerprint record \<noteq> p_fingerprint p
         \<or> qr_chain record \<noteq> pp_chain (p_props p) \<or> \<not> sideAllowed p
      then Some (p\<lparr>p_status := TFailed, p_quote := None,
             p_error := ''Wallet, token, network, or curve state changed. Request a fresh quote.''\<rparr>)
      else (case (q, pp_state (p_props p)) of
          (BuyQuote b, Some s) \<Rightarrow>
            if bud_maxReserveIn b > ts_nativeBalance s
            then Some (p\<lparr>p_status := TFailed, p_error := ''Insufficient native USDC balance for the maximum input.''\<rparr>)
            else None
        | (SellQuote b, Some s) \<Rightarrow>
            if psq_tokenAmount b > ts_tokenBalance s
            then Some (p\<lparr>p_status := TFailed,
                   p_error := ''Insufficient '' @ pl_formatSymbol L (pp_symbol (p_props p)) @ '' balance.''\<rparr>)
            else None
        | _ \<Rightarrow> None))"

text \<open>\<^verbatim>\<open>submit\<close> up to its call of \<^verbatim>\<open>props.execute\<close>; \<^verbatim>\<open>now\<close> and \<^verbatim>\<open>later\<close> are the two
  readings of the clock.\<close>

definition submit :: "chain_module \<Rightarrow> panel_library \<Rightarrow> int \<Rightarrow> int \<Rightarrow> panel \<Rightarrow> panel \<times> trade_job option" where
  "submit m L now later p =
     (if p_operation p \<or> locked p then (p, None)
      else case p_quote p of
        None \<Rightarrow> (p, None)
      | Some record \<Rightarrow>
          (let p1 = p\<lparr>p_error := ''''\<rparr>; pr = p_props p in
           if \<not> pp_connected pr \<or> \<not> pp_ready pr \<or> truthy (pp_wallet pr) = None
           then (p1\<lparr>p_status := TFailed, p_error := (case truthy (pp_message pr) of Some t \<Rightarrow> t
                   | None \<Rightarrow> ''Connect an active external wallet before trading.'')\<rparr>, None)
           else if pp_chain pr \<noteq> Some (selectedCooketChainId m)
           then (p1\<lparr>p_status := TFailed, p_error := ''Switch the connected wallet to '' @ selectedCooketChainName m
                   @ '' before trading.''\<rparr>, None)
           else
             let wallet = the (pp_wallet pr); token = pp_token pr in
             (case readPendingTrade token wallet (p_storage p) of
                (Some existing, s) \<Rightarrow>
                  (p1\<lparr>p_storage := s, p_side := pt_side existing, p_hash := pt_hash existing,
                     p_submittedHash := pt_hash existing, p_submittedAt := Some (pt_submittedAt existing),
                     p_status := TConfirmationUnknown,
                     p_error := ''Another tab or prior session has an unresolved transaction for this wallet and token. New trades remain blocked.''\<rparr>,
                   None)
              | (None, s) \<Rightarrow>
                  let p2 = p1\<lparr>p_storage := s\<rparr> in
                  if p_stale p \<or> now \<ge> quoteExpiresAt record
                  then (p2\<lparr>p_status := TExpired, p_quote := None, p_stale := True,
                          p_error := ''This quote expired. Request a fresh quote before submitting.''\<rparr>, None)
                  else (case submit_refusal m L record p2 of
                      Some refused \<Rightarrow> (refused, None)
                    | None \<Rightarrow>
                        let side = quote_side (qr_quote record) in
                        (persistHashlessUnknown side wallet token later
                           (p2\<lparr>p_operation := True, p_interaction := False, p_approvalHash := None, p_status := TPreparing\<rparr>),
                         Some \<lparr>tj_side = side, tj_wallet = wallet, tj_token = token, tj_identity = p_identity p,
                           tj_generation = p_generation p, tj_record = record\<rparr>)))))"

definition current_job :: "string \<Rightarrow> nat \<Rightarrow> panel \<Rightarrow> bool" where
  "current_job identity generation p \<longleftrightarrow> fst (p_latest p) = identity \<and> p_generation p = generation"

fun persisted_status :: "trade_status \<Rightarrow> pending_status option" where
  "persisted_status TSubmitted = Some PSubmitted"
| "persisted_status TConfirming = Some PConfirming"
| "persisted_status TConfirmationUnknown = Some PConfirmationUnknown"
| "persisted_status _ = None"

text \<open>\<^verbatim>\<open>report\<close> of a submission, in the order of its statements.\<close>

definition note_wallet :: "trade_job \<Rightarrow> trade_status \<Rightarrow> string option \<Rightarrow> panel \<Rightarrow> panel" where
  "note_wallet j status hash p =
     (let p1 = (if status = TAwaitingWallet \<or> status = TAwaitingApproval then p\<lparr>p_interaction := True\<rparr> else p);
          p2 = (if status = TApprovalConfirming \<and> truthy hash \<noteq> None then p1\<lparr>p_approvalHash := hash\<rparr> else p1);
          p3 = (if status = TPreparing \<and> truthy (p_approvalHash p2) \<noteq> None
                then (if current_job (tj_identity j) (tj_generation j) p2 then p2\<lparr>p_approvalHash := None, p_hash := None\<rparr>
                      else p2\<lparr>p_approvalHash := None\<rparr>)
                else p2) in
      if status = TAwaitingWallet \<and> truthy (p_approvalHash p3) \<noteq> None then p3\<lparr>p_approvalHash := None\<rparr> else p3)"

definition note_recovery :: "trade_recovery option \<Rightarrow> panel \<Rightarrow> panel" where
  "note_recovery recovery p = (case recovery of None \<Rightarrow> p | Some r \<Rightarrow> p\<lparr>p_recovery := Some r\<rparr>)"

definition show_status :: "string \<Rightarrow> nat \<Rightarrow> trade_status \<Rightarrow> string option \<Rightarrow> panel \<Rightarrow> panel" where
  "show_status identity generation status hash p =
     (if current_job identity generation p
      then (case truthy hash of None \<Rightarrow> p\<lparr>p_status := status\<rparr> | Some h \<Rightarrow> p\<lparr>p_status := status, p_hash := Some h\<rparr>)
      else p)"

definition reported ::
    "trade_job \<Rightarrow> trade_status \<Rightarrow> string option \<Rightarrow> trade_recovery option \<Rightarrow> int \<Rightarrow> panel \<Rightarrow> panel" where
  "reported j status hash recovery now p =
     (let p1 = note_recovery recovery (note_wallet j status hash p);
          p2 = (case (truthy hash, persisted_status status) of
                  (Some h, Some st) \<Rightarrow>
                    persist_trade (tj_side j) h st (tj_wallet j) (tj_token j) recovery now (p1\<lparr>p_submittedHash := Some h\<rparr>)
                | _ \<Rightarrow> p1) in
      show_status (tj_identity j) (tj_generation j) status hash p2)"

text \<open>\<^verbatim>\<open>assertSubmissionReady\<close>, which the trade calls again right before it signs.\<close>

definition assertSubmissionReady :: "chain_module \<Rightarrow> trade_job \<Rightarrow> int \<Rightarrow> panel \<Rightarrow> unit result" where
  "assertSubmissionReady m j now p =
     try_bind (throw_if (now \<ge> quoteExpiresAt (tj_record j))
        ''This quote expired during wallet approval. Request a fresh quote before submitting.'') (\<lambda>_.
       throw_if (fst (p_latest p) \<noteq> tj_identity j \<or> fst (snd (p_latest p)) \<noteq> Some (selectedCooketChainId m)
          \<or> snd (snd (p_latest p)) \<noteq> qr_fingerprint (tj_record j))
        ''Wallet, token, network, or curve state changed before submission. Request a fresh quote.'')"

definition failed_trade :: "trade_job \<Rightarrow> js_error \<Rightarrow> int \<Rightarrow> panel \<Rightarrow> panel" where
  "failed_trade j reason now p =
     (if \<not> current_job (tj_identity j) (tj_generation j) p then p
      else case truthy (p_submittedHash p) of
        Some h \<Rightarrow>
          (persist_trade (tj_side j) h PConfirmationUnknown (tj_wallet j) (tj_token j) None now p)
            \<lparr>p_hash := Some h, p_status := TConfirmationUnknown,
             p_error := ''Confirmation is uncertain. Check again or resume confirmation before making another trade.''\<rparr>
      | None \<Rightarrow>
          if truthy (p_approvalHash p) \<noteq> None \<and> \<not> isDefinitivePreSubmissionFailure reason
          then (persistHashlessUnknown (tj_side j) (tj_wallet j) (tj_token j) now p)
            \<lparr>p_hash := p_approvalHash p, p_status := TConfirmationUnknown,
             p_error := ''The token approval receipt is uncertain. New trades remain blocked; inspect the approval transaction before explicitly abandoning recovery.''\<rparr>
          else if p_interaction p \<and> \<not> isDefinitivePreSubmissionFailure reason
          then (persistHashlessUnknown (tj_side j) (tj_wallet j) (tj_token j) now p)
            \<lparr>p_status := TConfirmationUnknown,
             p_error := ''The wallet result is uncertain and no transaction hash was returned. New trades remain blocked; inspect your wallet activity before explicitly abandoning recovery.''\<rparr>
          else p\<lparr>p_storage := clearPendingTrade (tj_token j) (tj_wallet j) (p_storage p), p_submittedAt := None,
             p_status := (if matches_any_ci rejection_pattern (error_text reason) then TRejected else TFailed),
             p_error := safeMessage reason\<rparr>)"

definition end_operation :: "string \<Rightarrow> nat \<Rightarrow> panel \<Rightarrow> panel" where
  "end_operation identity generation p = (if current_job identity generation p then p\<lparr>p_operation := False\<rparr> else p)"

text \<open>The rest of \<^verbatim>\<open>submit\<close>, when \<^verbatim>\<open>execute\<close> has returned or thrown.\<close>

definition submit_settled :: "chain_module \<Rightarrow> trade_job \<Rightarrow> trade_confirmation result \<Rightarrow> int \<Rightarrow> panel \<Rightarrow> panel" where
  "submit_settled m j outcome now p =
     end_operation (tj_identity j) (tj_generation j)
       (case outcome of
          Inr r \<Rightarrow> applyResolution m r (tj_side j) (tj_wallet j) (tj_token j) (tj_identity j) now p
        | Inl reason \<Rightarrow> failed_trade j reason now p)"

subsection \<open>Recovery\<close>

record recover_job =
  rj_check :: bool
  rj_side :: trade_side
  rj_hash :: string
  rj_recovery :: "trade_recovery option"
  rj_wallet :: string
  rj_token :: string
  rj_identity :: string
  rj_generation :: nat

definition recover :: "bool \<Rightarrow> int \<Rightarrow> panel \<Rightarrow> panel \<times> recover_job option" where
  "recover check now p =
     (if p_operation p then (p, None)
      else case (truthy (pp_wallet (p_props p)), truthy (p_hash p)) of
        (Some wallet, Some hash) \<Rightarrow>
          (let token = pp_token (p_props p) in
           (persist_trade (p_side p) hash PConfirming wallet token None now
              (p\<lparr>p_operation := True, p_status := TConfirming, p_error := ''''\<rparr>),
            Some \<lparr>rj_check = check, rj_side = p_side p, rj_hash = hash, rj_recovery = p_recovery p,
              rj_wallet = wallet, rj_token = token, rj_identity = p_identity p, rj_generation = p_generation p\<rparr>))
      | _ \<Rightarrow> (p, None))"

definition recover_reported ::
    "recover_job \<Rightarrow> trade_status \<Rightarrow> string option \<Rightarrow> trade_recovery option \<Rightarrow> int \<Rightarrow> panel \<Rightarrow> panel" where
  "recover_reported j status hash recovery now p =
     (let currentHash = (case hash of None \<Rightarrow> rj_hash j | Some h \<Rightarrow> h);
          p1 = note_recovery recovery p;
          p2 = (case persisted_status status of
                  None \<Rightarrow> p1
                | Some st \<Rightarrow> persist_trade (rj_side j) currentHash st (rj_wallet j) (rj_token j) recovery now p1) in
      show_status (rj_identity j) (rj_generation j) status hash p2)"

definition recover_settled :: "chain_module \<Rightarrow> recover_job \<Rightarrow> trade_confirmation result \<Rightarrow> int \<Rightarrow> panel \<Rightarrow> panel" where
  "recover_settled m j outcome now p =
     end_operation (rj_identity j) (rj_generation j)
       (case outcome of
          Inr r \<Rightarrow> applyResolution m r (rj_side j) (rj_wallet j) (rj_token j) (rj_identity j) now p
        | Inl reason \<Rightarrow>
            if \<not> current_job (rj_identity j) (rj_generation j) p then p
            else (persist_trade (rj_side j) (rj_hash j) PConfirmationUnknown (rj_wallet j) (rj_token j) None now p)
              \<lparr>p_status := TConfirmationUnknown,
               p_error := ''Confirmation remains uncertain. New submissions are still blocked.''\<rparr>)"

definition abandon :: "bool \<Rightarrow> panel \<Rightarrow> panel" where
  "abandon confirmed p =
     (case truthy (pp_wallet (p_props p)) of
        None \<Rightarrow> p
      | Some wallet \<Rightarrow>
          if \<not> confirmed then p
          else p\<lparr>p_storage := clearPendingTrade (pp_token (p_props p)) wallet (p_storage p), p_operation := False,
            p_interaction := False, p_approvalHash := None, p_submittedHash := None, p_submittedAt := None,
            p_recovery := None, p_status := TIdle, p_hash := None, p_error := '''', p_quote := None\<rparr>)"

subsection \<open>Interleavings\<close>

definition controlsUnavailable :: "panel \<Rightarrow> bool" where
  "controlsUnavailable p \<longleftrightarrow>
     (let pr = p_props p; failed = truthy (pp_stateError pr) \<noteq> None in
      (truthy (pp_wallet pr) \<noteq> None \<and> \<not> pp_statePending pr \<and> \<not> failed \<and> (pp_state pr = None \<or> \<not> sideAllowed p))
      \<or> pp_statePending pr \<or> failed \<or> locked p \<or> \<not> pp_ready pr)"

text \<open>The quote on display: not once it is stale or the curve state it was made for has changed.\<close>

definition shown_quote :: "panel \<Rightarrow> trade_quote option" where
  "shown_quote p =
     (case p_quote p of
        None \<Rightarrow> None
      | Some r \<Rightarrow> if qr_fingerprint r \<noteq> p_fingerprint p \<or> p_stale p then None else Some (qr_quote r))"

text \<open>When the debounced effect arms its timer for a quote.\<close>

definition autoQuote :: "chain_module \<Rightarrow> panel_library \<Rightarrow> panel \<Rightarrow> bool" where
  "autoQuote m L p \<longleftrightarrow> p_status p = TIdle \<and> \<not> controlsUnavailable p \<and> panel_guard m (p_props p) = None \<and> sideAllowed p
     \<and> quoteInputIsValid L (p_amount p) (if p_side p = Buy then 18 else p_decimals p)
         (if p_side p = Buy then ''native USDC'' else pp_symbol (p_props p)) (p_slippage p)"

text \<open>
  What can happen to the panel: new props, the dialog opened for review or closed, the quote timer, input (whose controls may be disabled),
  quote requests and their answers, a confirmed submission, reports and the end of a running trade or
  recovery, and the three recovery buttons.
\<close>

datatype panel_event =
    NewProps panel_props
  | OpenReview
  | CloseModal
  | QuoteTimer
  | TypeAmount string
  | TypeSlippage string
  | PickSide trade_side
  | AskQuote
  | QuoteAnswer quote_job "trade_quote result" int
  | ConfirmTrade int int
  | TradeReport trade_job trade_status "string option" "trade_recovery option" int
  | TradeSettled trade_job "trade_confirmation result" int
  | PressRecover bool int
  | RecoverReport recover_job trade_status "string option" "trade_recovery option" int
  | RecoverSettled recover_job "trade_confirmation result" int
  | PressAbandon bool

datatype panel_command = CallQuote quote_job | CallExecute trade_job | CallRecover recover_job

definition command_of :: "('j \<Rightarrow> panel_command) \<Rightarrow> panel \<times> 'j option \<Rightarrow> panel \<times> panel_command option" where
  "command_of f x = (fst x, map_option f (snd x))"

fun handle :: "chain_module \<Rightarrow> panel_library \<Rightarrow> panel_event \<Rightarrow> panel \<Rightarrow> panel \<times> panel_command option" where
  "handle m L (NewProps pr) p = (p\<lparr>p_props := pr\<rparr>, None)"
| "handle m L OpenReview p = ((if shown_quote p = None \<or> locked p \<or> panel_guard m (p_props p) \<noteq> None then p
     else p\<lparr>p_modal := transactionModalReducer (p_modal p) ReviewAction\<rparr>), None)"
| "handle m L CloseModal p = (p\<lparr>p_modal := transactionModalReducer (p_modal p) CloseAction\<rparr>, None)"
| "handle m L QuoteTimer p = ((if p_quote p = None then p else p\<lparr>p_stale := True\<rparr>), None)"
| "handle m L (TypeAmount v) p = ((if controlsUnavailable p then p else changeAmount v p), None)"
| "handle m L (TypeSlippage v) p = ((if controlsUnavailable p then p else changeSlippage v p), None)"
| "handle m L (PickSide v) p = (changeSide v p, None)"
| "handle m L AskQuote p = (if controlsUnavailable p \<or> panel_guard m (p_props p) \<noteq> None then (p, None)
     else command_of CallQuote (getQuote L p))"
| "handle m L (QuoteAnswer j answer now) p = (quoteAnswered m j answer now p, None)"
| "handle m L (ConfirmTrade now later) p = command_of CallExecute (submit m L now later p)"
| "handle m L (TradeReport j status hash recovery now) p = (reported j status hash recovery now p, None)"
| "handle m L (TradeSettled j outcome now) p = (submit_settled m j outcome now p, None)"
| "handle m L (PressRecover check now) p = command_of CallRecover (recover check now p)"
| "handle m L (RecoverReport j status hash recovery now) p = (recover_reported j status hash recovery now p, None)"
| "handle m L (RecoverSettled j outcome now) p = (recover_settled m j outcome now p, None)"
| "handle m L (PressAbandon confirmed) p = (abandon confirmed p, None)"

definition panel_step :: "chain_module \<Rightarrow> panel_library \<Rightarrow> panel_event \<Rightarrow> panel \<Rightarrow> panel \<times> panel_command option" where
  "panel_step m L e p = (case handle m L e p of (q, c) \<Rightarrow> (committed p q, c))"

fun panel_run :: "chain_module \<Rightarrow> panel_library \<Rightarrow> panel_event list \<Rightarrow> panel \<Rightarrow> panel" where
  "panel_run m L [] p = p"
| "panel_run m L (e # es) p = panel_run m L es (fst (panel_step m L e p))"

subsection \<open>A pending trade stays stored until it is resolved\<close>

definition stored :: "trade_key \<Rightarrow> storage \<Rightarrow> pending_trade option" where
  "stored k s = fst (read_key k s)"

lemma stored_persist:
  "s \<noteq> None \<Longrightarrow> good_trade t \<Longrightarrow> good_key k \<Longrightarrow>
     stored k (persistPendingTrade t s) = (if same_key k (trade_key t) then Some t else stored k s)"
  unfolding stored_def by (rule pending_store.fetch_persist)

lemma stored_clear:
  "s \<noteq> None \<Longrightarrow> good_key k \<Longrightarrow> good_key (token, wallet) \<Longrightarrow>
     stored k (clearPendingTrade token wallet s) = (if same_key k (token, wallet) then None else stored k s)"
  using pending_store.fetch_clear[of s k "(token, wallet)"] by (simp add: stored_def clear_key_def)

lemma stored_read:
  "s \<noteq> None \<Longrightarrow> good_key k \<Longrightarrow> good_key (token, wallet) \<Longrightarrow> stored k (snd (readPendingTrade token wallet s)) = stored k s"
  using pending_store.fetch_fetch[of s k "(token, wallet)"] by (simp add: stored_def read_key_def)

lemma storage_live:
  "s \<noteq> None \<Longrightarrow> persistPendingTrade t s \<noteq> None" "s \<noteq> None \<Longrightarrow> clearPendingTrade token wallet s \<noteq> None"
  "s \<noteq> None \<Longrightarrow> snd (readPendingTrade token wallet s) \<noteq> None"
  using pending_store.live_step[of s t "(token, wallet)"] by (simp_all add: clear_key_def read_key_def)

lemma read_good:
  assumes "readPendingTrade token wallet s = (Some t, s')"
  shows "good_trade t" "s' = s"
  using assms trade_guard_good
  by (auto simp: readPendingTrade_def split: option.splits stored_text.splits if_splits)

definition props_ok :: "panel_props \<Rightarrow> bool" where
  "props_ok pr \<longleftrightarrow> address_pattern (pp_token pr) \<and> if_some address_pattern (pp_wallet pr)"

definition panel_ok :: "panel \<Rightarrow> bool" where
  "panel_ok p \<longleftrightarrow> p_storage p \<noteq> None \<and> if_some positive_finite (p_submittedAt p) \<and> if_some good_recovery (p_recovery p)
     \<and> if_some hash_pattern (p_hash p) \<and> if_some hash_pattern (p_submittedHash p) \<and> if_some hash_pattern (p_approvalHash p)
     \<and> props_ok (p_props p)"

text \<open>From \<^verbatim>\<open>p\<close> to \<^verbatim>\<open>q\<close> no stored trade is lost but those the event may clear.\<close>

definition safe_step :: "(trade_key \<Rightarrow> bool) \<Rightarrow> panel \<Rightarrow> panel \<Rightarrow> bool" where
  "safe_step K p q \<longleftrightarrow> panel_ok q
     \<and> (\<forall>k. good_key k \<longrightarrow> \<not> K k \<longrightarrow> stored k (p_storage p) \<noteq> None \<longrightarrow> stored k (p_storage q) \<noteq> None)"

lemma safe_same: "panel_ok q \<Longrightarrow> p_storage q = p_storage p \<Longrightarrow> safe_step K p q"
  by (simp add: safe_step_def)

lemma safe_trans: "safe_step K p q \<Longrightarrow> safe_step K q r \<Longrightarrow> safe_step K p r"
  by (simp add: safe_step_def)

lemma safe_persisted:
  assumes "panel_ok q" and "p_storage q = persistPendingTrade t (p_storage p)" and "panel_ok p" and "good_trade t"
  shows "safe_step K p q"
  using assms by (auto simp: safe_step_def panel_ok_def stored_persist)

lemma safe_cleared:
  assumes "panel_ok q" and "p_storage q = clearPendingTrade token wallet (p_storage p)" and "panel_ok p"
    and "good_key (token, wallet)" and "\<And>k. good_key k \<Longrightarrow> same_key k (token, wallet) \<Longrightarrow> K k"
  shows "safe_step K p q"
  unfolding safe_step_def using assms by (auto simp: panel_ok_def stored_clear)

lemma safe_read:
  assumes "panel_ok q" and "p_storage q = snd (readPendingTrade token wallet (p_storage p))" and "panel_ok p"
    and "good_key (token, wallet)"
  shows "safe_step K p q"
  unfolding safe_step_def using assms by (auto simp: panel_ok_def stored_read)

lemma time_ok: "panel_ok p \<Longrightarrow> 0 < now \<Longrightarrow> positive_finite (submitted_at p now)"
  by (cases "p_submittedAt p") (auto simp: submitted_at_def panel_ok_def)

lemma hash_truthy: "if_some hash_pattern h \<Longrightarrow> truthy h = h"
  by (cases h) (auto simp: truthy_def hash_pattern_def hex_pattern_def)

lemma address_truthy: "if_some address_pattern a \<Longrightarrow> truthy a = a"
  by (cases a) (auto simp: truthy_def address_pattern_def hex_pattern_def)

lemma persist_trade_safe:
  assumes "panel_ok p" and "hash_pattern hash" and "good_key (token, wallet)" and "if_some good_recovery r" and "0 < now"
  shows "safe_step K p (persist_trade side hash status wallet token r now p)"
proof (rule safe_persisted)
  show "p_storage (persist_trade side hash status wallet token r now p) = persistPendingTrade
     \<lparr>pt_walletAddress = wallet, pt_tokenAddress = token, pt_side = side, pt_hash = Some hash, pt_status = status,
      pt_submittedAt = submitted_at p now, pt_recovery = (case r of None \<Rightarrow> p_recovery p | Some x \<Rightarrow> Some x)\<rparr> (p_storage p)"
    by (simp add: persist_trade_def)
  show "panel_ok (persist_trade side hash status wallet token r now p)"
    using assms(1) time_ok[OF assms(1,5)] storage_live(1) by (simp add: persist_trade_def panel_ok_def)
  show "good_trade \<lparr>pt_walletAddress = wallet, pt_tokenAddress = token, pt_side = side, pt_hash = Some hash, pt_status = status,
      pt_submittedAt = submitted_at p now, pt_recovery = (case r of None \<Rightarrow> p_recovery p | Some x \<Rightarrow> Some x)\<rparr>"
    using assms time_ok[OF assms(1,5)] by (cases r) (auto simp: good_trade_def panel_ok_def)
qed (rule assms(1))

lemma persistHashless_safe:
  assumes "panel_ok p" and "good_key (token, wallet)" and "0 < now"
  shows "safe_step K p (persistHashlessUnknown side wallet token now p)"
proof (rule safe_persisted)
  show "p_storage (persistHashlessUnknown side wallet token now p) = persistPendingTrade
     \<lparr>pt_walletAddress = wallet, pt_tokenAddress = token, pt_side = side, pt_hash = None,
      pt_status = PConfirmationUnknown, pt_submittedAt = submitted_at p now, pt_recovery = None\<rparr> (p_storage p)"
    by (simp add: persistHashlessUnknown_def)
  show "panel_ok (persistHashlessUnknown side wallet token now p)"
    using assms(1) time_ok[OF assms(1,3)] storage_live(1) by (simp add: persistHashlessUnknown_def panel_ok_def)
  show "good_trade \<lparr>pt_walletAddress = wallet, pt_tokenAddress = token, pt_side = side, pt_hash = None,
      pt_status = PConfirmationUnknown, pt_submittedAt = submitted_at p now, pt_recovery = None\<rparr>"
    using assms time_ok[OF assms(1,3)] by (auto simp: good_trade_def)
qed (rule assms(1))

text \<open>Well-formed events: addresses, hashes and recovery data in their formats, a running clock.\<close>

definition trade_job_ok :: "trade_job \<Rightarrow> bool" where
  "trade_job_ok j \<longleftrightarrow> good_key (tj_token j, tj_wallet j)"

definition recover_job_ok :: "recover_job \<Rightarrow> bool" where
  "recover_job_ok j \<longleftrightarrow> good_key (rj_token j, rj_wallet j) \<and> hash_pattern (rj_hash j)"

fun outcome_ok :: "trade_confirmation result \<Rightarrow> bool" where
  "outcome_ok (Inl e) \<longleftrightarrow> True"
| "outcome_ok (Inr r) \<longleftrightarrow> hash_pattern (tc_hash r) \<and> if_some good_recovery (tc_recovery r)"

fun event_ok :: "panel_event \<Rightarrow> bool" where
  "event_ok (NewProps pr) \<longleftrightarrow> props_ok pr"
| "event_ok (ConfirmTrade now later) \<longleftrightarrow> 0 < later"
| "event_ok (TradeReport j st h r now) \<longleftrightarrow> trade_job_ok j \<and> if_some hash_pattern h \<and> if_some good_recovery r \<and> 0 < now"
| "event_ok (TradeSettled j out now) \<longleftrightarrow> trade_job_ok j \<and> outcome_ok out \<and> 0 < now"
| "event_ok (PressRecover c now) \<longleftrightarrow> 0 < now"
| "event_ok (RecoverReport j st h r now) \<longleftrightarrow> recover_job_ok j \<and> if_some hash_pattern h \<and> if_some good_recovery r \<and> 0 < now"
| "event_ok (RecoverSettled j out now) \<longleftrightarrow> recover_job_ok j \<and> outcome_ok out \<and> 0 < now"
| "event_ok _ \<longleftrightarrow> True"

text \<open>
  What may unlock a token for a wallet: a final receipt of one of its trades, a trade that failed
  before anything can have been submitted, or the user's explicit abandonment.
\<close>

definition nothing_submitted :: "js_error \<Rightarrow> panel \<Rightarrow> bool" where
  "nothing_submitted reason p \<longleftrightarrow> p_submittedHash p = None
     \<and> (isDefinitivePreSubmissionFailure reason \<or> p_approvalHash p = None \<and> \<not> p_interaction p)"

fun clears :: "panel \<Rightarrow> panel_event \<Rightarrow> trade_key \<Rightarrow> bool" where
  "clears p (TradeSettled j (Inr r) now) k \<longleftrightarrow> tc_status r \<noteq> Pending \<and> same_key k (tj_token j, tj_wallet j)"
| "clears p (TradeSettled j (Inl reason) now) k \<longleftrightarrow> nothing_submitted reason p \<and> same_key k (tj_token j, tj_wallet j)"
| "clears p (RecoverSettled j (Inr r) now) k \<longleftrightarrow> tc_status r \<noteq> Pending \<and> same_key k (rj_token j, rj_wallet j)"
| "clears p (PressAbandon confirmed) k \<longleftrightarrow> confirmed
     \<and> (\<exists>w \<in> set_option (pp_wallet (p_props p)). same_key k (pp_token (p_props p), w))"
| "clears p _ k \<longleftrightarrow> False"

lemma applyResolution_safe:
  assumes "panel_ok p" and "good_key (token, wallet)" and "hash_pattern (tc_hash r)" and "if_some good_recovery (tc_recovery r)"
    and "0 < now" and "\<And>k. good_key k \<Longrightarrow> tc_status r \<noteq> Pending \<Longrightarrow> same_key k (token, wallet) \<Longrightarrow> K k"
  shows "safe_step K p (applyResolution m r side wallet token identity now p)"
proof (cases "fst (p_latest p) \<noteq> identity")
  case True
  then show ?thesis using assms(1) by (simp add: applyResolution_def safe_same)
next
  case False
  show ?thesis
  proof (cases "tc_status r = Pending")
    case True
    let ?q = "p\<lparr>p_hash := Some (tc_hash r), p_submittedHash := Some (tc_hash r), p_recovery := tc_recovery r\<rparr>"
    have q: "panel_ok ?q" using assms(1,3,4) by (simp add: panel_ok_def)
    have s: "safe_step K ?q (persist_trade side (tc_hash r) PConfirmationUnknown wallet token (tc_recovery r) now ?q)"
      by (rule persist_trade_safe[OF q assms(3,2,4,5)])
    have eq: "applyResolution m r side wallet token identity now p
      = (persist_trade side (tc_hash r) PConfirmationUnknown wallet token (tc_recovery r) now ?q)
        \<lparr>p_status := TConfirmationUnknown, p_error := ''No final receipt is available yet. New submissions remain blocked.''\<rparr>"
      using False True by (simp add: applyResolution_def)
    show ?thesis unfolding eq using s by (simp add: safe_step_def panel_ok_def)
  next
    case final: False
    show ?thesis
    proof (rule safe_cleared[OF _ _ assms(1,2)])
      show "panel_ok (applyResolution m r side wallet token identity now p)"
        using assms(1,3) final storage_live(2) by (simp add: applyResolution_def panel_ok_def Let_def)
      show "p_storage (applyResolution m r side wallet token identity now p) = clearPendingTrade token wallet (p_storage p)"
        using False final by (simp add: applyResolution_def Let_def)
    qed (rule assms(6)[OF _ final])
  qed
qed

lemma failed_trade_safe:
  assumes "panel_ok p" and "trade_job_ok j" and "0 < now"
    and "\<And>k. good_key k \<Longrightarrow> nothing_submitted reason p \<Longrightarrow> same_key k (tj_token j, tj_wallet j) \<Longrightarrow> K k"
  shows "safe_step K p (failed_trade j reason now p)"
proof (cases "current_job (tj_identity j) (tj_generation j) p")
  case False
  then show ?thesis using assms(1) by (simp add: failed_trade_def safe_same)
next
  case current: True
  have key: "good_key (tj_token j, tj_wallet j)" using assms(2) by (simp add: trade_job_ok_def)
  have sub: "truthy (p_submittedHash p) = p_submittedHash p" "truthy (p_approvalHash p) = p_approvalHash p"
    using assms(1) by (simp_all add: panel_ok_def hash_truthy)
  have persistH: "safe_step K p (persistHashlessUnknown (tj_side j) (tj_wallet j) (tj_token j) now p)"
    by (rule persistHashless_safe[OF assms(1) key assms(3)])
  show ?thesis
  proof (cases "p_submittedHash p")
    case (Some h)
    have "hash_pattern h" using assms(1) Some by (simp add: panel_ok_def)
    from persist_trade_safe[OF assms(1) this key _ assms(3), of None]
    have "safe_step K p (persist_trade (tj_side j) h PConfirmationUnknown (tj_wallet j) (tj_token j) None now p)" by simp
    then show ?thesis using current sub Some \<open>hash_pattern h\<close> by (simp add: failed_trade_def safe_step_def panel_ok_def)
  next
    case None
    show ?thesis
    proof (cases "nothing_submitted reason p")
      case True
      have eq: "p_storage (failed_trade j reason now p) = clearPendingTrade (tj_token j) (tj_wallet j) (p_storage p)"
        and ok: "panel_ok (failed_trade j reason now p)"
        using current sub None True assms(1) storage_live(2) by (auto simp: failed_trade_def nothing_submitted_def panel_ok_def)
      show ?thesis by (rule safe_cleared[OF ok eq assms(1) key]) (rule assms(4)[OF _ True])
    next
      case False
      then show ?thesis using current sub None persistH assms(1)
        by (auto simp: failed_trade_def nothing_submitted_def safe_step_def panel_ok_def)
    qed
  qed
qed

text \<open>The remaining updates do not touch what the lock rests on.\<close>

definition same_core :: "panel \<Rightarrow> panel \<Rightarrow> bool" where
  "same_core p q \<longleftrightarrow> p_storage q = p_storage p \<and> p_submittedAt q = p_submittedAt p \<and> p_recovery q = p_recovery p
     \<and> p_submittedHash q = p_submittedHash p \<and> p_props q = p_props p \<and> if_some hash_pattern (p_hash q)
     \<and> if_some hash_pattern (p_approvalHash q)"

lemma same_core_safe: "panel_ok p \<Longrightarrow> same_core p q \<Longrightarrow> safe_step K p q"
  by (auto simp: same_core_def safe_step_def panel_ok_def)

lemma end_operation_safe: "safe_step K p q \<Longrightarrow> safe_step K p (end_operation i g q)"
  by (auto simp: end_operation_def safe_step_def panel_ok_def)

lemma safe_display: "safe_step K p q \<Longrightarrow> safe_step K p (q\<lparr>p_status := s, p_error := e\<rparr>)"
  by (simp add: safe_step_def panel_ok_def)

lemma show_status_safe: "safe_step K p q \<Longrightarrow> if_some hash_pattern h \<Longrightarrow> safe_step K p (show_status i g st h q)"
  by (cases "truthy h") (auto simp: show_status_def safe_step_def panel_ok_def truthy_def split: option.splits if_splits)

lemma note_wallet_core: "panel_ok p \<Longrightarrow> if_some hash_pattern h \<Longrightarrow> same_core p (note_wallet j st h p)"
  by (simp add: note_wallet_def same_core_def panel_ok_def Let_def)

lemma note_recovery_safe: "panel_ok p \<Longrightarrow> if_some good_recovery r \<Longrightarrow> safe_step K p (note_recovery r p)"
  by (cases r) (auto simp: note_recovery_def safe_step_def panel_ok_def)

lemma reported_safe:
  assumes "panel_ok p" and "trade_job_ok j" and "if_some hash_pattern h" and "if_some good_recovery r" and "0 < now"
  shows "safe_step K p (reported j st h r now p)"
proof -
  let ?p1 = "note_recovery r (note_wallet j st h p)"
  have w: "safe_step K p (note_wallet j st h p)" by (rule same_core_safe[OF assms(1) note_wallet_core[OF assms(1,3)]])
  then have "panel_ok (note_wallet j st h p)" by (simp add: safe_step_def)
  from safe_trans[OF w note_recovery_safe[OF this assms(4)]] have s1: "safe_step K p ?p1" .
  then have p1: "panel_ok ?p1" by (simp add: safe_step_def)
  have "safe_step K p (case (truthy h, persisted_status st) of
      (Some x, Some y) \<Rightarrow> persist_trade (tj_side j) x y (tj_wallet j) (tj_token j) r now (?p1\<lparr>p_submittedHash := Some x\<rparr>)
    | _ \<Rightarrow> ?p1)"
  proof (cases "truthy h")
    case (Some x)
    then have x: "hash_pattern x" using assms(3) by (auto simp: hash_truthy)
    show ?thesis
    proof (cases "persisted_status st")
      case (Some y)
      have q: "safe_step K p (?p1\<lparr>p_submittedHash := Some x\<rparr>)" using s1 x by (simp add: safe_step_def panel_ok_def)
      then have "panel_ok (?p1\<lparr>p_submittedHash := Some x\<rparr>)" by (simp add: safe_step_def)
      from safe_trans[OF q persist_trade_safe[OF this x _ assms(4,5)]] show ?thesis
        using assms(2) Some \<open>truthy h = Some x\<close> by (simp add: trade_job_ok_def)
    qed (simp add: \<open>truthy h = Some x\<close> s1)
  qed (simp add: s1)
  then show ?thesis unfolding reported_def Let_def by (rule show_status_safe[OF _ assms(3)])
qed

lemma recover_reported_safe:
  assumes "panel_ok p" and "recover_job_ok j" and "if_some hash_pattern h" and "if_some good_recovery r" and "0 < now"
  shows "safe_step K p (recover_reported j st h r now p)"
proof -
  have s1: "safe_step K p (note_recovery r p)" by (rule note_recovery_safe[OF assms(1,4)])
  then have p1: "panel_ok (note_recovery r p)" by (simp add: safe_step_def)
  have x: "hash_pattern (case h of None \<Rightarrow> rj_hash j | Some x \<Rightarrow> x)"
    using assms(2,3) by (cases h) (auto simp: recover_job_ok_def)
  have key: "good_key (rj_token j, rj_wallet j)" using assms(2) by (simp add: recover_job_ok_def)
  have "safe_step K p (case persisted_status st of None \<Rightarrow> note_recovery r p
    | Some y \<Rightarrow> persist_trade (rj_side j) (case h of None \<Rightarrow> rj_hash j | Some x \<Rightarrow> x) y (rj_wallet j) (rj_token j) r now (note_recovery r p))"
    using s1 safe_trans[OF s1 persist_trade_safe[OF p1 x key assms(4,5)]] by (auto split: option.split)
  then show ?thesis unfolding recover_reported_def Let_def by (rule show_status_safe[OF _ assms(3)])
qed

lemma recover_safe:
  assumes "panel_ok p" and "0 < now"
  shows "safe_step K p (fst (recover check now p))"
proof (cases "p_operation p \<or> pp_wallet (p_props p) = None \<or> p_hash p = None")
  case True
  then have "fst (recover check now p) = p"
    by (auto simp: recover_def truthy_def split: option.splits if_splits)
  then show ?thesis using assms(1) by (simp add: safe_same)
next
  case False
  then obtain w h where wh: "pp_wallet (p_props p) = Some w" "p_hash p = Some h" by auto
  then have ok: "truthy (Some w) = Some w" "truthy (Some h) = Some h" "hash_pattern h"
    "good_key (pp_token (p_props p), w)"
    using assms(1) address_truthy[of "Some w"] hash_truthy[of "Some h"] by (auto simp: panel_ok_def props_ok_def)
  let ?q = "p\<lparr>p_operation := True, p_status := TConfirming, p_error := ''''\<rparr>"
  have q: "panel_ok ?q" "safe_step K p ?q" using assms(1) by (auto simp: panel_ok_def intro!: safe_same)
  have "if_some good_recovery (None :: trade_recovery option)" by simp
  from safe_trans[OF q(2) persist_trade_safe[OF q(1) ok(3,4) this assms(2)]] show ?thesis
    using False wh ok by (simp add: recover_def Let_def)
qed

lemma recover_settled_safe:
  assumes "panel_ok p" and "recover_job_ok j" and "outcome_ok out" and "0 < now"
    and "\<And>k. good_key k \<Longrightarrow> clears p (RecoverSettled j out now) k \<Longrightarrow> K k"
  shows "safe_step K p (recover_settled m j out now p)"
proof -
  have j: "good_key (rj_token j, rj_wallet j)" "hash_pattern (rj_hash j)" using assms(2) by (simp_all add: recover_job_ok_def)
  show ?thesis
  proof (cases out)
    case (Inr r)
    then show ?thesis using assms j unfolding recover_settled_def
      by (auto intro!: end_operation_safe applyResolution_safe)
  next
    case (Inl e)
    have "safe_step K p (persist_trade (rj_side j) (rj_hash j) PConfirmationUnknown (rj_wallet j) (rj_token j) None now p)"
      using persist_trade_safe[OF assms(1) j(2,1) _ assms(4), of None] by simp
    from safe_display[OF this] have "safe_step K p (case out of
          Inr r \<Rightarrow> applyResolution m r (rj_side j) (rj_wallet j) (rj_token j) (rj_identity j) now p
        | Inl reason \<Rightarrow>
            if \<not> current_job (rj_identity j) (rj_generation j) p then p
            else (persist_trade (rj_side j) (rj_hash j) PConfirmationUnknown (rj_wallet j) (rj_token j) None now p)
              \<lparr>p_status := TConfirmationUnknown,
               p_error := ''Confirmation remains uncertain. New submissions are still blocked.''\<rparr>)"
      using Inl safe_same[OF assms(1) refl] by simp
    then show ?thesis unfolding recover_settled_def by (rule end_operation_safe)
  qed
qed

lemma submit_settled_safe:
  assumes "panel_ok p" and "trade_job_ok j" and "outcome_ok out" and "0 < now"
    and "\<And>k. good_key k \<Longrightarrow> clears p (TradeSettled j out now) k \<Longrightarrow> K k"
  shows "safe_step K p (submit_settled m j out now p)"
  using assms unfolding submit_settled_def
  by (cases out) (auto simp: trade_job_ok_def intro!: end_operation_safe applyResolution_safe failed_trade_safe)

lemma abandon_safe:
  assumes "panel_ok p" and "\<And>k. good_key k \<Longrightarrow> clears p (PressAbandon c) k \<Longrightarrow> K k"
  shows "safe_step K p (abandon c p)"
proof (cases "pp_wallet (p_props p)")
  case None
  then show ?thesis using assms(1) by (simp add: abandon_def truthy_def safe_same)
next
  case (Some w)
  then have ok: "truthy (Some w) = Some w" "good_key (pp_token (p_props p), w)"
    using assms(1) address_truthy[of "Some w"] by (auto simp: panel_ok_def props_ok_def)
  show ?thesis
  proof (cases c)
    case False
    then show ?thesis using assms(1) Some ok by (simp add: abandon_def safe_same)
  next
    case True
    have eq: "p_storage (abandon c p) = clearPendingTrade (pp_token (p_props p)) w (p_storage p)"
      and okq: "panel_ok (abandon c p)"
      using True Some ok assms(1) storage_live(2) by (simp_all add: abandon_def panel_ok_def)
    show ?thesis by (rule safe_cleared[OF okq eq assms(1) ok(2)]) (use assms(2) True Some in auto)
  qed
qed

text \<open>What a started trade may rely on.\<close>

definition may_trade :: "quote_record \<Rightarrow> panel \<Rightarrow> bool" where
  "may_trade record p \<longleftrightarrow> qr_identity record = p_identity p \<and> qr_fingerprint record = p_fingerprint p
     \<and> qr_chain record = pp_chain (p_props p) \<and> sideAllowed p
     \<and> (case (qr_quote record, pp_state (p_props p)) of
          (BuyQuote b, Some s) \<Rightarrow> bud_maxReserveIn b \<le> ts_nativeBalance s
        | (SellQuote b, Some s) \<Rightarrow> psq_tokenAmount b \<le> ts_tokenBalance s
        | _ \<Rightarrow> False)"

lemma may_trade_display: "may_trade record (p\<lparr>p_error := e, p_storage := s\<rparr>) = may_trade record p"
proof -
  have "sideAllowed (p\<lparr>p_error := e, p_storage := s\<rparr>) = sideAllowed p"
    unfolding sideAllowed_def by (simp split: option.split)
  then show ?thesis unfolding may_trade_def p_identity_def p_fingerprint_def by simp
qed

lemma submit_refusal_None: "submit_refusal m L record p = None \<longleftrightarrow> may_trade record p"
  by (auto simp: submit_refusal_def may_trade_def sideAllowed_def Let_def split: option.splits trade_quote.splits if_splits)

lemma submit_Some:
  assumes "submit m L now later p = (q, Some j)"
  shows "\<exists>rq w s. p_quote p = Some rq \<and> \<not> p_operation p \<and> \<not> locked p \<and> truthy (pp_wallet (p_props p)) = Some w
    \<and> pp_connected (p_props p) \<and> pp_ready (p_props p) \<and> pp_chain (p_props p) = Some (selectedCooketChainId m)
    \<and> readPendingTrade (pp_token (p_props p)) w (p_storage p) = (None, s)
    \<and> \<not> p_stale p \<and> now < quoteExpiresAt rq \<and> may_trade rq (p\<lparr>p_error := '''', p_storage := s\<rparr>)
    \<and> q = persistHashlessUnknown (quote_side (qr_quote rq)) w (pp_token (p_props p)) later
        (p\<lparr>p_error := '''', p_storage := s, p_operation := True, p_interaction := False, p_approvalHash := None,
           p_status := TPreparing\<rparr>)
    \<and> j = \<lparr>tj_side = quote_side (qr_quote rq), tj_wallet = w, tj_token = pp_token (p_props p),
        tj_identity = p_identity p, tj_generation = p_generation p, tj_record = rq\<rparr>"
proof -
  from assms obtain rq where quote: "p_quote p = Some rq" "\<not> p_operation p" "\<not> locked p"
    by (auto simp: submit_def split: option.splits if_splits)
  from assms quote obtain w where w: "pp_wallet (p_props p) = Some w" "truthy (pp_wallet (p_props p)) = Some w"
    "pp_connected (p_props p)" "pp_ready (p_props p)" "pp_chain (p_props p) = Some (selectedCooketChainId m)"
    by (auto simp: submit_def Let_def truthy_def split: option.splits if_splits)
  obtain e s where r: "readPendingTrade (pp_token (p_props p)) w (p_storage p) = (e, s)" by fastforce
  have e: "e = None" using assms quote w r by (cases e) (auto simp: submit_def Let_def)
  have fresh: "\<not> p_stale p" "now < quoteExpiresAt rq"
    using assms quote w r e by (auto simp: submit_def Let_def not_le split: if_splits)
  have ok: "submit_refusal m L rq (p\<lparr>p_error := '''', p_storage := s\<rparr>) = None"
    using assms quote w r e fresh by (cases "submit_refusal m L rq (p\<lparr>p_error := '''', p_storage := s\<rparr>)")
      (auto simp: submit_def Let_def)
  have "q = persistHashlessUnknown (quote_side (qr_quote rq)) w (pp_token (p_props p)) later
        (p\<lparr>p_error := '''', p_storage := s, p_operation := True, p_interaction := False, p_approvalHash := None,
           p_status := TPreparing\<rparr>)"
    "j = \<lparr>tj_side = quote_side (qr_quote rq), tj_wallet = w, tj_token = pp_token (p_props p),
        tj_identity = p_identity p, tj_generation = p_generation p, tj_record = rq\<rparr>"
    using assms quote w r e fresh ok by (auto simp: submit_def Let_def)
  then show ?thesis using quote w r e fresh ok submit_refusal_None by blast
qed

lemma submit_safe:
  assumes "panel_ok p" and "0 < later"
  shows "safe_step K p (fst (submit m L now later p))"
proof (cases "snd (submit m L now later p)")
  case (Some j)
  then obtain q where run: "submit m L now later p = (q, Some j)" by (metis prod.collapse)
  from submit_Some[OF run] obtain rq :: quote_record and w s where f: "truthy (pp_wallet (p_props p)) = Some w"
    "readPendingTrade (pp_token (p_props p)) w (p_storage p) = (None, s)"
    "q = persistHashlessUnknown (quote_side (qr_quote rq)) w (pp_token (p_props p)) later
        (p\<lparr>p_error := '''', p_storage := s, p_operation := True, p_interaction := False, p_approvalHash := None,
           p_status := TPreparing\<rparr>)" by (elim exE conjE) (rule that, assumption+)
  have key: "good_key (pp_token (p_props p), w)"
    using assms(1) f(1) by (auto simp: panel_ok_def props_ok_def truthy_def split: option.splits if_splits)
  let ?q = "p\<lparr>p_error := '''', p_storage := s, p_operation := True, p_interaction := False, p_approvalHash := None,
           p_status := TPreparing\<rparr>"
  have ok: "panel_ok ?q" using assms(1) f(2) storage_live(3)[of "p_storage p" "pp_token (p_props p)" w]
    by (simp add: panel_ok_def)
  have "safe_step K p ?q" by (rule safe_read[OF ok _ assms(1) key]) (simp add: f(2))
  from safe_trans[OF this persistHashless_safe[OF ok key assms(2)]] show ?thesis by (simp add: run f(3))
next
  case None
  show ?thesis
  proof (cases "p_storage (fst (submit m L now later p)) = p_storage p")
    case True
    have "panel_ok (fst (submit m L now later p))"
    proof (cases "readPendingTrade (pp_token (p_props p)) (the (pp_wallet (p_props p))) (p_storage p)")
      case (Pair e s)
      have live: "s \<noteq> None" using storage_live(3)[of "p_storage p"] Pair assms(1) by (metis panel_ok_def snd_conv)
      have good: "good_trade t" if "e = Some t" for t using read_good(1) Pair that by blast
      show ?thesis using None assms(1) live good Pair
        by (cases e) (auto simp: submit_def panel_ok_def good_trade_def submit_refusal_def Let_def
          split: option.splits if_splits trade_quote.splits)
    qed
    then show ?thesis using True by (rule safe_same)
  next
    case changed: False
    then obtain w where w: "truthy (pp_wallet (p_props p)) = Some w" "pp_wallet (p_props p) = Some w"
      by (auto simp: submit_def Let_def truthy_def split: option.splits if_splits)
    have key: "good_key (pp_token (p_props p), w)" using assms(1) w(2) by (auto simp: panel_ok_def props_ok_def)
    obtain e s where r: "readPendingTrade (pp_token (p_props p)) w (p_storage p) = (e, s)" by fastforce
    have live: "s \<noteq> None" using storage_live(3)[of "p_storage p"] r assms(1) by (metis panel_ok_def snd_conv)
    have good: "good_trade t" if "e = Some t" for t using read_good(1) r that by blast
    have eq: "p_storage (fst (submit m L now later p)) = snd (readPendingTrade (pp_token (p_props p)) w (p_storage p))"
      using changed None w r
      by (cases e) (auto simp: submit_def submit_refusal_def Let_def split: option.splits if_splits trade_quote.splits)
    have ok: "panel_ok (fst (submit m L now later p))"
      using None assms(1) live good r w
      by (cases e) (auto simp: submit_def panel_ok_def good_trade_def submit_refusal_def Let_def
          split: option.splits if_splits trade_quote.splits)
    show ?thesis by (rule safe_read[OF ok eq assms(1) key])
  qed
qed

lemma display_core:
  assumes "panel_ok p"
  shows "same_core p (fst (getQuote L p))" "same_core p (quoteAnswered m j answer now p)"
    "same_core p (changeAmount v p)" "same_core p (changeSlippage v p)" "same_core p (changeSide d p)"
  using assms
  by (auto simp: same_core_def panel_ok_def getQuote_def quoteAnswered_def changeAmount_def changeSlippage_def
      changeSide_def invalidateQuote_def Let_def split: sum.splits)

lemma handle_safe:
  assumes "panel_ok p" and "event_ok e"
  shows "safe_step (clears p e) p (fst (handle m L e p))"
proof (cases e)
  case (NewProps pr)
  then show ?thesis using assms by (auto simp: panel_ok_def intro!: safe_same)
next
  case OpenReview
  then show ?thesis using assms by (auto simp: panel_ok_def intro!: safe_same)
next
  case CloseModal
  then show ?thesis using assms by (auto simp: panel_ok_def intro!: safe_same)
next
  case QuoteTimer
  then show ?thesis using assms by (auto simp: panel_ok_def intro!: safe_same)
next
  case (TypeAmount v)
  then show ?thesis using assms display_core same_core_safe by (auto intro: safe_same)
next
  case (TypeSlippage v)
  then show ?thesis using assms display_core same_core_safe by (auto intro: safe_same)
next
  case (PickSide v)
  then show ?thesis using assms display_core same_core_safe by auto
next
  case AskQuote
  then show ?thesis using assms display_core same_core_safe by (auto simp: command_of_def intro: safe_same)
next
  case (QuoteAnswer j a now)
  then show ?thesis using assms display_core same_core_safe by auto
next
  case (ConfirmTrade now later)
  then show ?thesis using assms submit_safe by (simp add: command_of_def)
next
  case (TradeReport j st h r now)
  then show ?thesis using assms reported_safe by simp
next
  case (TradeSettled j out now)
  then show ?thesis using assms submit_settled_safe[OF assms(1), of j out now "clears p e" m] by simp
next
  case (PressRecover c now)
  then show ?thesis using assms recover_safe by (simp add: command_of_def)
next
  case (RecoverReport j st h r now)
  then show ?thesis using assms recover_reported_safe by simp
next
  case (RecoverSettled j out now)
  then show ?thesis using assms recover_settled_safe[OF assms(1), of j out now "clears p e" m] by simp
next
  case (PressAbandon c)
  then show ?thesis using abandon_safe[OF assms(1), of c "clears p e"] by simp
qed

lemma restore_identity_safe:
  assumes "panel_ok p"
  shows "safe_step K p (restore_identity p)"
proof (cases "p_previous p = p_identity p")
  case True
  then show ?thesis using assms by (simp add: restore_identity_def safe_same)
next
  case False
  obtain pending s where r: "read_pending (p_props p) (p_storage p) = (pending, s)" by fastforce
  show ?thesis
  proof (cases "pp_wallet (p_props p)")
    case None
    then have "pending = None" "s = p_storage p" using r by (simp_all add: read_pending_def truthy_def)
    then show ?thesis using False r assms by (auto simp: restore_identity_def panel_ok_def intro!: safe_same)
  next
    case (Some w)
    then have w: "truthy (pp_wallet (p_props p)) = Some w" "good_key (pp_token (p_props p), w)"
      using assms address_truthy[of "Some w"] by (auto simp: panel_ok_def props_ok_def)
    then have read: "readPendingTrade (pp_token (p_props p)) w (p_storage p) = (pending, s)"
      using r by (simp add: read_pending_def)
    have live: "s \<noteq> None" using storage_live(3)[of "p_storage p" "pp_token (p_props p)" w] read assms
      by (simp add: panel_ok_def)
    have good: "good_trade t" if "pending = Some t" for t using read_good(1) read that by blast
    have ok: "panel_ok (restore_identity p)"
      using False r assms live good by (cases pending) (auto simp: restore_identity_def panel_ok_def good_trade_def)
    have eq: "p_storage (restore_identity p) = snd (readPendingTrade (pp_token (p_props p)) w (p_storage p))"
      using False r read by (simp add: restore_identity_def)
    show ?thesis by (rule safe_read[OF ok eq assms w(2)])
  qed
qed

lemma follow_status_safe: "safe_step K p q \<Longrightarrow> safe_step K p (follow_status b q)"
  by (auto simp: follow_status_def safe_step_def panel_ok_def split: option.split)

lemma committed_safe:
  assumes "safe_step K p q"
  shows "safe_step K p (committed b q)"
proof -
  have f: "safe_step K p (follow_status b q)" by (rule follow_status_safe[OF assms])
  then have "panel_ok (follow_status b q)" by (simp add: safe_step_def)
  from safe_trans[OF f restore_identity_safe[OF this]]
  have "safe_step K p (follow_status q (restore_identity (follow_status b q)))"
    by (rule follow_status_safe)
  then show ?thesis
    by (simp add: committed_def Let_def remember_latest_def safe_step_def panel_ok_def follow_status_safe)
qed

lemma panel_step_safe:
  assumes "panel_ok p" and "event_ok e"
  shows "safe_step (clears p e) p (fst (panel_step m L e p))"
proof -
  obtain q c where h: "handle m L e p = (q, c)" by (cases "handle m L e p")
  from handle_safe[OF assms, of m L] h have "safe_step (clears p e) p q" by simp
  from committed_safe[OF this, of p] show ?thesis by (simp add: panel_step_def h)
qed

lemma mount_ok:
  assumes "s \<noteq> None" and "props_ok pr"
  shows "panel_ok (mount_panel d pr s)"
proof -
  obtain pending s' where r: "read_pending pr s = (pending, s')" by fastforce
  have live: "s' \<noteq> None" using assms r storage_live(3)[of s]
    by (auto simp: read_pending_def split: option.splits) (metis option.distinct(1) snd_conv)
  have good: "good_trade t" if "pending = Some t" for t
    using r that read_good(1) by (auto simp: read_pending_def split: option.splits)
  show ?thesis using assms live good r
    by (cases pending) (auto simp: mount_panel_def panel_ok_def good_trade_def Let_def)
qed

text \<open>
  Which executions and recoveries the panel has running: a command starts one, its result ends it. A run is
  timely when every result that arrives is the one of a running call.
\<close>

fun finishes :: "panel_event \<Rightarrow> panel_command option" where
  "finishes (TradeSettled j out now) = Some (CallExecute j)"
| "finishes (RecoverSettled j out now) = Some (CallRecover j)"
| "finishes _ = None"

fun begins :: "panel_command option \<Rightarrow> panel_command list" where
  "begins (Some (CallExecute j)) = [CallExecute j]"
| "begins (Some (CallRecover j)) = [CallRecover j]"
| "begins _ = []"

definition calls_after :: "chain_module \<Rightarrow> panel_library \<Rightarrow> panel_event \<Rightarrow> panel \<Rightarrow> panel_command list \<Rightarrow> panel_command list" where
  "calls_after m L e p cs =
     begins (snd (panel_step m L e p)) @ (case finishes e of None \<Rightarrow> cs | Some c \<Rightarrow> remove1 c cs)"

fun running :: "chain_module \<Rightarrow> panel_library \<Rightarrow> panel_event list \<Rightarrow> panel \<Rightarrow> panel_command list \<Rightarrow> panel_command list" where
  "running m L [] p cs = cs"
| "running m L (e # es) p cs = running m L es (fst (panel_step m L e p)) (calls_after m L e p cs)"

fun timely :: "chain_module \<Rightarrow> panel_library \<Rightarrow> panel_event list \<Rightarrow> panel \<Rightarrow> panel_command list \<Rightarrow> bool" where
  "timely m L [] p cs \<longleftrightarrow> True"
| "timely m L (e # es) p cs \<longleftrightarrow> (case finishes e of None \<Rightarrow> True | Some c \<Rightarrow> c \<in> set cs)
     \<and> timely m L es (fst (panel_step m L e p)) (calls_after m L e p cs)"

lemma timely_append: "timely m L (es @ fs) p cs \<longleftrightarrow> timely m L es p cs \<and> timely m L fs (panel_run m L es p) (running m L es p cs)"
  by (induction es arbitrary: p cs) auto

lemma calls_after_subset: "set (calls_after m L e p cs) \<subseteq> set (begins (snd (panel_step m L e p))) \<union> set cs"
  by (auto simp: calls_after_def split: option.split dest: subsetD[OF set_remove1_subset])

lemma timely_without_results: "list_all (\<lambda>e. finishes e = None) es \<Longrightarrow> timely m L es p cs"
  by (induction es arbitrary: p cs) auto

fun call_key :: "panel_command \<Rightarrow> trade_key option" where
  "call_key (CallExecute j) = Some (tj_token j, tj_wallet j)"
| "call_key (CallRecover j) = Some (rj_token j, rj_wallet j)"
| "call_key (CallQuote j) = None"

text \<open>Nothing runs for a token and a wallet; no trade of them is being executed.\<close>

definition nothing_runs :: "trade_key \<Rightarrow> panel_command list \<Rightarrow> bool" where
  "nothing_runs k cs \<longleftrightarrow> list_all (\<lambda>c. if_some (\<lambda>k'. \<not> same_key k' k) (call_key c)) cs"

fun is_execution :: "panel_command \<Rightarrow> bool" where
  "is_execution (CallExecute j) \<longleftrightarrow> True"
| "is_execution _ \<longleftrightarrow> False"

text \<open>
  What resolves the trade of a job: the end of its own execution, with a final receipt or without anything
  submitted; a check or retry for its token and wallet that comes back with a final receipt; the user's
  confirmed abandonment.
\<close>

fun resolves :: "trade_job \<Rightarrow> panel \<Rightarrow> panel_event \<Rightarrow> bool" where
  "resolves j p (TradeSettled j' out now) \<longleftrightarrow> j' = j \<and> clears p (TradeSettled j' out now) (tj_token j, tj_wallet j)"
| "resolves j p (RecoverSettled r out now) \<longleftrightarrow> clears p (RecoverSettled r out now) (tj_token j, tj_wallet j)"
| "resolves j p (PressAbandon yes) \<longleftrightarrow> clears p (PressAbandon yes) (tj_token j, tj_wallet j)"
| "resolves j p _ \<longleftrightarrow> False"

fun resolved_in :: "chain_module \<Rightarrow> panel_library \<Rightarrow> trade_job \<Rightarrow> panel_event list \<Rightarrow> panel \<Rightarrow> bool" where
  "resolved_in m L j [] p \<longleftrightarrow> False"
| "resolved_in m L j (e # es) p \<longleftrightarrow> resolves j p e \<or> resolved_in m L j es (fst (panel_step m L e p))"

lemma resolved_in_append:
  "resolved_in m L j (es @ fs) p \<longleftrightarrow> resolved_in m L j es p \<or> resolved_in m L j fs (panel_run m L es p)"
  by (induction es arbitrary: p) auto

lemma not_resolves_clears:
  assumes "clears p e (tj_token j, tj_wallet j)" and "\<not> resolves j p e"
  shows "\<exists>j' out now. e = TradeSettled j' out now \<and> j' \<noteq> j \<and> same_key (tj_token j', tj_wallet j') (tj_token j, tj_wallet j)"
  using assms
proof (cases e)
  case (TradeSettled j' out now)
  then show ?thesis using assms by (cases out) (auto simp: same_address_def)
qed auto

lemma run_ok: "panel_ok p \<Longrightarrow> list_all event_ok es \<Longrightarrow> panel_ok (panel_run m L es p)"
proof (induction es arbitrary: p)
  case (Cons e es)
  then have "panel_ok (fst (panel_step m L e p))" using panel_step_safe[of p e m L] by (simp add: safe_step_def)
  then show ?case using Cons by simp
qed simp

lemma stored_same:
  assumes "s \<noteq> None" and "good_key k" and "good_key k'" and "same_key k k'"
  shows "stored k s = stored k' s"
proof -
  obtain mp where s: "s = Some mp" using assms(1) by blast
  have "pendingTradeKey (fst k) (snd k) = pendingTradeKey (fst k') (snd k')"
    using key_eq[of "fst k" "snd k" "fst k'" "snd k'"] assms by simp
  moreover have "trade_under (fst k) (snd k) = trade_under (fst k') (snd k')"
    using assms(4) by (cases k; cases k')
      (auto simp: trade_under_def same_address_def fun_eq_iff split: option.split stored_text.split)
  ultimately show ?thesis by (simp add: stored_def read_key_def s fst_readPendingTrade)
qed

lemma step_confirm:
  "panel_step m L (ConfirmTrade now later) p = (p1, Some (CallExecute j)) \<longleftrightarrow>
     (\<exists>q. submit m L now later p = (q, Some j) \<and> p1 = committed p q)"
  by (cases "submit m L now later p") (auto simp: panel_step_def command_of_def)

lemma submit_started:
  assumes "panel_ok p" and "submit m L now later p = (q, Some j)" and "0 < later"
  shows "good_key (tj_token j, tj_wallet j) \<and> stored (tj_token j, tj_wallet j) (p_storage p) = None
    \<and> (\<exists>t. stored (tj_token j, tj_wallet j) (p_storage q) = Some t \<and> pt_hash t = None
         \<and> pt_status t = PConfirmationUnknown \<and> pt_side t = tj_side j)"
proof -
  from submit_Some[OF assms(2)] obtain rq :: quote_record and w s where f: "truthy (pp_wallet (p_props p)) = Some w"
    "readPendingTrade (pp_token (p_props p)) w (p_storage p) = (None, s)"
    "q = persistHashlessUnknown (quote_side (qr_quote rq)) w (pp_token (p_props p)) later
        (p\<lparr>p_error := '''', p_storage := s, p_operation := True, p_interaction := False, p_approvalHash := None,
           p_status := TPreparing\<rparr>)"
    "j = \<lparr>tj_side = quote_side (qr_quote rq), tj_wallet = w, tj_token = pp_token (p_props p),
        tj_identity = p_identity p, tj_generation = p_generation p, tj_record = rq\<rparr>"
    by (elim exE conjE) (rule that, assumption+)
  have key: "good_key (pp_token (p_props p), w)"
    using assms(1) f(1) by (auto simp: panel_ok_def props_ok_def truthy_def split: option.splits if_splits)
  have live: "s \<noteq> None" using storage_live(3)[of "p_storage p" "pp_token (p_props p)" w] f(2) assms(1)
    by (simp add: panel_ok_def)
  have time: "positive_finite (submitted_at p later)" by (rule time_ok[OF assms(1,3)])
  have "stored (pp_token (p_props p), w) (p_storage p) = None" using f(2) by (simp add: stored_def read_key_def)
  moreover have "p_storage q = persistPendingTrade \<lparr>pt_walletAddress = w, pt_tokenAddress = pp_token (p_props p),
      pt_side = quote_side (qr_quote rq), pt_hash = None, pt_status = PConfirmationUnknown,
      pt_submittedAt = submitted_at p later, pt_recovery = None\<rparr> s"
    by (simp add: f(3) persistHashlessUnknown_def submitted_at_def)
  ultimately show ?thesis using stored_persist[OF live _ key] key time
    by (simp add: f(4) good_trade_def trade_key_def)
qed

text \<open>The trading panel as a locked machine: for one token and wallet, the lock is the stored trade.\<close>

definition panel_starts :: "chain_module \<Rightarrow> panel_library \<Rightarrow> trade_key \<Rightarrow> panel_event \<Rightarrow> panel \<Rightarrow> bool" where
  "panel_starts m L k e p \<longleftrightarrow> panel_ok p \<and> event_ok e \<and> good_key k
     \<and> (\<exists>now later j. e = ConfirmTrade now later \<and> snd (panel_step m L e p) = Some (CallExecute j)
          \<and> same_key (tj_token j, tj_wallet j) k)"

definition panel_locked :: "trade_key \<Rightarrow> panel \<Rightarrow> bool" where
  "panel_locked k p \<longleftrightarrow> panel_ok p \<and> good_key k \<and> stored k (p_storage p) \<noteq> None"

lemma panel_starts_locks:
  assumes "panel_starts m L k e p"
  shows "\<not> panel_locked k p \<and> panel_locked k (fst (panel_step m L e p))"
proof -
  obtain now later j p1 where e: "panel_ok p" "good_key k" "e = ConfirmTrade now later" "0 < later"
    "panel_step m L e p = (p1, Some (CallExecute j))" "same_key (tj_token j, tj_wallet j) k"
    using assms unfolding panel_starts_def by (metis event_ok.simps(2) prod.collapse)
  from e(5)[unfolded e(3)] obtain q where q: "submit m L now later p = (q, Some j)" "p1 = committed p q"
    unfolding step_confirm by blast
  note start = submit_started[OF e(1) q(1) e(4)]
  have okq: "panel_ok q" using submit_safe[OF e(1,4), of _ m L now] q(1) by (auto simp: safe_step_def)
  have "safe_step (\<lambda>_. False) q p1" unfolding q(2) by (rule committed_safe[OF safe_same[OF okq refl]])
  then have p1: "panel_ok p1" "stored (tj_token j, tj_wallet j) (p_storage p1) \<noteq> None"
    using start unfolding safe_step_def by blast+
  have same: "stored (tj_token j, tj_wallet j) s = stored k s" if "s \<noteq> None" for s
    by (rule stored_same[OF that _ e(2,6)]) (use start in blast)
  have "p_storage p \<noteq> None" "p_storage p1 \<noteq> None" using e(1) p1(1) by (simp_all add: panel_ok_def)
  then show ?thesis using start p1 e(2,5) by (simp add: panel_locked_def same)
qed

interpretation panel_lock: locked_machine "\<lambda>e p. fst (panel_step m L e p)" "panel_starts m L k" "panel_locked k"
    "\<lambda>e p. clears p e k \<or> \<not> event_ok e" for m L k
proof unfold_locales
  show "panel_locked k (fst (panel_step m L e p))" if "panel_locked k p" "\<not> (clears p e k \<or> \<not> event_ok e)" for e p
    using that panel_step_safe[of p e m L] unfolding panel_locked_def safe_step_def by blast
qed (use panel_starts_locks in blast)+

lemma panel_run_events: "panel_run m L es p = run_events (\<lambda>e p. fst (panel_step m L e p)) es p"
  by (induction es arbitrary: p) auto

lemma step_executes:
  assumes "snd (panel_step m L e p) = Some (CallExecute j)"
  shows "\<exists>now later. e = ConfirmTrade now later"
  using assms by (cases e) (auto simp: panel_step_def command_of_def split: prod.splits if_splits)

text \<open>
  The lock of a trade over a run: as long as nothing resolves it, its record stays, and the only execution
  of its token and wallet that can be running is its own.
\<close>

definition alone :: "trade_job \<Rightarrow> panel_command list \<Rightarrow> bool" where
  "alone j cs \<longleftrightarrow> (\<forall>j'. CallExecute j' \<in> set cs \<longrightarrow> same_key (tj_token j', tj_wallet j') (tj_token j, tj_wallet j) \<longrightarrow> j' = j)"

lemma alone_step:
  assumes "panel_locked (tj_token j, tj_wallet j) p" and "event_ok e" and "alone j cs"
    and "case finishes e of None \<Rightarrow> True | Some c \<Rightarrow> c \<in> set cs" and "\<not> resolves j p e"
  shows "panel_locked (tj_token j, tj_wallet j) (fst (panel_step m L e p)) \<and> alone j (calls_after m L e p cs)
    \<and> \<not> clears p e (tj_token j, tj_wallet j)"
proof -
  let ?k = "(tj_token j, tj_wallet j)"
  have keeps: "\<not> clears p e ?k"
  proof
    assume "clears p e ?k"
    from not_resolves_clears[OF this assms(5)] assms(3,4) show False by (auto simp: alone_def)
  qed
  have "alone j (calls_after m L e p cs)" unfolding alone_def
  proof (intro allI impI)
    fix j' assume j': "CallExecute j' \<in> set (calls_after m L e p cs)" "same_key (tj_token j', tj_wallet j') ?k"
    show "j' = j"
    proof (cases "snd (panel_step m L e p) = Some (CallExecute j')")
      case True
      from step_executes[OF True] obtain now later where "e = ConfirmTrade now later" by blast
      then have "panel_starts m L ?k e p"
        using True j'(2) assms(1,2) by (auto simp: panel_starts_def panel_locked_def)
      from panel_starts_locks[OF this] assms(1) show ?thesis by blast
    next
      case False
      then have "CallExecute j' \<notin> set (begins (snd (panel_step m L e p)))"
        by (cases "snd (panel_step m L e p)" rule: begins.cases) auto
      then show ?thesis using calls_after_subset j' assms(3) unfolding alone_def by blast
    qed
  qed
  then show ?thesis using panel_lock.keeps_lock[OF assms(1), of e] keeps assms(2) by blast
qed

lemma alone_run:
  assumes "panel_locked (tj_token j, tj_wallet j) p" and "list_all event_ok es" and "alone j cs" and "timely m L es p cs"
    and "\<not> resolved_in m L j es p"
  shows "panel_locked (tj_token j, tj_wallet j) (panel_run m L es p) \<and> alone j (running m L es p cs)"
  using assms
proof (induction es arbitrary: p cs)
  case (Cons e es)
  from alone_step[of j p e cs m L] Cons.prems Cons.IH[of "fst (panel_step m L e p)" "calls_after m L e p cs"]
  show ?case by simp
qed simp

lemma alone_started:
  assumes "nothing_runs (tj_token j, tj_wallet j) (filter is_execution cs)"
    and "panel_step m L (ConfirmTrade now later) p = (p1, Some (CallExecute j))"
  shows "alone j (calls_after m L (ConfirmTrade now later) p cs)"
  using assms by (fastforce simp: alone_def calls_after_def nothing_runs_def list_all_iff)


text \<open>C10: a trade is only started from an idle panel with the gateway conditions of the moment: the panel was not
  locked or busy, the wallet connected, ready and on the selected chain, no trade of the token and wallet was
  stored, the quote was the one shown, not yet expired, made for this wallet, token, chain and curve state,
  and covered by the balance; and before the trade runs, a record without a hash is stored for it, so that a
  reload cannot forget it.\<close>

theorem panel_submission_guarded:
  assumes "panel_ok p" and "0 < later" and "panel_step m L (ConfirmTrade now later) p = (p1, Some (CallExecute j))"
  shows "\<not> locked p \<and> \<not> p_operation p \<and> pp_connected (p_props p) \<and> pp_ready (p_props p)
    \<and> pp_wallet (p_props p) = Some (tj_wallet j) \<and> pp_token (p_props p) = tj_token j
    \<and> pp_chain (p_props p) = Some (selectedCooketChainId m)
    \<and> p_quote p = Some (tj_record j) \<and> \<not> p_stale p \<and> now < quoteExpiresAt (tj_record j) \<and> may_trade (tj_record j) p
    \<and> tj_side j = quote_side (qr_quote (tj_record j)) \<and> tj_identity j = p_identity p
    \<and> stored (tj_token j, tj_wallet j) (p_storage p) = None
    \<and> (\<exists>t. stored (tj_token j, tj_wallet j) (p_storage p1) = Some t)"
proof -
  from assms(3) obtain q where q: "submit m L now later p = (q, Some j)" "p1 = committed p q" unfolding step_confirm by blast
  note start = submit_started[OF assms(1) q(1) assms(2)]
  have okq: "panel_ok q" using submit_safe[OF assms(1,2), of _ m L now] q(1) by (auto simp: safe_step_def)
  have "safe_step (\<lambda>_. False) q p1" unfolding q(2) by (rule committed_safe[OF safe_same[OF okq refl]])
  then have "stored (tj_token j, tj_wallet j) (p_storage p1) \<noteq> None" using start unfolding safe_step_def by blast
  moreover from submit_Some[OF q(1)] obtain rq :: quote_record and w s where f: "p_quote p = Some rq" "\<not> p_operation p" "\<not> locked p"
    "truthy (pp_wallet (p_props p)) = Some w" "pp_connected (p_props p)" "pp_ready (p_props p)"
    "pp_chain (p_props p) = Some (selectedCooketChainId m)" "\<not> p_stale p" "now < quoteExpiresAt rq"
    "may_trade rq (p\<lparr>p_error := '''', p_storage := s\<rparr>)"
    "j = \<lparr>tj_side = quote_side (qr_quote rq), tj_wallet = w, tj_token = pp_token (p_props p),
        tj_identity = p_identity p, tj_generation = p_generation p, tj_record = rq\<rparr>"
    by (elim exE conjE) (rule that, assumption+)
  moreover have "may_trade rq p" using f(10) unfolding may_trade_display .
  moreover have "pp_wallet (p_props p) = Some w" using f(4) by (auto simp: truthy_def split: option.splits if_splits)
  ultimately show ?thesis using start by auto
qed

subsection \<open>Recovery data that is lost\<close>

text \<open>The panel when it finds the trade of another tab, and what it stores when the user then recovers it.\<close>

lemma submit_finds_existing:
  assumes "\<not> p_operation p" and "\<not> locked p" and "p_quote p \<noteq> None" and "pp_connected (p_props p)" and "pp_ready (p_props p)"
    and "truthy (pp_wallet (p_props p)) = Some w" and "pp_chain (p_props p) = Some (selectedCooketChainId m)"
    and "readPendingTrade (pp_token (p_props p)) w (p_storage p) = (Some t, s)"
  shows "\<exists>e. submit m L now later p = (p\<lparr>p_storage := s, p_side := pt_side t, p_hash := pt_hash t,
      p_submittedHash := pt_hash t, p_submittedAt := Some (pt_submittedAt t), p_status := TConfirmationUnknown,
      p_error := e\<rparr>, None)"
proof -
  have "pp_wallet (p_props p) = Some w" using assms(6) by (auto simp: truthy_def split: option.splits if_splits)
  then show ?thesis using assms by (auto simp: submit_def Let_def)
qed

text \<open>While the wallet and token stay, a render keeps everything but the modal and the latest ref.\<close>

lemma follow_status_more: "\<exists>md. follow_status b p = p\<lparr>p_modal := md\<rparr>"
proof (cases "p_status b = p_status p \<and> p_side b = p_side p \<or> tradeModalPhase (p_status p) (p_side p) = None")
  case True
  then have "follow_status b p = p\<lparr>p_modal := p_modal p\<rparr>" by (auto simp: follow_status_def)
  then show ?thesis by blast
qed (auto simp: follow_status_def)

lemma committed_settled:
  assumes "p_previous q = p_identity q"
  shows "\<exists>md x. committed b q = q\<lparr>p_modal := md, p_latest := x\<rparr>"
proof -
  obtain md where 1: "follow_status b q = q\<lparr>p_modal := md\<rparr>" using follow_status_more by blast
  have 2: "restore_identity (q\<lparr>p_modal := md\<rparr>) = q\<lparr>p_modal := md\<rparr>"
    using assms by (simp add: restore_identity_def p_identity_def)
  obtain md' where 3: "follow_status q (q\<lparr>p_modal := md\<rparr>) = q\<lparr>p_modal := md\<rparr>\<lparr>p_modal := md'\<rparr>"
    using follow_status_more by blast
  show ?thesis by (simp add: committed_def 1 2 3 remember_latest_def) blast
qed

text \<open>C34: recovery data does not survive a second tab. A panel without recovery data of its own that is asked to trade
  while another tab's trade with recovery data is stored refuses, as it should, but forgets to take over that
  data: when the user then checks or resumes that trade, the check runs without the data, and the stored
  record is overwritten with one that has none, so a replaced transaction can no longer be found.\<close>

theorem recovery_data_lost:
  assumes "panel_ok p" and "\<not> p_operation p" and "\<not> locked p" and "p_quote p \<noteq> None" and "pp_connected (p_props p)"
    and "pp_ready (p_props p)" and "pp_wallet (p_props p) = Some w" and "pp_chain (p_props p) = Some (selectedCooketChainId m)"
    and "p_previous p = p_identity p" and "p_recovery p = None"
    and "stored (pp_token (p_props p), w) (p_storage p) = Some t" and "pt_hash t = Some h" and "pt_recovery t = Some r"
    and "0 < clock"
  shows "\<exists>p2 j t'. panel_step m L (PressRecover check clock) (fst (panel_step m L (ConfirmTrade now later) p)) = (p2, Some (CallRecover j))
    \<and> rj_hash j = h \<and> rj_recovery j = None
    \<and> stored (pp_token (p_props p), w) (p_storage p2) = Some t' \<and> pt_hash t' = Some h \<and> pt_recovery t' = None"
proof -
  have w: "truthy (pp_wallet (p_props p)) = Some w" "good_key (pp_token (p_props p), w)"
    using assms(1,7) address_truthy[of "Some w"] by (auto simp: panel_ok_def props_ok_def)
  obtain s where r: "readPendingTrade (pp_token (p_props p)) w (p_storage p) = (Some t, s)"
    using assms(11) by (cases "readPendingTrade (pp_token (p_props p)) w (p_storage p)") (simp add: stored_def read_key_def)
  then have good: "good_trade t" "s = p_storage p" using read_good by blast+
  from submit_finds_existing[OF assms(2-6) w(1) assms(8) r] obtain e where
    sub: "submit m L now later p = (p\<lparr>p_storage := s, p_side := pt_side t, p_hash := pt_hash t,
      p_submittedHash := pt_hash t, p_submittedAt := Some (pt_submittedAt t), p_status := TConfirmationUnknown,
      p_error := e\<rparr>, None)" by blast
  let ?q = "fst (panel_step m L (ConfirmTrade now later) p)"
  let ?found = "p\<lparr>p_storage := s, p_side := pt_side t, p_hash := pt_hash t, p_submittedHash := pt_hash t,
      p_submittedAt := Some (pt_submittedAt t), p_status := TConfirmationUnknown, p_error := e\<rparr>"
  have "p_previous ?found = p_identity ?found" using assms(9) by (simp add: p_identity_def)
  from committed_settled[OF this, of p] obtain md x where "committed p ?found = ?found\<lparr>p_modal := md, p_latest := x\<rparr>" by blast
  then have found: "?q = ?found\<lparr>p_modal := md, p_latest := x\<rparr>" by (simp add: panel_step_def command_of_def sub)
  have q: "p_operation ?q = False" "p_hash ?q = Some h" "p_recovery ?q = None" "p_props ?q = p_props p"
    "p_submittedAt ?q = Some (pt_submittedAt t)" "p_storage ?q = p_storage p" "p_previous ?q = p_identity ?q"
    unfolding found using assms(2,9,10,12) good(2) by (simp_all add: p_identity_def)
  have h: "truthy (Some h) = Some h" "hash_pattern h" using good(1) assms(12) hash_truthy[of "Some h"]
    by (auto simp: good_trade_def)
  let ?t = "\<lparr>pt_walletAddress = w, pt_tokenAddress = pp_token (p_props p), pt_side = p_side ?q, pt_hash = Some h,
      pt_status = PConfirming, pt_submittedAt = pt_submittedAt t, pt_recovery = None\<rparr>"
  let ?q1 = "?q\<lparr>p_operation := True, p_status := TConfirming, p_error := ''''\<rparr>"
  have step: "recover check clock ?q = (persist_trade (p_side ?q) h PConfirming w (pp_token (p_props p)) None clock ?q1,
     Some \<lparr>rj_check = check, rj_side = p_side ?q, rj_hash = h, rj_recovery = None, rj_wallet = w,
       rj_token = pp_token (p_props p), rj_identity = p_identity ?q, rj_generation = p_generation ?q\<rparr>)"
    using q w(1) h by (simp add: recover_def Let_def)
  have st: "p_storage (persist_trade (p_side ?q) h PConfirming w (pp_token (p_props p)) None clock ?q1)
      = persistPendingTrade ?t (p_storage p)"
    using q by (simp add: persist_trade_def submitted_at_def)
  have "good_trade ?t" using good(1) h(2) w(2) by (simp add: good_trade_def)
  from stored_persist[OF _ this w(2), of "p_storage p"]
  have "stored (pp_token (p_props p), w) (persistPendingTrade ?t (p_storage p)) = Some ?t"
    using assms(1) by (simp add: trade_key_def panel_ok_def)
  moreover have "p_previous (persist_trade (p_side ?q) h PConfirming w (pp_token (p_props p)) None clock ?q1)
      = p_identity (persist_trade (p_side ?q) h PConfirming w (pp_token (p_props p)) None clock ?q1)"
    using q(7) by (simp add: persist_trade_def p_identity_def)
  from committed_settled[OF this, of ?q]
  have "p_storage (committed ?q (persist_trade (p_side ?q) h PConfirming w (pp_token (p_props p)) None clock ?q1))
      = persistPendingTrade ?t (p_storage p)"
    using st by (elim exE) simp
  ultimately show ?thesis using step by (auto simp: panel_step_def command_of_def)
qed

subsection \<open>A trade on each of two wallets\<close>

lemma quoteExpiresAt_small:
  assumes "\<bar>quote_deadline (qr_quote r)\<bar> \<le> 9007199254740"
  shows "quoteExpiresAt r = min (qr_createdAt r + QUOTE_TTL_MS) (quote_deadline (qr_quote r) * 1000)"
proof -
  let ?d = "quote_deadline (qr_quote r)"
  have "double_of (of_int ?d) = num_of ?d" using assms by (intro double_of_int) simp
  moreover have "double_of (of_int (?d * 1000)) = num_of (?d * 1000)" using assms by (intro double_of_int) simp
  moreover have "\<lfloor>of_int ?d * 1000 :: rat\<rfloor> = ?d * 1000" by (metis floor_of_int of_int_mult of_int_numeral)
  ultimately show ?thesis using assms by (simp add: quoteExpiresAt_def max_safe_def)
qed

lemma submit_goes:
  assumes "p_quote p = Some rq" and "\<not> p_operation p" and "\<not> locked p" and "truthy (pp_wallet (p_props p)) = Some w"
    and "pp_connected (p_props p)" and "pp_ready (p_props p)" and "pp_chain (p_props p) = Some (selectedCooketChainId m)"
    and "readPendingTrade (pp_token (p_props p)) w (p_storage p) = (None, s)"
    and "\<not> p_stale p" and "now < quoteExpiresAt rq" and "may_trade rq p"
  shows "submit m L now later p =
    (persistHashlessUnknown (quote_side (qr_quote rq)) w (pp_token (p_props p)) later
        (p\<lparr>p_error := '''', p_storage := s, p_operation := True, p_interaction := False, p_approvalHash := None,
           p_status := TPreparing\<rparr>),
     Some \<lparr>tj_side = quote_side (qr_quote rq), tj_wallet = w, tj_token = pp_token (p_props p),
        tj_identity = p_identity p, tj_generation = p_generation p, tj_record = rq\<rparr>)"
proof -
  have w: "pp_wallet (p_props p) = Some w" using assms(4) by (auto simp: truthy_def split: option.splits if_splits)
  have "submit_refusal m L rq (p\<lparr>p_error := '''', p_storage := s\<rparr>) = None"
    unfolding submit_refusal_None may_trade_display by (rule assms(11))
  then show ?thesis using assms w by (simp add: submit_def Let_def)
qed

lemma quote_shown:
  assumes "p_request p = qj_id j" and "p_latest p = (qj_identity j, qj_chain j, qj_fingerprint j)"
    and "qj_chain j = Some (selectedCooketChainId m)" and "p_previous p = p_identity p"
  shows "\<exists>md x. fst (panel_step m L (QuoteAnswer j (Inr q) now) p) =
    p\<lparr>p_quote := Some \<lparr>qr_quote = q, qr_createdAt = now, qr_identity = qj_identity j, qr_fingerprint = qj_fingerprint j,
        qr_chain = qj_chain j\<rparr>, p_loading := False, p_modal := md, p_latest := x\<rparr>"
proof -
  let ?q = "p\<lparr>p_quote := Some \<lparr>qr_quote = q, qr_createdAt = now, qr_identity = qj_identity j, qr_fingerprint = qj_fingerprint j,
        qr_chain = qj_chain j\<rparr>, p_loading := False\<rparr>"
  have "quoteAnswered m j (Inr q) now p = ?q" using assms by (simp add: quoteAnswered_def)
  moreover have "p_previous ?q = p_identity ?q" using assms(4) by (simp add: p_identity_def)
  ultimately show ?thesis using committed_settled[of ?q p] by (simp add: panel_step_def)
qed

definition demo_token :: string where
  "demo_token = ''0x'' @ replicate 40 (CHR ''c'')"

definition demo_wallet :: "char \<Rightarrow> string" where
  "demo_wallet d = ''0x'' @ replicate 40 d"

definition demo_state :: curve_trade_state where
  "demo_state = \<lparr>ts_curveSupply = 100, ts_soldSupply = 0, ts_reserveBalance = 0, ts_graduationThreshold = 50,
     ts_lifecycle = 0, ts_nativeBalance = 100, ts_tokenBalance = 0, ts_allowance = 0, ts_decimals = 18\<rparr>"

definition demo_props :: "char \<Rightarrow> panel_props" where
  "demo_props d = \<lparr>pp_connected = True, pp_ready = True, pp_message = None, pp_chain = Some 5042002,
     pp_wallet = Some (demo_wallet d), pp_token = demo_token, pp_symbol = ''T'', pp_state = Some demo_state,
     pp_statePending = False, pp_stateError = None\<rparr>"

definition demo_quote :: trade_quote where
  "demo_quote = BuyQuote \<lparr>bud_quote = \<lparr>byq_reserveIn = 10, byq_curveCost = 10, byq_protocolFee = 0, byq_creatorFee = 0,
     byq_acceptedGross = None, byq_netCurveInput = None, byq_tokensOut = None\<rparr>, bud_tokenAmount = 40,
     bud_maxReserveIn = 10, bud_slippageBps = Fin 100, bud_deadline = 2000\<rparr>"

definition demo_answer :: "nat \<Rightarrow> char \<Rightarrow> panel_event" where
  "demo_answer n d = QuoteAnswer \<lparr>qj_id = n, qj_side = Buy, qj_amount = 10, qj_bps = 100,
     qj_identity = tradeIdentity demo_token (Some (demo_wallet d)),
     qj_fingerprint = tradeStateFingerprint (Some demo_state) Buy, qj_chain = Some 5042002\<rparr> (Inr demo_quote) 1000000"

definition demo_latest :: "char \<Rightarrow> string \<times> int option \<times> string" where
  "demo_latest d = (tradeIdentity demo_token (Some (demo_wallet d)), Some 5042002, tradeStateFingerprint (Some demo_state) Buy)"

definition demo_idle :: "nat \<Rightarrow> char \<Rightarrow> panel \<Rightarrow> bool" where
  "demo_idle n d p \<longleftrightarrow> p_props p = demo_props d \<and> p_operation p = False \<and> p_status p = TIdle \<and> p_stale p = False
     \<and> p_side p = Buy \<and> p_request p = n \<and> p_latest p = demo_latest d \<and> p_previous p = p_identity p"

lemma demo_wallet_ok:
  assumes "is_hex d"
  shows "truthy (Some (demo_wallet d)) = Some (demo_wallet d)" "address_pattern (demo_wallet d)" "address_pattern demo_token"
proof -
  have "list_all is_hex (replicate 40 d)" using assms by (simp add: list_all_iff)
  then show "truthy (Some (demo_wallet d)) = Some (demo_wallet d)" "address_pattern (demo_wallet d)"
    by (simp_all add: demo_wallet_def truthy_def address_pattern_def hex_pattern_def)
  show "address_pattern demo_token" by code_simp
qed

lemma demo_props_ok: "is_hex d \<Longrightarrow> props_ok (demo_props d)"
  by (simp add: props_ok_def demo_props_def demo_wallet_ok)

text \<open>An idle panel that shows no pending trade gets its quote and starts.\<close>

lemma demo_starts:
  assumes "is_hex d" and "demo_idle n d p" and "readPendingTrade demo_token (demo_wallet d) (p_storage p) = (None, s)"
  shows "\<exists>p1 j. panel_step sample_module L (ConfirmTrade 1000005 1000006) (fst (panel_step sample_module L (demo_answer n d) p))
      = (p1, Some (CallExecute j))
    \<and> tj_token j = demo_token \<and> tj_wallet j = demo_wallet d \<and> p_request p1 = n \<and> p_previous p1 = p_identity p1
    \<and> p_props p1 = demo_props d
    \<and> p_storage p1 = persistPendingTrade \<lparr>pt_walletAddress = demo_wallet d, pt_tokenAddress = demo_token, pt_side = Buy,
        pt_hash = None, pt_status = PConfirmationUnknown, pt_submittedAt = submitted_at p 1000006, pt_recovery = None\<rparr> s
    \<and> qr_quote (tj_record j) = demo_quote"
proof -
  have chain: "selectedCooketChainId sample_module = 5042002"
    by (simp add: selectedCooketChainId_def sample_module_def sample_chain_def)
  have id: "p_identity p = tradeIdentity demo_token (Some (demo_wallet d))"
    using assms(2) by (simp add: demo_idle_def p_identity_def demo_props_def)
  obtain md x where shown: "fst (panel_step sample_module L (demo_answer n d) p) =
    p\<lparr>p_quote := Some \<lparr>qr_quote = demo_quote, qr_createdAt = 1000000,
        qr_identity = tradeIdentity demo_token (Some (demo_wallet d)),
        qr_fingerprint = tradeStateFingerprint (Some demo_state) Buy, qr_chain = Some 5042002\<rparr>,
      p_loading := False, p_modal := md, p_latest := x\<rparr>" (is "_ = ?q")
    using quote_shown[of p "\<lparr>qj_id = n, qj_side = Buy, qj_amount = 10, qj_bps = 100,
     qj_identity = tradeIdentity demo_token (Some (demo_wallet d)),
     qj_fingerprint = tradeStateFingerprint (Some demo_state) Buy, qj_chain = Some 5042002\<rparr>" sample_module L demo_quote 1000000]
      assms(2) chain id unfolding demo_answer_def by (auto simp: demo_idle_def demo_latest_def)
  let ?rq = "\<lparr>qr_quote = demo_quote, qr_createdAt = 1000000, qr_identity = tradeIdentity demo_token (Some (demo_wallet d)),
        qr_fingerprint = tradeStateFingerprint (Some demo_state) Buy, qr_chain = Some 5042002\<rparr>"
  have fresh: "1000005 < quoteExpiresAt ?rq"
    by (subst quoteExpiresAt_small) (simp_all add: demo_quote_def QUOTE_TTL_MS_def)
  have may: "may_trade ?rq ?q"
    using assms(2) unfolding may_trade_def p_identity_def p_fingerprint_def sideAllowed_def
    by (simp add: demo_idle_def demo_props_def demo_quote_def) (simp add: demo_state_def)
  have goes: "submit sample_module L 1000005 1000006 ?q =
    (persistHashlessUnknown Buy (demo_wallet d) demo_token 1000006
        (?q\<lparr>p_error := '''', p_storage := s, p_operation := True, p_interaction := False, p_approvalHash := None,
           p_status := TPreparing\<rparr>),
     Some \<lparr>tj_side = Buy, tj_wallet = demo_wallet d, tj_token = demo_token,
        tj_identity = p_identity ?q, tj_generation = p_generation ?q, tj_record = ?rq\<rparr>)" (is "_ = (?r, Some ?j)")
    using submit_goes[of ?q ?rq "demo_wallet d" sample_module s 1000005 L 1000006] assms fresh may chain
    by (simp add: demo_idle_def demo_props_def demo_wallet_ok locked_def blockingStatuses_def demo_quote_def)
  have "p_previous ?r = p_identity ?r"
    using assms(2) by (simp add: demo_idle_def persistHashlessUnknown_def p_identity_def)
  from committed_settled[OF this, of ?q] obtain md' x' where c: "committed ?q ?r = ?r\<lparr>p_modal := md', p_latest := x'\<rparr>" by blast
  have "panel_step sample_module L (ConfirmTrade 1000005 1000006) ?q = (committed ?q ?r, Some (CallExecute ?j))"
    by (simp add: panel_step_def command_of_def goes)
  then show ?thesis unfolding shown c using assms(2)
    by (intro exI[of _ "?r\<lparr>p_modal := md', p_latest := x'\<rparr>"] exI[of _ ?j])
       (simp add: demo_idle_def persistHashlessUnknown_def p_identity_def submitted_at_def)
qed

lemma demo_wallets_differ:
  "\<not> same_address (demo_wallet (CHR ''b'')) (demo_wallet (CHR ''a''))"
  "tradeIdentity demo_token (Some (demo_wallet (CHR ''a''))) \<noteq> tradeIdentity demo_token (Some (demo_wallet (CHR ''b'')))"
  "is_hex (CHR ''a'')" "is_hex (CHR ''b'')"
  by code_simp+

lemma demo_mounted: "demo_idle 0 (CHR ''a'') (mount_panel d (demo_props (CHR ''a'')) (Some (\<lambda>_. None)))"
  "p_storage (mount_panel d (demo_props (CHR ''a'')) (Some (\<lambda>_. None))) = Some (\<lambda>_. None)"
  using demo_wallet_ok(1)[OF demo_wallets_differ(3)]
  by (simp_all add: mount_panel_def read_pending_def readPendingTrade_def demo_props_def demo_idle_def
      demo_latest_def p_identity_def Let_def)

lemma demo_switched:
  assumes "p_props p = demo_props (CHR ''a'')" and "p_previous p = p_identity p" and "p_request p = n"
    and "readPendingTrade demo_token (demo_wallet (CHR ''b'')) (p_storage p) = (None, s)"
  shows "demo_idle (Suc n) (CHR ''b'') (fst (panel_step m L (NewProps (demo_props (CHR ''b''))) p))"
    "p_storage (fst (panel_step m L (NewProps (demo_props (CHR ''b''))) p)) = s"
    "p_submittedAt (fst (panel_step m L (NewProps (demo_props (CHR ''b''))) p)) = None"
proof -
  let ?q = "p\<lparr>p_props := demo_props (CHR ''b'')\<rparr>"
  have f: "follow_status p ?q = ?q" by (simp add: follow_status_def)
  have ids: "p_identity ?q = tradeIdentity demo_token (Some (demo_wallet (CHR ''b'')))"
    "p_previous ?q \<noteq> p_identity ?q"
    using assms(1,2) demo_wallets_differ(2) by (simp_all add: p_identity_def demo_props_def)
  have r: "read_pending (p_props ?q) (p_storage ?q) = (None, s)"
    using assms(4) demo_wallet_ok(1)[OF demo_wallets_differ(4)] by (simp add: read_pending_def demo_props_def)
  have "restore_identity ?q = ?q\<lparr>p_previous := p_identity ?q, p_generation := p_generation p + 1,
      p_request := n + 1, p_operation := False, p_interaction := False, p_approvalHash := None, p_recovery := None,
      p_submittedHash := None, p_submittedAt := None, p_side := Buy, p_quote := None, p_stale := False,
      p_loading := False, p_status := TIdle, p_hash := None, p_error := '''', p_storage := s\<rparr>" (is "_ = ?r")
    using ids(2) r assms(3) by (simp add: restore_identity_def)
  then have "fst (panel_step m L (NewProps (demo_props (CHR ''b''))) p) = remember_latest (follow_status ?q ?r)"
    unfolding panel_step_def handle.simps committed_def by (simp only: prod.case fst_conv f Let_def)
  also have "follow_status ?q ?r = ?r" by (simp add: follow_status_def)
  finally have eq: "fst (panel_step m L (NewProps (demo_props (CHR ''b''))) p) = remember_latest ?r" .
  show "demo_idle (Suc n) (CHR ''b'') (fst (panel_step m L (NewProps (demo_props (CHR ''b''))) p))"
    "p_storage (fst (panel_step m L (NewProps (demo_props (CHR ''b''))) p)) = s"
    "p_submittedAt (fst (panel_step m L (NewProps (demo_props (CHR ''b''))) p)) = None"
    using ids(1) unfolding eq
    by (simp_all add: remember_latest_def demo_idle_def demo_latest_def p_identity_def p_fingerprint_def demo_props_def)
qed

lemma demo_second_wallet_free:
  assumes "positive_finite t"
  shows "readPendingTrade demo_token (demo_wallet (CHR ''b'')) (persistPendingTrade
    \<lparr>pt_walletAddress = demo_wallet (CHR ''a''), pt_tokenAddress = demo_token, pt_side = Buy, pt_hash = None,
     pt_status = PConfirmationUnknown, pt_submittedAt = t, pt_recovery = None\<rparr> (Some (\<lambda>_. None)))
   = (None, persistPendingTrade
    \<lparr>pt_walletAddress = demo_wallet (CHR ''a''), pt_tokenAddress = demo_token, pt_side = Buy, pt_hash = None,
     pt_status = PConfirmationUnknown, pt_submittedAt = t, pt_recovery = None\<rparr> (Some (\<lambda>_. None)))"
proof -
  have "pendingTradeKey demo_token (demo_wallet (CHR ''b'')) \<noteq> pendingTradeKey demo_token (demo_wallet (CHR ''a''))"
    using pendingTradeKey_eq[of "demo_wallet (CHR ''b'')" "demo_wallet (CHR ''a'')" demo_token demo_token]
      demo_wallets_differ(1) by (simp add: demo_wallet_def)
  then show ?thesis by (simp add: readPendingTrade_def persistPendingTrade_def)
qed

definition demo_library :: panel_library where
  "demo_library = \<lparr>pl_parseUnits = (\<lambda>s d. Inr (int (digits_value s))), pl_formatSymbol = (\<lambda>s. s)\<rparr>"


theorem panel_submission_guarded_witness:
  "\<exists>p p1 j. panel_step sample_module demo_library (ConfirmTrade 1000005 1000006) p = (p1, Some (CallExecute j))
    \<and> p = fst (panel_step sample_module demo_library (demo_answer 0 (CHR ''a''))
         (mount_panel [] (demo_props (CHR ''a'')) (Some (\<lambda>_. None))))
    \<and> may_trade (tj_record j) p \<and> (\<exists>t. stored (demo_token, demo_wallet (CHR ''a'')) (p_storage p1) = Some t)"
proof -
  let ?M = "mount_panel [] (demo_props (CHR ''a'')) (Some (\<lambda>_. None))"
  let ?p = "fst (panel_step sample_module demo_library (demo_answer 0 (CHR ''a'')) ?M)"
  have "readPendingTrade demo_token (demo_wallet (CHR ''a'')) (p_storage ?M) = (None, Some (\<lambda>_. None))"
    by (simp add: demo_mounted(2) readPendingTrade_def)
  from demo_starts[OF demo_wallets_differ(3) demo_mounted(1) this, of demo_library]
  obtain p1 j where s: "panel_step sample_module demo_library (ConfirmTrade 1000005 1000006) ?p = (p1, Some (CallExecute j))"
    "tj_token j = demo_token" "tj_wallet j = demo_wallet (CHR ''a'')"
    by (elim exE conjE) (rule that, assumption+)
  have "panel_ok ?M" using mount_ok[of "Some (\<lambda>_. None)"] demo_props_ok[OF demo_wallets_differ(3)] by simp
  then have "panel_ok ?p" using run_ok[of ?M "[demo_answer 0 (CHR ''a'')]" sample_module demo_library]
    by (simp add: demo_answer_def)
  from panel_submission_guarded[OF this _ s(1)] have "may_trade (tj_record j) ?p"
    "\<exists>t. stored (tj_token j, tj_wallet j) (p_storage p1) = Some t" by simp_all
  then show ?thesis using s by (intro exI[of _ ?p] exI[of _ p1] exI[of _ j]) simp
qed

definition demo_other_tab :: pending_trade where
  "demo_other_tab = \<lparr>pt_walletAddress = demo_wallet (CHR ''a''), pt_tokenAddress = demo_token, pt_side = Sell,
     pt_hash = Some (''0x'' @ replicate 64 (CHR ''1'')), pt_status = PSubmitted, pt_submittedAt = Fin 1700000000000,
     pt_recovery = Some \<lparr>rec_sender = demo_wallet (CHR ''a''), rec_nonce = 3, rec_to = None, rec_value = ''0'',
       rec_input = ''0x'', rec_nextScanBlock = ''5''\<rparr>\<rparr>"

theorem recovery_data_lost_witness:
  "\<exists>p p2 j t. stored (demo_token, demo_wallet (CHR ''a'')) (p_storage p) = Some demo_other_tab
    \<and> panel_step sample_module demo_library (PressRecover True 7)
       (fst (panel_step sample_module demo_library (ConfirmTrade 1000005 1000006) p)) = (p2, Some (CallRecover j))
    \<and> rj_recovery j = None
    \<and> stored (demo_token, demo_wallet (CHR ''a'')) (p_storage p2) = Some t \<and> pt_recovery t = None"
proof -
  let ?M = "mount_panel [] (demo_props (CHR ''a'')) (Some (\<lambda>_. None))"
  let ?p = "?M\<lparr>p_quote := Some \<lparr>qr_quote = demo_quote, qr_createdAt = 1000000, qr_identity = [], qr_fingerprint = [],
      qr_chain = None\<rparr>, p_storage := persistPendingTrade demo_other_tab (Some (\<lambda>_. None))\<rparr>"
  have good: "good_trade demo_other_tab" by code_simp
  have key: "good_key (demo_token, demo_wallet (CHR ''a''))" using demo_wallet_ok[OF demo_wallets_differ(3)] by simp
  have "panel_ok ?M" using mount_ok[of "Some (\<lambda>_. None)"] demo_props_ok[OF demo_wallets_differ(3)] by simp
  then have ok: "panel_ok ?p" by (simp add: panel_ok_def persistPendingTrade_def)
  have st: "stored (demo_token, demo_wallet (CHR ''a'')) (p_storage ?p) = Some demo_other_tab"
    using stored_persist[OF _ good key, of "Some (\<lambda>_. None)"]
    by (simp add: trade_key_def) (simp add: demo_other_tab_def)
  have M: "p_props ?M = demo_props (CHR ''a'')" "p_operation ?M = False" "p_status ?M = TIdle" "p_previous ?M = p_identity ?M"
    using demo_mounted(1)[of "[]"] by (simp_all add: demo_idle_def)
  have rec: "p_recovery ?M = None"
    using demo_wallet_ok(1)[OF demo_wallets_differ(3)]
    by (simp add: mount_panel_def read_pending_def readPendingTrade_def demo_props_def Let_def)
  have "\<exists>p2 j t'. panel_step sample_module demo_library (PressRecover True 7)
      (fst (panel_step sample_module demo_library (ConfirmTrade 1000005 1000006) ?p)) = (p2, Some (CallRecover j))
    \<and> rj_hash j = ''0x'' @ replicate 64 (CHR ''1'') \<and> rj_recovery j = None
    \<and> stored (pp_token (p_props ?p), demo_wallet (CHR ''a'')) (p_storage p2) = Some t'
    \<and> pt_hash t' = Some (''0x'' @ replicate 64 (CHR ''1'')) \<and> pt_recovery t' = None"
  proof (rule recovery_data_lost[OF ok])
    show "stored (pp_token (p_props ?p), demo_wallet (CHR ''a'')) (p_storage ?p) = Some demo_other_tab"
      using st M(1) by (simp add: demo_props_def)
    show "pt_hash demo_other_tab = Some (''0x'' @ replicate 64 (CHR ''1''))" by (simp add: demo_other_tab_def)
    show "pt_recovery demo_other_tab = Some (the (pt_recovery demo_other_tab))" by (simp add: demo_other_tab_def)
    show "p_previous ?p = p_identity ?p" using M(4) by (simp add: p_identity_def)
  qed (use M rec in \<open>simp_all add: locked_def blockingStatuses_def demo_props_def selectedCooketChainId_def
        sample_module_def sample_chain_def\<close>)
  then show ?thesis using st M(1) by (elim exE conjE, intro exI[of _ ?p] exI conjI) (assumption | simp add: demo_props_def)+
qed

subsection \<open>The slippage field\<close>

text \<open>Two roundings cannot move a percentage to another basis point, nor into the allowed range.\<close>

lemma slippage_rounding:
  assumes "0 < k"
  shows "k \<le> 5000 \<Longrightarrow> math_round (num_times_100 (double_of (of_int k / 100))) = num_of k"
    and "5000 < k \<Longrightarrow> math_round (num_times_100 (double_of (of_int k / 100))) = PosInf
      \<or> (\<exists>b > 5000. math_round (num_times_100 (double_of (of_int k / 100))) = num_of b)"
proof -
  let ?k = "of_int k :: rat"
  have k: "1 \<le> ?k" using assms by simp
  have small: "pow2 (- 100) < 1 / 100" by (simp add: pow2_def)
  from k small have "pow2 (- 100) \<le> ?k / 100" by linarith
  from double_of_near[OF this] obtain x where
    x: "\<bar>x - ?k / 100\<bar> \<le> ?k / 100 / 2 ^ 53" "double_of (?k / 100) = (if x < pow2 1024 then Fin x else PosInf)" .
  have two: "(2 :: rat) ^ 53 = 9007199254740992" by simp
  note x = x(1)[unfolded two] x(2)
  have y: "\<bar>x * 100 - ?k\<bar> \<le> ?k / 9007199254740992" using x(1) by linarith
  with k small have "pow2 (- 100) \<le> x * 100" by linarith
  from double_of_near[OF this] obtain z where
    z: "\<bar>z - x * 100\<bar> \<le> x * 100 / 2 ^ 53" "double_of (x * 100) = (if z < pow2 1024 then Fin z else PosInf)" .
  note z = z(1)[unfolded two] z(2)
  have zk: "\<bar>z - ?k\<bar> \<le> 3 * ?k / 9007199254740992" using y z(1) k by linarith
  have big: "pow2 20 < pow2 1024" using pow2_less_iff[of 20 1024] by simp
  {
    assume "k \<le> 5000"
    then have le: "?k \<le> 5000" by simp
    have "pow2 20 = 1048576" by (simp add: pow2_def)
    then have "x < pow2 20" "z < pow2 20" using x(1) zk le k by linarith+
    then have "x < pow2 1024" "z < pow2 1024" using big by linarith+
    moreover have "\<lfloor>z + 1 / 2\<rfloor> = k" using zk le k by (intro floor_unique) linarith+
    ultimately show "math_round (num_times_100 (double_of (?k / 100))) = num_of k" by (simp add: x(2) z(2))
  next
    assume "5000 < k"
    then have "5001 \<le> ?k" by simp
    then have "5001 \<le> z + 1 / 2" using zk by linarith
    then have "5000 < \<lfloor>z + 1 / 2\<rfloor>" by linarith
    then show "math_round (num_times_100 (double_of (?k / 100))) = PosInf
      \<or> (\<exists>b > 5000. math_round (num_times_100 (double_of (?k / 100))) = num_of b)"
      by (auto simp: x(2) z(2))
  }
qed

lemma slippage_value:
  assumes "slippage_pattern s"
  obtains k where "0 \<le> k" and "decimal_value s = of_int k / 100"
proof (cases "split_dot s")
  case (Pair w f)
  show ?thesis
  proof (cases f)
    case None
    then show ?thesis using that[of "int (digits_value w) * 100"] Pair by (simp add: decimal_value_def)
  next
    case (Some d)
    then have "length d \<in> {1, 2}" using assms Pair
      by (cases d; cases "tl d") (auto simp: slippage_pattern_def all_digits_def)
    then show ?thesis
      using that[of "int (digits_value w) * 100 + int (digits_value d) * 10"]
        that[of "int (digits_value w) * 100 + int (digits_value d)"] Pair Some
      by (auto simp: decimal_value_def add_divide_distrib)
  qed
qed

text \<open>The slippage field is read exactly. It is accepted just when its trimmed text is a plain decimal with at
  most two decimals worth at most 50 percent, and the basis points used are exactly one hundred times that
  value, although they are computed in floating point.\<close>

theorem slippage_exact:
  "parseSlippageBps v = Inr b \<longleftrightarrow>
     slippage_pattern (js_trim v) \<and> of_int b = decimal_value (js_trim v) * 100 \<and> b \<le> 5000"
proof (cases "slippage_pattern (js_trim v)")
  case False
  then show ?thesis by (simp add: parseSlippageBps_def)
next
  case True
  from slippage_value[OF this] obtain k where k: "0 \<le> k" "decimal_value (js_trim v) = of_int k / 100" .
  let ?n = "math_round (num_times_100 (double_of (of_int k / 100)))"
  have run: "parseSlippageBps v = (if \<not> is_integer_num ?n \<or> int_of_num ?n < 0 \<or> int_of_num ?n > 5000
        then Inl (Err ''Slippage must be between 0% and 50%.'') else Inr (int_of_num ?n))"
    using True by (simp add: parseSlippageBps_def number_of_decimal_def k(2) Let_def)
  have val: "of_int b = decimal_value (js_trim v) * 100 \<longleftrightarrow> b = k" by (simp add: k(2))
  show ?thesis
  proof (cases "k \<le> 5000")
    case small: True
    have "?n = num_of k"
    proof (cases "k = 0")
      case True
      moreover have "\<lfloor>1 / 2 :: rat\<rfloor> = 0" by (simp add: floor_eq_iff)
      ultimately show ?thesis by (simp add: double_of_def)
    next
      case False
      then show ?thesis using slippage_rounding(1)[of k] small k(1) by simp
    qed
    then have "parseSlippageBps v = Inr k" unfolding run using small k(1) by simp
    then show ?thesis using True val small by auto
  next
    case False
    with slippage_rounding(2)[of k] have "?n = PosInf \<or> (\<exists>b > 5000. ?n = num_of b)" by simp
    then have "\<exists>e. parseSlippageBps v = Inl e" unfolding run by auto
    then show ?thesis using val False by auto
  qed
qed

end
