(* ===== verification/JsCollections.thy ===== *)
theory JsCollections
  imports JsNumber "HOL-Library.AList" "HOL-Library.Multiset"
begin

text \<open>
  \<^verbatim>\<open>Array.prototype.sort\<close> with a comparator and the insertion-ordered \<^verbatim>\<open>Map\<close> of
  JavaScript. Sorting is stable, so with a comparator that is a total preorder its result is fixed:
  it is insertion from the right. A \<^verbatim>\<open>Map\<close> is an association list whose \<^verbatim>\<open>set\<close> replaces in
  place or appends (\<^verbatim>\<open>AList.update\<close>).
\<close>

fun js_insert :: "('a \<Rightarrow> 'a \<Rightarrow> int) \<Rightarrow> 'a \<Rightarrow> 'a list \<Rightarrow> 'a list" where
  "js_insert cmp x [] = [x]"
| "js_insert cmp x (y # ys) = (if cmp x y \<le> 0 then x # y # ys else y # js_insert cmp x ys)"

definition js_sort :: "('a \<Rightarrow> 'a \<Rightarrow> int) \<Rightarrow> 'a list \<Rightarrow> 'a list" where
  "js_sort cmp xs = foldr (js_insert cmp) xs []"

lemma js_sort_simps [simp]: "js_sort cmp [] = []" "js_sort cmp (x # xs) = js_insert cmp x (js_sort cmp xs)"
  by (simp_all add: js_sort_def)

lemma mset_js_insert [simp]: "mset (js_insert cmp x ys) = add_mset x (mset ys)"
  by (induction ys) auto

lemma mset_js_sort [simp]: "mset (js_sort cmp xs) = mset xs"
  by (induction xs) auto

lemma set_js_sort [simp]: "set (js_sort cmp xs) = set xs"
  by (rule mset_eq_setD) (rule mset_js_sort)

lemma length_js_sort [simp]: "length (js_sort cmp xs) = length xs"
  by (rule mset_eq_length) (rule mset_js_sort)

text \<open>A comparator that orders.\<close>

definition orders :: "('a \<Rightarrow> 'a \<Rightarrow> int) \<Rightarrow> bool" where
  "orders cmp \<longleftrightarrow> (\<forall>x y. cmp x y \<le> 0 \<or> cmp y x \<le> 0)
     \<and> (\<forall>x y z. cmp x y \<le> 0 \<and> cmp y z \<le> 0 \<longrightarrow> cmp x z \<le> 0)"

lemma orders_total: "orders cmp \<Longrightarrow> \<not> cmp x y \<le> 0 \<Longrightarrow> cmp y x \<le> 0"
  unfolding orders_def by blast

lemma orders_trans: "orders cmp \<Longrightarrow> cmp x y \<le> 0 \<Longrightarrow> cmp y z \<le> 0 \<Longrightarrow> cmp x z \<le> 0"
  unfolding orders_def by blast

definition in_order :: "('a \<Rightarrow> 'a \<Rightarrow> int) \<Rightarrow> 'a list \<Rightarrow> bool" where
  "in_order cmp = sorted_wrt (\<lambda>x y. cmp x y \<le> 0)"

lemma set_js_insert [simp]: "set (js_insert cmp x ys) = insert x (set ys)"
  by (induction ys) auto

lemma js_insert_in_order:
  assumes "orders cmp" and "in_order cmp ys"
  shows "in_order cmp (js_insert cmp x ys)"
  using assms(2)
proof (induction ys)
  case (Cons y ys)
  have after: "\<forall>z\<in>set ys. cmp y z \<le> 0" and rest: "in_order cmp ys"
    using Cons.prems by (simp_all add: in_order_def)
  show ?case
  proof (cases "cmp x y \<le> 0")
    case True
    then have "\<forall>z\<in>set ys. cmp x z \<le> 0" using after orders_trans[OF assms(1)] by blast
    then show ?thesis using True Cons.prems by (simp add: in_order_def)
  next
    case False
    then show ?thesis
      using orders_total[OF assms(1) False] after Cons.IH[OF rest] by (simp add: in_order_def)
  qed
qed (simp add: in_order_def)

lemma js_sort_in_order: "orders cmp \<Longrightarrow> in_order cmp (js_sort cmp xs)"
proof (induction xs)
  case (Cons x xs)
  then show ?case using js_insert_in_order by simp
qed (simp add: in_order_def)

lemma in_order_last:
  assumes "orders cmp" and "in_order cmp xs" and "xs \<noteq> []"
  shows "\<forall>x \<in> set xs. cmp x (last xs) \<le> 0"
proof -
  obtain ys y where xs: "xs = ys @ [y]" using assms(3) by (metis rev_exhaust)
  have "cmp y y \<le> 0" using assms(1) unfolding orders_def by blast
  then show ?thesis using assms(2) by (auto simp: xs in_order_def sorted_wrt_append)
qed

text \<open>Comparators by a number, and one after another as JavaScript chains them with
  \<^verbatim>\<open>||\<close>.\<close>

definition by_number :: "('a \<Rightarrow> int) \<Rightarrow> 'a \<Rightarrow> 'a \<Rightarrow> int" where
  "by_number f x y = f x - f y"

definition or_compare :: "('a \<Rightarrow> 'a \<Rightarrow> int) \<Rightarrow> ('a \<Rightarrow> 'a \<Rightarrow> int) \<Rightarrow> 'a \<Rightarrow> 'a \<Rightarrow> int" where
  "or_compare p q x y = (if p x y \<noteq> 0 then p x y else q x y)"

lemma orders_by_number: "orders (by_number f)"
  by (auto simp: orders_def by_number_def)

lemma orders_or_compare: "orders q \<Longrightarrow> orders (or_compare (by_number f) q)"
  unfolding orders_def or_compare_def by_number_def by (smt (verit, best))

lemma in_order_by_number: "in_order (by_number f) xs \<longleftrightarrow> sorted (map f xs)"
  by (simp add: in_order_def by_number_def sorted_wrt_map)

text \<open>The sum of a quantity over the values of a map changes by what the update changes.\<close>

definition map_total :: "('v \<Rightarrow> int) \<Rightarrow> ('k \<times> 'v) list \<Rightarrow> int" where
  "map_total g m = sum_list (map (\<lambda>p. g (snd p)) m)"

lemma map_total_simps [simp]:
  "map_total g [] = 0" "map_total g (p # m) = g (snd p) + map_total g m"
  by (simp_all add: map_total_def)

lemma map_total_update:
  "map_total g (AList.update k v m) = map_total g m + g v - (case map_of m k of None \<Rightarrow> 0 | Some w \<Rightarrow> g w)"
  by (induction m) auto

end
