(* ===== verification/Realtime.thy ===== *)
theory Realtime
  imports JsCollections PendingTrades ClientEnv
begin

text \<open>
  Trades streamed to a token page before the indexer has them (\<^verbatim>\<open>lib/token-realtime.ts\<close>):
  parsing a message, the list of provisional trades the page keeps, the block floor under which it
  forgets them, and the overlay of the provisional trades on the indexed metrics and candles.
\<close>

subsection \<open>Data\<close>

datatype trade_source = FromCurve | FromUniswap

record realtime_trade =
  rt_identity :: string
  rt_chain :: jsnum
  rt_token :: string
  rt_market :: string
  rt_source :: trade_source
  rt_side :: trade_side
  rt_block :: int
  rt_timestamp :: "int option"
  rt_hash :: string
  rt_log :: int
  rt_removed :: bool
  rt_received :: string
  rt_tokens :: string
  rt_usdc :: string
  rt_decimals :: nat
  rt_raw :: "json option"

datatype realtime_surface = TokenSurface | ChartSurface | TradesSurface

record surface_watermarks =
  wm_token :: "jsnum option"
  wm_chart :: "jsnum option"
  wm_trades :: "jsnum option"

definition DEDUPE_CAPACITY :: nat where
  "DEDUPE_CAPACITY = 256"

definition COOKET_TOKEN_DECIMALS :: nat where
  "COOKET_TOKEN_DECIMALS = 18"

definition validWatermark :: "jsnum option \<Rightarrow> bool" where
  "validWatermark v = (case v of None \<Rightarrow> False | Some n \<Rightarrow> is_safe_integer n \<and> 0 \<le> int_of_num n)"

text \<open>\<^verbatim>\<open>`${chain}:${hash}:${log}`\<close>, for the safe integers the callers pass.\<close>

definition trade_identity :: "int \<Rightarrow> string \<Rightarrow> int \<Rightarrow> string" where
  "trade_identity chain hash logIndex = int_text chain @ '':'' @ hash @ '':'' @ int_text logIndex"

definition canonicalTradeIdentity :: "chain_module \<Rightarrow> string \<times> int \<Rightarrow> string" where
  "canonicalTradeIdentity m trade = trade_identity (selectedCooketChainId m) (fst trade) (snd trade)"

subsection \<open>Watermarks\<close>

definition safeRealtimeRetirementFloor :: "surface_watermarks \<Rightarrow> int option" where
  "safeRealtimeRetirementFloor w =
     (case (wm_token w, wm_chart w, wm_trades w) of
        (Some a, Some b, Some c) \<Rightarrow>
          if \<not> validWatermark (Some a) \<or> \<not> validWatermark (Some b) \<or> \<not> validWatermark (Some c) then None
          else Some (min (int_of_num a) (min (int_of_num b) (int_of_num c)))
      | _ \<Rightarrow> None)"

fun surface_mark :: "realtime_surface \<Rightarrow> surface_watermarks \<Rightarrow> jsnum option" where
  "surface_mark TokenSurface w = wm_token w"
| "surface_mark ChartSurface w = wm_chart w"
| "surface_mark TradesSurface w = wm_trades w"

fun set_mark :: "realtime_surface \<Rightarrow> jsnum option \<Rightarrow> surface_watermarks \<Rightarrow> surface_watermarks" where
  "set_mark TokenSurface v w = w\<lparr>wm_token := v\<rparr>"
| "set_mark ChartSurface v w = w\<lparr>wm_chart := v\<rparr>"
| "set_mark TradesSurface v w = w\<lparr>wm_trades := v\<rparr>"

text \<open>\<^verbatim>\<open>>\<close> on numbers: false as soon as one is NaN.\<close>

fun num_greater :: "jsnum \<Rightarrow> jsnum \<Rightarrow> bool" where
  "num_greater (Fin p) (Fin q) = (q < p)"
| "num_greater PosInf b = (b \<noteq> PosInf \<and> b \<noteq> NaN)"
| "num_greater (Fin p) b = (b = NegInf)"
| "num_greater _ b = False"

definition advanceRealtimeSurfaceWatermark ::
    "surface_watermarks \<Rightarrow> realtime_surface \<Rightarrow> jsnum option \<Rightarrow> surface_watermarks" where
  "advanceRealtimeSurfaceWatermark current surface block =
     (case block of
        None \<Rightarrow> if surface = ChartSurface \<and> wm_chart current \<noteq> None then current\<lparr>wm_chart := None\<rparr> else current
      | Some b \<Rightarrow>
          if \<not> validWatermark (Some b) then current
          else (case surface_mark surface current of
              None \<Rightarrow> set_mark surface (Some b) current
            | Some prior \<Rightarrow> if num_greater b prior then set_mark surface (Some b) current else current))"

subsection \<open>Messages\<close>

definition safe_field :: "json option \<Rightarrow> bool" where
  "safe_field v = (case v of Some (JNum n) \<Rightarrow> is_safe_integer n | _ \<Rightarrow> False)"

definition int_at :: "json \<Rightarrow> string \<Rightarrow> int" where
  "int_at v k = int_of_num (num_at v k)"

text \<open>The first three lines of checks.\<close>

definition names_trade :: "chain_module \<Rightarrow> json \<Rightarrow> string \<Rightarrow> bool" where
  "names_trade m v tokenAddress \<longleftrightarrow>
     json_field v ''chain_id'' = Some (JNum (num_of (selectedCooketChainId m)))
     \<and> text_with (\<lambda>s. same_address s tokenAddress) (json_field v ''token'')
     \<and> text_with (\<lambda>s. True) (json_field v ''identity'')
     \<and> text_with hash_pattern (json_field v ''transaction_hash'')
     \<and> safe_field (json_field v ''block_number'') \<and> safe_field (json_field v ''log_index'')
     \<and> text_at v ''identity'' = trade_identity (selectedCooketChainId m) (text_at v ''transaction_hash'') (int_at v ''log_index'')"

definition describes_trade :: "json \<Rightarrow> bool" where
  "describes_trade v \<longleftrightarrow>
     text_with (\<lambda>s. True) (json_field v ''market'')
     \<and> text_with (\<lambda>s. s = ''curve'' \<or> s = ''uniswap_v3'') (json_field v ''source'')
     \<and> text_with (\<lambda>s. s = ''buy'' \<or> s = ''sell'') (json_field v ''side'')
     \<and> (json_field v ''removed'' = Some (JBool True) \<or> json_field v ''removed'' = Some (JBool False))
     \<and> text_with all_digits (json_field v ''token_amount_raw'')
     \<and> text_with all_digits (json_field v ''usdc_amount_raw'')
     \<and> (json_field v ''usdc_decimals'' = Some (JNum (Fin 6)) \<or> json_field v ''usdc_decimals'' = Some (JNum (Fin 18)))"

definition timestamp_ok :: "json \<Rightarrow> bool" where
  "timestamp_ok v \<longleftrightarrow>
     (if json_field v ''removed'' = Some (JBool True) \<and> json_field v ''block_timestamp'' = None then True
      else safe_nonnegative (json_field v ''block_timestamp''))"

definition realtime_of_json :: "json \<Rightarrow> realtime_trade" where
  "realtime_of_json v =
     \<lparr>rt_identity = text_at v ''identity'', rt_chain = num_at v ''chain_id'', rt_token = text_at v ''token'',
      rt_market = text_at v ''market'',
      rt_source = (if text_at v ''source'' = ''curve'' then FromCurve else FromUniswap),
      rt_side = side_of_text (text_at v ''side''), rt_block = int_at v ''block_number'',
      rt_timestamp = map_option (\<lambda>_. int_at v ''block_timestamp'') (json_field v ''block_timestamp''),
      rt_hash = text_at v ''transaction_hash'', rt_log = int_at v ''log_index'',
      rt_removed = (json_field v ''removed'' = Some (JBool True)),
      rt_received = text_at v ''received_at'', rt_tokens = text_at v ''token_amount_raw'',
      rt_usdc = text_at v ''usdc_amount_raw'', rt_decimals = nat (int_at v ''usdc_decimals''),
      rt_raw = (case json_field v ''raw_fields'' of
          Some r \<Rightarrow> if is_object r then Some r else None | None \<Rightarrow> None)\<rparr>"

definition parseRealtimeTrade :: "chain_module \<Rightarrow> json \<Rightarrow> string \<Rightarrow> realtime_trade option" where
  "parseRealtimeTrade m v tokenAddress =
     (if \<not> is_object v \<or> \<not> names_trade m v tokenAddress \<or> \<not> describes_trade v \<or> \<not> timestamp_ok v then None
      else Some (realtime_of_json v))"

subsection \<open>The provisional trades of a page\<close>

text \<open>
  \<^verbatim>\<open>useTokenRealtimeTrades\<close>: the events in state and the watermark of each token address.
  The effect that retires runs when the page's safe floor changes; \<^verbatim>\<open>receive\<close> runs for every
  message of the open stream, whose data may not parse (\<^verbatim>\<open>None\<close>).
\<close>

record realtime_page =
  rp_events :: "realtime_trade list"
  rp_watermarks :: "string \<Rightarrow> int option"

definition retireThrough :: "string \<Rightarrow> int option \<Rightarrow> realtime_page \<Rightarrow> realtime_page" where
  "retireThrough tokenAddress retireThroughBlock s =
     (case retireThroughBlock of
        None \<Rightarrow> s
      | Some block \<Rightarrow>
          if tokenAddress = [] then s
          else let watermark = (case rp_watermarks s tokenAddress of None \<Rightarrow> block | Some prior \<Rightarrow> max prior block) in
            \<lparr>rp_events = filter (\<lambda>e. \<not> same_address (rt_token e) tokenAddress \<or> rt_block e > watermark) (rp_events s),
             rp_watermarks = (rp_watermarks s)(tokenAddress \<mapsto> watermark)\<rparr>)"

definition last_items :: "nat \<Rightarrow> 'a list \<Rightarrow> 'a list" where
  "last_items n xs = drop (length xs - n) xs"

definition addEvent :: "string \<Rightarrow> realtime_trade \<Rightarrow> realtime_page \<Rightarrow> realtime_trade list" where
  "addEvent tokenAddress event s =
     (let current = rp_events s; exists = list_ex (\<lambda>item. rt_identity item = rt_identity event) current in
      if rt_removed event
      then (if exists then filter (\<lambda>item. rt_identity item \<noteq> rt_identity event) current else current)
      else if (case rp_watermarks s tokenAddress of None \<Rightarrow> False | Some w \<Rightarrow> rt_block event \<le> w) then current
      else if exists then current
      else last_items DEDUPE_CAPACITY (current @ [event]))"

definition receiveMessage :: "chain_module \<Rightarrow> string \<Rightarrow> json option \<Rightarrow> realtime_page \<Rightarrow> realtime_page" where
  "receiveMessage m tokenAddress data s =
     (case data of
        None \<Rightarrow> s
      | Some v \<Rightarrow>
          (case parseRealtimeTrade m v tokenAddress of
             None \<Rightarrow> s
           | Some event \<Rightarrow> s\<lparr>rp_events := addEvent tokenAddress event s\<rparr>))"

definition visibleEvents :: "string \<Rightarrow> int option \<Rightarrow> realtime_page \<Rightarrow> realtime_trade list" where
  "visibleEvents tokenAddress retireThroughBlock s =
     filter (\<lambda>e. same_address (rt_token e) tokenAddress
        \<and> (case retireThroughBlock of None \<Rightarrow> True | Some b \<Rightarrow> rt_block e > b)) (rp_events s)"

subsection \<open>Overlays\<close>

text \<open>\<^verbatim>\<open>localeCompare\<close> depends on the user's locale and is a parameter.\<close>

definition timestamp_or_minus :: "realtime_trade \<Rightarrow> int" where
  "timestamp_or_minus e = (case rt_timestamp e of None \<Rightarrow> - 1 | Some t \<Rightarrow> t)"

definition chainOrder :: "(string \<Rightarrow> string \<Rightarrow> int) \<Rightarrow> realtime_trade \<Rightarrow> realtime_trade \<Rightarrow> int" where
  "chainOrder localeCompare =
     or_compare (by_number timestamp_or_minus)
       (or_compare (by_number rt_block)
         (or_compare (by_number rt_log) (\<lambda>a b. localeCompare (rt_identity a) (rt_identity b))))"

definition reconcileRealtimeTrades ::
    "chain_module \<Rightarrow> (string \<Rightarrow> string \<Rightarrow> int) \<Rightarrow> realtime_trade list \<Rightarrow> int option \<Rightarrow> (string \<times> int) list
     \<Rightarrow> realtime_trade list" where
  "reconcileRealtimeTrades m lc events indexedThroughBlock canonical =
     (let canonicalIDs = set (map (canonicalTradeIdentity m) canonical) in
      js_sort (chainOrder lc)
        (filter (\<lambda>e. (case indexedThroughBlock of None \<Rightarrow> True | Some b \<Rightarrow> rt_block e > b)
           \<and> rt_identity e \<notin> canonicalIDs) events))"

text \<open>The amounts passed \<^verbatim>\<open>/^\d+$/\<close>, so \<^verbatim>\<open>BigInt\<close> reads them; \<^verbatim>\<open>None\<close> is the
  \<^verbatim>\<open>null\<close> of the \<^verbatim>\<open>catch\<close>. The exponent is never negative, as decimals are at most 18.\<close>

definition realtimePrice :: "realtime_trade \<Rightarrow> int option" where
  "realtimePrice e =
     (case js_bigint (rt_tokens e) of
        None \<Rightarrow> None
      | Some tokens \<Rightarrow>
          if tokens = 0 then None
          else (case js_bigint (rt_usdc e) of
              None \<Rightarrow> None
            | Some usdc \<Rightarrow> Some (big_div (usdc * 10 ^ (COOKET_TOKEN_DECIMALS + 18 - rt_decimals e)) tokens)))"

definition bigint_of :: "string \<Rightarrow> int result" where
  "bigint_of s = (case js_bigint s of None \<Rightarrow> Inl (JsError ''SyntaxError'' (''Cannot convert '' @ s @ '' to a BigInt'')) | Some i \<Rightarrow> Inr i)"

definition realtimeVolume :: "realtime_trade \<Rightarrow> int result" where
  "realtimeVolume e = try_bind (bigint_of (rt_usdc e)) (\<lambda>v. Inr (v * 10 ^ (18 - rt_decimals e)))"

definition curveActor :: "realtime_trade \<Rightarrow> string option" where
  "curveActor e =
     (if rt_source e \<noteq> FromCurve then None
      else (case rt_raw e of
          None \<Rightarrow> None
        | Some raw \<Rightarrow>
            (case json_field raw (if rt_side e = Buy then ''buyer'' else ''seller'') of
               Some (JStr a) \<Rightarrow> if address_pattern a then Some a else None
             | _ \<Rightarrow> None)))"

record token_metrics =
  tm_price :: "string option"
  tm_diluted :: "string option"
  tm_volume :: string
  tm_trades :: int

definition add_volume :: "int result \<Rightarrow> realtime_trade \<Rightarrow> int result" where
  "add_volume acc e = try_bind acc (\<lambda>t. try_bind (realtimeVolume e) (\<lambda>v. Inr (t + v)))"

definition overlayMetrics ::
    "(string \<Rightarrow> string \<Rightarrow> int) \<Rightarrow> string \<Rightarrow> token_metrics \<Rightarrow> realtime_trade list \<Rightarrow> token_metrics result" where
  "overlayMetrics lc initialSupply metrics events =
     (let sorted = js_sort (chainOrder lc) events;
          price = (if sorted = [] then None else realtimePrice (last sorted)) in
      try_bind (case price of
          None \<Rightarrow> Inr (tm_diluted metrics)
        | Some p \<Rightarrow> try_bind (bigint_of initialSupply) (\<lambda>supply.
            Inr (Some (int_text (big_div (p * supply) (10 ^ COOKET_TOKEN_DECIMALS)))))) (\<lambda>diluted.
      try_bind (bigint_of (tm_volume metrics)) (\<lambda>volume.
      try_bind (foldl add_volume (Inr 0) sorted) (\<lambda>added.
        Inr \<lparr>tm_price = (case price of None \<Rightarrow> tm_price metrics | Some p \<Rightarrow> Some (int_text p)),
          tm_diluted = diluted, tm_volume = int_text (volume + added),
          tm_trades = tm_trades metrics + int (length sorted)\<rparr>))))"

datatype chart_interval = Minute1 | Minute5 | Minute15 | Hour1 | Hour4 | Day1 | Week1

fun interval_seconds :: "chart_interval \<Rightarrow> int" where
  "interval_seconds Minute1 = 60"
| "interval_seconds Minute5 = 300"
| "interval_seconds Minute15 = 900"
| "interval_seconds Hour1 = 3600"
| "interval_seconds Hour4 = 14400"
| "interval_seconds Day1 = 86400"
| "interval_seconds Week1 = 604800"

record candle =
  cd_bucket :: int
  cd_trades :: int
  cd_buys :: int
  cd_sells :: int
  cd_volume :: string
  cd_traders :: int
  cd_open :: "string option"
  cd_high :: "string option"
  cd_low :: "string option"
  cd_close :: "string option"

text \<open>\<^verbatim>\<open>Math.floor(x / s)\<close> of a safe integer is its integer division (lemma
  \<^verbatim>\<open>floor_quotient\<close> of JsDouble).\<close>

definition bucket_of :: "chart_interval \<Rightarrow> int \<Rightarrow> int" where
  "bucket_of interval timestamp =
     (let origin = (if interval = Week1 then 4 * 86400 else 0); s = interval_seconds interval in
      (timestamp - origin) div s * s + origin)"

text \<open>\<^verbatim>\<open>!text || better(BigInt(text), price) ? priceText : text\<close>.\<close>

definition improved :: "(int \<Rightarrow> int \<Rightarrow> bool) \<Rightarrow> string option \<Rightarrow> int \<Rightarrow> string option result" where
  "improved better current price =
     (case truthy current of
        None \<Rightarrow> Inr (Some (int_text price))
      | Some s \<Rightarrow> try_bind (bigint_of s) (\<lambda>v. Inr (if better v price then Some (int_text price) else current)))"

definition new_candle :: "int \<Rightarrow> realtime_trade \<Rightarrow> int \<Rightarrow> int \<Rightarrow> candle" where
  "new_candle bucket e volume price =
     \<lparr>cd_bucket = bucket, cd_trades = 1, cd_buys = (if rt_side e = Buy then 1 else 0),
      cd_sells = (if rt_side e = Sell then 1 else 0), cd_volume = int_text volume, cd_traders = 0,
      cd_open = Some (int_text price), cd_high = Some (int_text price), cd_low = Some (int_text price),
      cd_close = Some (int_text price)\<rparr>"

definition merge_candle :: "candle \<Rightarrow> realtime_trade \<Rightarrow> int \<Rightarrow> int \<Rightarrow> candle result" where
  "merge_candle current e volume price =
     try_bind (bigint_of (cd_volume current)) (\<lambda>v.
     try_bind (improved (\<lambda>h p. h < p) (cd_high current) price) (\<lambda>high.
     try_bind (improved (\<lambda>l p. l > p) (cd_low current) price) (\<lambda>low.
       Inr (current\<lparr>cd_trades := cd_trades current + 1,
         cd_buys := cd_buys current + (if rt_side e = Buy then 1 else 0),
         cd_sells := cd_sells current + (if rt_side e = Sell then 1 else 0),
         cd_volume := int_text (v + volume),
         cd_open := (case cd_open current of None \<Rightarrow> Some (int_text price) | Some s \<Rightarrow> Some s),
         cd_high := high, cd_low := low, cd_close := Some (int_text price)\<rparr>))))"

definition overlayEvent ::
    "chart_interval \<Rightarrow> (int \<times> candle) list result \<Rightarrow> realtime_trade \<Rightarrow> (int \<times> candle) list result" where
  "overlayEvent interval buckets e =
     try_bind buckets (\<lambda>m.
       case (rt_timestamp e, realtimePrice e) of
         (Some timestamp, Some price) \<Rightarrow>
           (let bucket = bucket_of interval timestamp in
            try_bind (realtimeVolume e) (\<lambda>volume.
              case map_of m bucket of
                None \<Rightarrow> Inr (AList.update bucket (new_candle bucket e volume price) m)
              | Some current \<Rightarrow> try_bind (merge_candle current e volume price) (\<lambda>c. Inr (AList.update bucket c m))))
       | _ \<Rightarrow> Inr m)"

definition overlayCandles ::
    "(string \<Rightarrow> string \<Rightarrow> int) \<Rightarrow> candle list \<Rightarrow> realtime_trade list \<Rightarrow> chart_interval \<Rightarrow> candle list result" where
  "overlayCandles lc canonical events interval =
     (let buckets = foldl (\<lambda>m c. AList.update (cd_bucket c) c m) [] canonical in
      try_bind (foldl (overlayEvent interval) (Inr buckets) (js_sort (chainOrder lc) events)) (\<lambda>m.
        Inr (js_sort (by_number cd_bucket) (map snd m))))"

subsection \<open>The page forgets no more and no less than it may\<close>

datatype page_step = Retire string "int option" | Message string "json option"

fun run_step :: "chain_module \<Rightarrow> page_step \<Rightarrow> realtime_page \<Rightarrow> realtime_page" where
  "run_step m (Retire t b) s = retireThrough t b s"
| "run_step m (Message t d) s = receiveMessage m t d s"

fun step_token :: "page_step \<Rightarrow> string" where
  "step_token (Retire t b) = t"
| "step_token (Message t d) = t"

definition empty_page :: realtime_page where
  "empty_page = \<lparr>rp_events = [], rp_watermarks = (\<lambda>_. None)\<rparr>"

text \<open>One spelling per address: the page takes the token's address from its route.\<close>

definition one_spelling :: "string set \<Rightarrow> bool" where
  "one_spelling T \<longleftrightarrow> (\<forall>t \<in> T. \<forall>t' \<in> T. same_address t t' \<longrightarrow> t = t')"

definition page_ok :: "string set \<Rightarrow> realtime_page \<Rightarrow> bool" where
  "page_ok T s \<longleftrightarrow> distinct (map rt_identity (rp_events s)) \<and> length (rp_events s) \<le> DEDUPE_CAPACITY
     \<and> dom (rp_watermarks s) \<subseteq> T
     \<and> (\<forall>e \<in> set (rp_events s). \<not> rt_removed e
          \<and> (\<forall>t w. rp_watermarks s t = Some w \<and> same_address (rt_token e) t \<longrightarrow> w < rt_block e))"

lemma retire_ok:
  assumes "page_ok T s" and "t \<in> T"
  shows "page_ok T (retireThrough t b s)"
  using assms unfolding page_ok_def retireThrough_def
  by (auto simp: Let_def distinct_map_filter split: option.splits intro: le_trans[OF length_filter_le])

lemma text_with_at: "text_with p (json_field v k) \<Longrightarrow> p (text_at v k)"
  by (auto simp: text_with_def text_at_def split: option.splits json.splits)

lemma parse_Some:
  "parseRealtimeTrade m v t = Some e \<longleftrightarrow> is_object v \<and> names_trade m v t \<and> describes_trade v \<and> timestamp_ok v
     \<and> e = realtime_of_json v"
  by (auto simp: parseRealtimeTrade_def)

lemma parse_token:
  assumes "parseRealtimeTrade m v t = Some e"
  shows "same_address (rt_token e) t"
proof -
  have "text_with (\<lambda>s. same_address s t) (json_field v ''token'')"
    using assms unfolding parse_Some names_trade_def by blast
  from text_with_at[OF this] show ?thesis using assms by (simp add: parse_Some realtime_of_json_def)
qed

lemma set_last_items: "set (last_items n xs) \<subseteq> set xs"
  by (simp add: last_items_def set_drop_subset)

lemma distinct_last_items: "distinct (map f xs) \<Longrightarrow> distinct (map f (last_items n xs))"
  by (simp add: last_items_def flip: drop_map)

lemma length_last_items: "length (last_items n xs) \<le> n"
  by (simp add: last_items_def)

lemma receive_ok:
  assumes "page_ok T s" and "t \<in> T" and "one_spelling T"
  shows "page_ok T (receiveMessage m t d s)"
proof (cases "case d of None \<Rightarrow> None | Some v \<Rightarrow> parseRealtimeTrade m v t")
  case None
  then show ?thesis using assms(1) by (auto simp: receiveMessage_def split: option.splits)
next
  case (Some e)
  then have r: "receiveMessage m t d s = s\<lparr>rp_events := addEvent t e s\<rparr>" and tok: "same_address (rt_token e) t"
    using parse_token by (auto simp: receiveMessage_def split: option.splits)
  have new: "w < rt_block e" if "rp_watermarks s t' = Some w" "same_address (rt_token e) t'"
    "\<not> (case rp_watermarks s t of None \<Rightarrow> False | Some w \<Rightarrow> rt_block e \<le> w)" for t' w
  proof -
    have "t' \<in> T" using that(1) assms(1) by (auto simp: page_ok_def)
    moreover have "same_address t t'" using tok that(2) same_address_sym same_address_trans by blast
    ultimately have "t' = t" using assms(2,3) by (auto simp: one_spelling_def)
    then show ?thesis using that by simp
  qed
  have old: "distinct (map rt_identity (rp_events s))" "length (rp_events s) \<le> DEDUPE_CAPACITY"
    "dom (rp_watermarks s) \<subseteq> T" using assms(1) by (simp_all add: page_ok_def)
  have keep: "\<not> rt_removed x \<and> (\<forall>t w. rp_watermarks s t = Some w \<and> same_address (rt_token x) t \<longrightarrow> w < rt_block x)"
    if "x \<in> set (rp_events s)" for x using assms(1) that unfolding page_ok_def by blast
  have "distinct (map rt_identity (addEvent t e s))"
    using old(1) by (auto simp: addEvent_def Let_def distinct_map_filter list_ex_iff image_iff intro!: distinct_last_items) blast
  moreover have "length (addEvent t e s) \<le> DEDUPE_CAPACITY"
    using old(2) by (auto simp: addEvent_def Let_def length_last_items intro: le_trans[OF length_filter_le])
  moreover have "\<not> rt_removed x \<and> (\<forall>t w. rp_watermarks s t = Some w \<and> same_address (rt_token x) t \<longrightarrow> w < rt_block x)"
    if "x \<in> set (addEvent t e s)" for x
  proof (cases "x \<in> set (rp_events s)")
    case True
    then show ?thesis by (rule keep)
  next
    case False
    with that set_last_items[of DEDUPE_CAPACITY "rp_events s @ [e]"]
    have "x = e \<and> \<not> rt_removed e \<and> \<not> (case rp_watermarks s t of None \<Rightarrow> False | Some w \<Rightarrow> rt_block e \<le> w)"
      by (auto simp: addEvent_def Let_def split: if_splits)
    then show ?thesis using new by blast
  qed
  ultimately show ?thesis unfolding r page_ok_def using old(3) by simp
qed

text \<open>The watermark of a token is the highest floor that was ever safe for it.\<close>

definition floors_met :: "page_step list \<Rightarrow> realtime_page \<Rightarrow> bool" where
  "floors_met steps s \<longleftrightarrow>
     (\<forall>t b. Retire t (Some b) \<in> set steps \<longrightarrow> t \<noteq> [] \<longrightarrow> (\<exists>w. rp_watermarks s t = Some w \<and> b \<le> w))
     \<and> (\<forall>t w. rp_watermarks s t = Some w \<longrightarrow> Retire t (Some w) \<in> set steps)"

lemma receive_watermarks: "rp_watermarks (receiveMessage m t d s) = rp_watermarks s"
  by (simp add: receiveMessage_def split: option.split)

lemma floors_met_step: "floors_met steps s \<Longrightarrow> floors_met (steps @ [step]) (run_step m step s)"
proof (cases step)
  case (Retire t b)
  assume met: "floors_met steps s"
  have raised: "rp_watermarks (retireThrough t (Some f) s) t' =
      (if t' = t then Some (case rp_watermarks s t of None \<Rightarrow> f | Some w \<Rightarrow> max w f) else rp_watermarks s t')"
    if "t \<noteq> []" for t' f using that by (simp add: retireThrough_def Let_def)
  show ?thesis
  proof (cases "b = None \<or> t = []")
    case True
    then have "retireThrough t b s = s" by (auto simp: retireThrough_def split: option.split)
    then show ?thesis using met True by (auto simp: floors_met_def Retire)
  next
    case False
    then obtain f where f: "b = Some f" "t \<noteq> []" by auto
    define top where "top = (case rp_watermarks s t of None \<Rightarrow> f | Some w \<Rightarrow> max w f)"
    have now: "rp_watermarks (run_step m step s) t' = (if t' = t then Some top else rp_watermarks s t')" for t'
      using raised[OF f(2)] by (simp add: Retire f(1) top_def)
    have low: "f \<le> top" and keep: "rp_watermarks s t = Some w \<Longrightarrow> w \<le> top" for w
      by (auto simp: top_def split: option.split)
    have one: "Retire t (Some top) \<in> set (steps @ [step])"
      using met by (auto simp: floors_met_def Retire f top_def max_def split: option.split)
    have "\<exists>w. rp_watermarks (run_step m step s) t' = Some w \<and> b' \<le> w"
      if r: "Retire t' (Some b') \<in> set (steps @ [step])" "t' \<noteq> []" for t' b'
    proof (cases "Retire t' (Some b') \<in> set steps")
      case True
      then obtain w where w: "rp_watermarks s t' = Some w" "b' \<le> w" using met r(2) unfolding floors_met_def by blast
      then show ?thesis using keep[of w] order_trans[of b' w top] by (auto simp: now)
    next
      case False
      then have "t' = t" "b' = f" using r(1) by (auto simp: Retire f(1))
      then show ?thesis using low unfolding now by simp
    qed
    moreover have "Retire t' (Some w) \<in> set (steps @ [step])" if "rp_watermarks (run_step m step s) t' = Some w" for t' w
      using that met one by (auto simp: now floors_met_def split: if_splits)
    ultimately show ?thesis unfolding floors_met_def by blast
  qed
next
  case (Message t d)
  assume "floors_met steps s"
  then show ?thesis by (auto simp: floors_met_def Message receive_watermarks)
qed

lemma floors_met_run: "floors_met steps (fold (run_step m) steps empty_page)"
proof (induction steps rule: rev_induct)
  case Nil
  then show ?case by (simp add: floors_met_def empty_page_def)
next
  case (snoc step steps)
  from floors_met_step[OF this, of step m] show ?case by simp
qed

lemma page_ok_run:
  assumes "one_spelling (step_token ` set steps)"
  shows "page_ok (step_token ` set steps) (fold (run_step m) steps empty_page)"
proof -
  have "page_ok T (fold (run_step m) steps s)"
    if "page_ok T s" "one_spelling T" "step_token ` set steps \<subseteq> T" for T s
    using that
  proof (induction steps arbitrary: s)
    case (Cons step steps)
    then have "page_ok T (run_step m step s)" by (cases step) (auto intro: retire_ok receive_ok)
    with Cons show ?case by simp
  qed simp
  moreover have "page_ok T empty_page" for T by (simp add: page_ok_def empty_page_def)
  ultimately show ?thesis using assms by blast
qed


subsection \<open>Reconciliation and overlays count every trade once\<close>

lemma orders_chainOrder:
  assumes "orders lc"
  shows "orders (chainOrder lc)"
proof -
  have "orders (\<lambda>a b. lc (rt_identity a) (rt_identity b))"
    using assms unfolding orders_def by blast
  then show ?thesis unfolding chainOrder_def by (intro orders_or_compare)
qed

definition good_event :: "realtime_trade \<Rightarrow> bool" where
  "good_event e \<longleftrightarrow> all_digits (rt_tokens e) \<and> all_digits (rt_usdc e) \<and> (rt_decimals e = 6 \<or> rt_decimals e = 18)"

lemma parsed_good:
  assumes "parseRealtimeTrade m v t = Some e"
  shows "good_event e"
proof -
  have d: "describes_trade v" and e: "e = realtime_of_json v" using assms by (simp_all add: parse_Some)
  from d have "text_with all_digits (json_field v ''token_amount_raw'')" "text_with all_digits (json_field v ''usdc_amount_raw'')"
    unfolding describes_trade_def by blast+
  from this[THEN text_with_at] have "all_digits (rt_tokens e)" "all_digits (rt_usdc e)"
    by (simp_all add: e realtime_of_json_def)
  moreover have "rt_decimals e = 6 \<or> rt_decimals e = 18"
    using d by (auto simp: e realtime_of_json_def describes_trade_def int_at_def num_at_def)
  ultimately show ?thesis by (simp add: good_event_def)
qed

definition event_volume :: "realtime_trade \<Rightarrow> int" where
  "event_volume e = int (digits_value (rt_usdc e)) * 10 ^ (18 - rt_decimals e)"

lemma realtimeVolume_good: "good_event e \<Longrightarrow> realtimeVolume e = Inr (event_volume e)"
  by (simp add: realtimeVolume_def bigint_of_def good_event_def event_volume_def)

lemma realtimePrice_good:
  assumes "good_event e"
  shows "realtimePrice e = (if digits_value (rt_tokens e) = 0 then None
    else Some (int (digits_value (rt_usdc e)) * 10 ^ (36 - rt_decimals e) div int (digits_value (rt_tokens e))))"
  using assms by (simp add: realtimePrice_def good_event_def COOKET_TOKEN_DECIMALS_def)

lemma price_nonneg: "good_event e \<Longrightarrow> realtimePrice e = Some p \<Longrightarrow> 0 \<le> p"
  by (auto simp: realtimePrice_good pos_imp_zdiv_nonneg_iff split: if_splits)

lemma volume_nonneg [simp]: "0 \<le> event_volume e"
  by (simp add: event_volume_def)

text \<open>A candle of the indexer: a decimal volume, and either no prices or four decimal prices, the low the
  least and the high the greatest of them.\<close>

definition prices_ok :: "string option \<Rightarrow> string option \<Rightarrow> string option \<Rightarrow> string option \<Rightarrow> bool" where
  "prices_ok op hi lo cl \<longleftrightarrow> op = None \<and> hi = None \<and> lo = None \<and> cl = None
     \<or> (\<exists>a h l c. op = Some a \<and> hi = Some h \<and> lo = Some l \<and> cl = Some c
          \<and> all_digits a \<and> all_digits h \<and> all_digits l \<and> all_digits c
          \<and> digits_value l \<le> digits_value a \<and> digits_value a \<le> digits_value h
          \<and> digits_value l \<le> digits_value c \<and> digits_value c \<le> digits_value h)"

definition good_candle :: "candle \<Rightarrow> bool" where
  "good_candle c \<longleftrightarrow> all_digits (cd_volume c) \<and> prices_ok (cd_open c) (cd_high c) (cd_low c) (cd_close c)"

definition candle_volume :: "candle \<Rightarrow> int" where
  "candle_volume c = int (digits_value (cd_volume c))"

definition candle_map :: "(int \<times> candle) list \<Rightarrow> bool" where
  "candle_map m \<longleftrightarrow> distinct (map fst m) \<and> (\<forall>p \<in> set m. cd_bucket (snd p) = fst p \<and> good_candle (snd p))"

lemma candle_map_update:
  assumes "candle_map m" and "cd_bucket c = b" and "good_candle c"
  shows "candle_map (AList.update b c m)"
proof -
  have "set (AList.update b c m) \<subseteq> insert (b, c) (set m)" by (induction m) auto
  then show ?thesis using assms distinct_update[of m b c] unfolding candle_map_def by fastforce
qed

lemma good_new_candle:
  "0 \<le> v \<Longrightarrow> 0 \<le> p \<Longrightarrow> good_candle (new_candle b e v p) \<and> cd_bucket (new_candle b e v p) = b
     \<and> candle_volume (new_candle b e v p) = v \<and> cd_trades (new_candle b e v p) = 1"
  by (simp add: good_candle_def new_candle_def prices_ok_def candle_volume_def)

lemma truthy_digits: "all_digits s \<Longrightarrow> truthy (Some s) = Some s"
  by (auto simp: truthy_def all_digits_def)

lemma merge_good:
  assumes "good_candle c" and "0 \<le> v" and "0 \<le> p"
  shows "\<exists>d. merge_candle c e v p = Inr d \<and> good_candle d \<and> cd_bucket d = cd_bucket c
    \<and> candle_volume d = candle_volume c + v \<and> cd_trades d = cd_trades c + 1"
proof -
  have dig: "all_digits (cd_volume c)" using assms(1) by (simp add: good_candle_def)
  from assms(1) consider "cd_open c = None" "cd_high c = None" "cd_low c = None" "cd_close c = None"
    | a h l k where "cd_open c = Some a" "cd_high c = Some h" "cd_low c = Some l" "cd_close c = Some k"
        "all_digits a" "all_digits h" "all_digits l" "all_digits k"
        "digits_value l \<le> digits_value a" "digits_value a \<le> digits_value h"
        "digits_value l \<le> digits_value k" "digits_value k \<le> digits_value h"
    unfolding good_candle_def prices_ok_def by (elim conjE disjE exE) simp_all
  then show ?thesis
  proof cases
    case 1
    then show ?thesis using assms dig
      by (simp add: merge_candle_def bigint_of_def improved_def truthy_def good_candle_def prices_ok_def candle_volume_def)
  next
    case 2
    then show ?thesis using assms dig
      by (auto simp: merge_candle_def bigint_of_def improved_def truthy_digits good_candle_def prices_ok_def
          candle_volume_def)
  qed
qed

text \<open>A trade shows in the candles when it has a time and a price.\<close>

definition charted :: "realtime_trade \<Rightarrow> bool" where
  "charted e \<longleftrightarrow> rt_timestamp e \<noteq> None \<and> realtimePrice e \<noteq> None"

lemma overlayEvent_good:
  assumes "candle_map m" and "good_event e"
  shows "\<exists>m'. overlayEvent i (Inr m) e = Inr m' \<and> candle_map m'
    \<and> map_total cd_trades m' = map_total cd_trades m + (if charted e then 1 else 0)
    \<and> map_total candle_volume m' = map_total candle_volume m + (if charted e then event_volume e else 0)"
proof (cases "charted e")
  case False
  then show ?thesis using assms by (auto simp: overlayEvent_def charted_def split: option.splits)
next
  case True
  then obtain ts p where tp: "rt_timestamp e = Some ts" "realtimePrice e = Some p" by (auto simp: charted_def)
  let ?b = "bucket_of i ts"
  have v: "realtimeVolume e = Inr (event_volume e)" using assms(2) by (rule realtimeVolume_good)
  have p: "0 \<le> p" using price_nonneg[OF assms(2) tp(2)] .
  show ?thesis
  proof (cases "map_of m ?b")
    case None
    then show ?thesis using tp v True candle_map_update[OF assms(1), of "new_candle ?b e (event_volume e) p" ?b]
        good_new_candle[of "event_volume e" p ?b e] p
      by (simp add: overlayEvent_def Let_def map_total_update)
  next
    case (Some c)
    then have c: "cd_bucket c = ?b" "good_candle c"
      using assms(1) map_of_SomeD[OF Some] unfolding candle_map_def by fastforce+
    from merge_good[OF c(2) volume_nonneg[of e] p, of e] obtain d where d: "merge_candle c e (event_volume e) p = Inr d"
      "good_candle d" "cd_bucket d = ?b" "candle_volume d = candle_volume c + event_volume e" "cd_trades d = cd_trades c + 1"
      using c(1) by auto
    then show ?thesis using tp v True Some candle_map_update[OF assms(1) d(3,2)]
      by (simp add: overlayEvent_def Let_def map_total_update)
  qed
qed

lemma overlay_fold:
  assumes "candle_map m" and "list_all good_event es"
  shows "\<exists>m'. foldl (overlayEvent i) (Inr m) es = Inr m' \<and> candle_map m'
    \<and> map_total cd_trades m' = map_total cd_trades m + int (length (filter charted es))
    \<and> map_total candle_volume m' = map_total candle_volume m + sum_list (map event_volume (filter charted es))"
  using assms
proof (induction es arbitrary: m)
  case (Cons e es)
  then obtain m1 where m1: "overlayEvent i (Inr m) e = Inr m1" "candle_map m1"
    "map_total cd_trades m1 = map_total cd_trades m + (if charted e then 1 else 0)"
    "map_total candle_volume m1 = map_total candle_volume m + (if charted e then event_volume e else 0)"
    using overlayEvent_good[of m e i] by auto
  from Cons.IH[OF m1(2)] Cons.prems obtain m2 where m2: "foldl (overlayEvent i) (Inr m1) es = Inr m2" "candle_map m2"
    "map_total cd_trades m2 = map_total cd_trades m1 + int (length (filter charted es))"
    "map_total candle_volume m2 = map_total candle_volume m1 + sum_list (map event_volume (filter charted es))" by auto
  show ?case using m1 m2 by auto
qed simp

lemma canonical_map:
  assumes "list_all good_candle cs" and "distinct (map cd_bucket cs)"
  shows "candle_map (foldl (\<lambda>m c. AList.update (cd_bucket c) c m) [] cs)
    \<and> map_total g (foldl (\<lambda>m c. AList.update (cd_bucket c) c m) [] cs) = sum_list (map g cs)"
proof -
  have "candle_map (foldl (\<lambda>m c. AList.update (cd_bucket c) c m) m cs)
      \<and> map_total g (foldl (\<lambda>m c. AList.update (cd_bucket c) c m) m cs) = map_total g m + sum_list (map g cs)"
    if "candle_map m" "list_all good_candle cs" "distinct (map cd_bucket cs)" "fst ` set m \<inter> cd_bucket ` set cs = {}" for m
    using that
  proof (induction cs arbitrary: m)
    case (Cons c cs)
    have fresh: "map_of m (cd_bucket c) = None" using Cons.prems(4) by (auto simp: map_of_eq_None_iff)
    have "candle_map (AList.update (cd_bucket c) c m)" using Cons.prems by (intro candle_map_update) auto
    moreover have "fst ` set (AList.update (cd_bucket c) c m) = insert (cd_bucket c) (fst ` set m)"
      using dom_update[of "cd_bucket c" c m] by simp
    ultimately show ?case using Cons.IH[of "AList.update (cd_bucket c) c m"] Cons.prems fresh
      by (auto simp: map_total_update)
  qed simp
  from this[of "[]"] show ?thesis using assms by (simp add: candle_map_def)
qed

lemma sum_list_mset_eq:
  fixes g :: "'a \<Rightarrow> int"
  assumes "mset xs = mset ys"
  shows "sum_list (map g xs) = sum_list (map g ys)"
proof -
  have "sum_list (map g zs) = sum_mset (image_mset g (mset zs))" for zs
    by (simp flip: sum_mset_sum_list)
  then show ?thesis using assms by simp
qed

text \<open>Overlaying provisional trades on the indexed candles neither loses nor counts twice: for well-formed
  candles of different buckets and well-formed trades, the result exists, is ordered strictly by bucket, its
  trade counts add up to the indexed ones plus the trades that have a time and a price, its volumes to the
  indexed ones plus the volumes of these trades, and in every candle the low is least and the high greatest.\<close>

theorem overlayCandles_conserves:
  assumes "list_all good_candle canonical" and "distinct (map cd_bucket canonical)" and "list_all good_event events"
  shows "\<exists>cs. overlayCandles lc canonical events interval = Inr cs
    \<and> sorted_wrt (<) (map cd_bucket cs) \<and> list_all good_candle cs
    \<and> sum_list (map cd_trades cs) = sum_list (map cd_trades canonical) + int (length (filter charted events))
    \<and> sum_list (map candle_volume cs)
        = sum_list (map candle_volume canonical) + sum_list (map event_volume (filter charted events))"
proof -
  let ?m = "foldl (\<lambda>m c. AList.update (cd_bucket c) c m) [] canonical"
  let ?es = "js_sort (chainOrder lc) events"
  have es: "list_all good_event ?es" using assms(3) by (simp add: list_all_iff)
  have m: "candle_map ?m" "\<And>g. map_total g ?m = sum_list (map g canonical)" using canonical_map assms(1,2) by blast+
  from overlay_fold[OF m(1) es, of interval] obtain m' where m': "foldl (overlayEvent interval) (Inr ?m) ?es = Inr m'" "candle_map m'"
    "map_total cd_trades m' = map_total cd_trades ?m + int (length (filter charted ?es))"
    "map_total candle_volume m' = map_total candle_volume ?m + sum_list (map event_volume (filter charted ?es))" by blast
  let ?cs = "js_sort (by_number cd_bucket) (map snd m')"
  have same: "sum_list (map g ?cs) = map_total g m'" for g :: "candle \<Rightarrow> int"
    using sum_list_mset_eq[of ?cs "map snd m'" g] by (simp add: map_total_def comp_def)
  have "map cd_bucket (map snd m') = map fst m'" using m'(2) by (auto simp: candle_map_def)
  then have "distinct (map cd_bucket (map snd m'))" using m'(2) unfolding candle_map_def by argo
  moreover have "mset (map cd_bucket ?cs) = mset (map cd_bucket (map snd m'))" by (simp only: mset_map mset_js_sort)
  ultimately have "distinct (map cd_bucket ?cs)" using mset_eq_imp_distinct_iff by blast
  moreover have "sorted (map cd_bucket ?cs)"
    using js_sort_in_order[OF orders_by_number] in_order_by_number by blast
  ultimately have "sorted_wrt (<) (map cd_bucket ?cs)" by (simp add: strict_sorted_iff)
  moreover have "list_all good_candle ?cs" using m'(2) by (auto simp: candle_map_def list_all_iff)
  moreover have "overlayCandles lc canonical events interval = Inr ?cs" using m'(1) by (simp add: overlayCandles_def Let_def)
  moreover have perm: "mset (filter charted ?es) = mset (filter charted events)" by (simp add: mset_filter)
  moreover have "length (filter charted ?es) = length (filter charted events)" by (rule mset_eq_length[OF perm])
  moreover have "sum_list (map event_volume (filter charted ?es)) = sum_list (map event_volume (filter charted events))"
    by (rule sum_list_mset_eq[OF perm])
  ultimately show ?thesis using m' m(2) same by auto
qed

lemma add_volumes: "list_all good_event es \<Longrightarrow> foldl add_volume (Inr a) es = Inr (a + sum_list (map event_volume es))"
  by (induction es arbitrary: a) (simp_all add: add_volume_def realtimeVolume_good)

lemma reconcile_set:
  "mset (reconcileRealtimeTrades m lc events b canonical) =
     mset (filter (\<lambda>e. (case b of None \<Rightarrow> True | Some n \<Rightarrow> n < rt_block e)
        \<and> rt_identity e \<notin> canonicalTradeIdentity m ` set canonical) events)"
  by (simp add: reconcileRealtimeTrades_def Let_def)

text \<open>The page's metrics count every trade once. Over metrics that are decimal texts, the overlay of the
  reconciled trades adds to the indexed volume exactly the volumes of the received trades that lie above the
  indexed block and are not among the indexed ones, counts exactly these, takes its price from the latest of
  them in chain order, and keeps the indexed price when there is none or that trade has no price.\<close>

theorem overlayMetrics_exact:
  assumes "list_all good_event events" and "all_digits (tm_volume metrics)" and "all_digits supply" and "orders lc"
    and "pending = filter (\<lambda>e. (case b of None \<Rightarrow> True | Some n \<Rightarrow> n < rt_block e)
        \<and> rt_identity e \<notin> canonicalTradeIdentity m ` set canonical) events"
  shows "\<exists>t. overlayMetrics lc supply metrics (reconcileRealtimeTrades m lc events b canonical) = Inr t
    \<and> tm_volume t = int_text (int (digits_value (tm_volume metrics)) + sum_list (map event_volume pending))
    \<and> tm_trades t = tm_trades metrics + int (length pending)
    \<and> (pending = [] \<and> tm_price t = tm_price metrics \<and> tm_diluted t = tm_diluted metrics
       \<or> (\<exists>e \<in> set pending. list_all (\<lambda>x. chainOrder lc x e \<le> 0) pending
            \<and> tm_price t = (case realtimePrice e of None \<Rightarrow> tm_price metrics | Some p \<Rightarrow> Some (int_text p))))"
proof -
  let ?r = "reconcileRealtimeTrades m lc events b canonical"
  let ?s = "js_sort (chainOrder lc) ?r"
  have perm: "mset ?s = mset pending" using reconcile_set[of m lc events b canonical] assms(5) by simp
  have good: "list_all good_event ?s"
    using assms(1,5) mset_eq_setD[OF perm] by (auto simp: list_all_iff)
  have added: "foldl add_volume (Inr 0) ?s = Inr (sum_list (map event_volume pending))"
    using add_volumes[OF good, of 0] sum_list_mset_eq[OF perm, of event_volume] by simp
  have n: "length ?s = length pending" by (rule mset_eq_length[OF perm])
  obtain diluted where dil: "(case (if ?s = [] then None else realtimePrice (last ?s)) of
      None \<Rightarrow> Inr (tm_diluted metrics)
    | Some p \<Rightarrow> try_bind (bigint_of supply) (\<lambda>supply.
        Inr (Some (int_text (big_div (p * supply) (10 ^ COOKET_TOKEN_DECIMALS)))))) = (Inr diluted :: string option result)"
    and none: "?s = [] \<Longrightarrow> diluted = tm_diluted metrics"
    using assms(3) by (cases "?s = []"; cases "realtimePrice (last ?s)") (auto simp: bigint_of_def)
  have run: "overlayMetrics lc supply metrics ?r = Inr
      \<lparr>tm_price = (case if ?s = [] then None else realtimePrice (last ?s) of None \<Rightarrow> tm_price metrics | Some p \<Rightarrow> Some (int_text p)),
       tm_diluted = diluted, tm_volume = int_text (int (digits_value (tm_volume metrics)) + sum_list (map event_volume pending)),
       tm_trades = tm_trades metrics + int (length pending)\<rparr>"
    unfolding overlayMetrics_def Let_def dil added n by (simp add: bigint_of_def assms(2))
  show ?thesis
  proof (cases "?s = []")
    case True
    then have "pending = []" using n by simp
    then show ?thesis using run True none by simp
  next
    case False
    have order: "in_order (chainOrder lc) ?s" by (rule js_sort_in_order[OF orders_chainOrder[OF assms(4)]])
    have "\<forall>x \<in> set ?s. chainOrder lc x (last ?s) \<le> 0"
      using in_order_last[OF orders_chainOrder[OF assms(4)] order] False by blast
    then have "last ?s \<in> set pending" "list_all (\<lambda>x. chainOrder lc x (last ?s) \<le> 0) pending"
      using mset_eq_setD[OF perm] False last_in_set[OF False] by (auto simp: list_all_iff)
    then show ?thesis using run False by auto
  qed
qed

subsection \<open>A concrete stream\<close>

definition demo_event :: realtime_trade where
  "demo_event = \<lparr>rt_identity = ''5042002:0xaa:7'', rt_chain = num_of 5042002, rt_token = ''0xt'', rt_market = ''0xm'',
     rt_source = FromCurve, rt_side = Buy, rt_block = 40, rt_timestamp = Some 301, rt_hash = ''0xaa'', rt_log = 7,
     rt_removed = False, rt_received = '''', rt_tokens = ''100'', rt_usdc = ''2'', rt_decimals = 18, rt_raw = None\<rparr>"

definition demo_candle :: candle where
  "demo_candle = \<lparr>cd_bucket = 300, cd_trades = 1, cd_buys = 1, cd_sells = 0, cd_volume = ''5'', cd_traders = 1,
     cd_open = Some ''10'', cd_high = Some ''10'', cd_low = Some ''10'', cd_close = Some ''10''\<rparr>"

lemma demo_event_ok: "good_event demo_event" "charted demo_event" "good_candle demo_candle"
proof -
  show "good_event demo_event" by code_simp
  show "good_candle demo_candle" unfolding good_candle_def prices_ok_def demo_candle_def
    by (simp add: all_digits_def is_digit_def)
  show "charted demo_event" unfolding charted_def by code_simp
qed

definition demo_message :: json where
  "demo_message = JObj [(''chain_id'', JNum (num_of 5042002)), (''token'', JStr ''0xT''),
     (''identity'', JStr (''5042002:0x'' @ replicate 64 (CHR ''a'') @ '':7'')),
     (''transaction_hash'', JStr (''0x'' @ replicate 64 (CHR ''a''))), (''block_number'', JNum (num_of 40)),
     (''log_index'', JNum (num_of 7)), (''market'', JStr ''0xm''), (''source'', JStr ''curve''), (''side'', JStr ''buy''),
     (''removed'', JBool False), (''token_amount_raw'', JStr ''100''), (''usdc_amount_raw'', JStr ''2''),
     (''usdc_decimals'', JNum (num_of 18)), (''block_timestamp'', JNum (num_of 301))]"



lemma demo_message_parses:
  "parseRealtimeTrade sample_module demo_message ''0xt'' = Some (realtime_of_json demo_message)"
proof -
  have spell: "same_address ''0xT'' ''0xt''" "hash_pattern (''0x'' @ replicate 64 (CHR ''a''))" by code_simp+
  have ident: "trade_identity (selectedCooketChainId sample_module) h 7 = ''5042002:'' @ h @ '':7''" for h
    by (simp add: trade_identity_def selectedCooketChainId_def sample_module_def sample_chain_def int_text_def nat_text.simps)
  have "names_trade sample_module demo_message ''0xt''"
    using spell ident by (simp add: names_trade_def demo_message_def text_with_def text_at_def safe_field_def int_at_def
      num_at_def max_safe_def selectedCooketChainId_def sample_module_def sample_chain_def del: replicate.simps)
  moreover have "describes_trade demo_message"
    by (simp add: describes_trade_def demo_message_def text_with_def all_digits_def is_digit_def)
  moreover have "timestamp_ok demo_message"
    by (simp add: timestamp_ok_def demo_message_def safe_nonnegative_def max_safe_def)
  ultimately show ?thesis by (simp add: parse_Some demo_message_def)
qed

lemma demo_message_fields:
  "rt_block (realtime_of_json demo_message) = 40" "\<not> rt_removed (realtime_of_json demo_message)"
  by (simp_all add: realtime_of_json_def int_at_def num_at_def demo_message_def)


theorem overlayCandles_conserves_witness:
  "\<exists>cs. overlayCandles (\<lambda>a b. 0) [demo_candle] [demo_event] Minute5 = Inr cs
    \<and> sum_list (map cd_trades cs) = 2 \<and> sum_list (map candle_volume cs) = 7"
proof -
  have vol: "candle_volume demo_candle = 5" "event_volume demo_event = 2" "cd_trades demo_candle = 1"
    by (code_simp, code_simp, simp add: demo_candle_def)
  obtain cs where "overlayCandles (\<lambda>a b. 0) [demo_candle] [demo_event] Minute5 = Inr cs"
    "sum_list (map cd_trades cs) = sum_list (map cd_trades [demo_candle]) + int (length (filter charted [demo_event]))"
    "sum_list (map candle_volume cs) = sum_list (map candle_volume [demo_candle])
       + sum_list (map event_volume (filter charted [demo_event]))"
    using overlayCandles_conserves[of "[demo_candle]" "[demo_event]" "\<lambda>a b. 0" Minute5] demo_event_ok by auto
  then show ?thesis using vol demo_event_ok by auto
qed

definition demo_metrics :: token_metrics where
  "demo_metrics = \<lparr>tm_price = None, tm_diluted = None, tm_volume = ''8'', tm_trades = 3\<rparr>"

theorem overlayMetrics_exact_witness:
  "\<exists>t. overlayMetrics (\<lambda>a b. 0) ''1000'' demo_metrics
      (reconcileRealtimeTrades sample_module (\<lambda>a b. 0) [demo_event] (Some 39) [(''0xbb'', 1)]) = Inr t
    \<and> tm_volume t = int_text 10 \<and> tm_trades t = 4"
proof -
  have "canonicalTradeIdentity sample_module (''0xbb'', 1) \<noteq> rt_identity demo_event" "39 < rt_block demo_event"
    by (simp_all add: canonicalTradeIdentity_def trade_identity_def selectedCooketChainId_def sample_module_def
      sample_chain_def int_text_def nat_text.simps demo_event_def)
  then have p: "[demo_event] = filter (\<lambda>e. (case Some 39 of None \<Rightarrow> True | Some n \<Rightarrow> n < rt_block e)
        \<and> rt_identity e \<notin> canonicalTradeIdentity sample_module ` set [(''0xbb'', 1)]) [demo_event]" by simp
  have vol: "event_volume demo_event = 2" by code_simp
  have facts: "list_all good_event [demo_event]" "all_digits (tm_volume demo_metrics)" "all_digits ''1000''"
    "orders (\<lambda>a b :: string. 0 :: int)" "digits_value (tm_volume demo_metrics) = 8" "tm_trades demo_metrics = 3"
    by (code_simp, code_simp, code_simp, simp add: orders_def, code_simp, code_simp)
  from overlayMetrics_exact[OF facts(1-4) p] show ?thesis using facts(5,6) vol by auto
qed

end
