(* ===== verification/TradeExecution.thy ===== *)
theory TradeExecution
  imports TradePanel CurveAvailability Realtime
begin

text \<open>
  The trading screen of a curve token (\<^verbatim>\<open>components/token-trading.tsx\<close>): what the panel's
  \<^verbatim>\<open>execute\<close>, \<^verbatim>\<open>resume\<close>, \<^verbatim>\<open>check\<close> and quote callbacks run, the
  queries it invalidates and the trade history; and the composition of an execution with the panel that
  started it, through the reports the execution makes.
\<close>

subsection \<open>Reports\<close>

fun status_text :: "trade_status \<Rightarrow> string" where
  "status_text TIdle = ''idle''"
| "status_text TPreparing = ''preparing''"
| "status_text TAwaitingApproval = ''awaiting_approval''"
| "status_text TApprovalConfirming = ''approval_confirming''"
| "status_text TApprovalConfirmed = ''approval_confirmed''"
| "status_text TPreparingSell = ''preparing_sell''"
| "status_text TAwaitingSellSignature = ''awaiting_sell_signature''"
| "status_text TAwaitingWallet = ''awaiting_wallet''"
| "status_text TSubmitted = ''submitted''"
| "status_text TConfirming = ''confirming''"
| "status_text TConfirmationUnknown = ''confirmation_unknown''"
| "status_text TConfirmed = ''confirmed''"
| "status_text TReverted = ''reverted''"
| "status_text TReplaced = ''replaced''"
| "status_text TRejected = ''rejected''"
| "status_text TExpired = ''expired''"
| "status_text TFailed = ''failed''"

text \<open>The four statuses the execution reports itself.\<close>

definition own_statuses :: "trade_status list" where
  "own_statuses = [TPreparing, TAwaitingWallet, TSubmitted, TConfirming]"

definition recovery_texts :: "trade_recovery option \<Rightarrow> string list" where
  "recovery_texts recovery =
     (case recovery of
        None \<Rightarrow> []
      | Some r \<Rightarrow> [rec_sender r, int_text (rec_nonce r), rec_value r, rec_input r, rec_nextScanBlock r]
          @ (case rec_to r of None \<Rightarrow> [] | Some to \<Rightarrow> [to]))"

text \<open>\<^verbatim>\<open>report(status, hash, recovery)\<close> is an event; its texts are the arguments.\<close>

definition report_status :: "trade_status \<Rightarrow> string option \<Rightarrow> trade_recovery option \<Rightarrow> unit io" where
  "report_status status hash recovery =
     io_note (EvCallback ''report'' (status_text status
       # (case hash of None \<Rightarrow> [] | Some h \<Rightarrow> h # recovery_texts recovery)))"

definition first_text :: "string list \<Rightarrow> string option" where
  "first_text xs = (case xs of [] \<Rightarrow> None | x # _ \<Rightarrow> Some x)"

text \<open>The report an event of the trace is: the execution's own, or one of the callbacks it passes to
  \<^verbatim>\<open>submitSell\<close>, which report a status each.\<close>

fun report_of :: "event \<Rightarrow> (trade_status \<times> string option) option" where
  "report_of (EvCallback name args) =
     (if name = ''report''
      then (case args of [] \<Rightarrow> None
            | s # rest \<Rightarrow> map_option (\<lambda>st. (st, first_text rest)) (find (\<lambda>st. status_text st = s) own_statuses))
      else if name = ''onApprovalRequested'' then Some (TAwaitingApproval, None)
      else if name = ''onApprovalSubmitted'' then Some (TApprovalConfirming, first_text args)
      else if name = ''onApprovalConfirmed'' then Some (TApprovalConfirmed, None)
      else if name = ''onSellPreparing'' then Some (TPreparingSell, None)
      else if name = ''onSellRequested'' then Some (TAwaitingSellSignature, None)
      else None)"
| "report_of _ = None"

definition reports :: "trace \<Rightarrow> (trade_status \<times> string option) list" where
  "reports s = List.map_filter report_of s"

text \<open>The recovery data a report carries, read back from its texts.\<close>

definition text_int :: "string \<Rightarrow> int" where
  "text_int s = (case s of c # d \<Rightarrow> if c = CHR ''-'' then - int (digits_value d) else int (digits_value s) | [] \<Rightarrow> 0)"

fun recovery_of_texts :: "string list \<Rightarrow> trade_recovery option" where
  "recovery_of_texts (a # n # v # i # b # rest) =
     Some \<lparr>rec_sender = a, rec_nonce = text_int n, rec_to = first_text rest, rec_value = v, rec_input = i,
       rec_nextScanBlock = b\<rparr>"
| "recovery_of_texts _ = None"

fun recovery_in :: "event \<Rightarrow> trade_recovery option" where
  "recovery_in (EvCallback name args) =
     (if name = ''report'' then (case args of s # h # rest \<Rightarrow> recovery_of_texts rest | _ \<Rightarrow> None) else None)"
| "recovery_in _ = None"

subsection \<open>The callbacks of the panel\<close>

definition quoteBuy_panel ::
    "client \<Rightarrow> string \<Rightarrow> curve_trade_state option \<Rightarrow> int \<Rightarrow> jsnum \<Rightarrow> budget_quote io" where
  "quoteBuy_panel c token state budget slippageBps =
     (case state of
        None \<Rightarrow> io_throw (Err ''Curve state is not available yet.'')
      | Some s \<Rightarrow> quoteBuyByBudget c token budget slippageBps)"

text \<open>The end of \<^verbatim>\<open>execute\<close>, once the wallet has returned a hash.\<close>

definition confirm_submitted :: "client \<Rightarrow> string \<Rightarrow> trade_side \<Rightarrow> string \<Rightarrow> string \<Rightarrow> trade_confirmation io" where
  "confirm_submitted c hash side token wallet =
     io_bind (report_status TSubmitted (Some hash) None) (\<lambda>_.
     io_bind (captureTradeRecovery c hash) (\<lambda>recovery.
     io_bind (report_status TConfirming (Some hash) recovery) (\<lambda>_.
       confirmTrade c hash side token wallet recovery)))"

definition execute_trade ::
    "client \<Rightarrow> int option \<Rightarrow> string option \<Rightarrow> bool \<Rightarrow> string \<Rightarrow> trade_quote \<Rightarrow> (trace \<Rightarrow> unit result)
       \<Rightarrow> trade_confirmation io" where
  "execute_trade c chainId walletAddress hasClient token quote assertReady =
     (case truthy walletAddress of
        None \<Rightarrow> io_throw (Err (''Connect a browser wallet on '' @ selectedCooketChainName (c_chain c) @ '' before trading.''))
      | Some wallet \<Rightarrow>
          if chainId \<noteq> Some (selectedCooketChainId (c_chain c)) \<or> \<not> hasClient
          then io_throw (Err (''Connect a browser wallet on '' @ selectedCooketChainName (c_chain c) @ '' before trading.''))
          else
            io_bind (report_status TPreparing None None) (\<lambda>_.
            io_bind (io_check assertReady) (\<lambda>_.
            io_bind (case quote of
                BuyQuote q \<Rightarrow> io_bind (report_status TAwaitingWallet None None) (\<lambda>_.
                  submitBuy c wallet token q assertReady)
              | SellQuote q \<Rightarrow> submitSell c wallet token q assertReady) (\<lambda>hash.
              confirm_submitted c hash (quote_side quote) token wallet))))"

definition resume_trade ::
    "client \<Rightarrow> string option \<Rightarrow> string \<Rightarrow> trade_side \<Rightarrow> string \<Rightarrow> trade_recovery option \<Rightarrow> trade_confirmation io" where
  "resume_trade c walletAddress token side hash recovery =
     (case truthy walletAddress of
        None \<Rightarrow> io_throw (Err ''The active wallet is unavailable.'')
      | Some wallet \<Rightarrow>
          io_bind (report_status TConfirming (Some hash) None) (\<lambda>_.
            confirmTrade c hash side token wallet recovery))"

definition check_trade ::
    "client \<Rightarrow> string option \<Rightarrow> string \<Rightarrow> trade_side \<Rightarrow> string \<Rightarrow> trade_recovery option \<Rightarrow> trade_confirmation io" where
  "check_trade c walletAddress token side hash recovery =
     (case truthy walletAddress of
        None \<Rightarrow> io_throw (Err ''The active wallet is unavailable.'')
      | Some wallet \<Rightarrow> checkTrade c hash side token wallet recovery)"

text \<open>What the panel's \<^verbatim>\<open>recover\<close> runs for its job.\<close>

definition recover_trade :: "client \<Rightarrow> recover_job \<Rightarrow> trade_confirmation io" where
  "recover_trade c j =
     (if rj_check j then check_trade c (Some (rj_wallet j)) (rj_token j) (rj_side j) (rj_hash j) (rj_recovery j)
      else resume_trade c (Some (rj_wallet j)) (rj_token j) (rj_side j) (rj_hash j) (rj_recovery j))"


text \<open>The queries a confirmed trade invalidates, as lists of keys; \<^verbatim>\<open>undefined\<close> is \<^verbatim>\<open>None\<close>.\<close>

definition tradeInvalidationKeys :: "string \<Rightarrow> string list list" where
  "tradeInvalidationKeys token =
     [[''trade-state'', token], [''curve-availability'', token], [''trades'', token], [''token-activity'', token],
      [''token-chart'', token], [''token'', token], [''tokens''], [''trending'']]"

definition activeTradeStateQueryKey :: "string \<Rightarrow> string option \<Rightarrow> string option list" where
  "activeTradeStateQueryKey token wallet = [Some ''trade-state'', Some token, wallet]"

definition loadActiveTradeState :: "client \<Rightarrow> string \<Rightarrow> string option \<Rightarrow> curve_trade_state io" where
  "loadActiveTradeState c token wallet = readTradeState c token wallet"

text \<open>\<^verbatim>\<open>invalidateQueries({ queryKey })\<close> reaches the queries whose key starts with the given one.\<close>

definition key_prefix :: "string list \<Rightarrow> string option list \<Rightarrow> bool" where
  "key_prefix short key \<longleftrightarrow> take (length short) key = map Some short"

text \<open>The rows of the trade history: the indexed trades and, before them, the received ones that are not
  indexed yet, newest first; the second tab keeps the curve trades of the wallet.\<close>

datatype history_tab = RecentTab | YoursTab

record history_row =
  hr_source :: trade_source
  hr_trader :: string
  hr_hash :: string
  hr_logIndex :: int

definition of_wallet :: "string option \<Rightarrow> string option \<Rightarrow> bool" where
  "of_wallet wallet trader = (case (truthy wallet, trader) of (Some w, Some t) \<Rightarrow> js_lower t = js_lower w | _ \<Rightarrow> False)"

definition visible_rows :: "history_tab \<Rightarrow> string option \<Rightarrow> history_row list \<Rightarrow> history_row list" where
  "visible_rows tab wallet items =
     filter (\<lambda>t. tab = RecentTab \<or> hr_source t = FromCurve \<and> of_wallet wallet (Some (hr_trader t))) items"

definition pending_rows ::
    "chain_module \<Rightarrow> (string \<Rightarrow> string \<Rightarrow> int) \<Rightarrow> history_tab \<Rightarrow> string option \<Rightarrow> realtime_trade list \<Rightarrow> int option
       \<Rightarrow> history_row list \<Rightarrow> realtime_trade list" where
  "pending_rows m lc tab wallet provisional indexed items =
     filter (\<lambda>t. tab = RecentTab \<or> of_wallet wallet (curveActor t))
       (rev (reconcileRealtimeTrades m lc provisional indexed (map (\<lambda>t. (hr_hash t, hr_logIndex t)) items)))"

subsection \<open>The reports in the trace of an execution\<close>

lemma reports_simps [simp]:
  "reports [] = []"
  "reports (s @ t) = reports s @ reports t"
  "reports (e # s) = (case report_of e of None \<Rightarrow> reports s | Some r \<Rightarrow> r # reports s)"
  by (simp_all add: reports_def map_filter_def split: option.split)

lemma text_int_of: "text_int (int_text i) = i"
proof (cases "i < 0")
  case True
  then show ?thesis by (simp add: text_int_def int_text_def)
next
  case False
  obtain c d where t: "nat_text (nat i) = c # d" using nat_text_nonempty by (metis list.exhaust)
  then have "is_digit c" using nat_text_digits[of "nat i"] by simp
  then have "c \<noteq> CHR ''-''" using minus_not_digit by blast
  moreover have "digits_value (c # d) = nat i" using digits_value_nat_text[of "nat i"] t by simp
  ultimately show ?thesis using False t by (simp add: text_int_def int_text_nonneg)
qed

text \<open>A report can be read back from its event.\<close>

lemma report_status_event:
  assumes "st \<in> set own_statuses" and "hash = None \<longrightarrow> recovery = None"
  shows "\<exists>e. report_status st hash recovery tr = (Inr (), tr @ [e]) \<and> report_of e = Some (st, hash)
    \<and> recovery_in e = recovery \<and> \<not> is_write e"
proof -
  have rt: "recovery_of_texts (recovery_texts r) = r" for r
    by (cases r) (auto simp: recovery_texts_def text_int_of first_text_def split: option.split)
  have "list_all (\<lambda>s. find (\<lambda>x. status_text x = status_text s) own_statuses = Some s) own_statuses"
    by code_simp
  then have found: "find (\<lambda>s. status_text s = status_text st) own_statuses = Some st"
    using assms(1) by (simp add: list_all_iff)
  show ?thesis
  proof (cases hash)
    case None
    then show ?thesis using assms(2) by (simp add: report_status_def io_note_def first_text_def found)
  next
    case (Some h)
    then show ?thesis by (simp add: report_status_def io_note_def first_text_def found rt)
  qed
qed

abbreviation silent :: "'a io \<Rightarrow> bool" where
  "silent \<equiv> emits (\<lambda>e. report_of e = None)"

lemma silent_reports:
  assumes "silent m" and "m tr = (r, t)"
  shows "\<exists>s. t = tr @ s \<and> reports s = []"
proof -
  obtain s where s: "t = tr @ s" "list_all (\<lambda>e. report_of e = None) s"
    using emitsD[OF assms] by (auto simp: grows_def)
  from s(2) have "reports s = []" by (induction s) auto
  then show ?thesis using s(1) by blast
qed

lemma requests_silent [emits_intros]:
  "silent (readInt c a f args)" "silent (readText c a f args)" "silent (readBool c a f args)"
  "silent (readTexts c a f args)" "silent (simulateContract c spec)"
  "silent (estimateContractGas c spec)" "silent (getGasPrice c)" "silent (getBalance c a)"
  "silent (getChainId c)" "silent (getBytecode c a)" "silent (getTransaction c h)"
  "silent (getTransactionReceipt c h)" "silent (waitForTransactionReceipt c h timeout)"
  "silent (getBlockNumber c)" "silent (getLatestTimestamp c)"
  "silent (getTransactionCount c a)" "silent (getBlock c n)" "silent (dateNow c)" "silent (writeContract c request)"
  by (simp_all add: request_defs writeContract_def emits_intros)

lemma parts_silent [emits_intros]:
  "silent (gate c)" "silent (requireCurve c token)" "silent (assertBuyQuoteFresh c bq)"
  "silent (assertSellDeadline c sq)" "silent (assertActiveWalletClient c a)"
  "silent (readBrowserSellState c token account curve)"
  unfolding gate_def requireCurve_def resolveCurveAddress_def assertBuyQuoteFresh_def assertSellDeadline_def
    assertActiveWalletClient_def readBrowserSellState_def
  by (intro emits_intros; simp)+

lemma signedWrite_silent [emits_intros]: "silent (signedWrite c account request)"
  unfolding signedWrite_def by (intro emits_intros)

lemma submitBuy_silent: "silent (submitBuy c account token quote ready)"
  unfolding submitBuy_def by (intro emits_intros)


lemma scanBlocks_silent [emits_intros]: "silent (scanBlocks c hash recovery ns)"
  by (induction ns) (auto intro!: emits_intros split: option.split)

lemma confirmation_silent [emits_intros]:
  "silent (captureTradeRecovery c hash)" "silent (checkTrade c hash side token trader recovery)"
  "silent (confirmTrade c hash side token trader recovery)"
  unfolding captureTradeRecovery_def confirmTrade_def checkTrade_def recoverTransactionReceipt_def
    scanForReplacement_def resolveTradeReceipt_def Let_def
  by (intro emits_intros)+

lemma writes_read [simp]: "\<not> is_write e \<Longrightarrow> writes [e] = []"
  by (cases e) auto

lemma captureTradeRecovery_returns: "\<exists>r t. captureTradeRecovery c hash tr = (Inr r, t)"
  unfolding captureTradeRecovery_def io_bind_def io_attempt_def io_return_def
  by (auto split: prod.split sum.split)

text \<open>After the hash: two reports that carry it, and no further write.\<close>

lemma confirm_submitted_run:
  assumes "confirm_submitted c hash side token wallet tr = (out, t)"
  shows "\<exists>e s. t = tr @ e # s \<and> \<not> is_write (last (e # s)) \<and> writes (e # s) = []
    \<and> reports (e # s) = [(TSubmitted, Some hash), (TConfirming, Some hash)]"
proof -
  have own: "TSubmitted \<in> set own_statuses" "TConfirming \<in> set own_statuses" by (simp_all add: own_statuses_def)
  obtain e1 where e1: "report_status TSubmitted (Some hash) None tr = (Inr (), tr @ [e1])"
    "report_of e1 = Some (TSubmitted, Some hash)" "\<not> is_write e1"
    using report_status_event[OF own(1)] by blast
  obtain recovery t1 where capture: "captureTradeRecovery c hash (tr @ [e1]) = (Inr recovery, t1)"
    using captureTradeRecovery_returns by blast
  obtain s1 where s1: "t1 = (tr @ [e1]) @ s1" "reports s1 = []"
    using silent_reports[OF confirmation_silent(1) capture] by blast
  have w1: "writes s1 = []"
    using read_only_writes[OF captureTradeRecovery_read_only capture] e1(3) s1(1) by simp
  obtain e2 where e2: "report_status TConfirming (Some hash) recovery t1 = (Inr (), t1 @ [e2])"
    "report_of e2 = Some (TConfirming, Some hash)" "\<not> is_write e2"
    using report_status_event[OF own(2), of "Some hash" recovery t1] by blast
  have run: "confirmTrade c hash side token wallet recovery (t1 @ [e2]) = (out, t)"
    using assms by (simp add: confirm_submitted_def io_bind_def e1(1) capture e2(1))
  obtain s2 where s2: "t = (t1 @ [e2]) @ s2" "reports s2 = []"
    using silent_reports[OF confirmation_silent(3) run] by blast
  obtain s2' where s2': "t = (t1 @ [e2]) @ s2'" "list_all (\<lambda>e. \<not> is_write e) s2'"
    using emitsD[OF confirmTrade_read_only run] by (auto simp: grows_def)
  then have w2: "list_all (\<lambda>e. \<not> is_write e) s2" using s2 by simp
  have "writes (e1 # s1 @ e2 # s2) = []"
    using w1 writes_none[OF w2] writes_read[OF e1(3)] writes_read[OF e2(3)]
    by (simp del: writes_read split: event.splits)
  moreover have "\<not> is_write (last (e1 # s1 @ e2 # s2))"
    using w2 e2(3) by (auto simp: list_all_iff)
  moreover have "t = tr @ e1 # s1 @ e2 # s2" by (simp add: s2(1) s1(1))
  moreover have "reports (e1 # s1 @ e2 # s2) = [(TSubmitted, Some hash), (TConfirming, Some hash)]"
    by (simp add: e1(2) s1(2) e2(2) s2(2))
  ultimately show ?thesis by blast
qed

text \<open>An execution of a buy: nothing was handed to the wallet, or the wallet was asked once, after the report
  that it would be, and either refused or returned the hash the later reports carry.\<close>

lemma execute_buy_run:
  assumes "execute_trade c chainId walletAddress hasClient token (BuyQuote q) ready tr = (out, t)"
  shows "\<exists>s. t = tr @ s
    \<and> ((writes s = [] \<and> (\<exists>e. out = Inl e))
      \<or> (\<exists>u request e. t = u @ [EvWrite request] \<and> c_write c u request = Inl e \<and> out = Inl e
           \<and> reports s = [(TPreparing, None), (TAwaitingWallet, None)])
      \<or> (\<exists>u v request h. t = u @ EvWrite request # v \<and> c_write c u request = Inr h
           \<and> reports s = [(TPreparing, None), (TAwaitingWallet, None), (TSubmitted, Some h), (TConfirming, Some h)]))"
proof (cases "truthy walletAddress = None \<or> chainId \<noteq> Some (selectedCooketChainId (c_chain c)) \<or> \<not> hasClient")
  case True
  then show ?thesis using assms by (auto simp: execute_trade_def io_throw_def split: option.splits)
next
  case False
  then obtain wallet where wallet: "truthy walletAddress = Some wallet"
    and ok: "chainId = Some (selectedCooketChainId (c_chain c))" hasClient by auto
  have own: "TPreparing \<in> set own_statuses" "TAwaitingWallet \<in> set own_statuses" by (simp_all add: own_statuses_def)
  obtain e1 where e1: "report_status TPreparing None None tr = (Inr (), tr @ [e1])"
    "report_of e1 = Some (TPreparing, None)" "\<not> is_write e1"
    using report_status_event[OF own(1), of None None tr] by blast
  obtain e2 where e2: "report_status TAwaitingWallet None None (tr @ [e1]) = (Inr (), (tr @ [e1]) @ [e2])"
    "report_of e2 = Some (TAwaitingWallet, None)" "\<not> is_write e2"
    using report_status_event[OF own(2), of None None "tr @ [e1]"] by blast
  let ?tr = "tr @ [e1, e2]"
  show ?thesis
  proof (cases "ready (tr @ [e1])")
    case (Inl e)
    then have "out = Inl e" "t = tr @ [e1]"
      using assms by (simp_all add: execute_trade_def wallet ok io_bind_def e1(1) io_check_def)
    then show ?thesis using writes_read[OF e1(3)] by (intro exI[of _ "[e1]"]) simp
  next
    case (Inr u)
    obtain r t1 where buy: "submitBuy c wallet token q ready ?tr = (r, t1)" by fastforce
    obtain s1 where s1: "t1 = ?tr @ s1" "reports s1 = []" using silent_reports[OF submitBuy_silent buy] by blast
    have run: "(case r of Inl e \<Rightarrow> (Inl e, t1)
        | Inr h \<Rightarrow> confirm_submitted c h Buy token wallet t1) = (out, t)"
      using assms buy Inr e2(1) by (simp add: execute_trade_def wallet ok io_bind_def e1(1) io_check_def)
    have we: "writes [e1, e2] = []" using writes_read[OF e1(3)] writes_read[OF e2(3)] by simp
    have rep: "reports ([e1, e2] @ s1) = [(TPreparing, None), (TAwaitingWallet, None)]"
      by (simp add: e1(2) e2(2) s1(2))
    from submitBuy_final[of c wallet token q ready] buy consider
        (nothing) e where "writes t1 = writes ?tr" "r = Inl e"
      | (asked) u request where "t1 = u @ [EvWrite request]" "writes u = writes ?tr" "r = c_write c u request"
      unfolding final_write_def by blast
    then show ?thesis
    proof cases
      case nothing
      then have "writes s1 = []" "t = tr @ [e1, e2] @ s1" "out = Inl e" using run s1(1) by simp_all
      then show ?thesis using we by (intro exI[of _ "[e1, e2] @ s1"]) simp
    next
      case asked
      show ?thesis
      proof (cases r)
        case (Inl e)
        have f: "t = tr @ ([e1, e2] @ s1)" "out = Inl e" "t = u @ [EvWrite request]" "c_write c u request = Inl e"
          using Inl run s1(1) asked by simp_all
        show ?thesis
          by (intro exI[of _ "[e1, e2] @ s1"] conjI, rule f(1), rule disjI2, rule disjI1)
            (intro exI conjI, rule f(3), rule f(4), rule f(2), rule rep)
      next
        case (Inr h)
        then have "confirm_submitted c h Buy token wallet t1 = (out, t)" using run by simp
        from confirm_submitted_run[OF this] obtain e s where
          s: "t = t1 @ e # s" "reports (e # s) = [(TSubmitted, Some h), (TConfirming, Some h)]" by blast
        have "t = u @ EvWrite request # e # s" using asked(1) s(1) by simp
        moreover have "reports (([e1, e2] @ s1) @ e # s)
            = [(TPreparing, None), (TAwaitingWallet, None), (TSubmitted, Some h), (TConfirming, Some h)]"
          unfolding reports_simps(2)[of "[e1, e2] @ s1" "e # s"] rep s(2) by simp
        moreover have "t = tr @ ([e1, e2] @ s1) @ e # s" using s(1) s1(1) by simp
        ultimately show ?thesis using asked(3) Inr by metis
      qed
    qed
  qed
qed


subsection \<open>The panel that follows an execution\<close>

text \<open>What every handler but new props keeps, and what a running trade of the panel relies on.\<close>

definition steady :: "panel \<Rightarrow> panel \<Rightarrow> bool" where
  "steady p q \<longleftrightarrow> p_generation q = p_generation p \<and> p_previous q = p_previous p \<and> p_props q = p_props p"

definition keeps :: "panel \<Rightarrow> panel \<Rightarrow> bool" where
  "keeps p q \<longleftrightarrow> p_operation q = p_operation p \<and> (p_interaction p \<longrightarrow> p_interaction q)
     \<and> (p_submittedHash p \<noteq> None \<longrightarrow> p_submittedHash q \<noteq> None)"

lemma keeps_trans: "keeps p q \<Longrightarrow> keeps q r \<Longrightarrow> keeps p r"
  by (auto simp: keeps_def)

lemma steady_trans: "steady p q \<Longrightarrow> steady q r \<Longrightarrow> steady p r"
  by (auto simp: steady_def)

named_theorems panel_keeps \<open>handlers that keep the running trade\<close>

lemma input_keeps [panel_keeps]:
  "steady p (changeAmount v p) \<and> keeps p (changeAmount v p)"
  "steady p (changeSlippage v p) \<and> keeps p (changeSlippage v p)"
  "steady p (changeSide s p) \<and> keeps p (changeSide s p)"
  by (simp_all add: steady_def keeps_def changeAmount_def changeSlippage_def changeSide_def invalidateQuote_def)

lemma quotes_keep [panel_keeps]:
  "steady p (fst (getQuote L p)) \<and> keeps p (fst (getQuote L p))"
  "steady p (quoteAnswered m qj answer now p) \<and> keeps p (quoteAnswered m qj answer now p)"
  by (auto simp: steady_def keeps_def getQuote_def quoteAnswered_def Let_def split: sum.split)

lemma persist_keeps [simp]:
  "steady p (persist_trade side h st w t r now p)" "steady p (persistHashlessUnknown side w t now p)"
  "keeps p (persist_trade side h st w t r now p)" "keeps p (persistHashlessUnknown side w t now p)"
  by (simp_all add: steady_def keeps_def persist_trade_def persistHashlessUnknown_def)

lemma display_keeps [simp]:
  "steady p (note_wallet j st h p)" "steady p (note_recovery r p)" "steady p (show_status i g st h p)"
  "keeps p (note_wallet j st h p)" "keeps p (note_recovery r p)" "keeps p (show_status i g st h p)"
  by (auto simp: steady_def keeps_def note_wallet_def note_recovery_def show_status_def Let_def split: option.split)

lemma reported_keeps:
  "steady p (reported j st h r now p) \<and> keeps p (reported j st h r now p)"
  "steady p (recover_reported rj st h r now p) \<and> keeps p (recover_reported rj st h r now p)"
proof -
  let ?p1 = "note_recovery r (note_wallet j st h p)"
  have 1: "steady p ?p1" "keeps p ?p1" by (meson display_keeps keeps_trans steady_trans)+
  have hash: "steady ?p1 (?p1\<lparr>p_submittedHash := Some x\<rparr>)" "keeps ?p1 (?p1\<lparr>p_submittedHash := Some x\<rparr>)" for x
    by (simp_all add: steady_def keeps_def)
  show "steady p (reported j st h r now p) \<and> keeps p (reported j st h r now p)"
    unfolding reported_def Let_def
    using steady_trans[OF 1(1) display_keeps(3)] keeps_trans[OF 1(2) display_keeps(6)]
      steady_trans[OF steady_trans[OF steady_trans[OF 1(1) hash(1)] persist_keeps(1)] display_keeps(3)]
      keeps_trans[OF keeps_trans[OF keeps_trans[OF 1(2) hash(2)] persist_keeps(3)] display_keeps(6)]
    by (auto split: option.split)
  show "steady p (recover_reported rj st h r now p) \<and> keeps p (recover_reported rj st h r now p)"
    unfolding recover_reported_def Let_def
    using steady_trans[OF display_keeps(2) display_keeps(3)] keeps_trans[OF display_keeps(5) display_keeps(6)]
      steady_trans[OF steady_trans[OF display_keeps(2) persist_keeps(1)] display_keeps(3)]
      keeps_trans[OF keeps_trans[OF display_keeps(5) persist_keeps(3)] display_keeps(6)]
    by (auto split: option.split)
qed


lemma submit_steady: "steady p (fst (submit m L now later p))"
proof -
  have refusal: "steady p q" if "submit_refusal m L rq (p\<lparr>p_error := '''', p_storage := s\<rparr>) = Some q" for rq s q
    using that by (auto simp: submit_refusal_def steady_def Let_def split: trade_quote.splits option.splits if_splits)
  show ?thesis
    by (auto simp: submit_def Let_def steady_def persistHashlessUnknown_def split: option.split prod.split
        dest!: refusal[unfolded steady_def])
qed

lemma resolution_steady:
  "steady p (applyResolution m r side w t i now p)" "steady p (failed_trade j reason now p)"
  "steady p (end_operation i g p)" "steady p (abandon yes p)" "steady p (fst (recover ck now p))"
  by (auto simp: steady_def applyResolution_def failed_trade_def end_operation_def abandon_def recover_def
      persist_trade_def persistHashlessUnknown_def Let_def split: option.split)

lemma settled_steady:
  "steady p (submit_settled m j out now p)" "steady p (recover_settled m rj out now p)"
proof -
  show "steady p (submit_settled m j out now p)" unfolding submit_settled_def
    by (cases out) (auto intro: steady_trans[OF resolution_steady(1) resolution_steady(3)]
        steady_trans[OF resolution_steady(2) resolution_steady(3)])
  have 1: "steady p (q\<lparr>p_status := st, p_error := er\<rparr>)" if "steady p q" for q st er
    using that by (simp add: steady_def)
  show "steady p (recover_settled m rj out now p)" unfolding recover_settled_def
    by (cases out) (auto intro: steady_trans[OF resolution_steady(1) resolution_steady(3)]
        steady_trans[OF 1[OF persist_keeps(1)] resolution_steady(3)] resolution_steady(3))
qed

lemma handle_steady: "(\<nexists>pr. e = NewProps pr) \<Longrightarrow> steady p (fst (handle m L e p))"
  using panel_keeps reported_keeps submit_steady resolution_steady settled_steady
  by (cases e) (auto simp: command_of_def steady_def)

lemma handle_props: "p_generation (fst (handle m L e p)) = p_generation p" "p_previous (fst (handle m L e p)) = p_previous p"
  using handle_steady[of e p m L] by (cases "\<exists>pr. e = NewProps pr"; auto simp: steady_def)+

text \<open>Events that leave the job the panel runs alone: not its end, not the user's abandonment, not the end of another
  trade or check of the same generation, nor a final one for the same wallet and token.\<close>

fun unresolved :: "trade_confirmation result \<Rightarrow> bool" where
  "unresolved (Inl e) = True"
| "unresolved (Inr r) = (tc_status r = Pending)"

fun bystander :: "trade_job \<Rightarrow> panel_event \<Rightarrow> bool" where
  "bystander j (TradeSettled j' out now) \<longleftrightarrow>
     tj_generation j' \<noteq> tj_generation j \<and> (tj_identity j' = tj_identity j \<longrightarrow> unresolved out)"
| "bystander j (RecoverSettled j' out now) \<longleftrightarrow>
     rj_generation j' \<noteq> tj_generation j \<and> (rj_identity j' = tj_identity j \<longrightarrow> unresolved out)"
| "bystander j (PressAbandon yes) \<longleftrightarrow> \<not> yes"
| "bystander j _ \<longleftrightarrow> True"

lemma applyResolution_keeps:
  assumes "i = fst (p_latest p) \<longrightarrow> tc_status r = Pending"
  shows "keeps p (applyResolution m r side w t i now p)"
  using assms by (auto simp: applyResolution_def keeps_def persist_trade_def)

lemma settled_keeps:
  assumes "tj_generation j' \<noteq> p_generation p" and "tj_identity j' = fst (p_latest p) \<longrightarrow> unresolved out"
  shows "keeps p (submit_settled m j' out now p)"
proof (cases out)
  case (Inl e)
  then show ?thesis using assms by (simp add: submit_settled_def failed_trade_def current_job_def end_operation_def keeps_def)
next
  case (Inr r)
  have k: "keeps p (applyResolution m r (tj_side j') (tj_wallet j') (tj_token j') (tj_identity j') now p)"
    by (rule applyResolution_keeps) (use assms Inr in auto)
  have "p_generation (applyResolution m r (tj_side j') (tj_wallet j') (tj_token j') (tj_identity j') now p) = p_generation p"
    using resolution_steady(1) by (simp add: steady_def)
  then show ?thesis using assms(1) k Inr by (simp add: submit_settled_def end_operation_def current_job_def)
qed

lemma recover_settled_keeps:
  assumes "rj_generation j' \<noteq> p_generation p" and "rj_identity j' = fst (p_latest p) \<longrightarrow> unresolved out"
  shows "keeps p (recover_settled m j' out now p)"
proof (cases out)
  case (Inl e)
  then show ?thesis using assms by (simp add: recover_settled_def current_job_def end_operation_def keeps_def)
next
  case (Inr r)
  have k: "keeps p (applyResolution m r (rj_side j') (rj_wallet j') (rj_token j') (rj_identity j') now p)"
    by (rule applyResolution_keeps) (use assms Inr in auto)
  have "p_generation (applyResolution m r (rj_side j') (rj_wallet j') (rj_token j') (rj_identity j') now p) = p_generation p"
    using resolution_steady(1) by (simp add: steady_def)
  then show ?thesis using assms(1) k Inr by (simp add: recover_settled_def end_operation_def current_job_def)
qed

lemma handle_keeps:
  assumes "bystander j e" and "p_generation p = tj_generation j" and "fst (p_latest p) = tj_identity j" and "p_operation p"
  shows "keeps p (fst (handle m L e p))"
proof (cases e)
  case (TradeSettled j' out now)
  then show ?thesis using settled_keeps[of j' p out m now] assms by simp
next
  case (RecoverSettled j' out now)
  then show ?thesis using recover_settled_keeps[of j' p out m now] assms by simp
next
  case (ConfirmTrade now later)
  then show ?thesis using assms(4) by (simp add: command_of_def submit_def keeps_def)
next
  case (PressRecover ck now)
  then show ?thesis using assms(4) by (simp add: command_of_def recover_def keeps_def)
next
  case (PressAbandon yes)
  then show ?thesis using assms(1) by (auto simp: abandon_def keeps_def split: option.split)
next
  case (TradeReport j' st h r now)
  then show ?thesis using reported_keeps(1) by simp
next
  case (RecoverReport j' st h r now)
  then show ?thesis using reported_keeps(2) by simp
next
  case AskQuote
  then show ?thesis using panel_keeps by (simp add: command_of_def) (auto simp: keeps_def)
qed (use panel_keeps in \<open>auto simp: keeps_def\<close>)


definition rendered :: "panel \<Rightarrow> bool" where
  "rendered p \<longleftrightarrow> p_previous p = p_identity p \<and> fst (p_latest p) = p_identity p"

lemma committed_rendered:
  "rendered (committed b q) \<and> p_identity (committed b q) = p_identity q
    \<and> (if p_previous q = p_identity q then p_generation (committed b q) = p_generation q \<and> keeps q (committed b q)
       else p_generation (committed b q) = Suc (p_generation q))"
proof -
  obtain md where f: "follow_status b q = q\<lparr>p_modal := md\<rparr>" using follow_status_more by blast
  let ?q = "q\<lparr>p_modal := md\<rparr>"
  obtain md' where g: "follow_status q (restore_identity ?q) = restore_identity ?q\<lparr>p_modal := md'\<rparr>"
    using follow_status_more by blast
  have r: "p_previous (restore_identity ?q) = p_identity q \<and> p_identity (restore_identity ?q) = p_identity q
    \<and> (if p_previous q = p_identity q then restore_identity ?q = ?q
       else p_generation (restore_identity ?q) = Suc (p_generation q))"
    by (auto simp: restore_identity_def p_identity_def split: prod.split)
  have c: "committed b q = remember_latest (restore_identity ?q\<lparr>p_modal := md'\<rparr>)"
    by (simp add: committed_def f g)
  show ?thesis using r unfolding c
    by (auto simp: remember_latest_def rendered_def p_identity_def keeps_def split: if_splits)
qed

text \<open>What the panel knows of the job \<^verbatim>\<open>j\<close> it runs, unless the wallet or token has been switched since:
  it is busy; once the wallet was asked it remembers that; once the hash was reported it holds a hash.\<close>

definition tracks :: "trade_job \<Rightarrow> bool \<Rightarrow> bool \<Rightarrow> panel \<Rightarrow> bool" where
  "tracks j asked sent p \<longleftrightarrow> rendered p \<and> tj_generation j \<le> p_generation p
     \<and> (p_generation p = tj_generation j \<longrightarrow> p_identity p = tj_identity j \<and> p_operation p
        \<and> (asked \<longrightarrow> p_interaction p) \<and> (sent \<longrightarrow> p_submittedHash p \<noteq> None))"

lemma tracks_step:
  assumes "tracks j asked sent p" and "p_generation p = tj_generation j \<Longrightarrow> bystander j e"
    and "asked' \<longrightarrow> asked \<or> p_interaction (fst (handle m L e p))"
    and "sent' \<longrightarrow> sent \<or> p_submittedHash (fst (handle m L e p)) \<noteq> None"
  shows "tracks j asked' sent' (fst (panel_step m L e p))"
proof -
  let ?q = "fst (handle m L e p)"
  have step: "fst (panel_step m L e p) = committed p ?q" by (simp add: panel_step_def split: prod.split)
  note c = committed_rendered[of p ?q] and h = handle_props[of m L e p]
  show ?thesis
  proof (cases "p_generation p = tj_generation j \<and> p_previous ?q = p_identity ?q")
    case True
    then have t: "p_identity p = tj_identity j" "p_operation p" "fst (p_latest p) = tj_identity j"
      "asked \<longrightarrow> p_interaction p" "sent \<longrightarrow> p_submittedHash p \<noteq> None" "p_previous p = tj_identity j"
      using assms(1) by (auto simp: tracks_def rendered_def)
    have k: "keeps p ?q" by (rule handle_keeps[OF assms(2) _ t(3,2)]) (use True in simp_all)
    have "keeps ?q (committed p ?q)" "p_generation (committed p ?q) = tj_generation j"
      "p_identity (committed p ?q) = tj_identity j"
      using c True h t(6) by simp_all
    then show ?thesis unfolding step tracks_def using c k t assms(3,4) by (auto simp: keeps_def)
  next
    case False
    have "tj_generation j < p_generation (committed p ?q)"
    proof (cases "p_generation p = tj_generation j")
      case True
      then show ?thesis using False c h by simp
    next
      case later: False
      then have "tj_generation j < p_generation ?q" using assms(1) h by (simp add: tracks_def)
      then show ?thesis using c by (auto split: if_splits)
    qed
    then show ?thesis unfolding step tracks_def using c by auto
  qed
qed

text \<open>The reports of a trade among the events, in their order.\<close>

fun report_event :: "trade_job \<Rightarrow> panel_event \<Rightarrow> (trade_status \<times> string option) option" where
  "report_event j (TradeReport j' st h r now) = (if j' = j then Some (st, h) else None)"
| "report_event j _ = None"

definition trade_reports :: "trade_job \<Rightarrow> panel_event list \<Rightarrow> (trade_status \<times> string option) list" where
  "trade_reports j es = List.map_filter (report_event j) es"

definition wallet_asked :: "(trade_status \<times> string option) list \<Rightarrow> bool" where
  "wallet_asked rs \<longleftrightarrow> (\<exists>r \<in> set rs. fst r = TAwaitingWallet \<or> fst r = TAwaitingApproval)"

definition hash_reported :: "(trade_status \<times> string option) list \<Rightarrow> bool" where
  "hash_reported rs \<longleftrightarrow> (\<exists>r \<in> set rs. persisted_status (fst r) \<noteq> None \<and> truthy (snd r) \<noteq> None)"

lemma reported_notes:
  "st = TAwaitingWallet \<or> st = TAwaitingApproval \<Longrightarrow> p_interaction (reported j st h r now p)"
  "persisted_status st \<noteq> None \<Longrightarrow> truthy h \<noteq> None \<Longrightarrow> p_submittedHash (reported j st h r now p) \<noteq> None"
  by (auto simp: reported_def Let_def note_wallet_def note_recovery_def show_status_def persist_trade_def
      split: option.split)

lemma run_rendered: "rendered p \<Longrightarrow> rendered (panel_run m L es p)"
proof (induction es arbitrary: p)
  case (Cons e es)
  have "rendered (fst (panel_step m L e p))" using committed_rendered by (simp add: panel_step_def split: prod.split)
  then show ?case using Cons.IH by simp
qed simp

lemma mount_rendered: "rendered (mount_panel d pr s)"
  by (simp add: mount_panel_def rendered_def p_identity_def Let_def split: prod.split)

lemma started_tracks:
  assumes "rendered p" and "panel_step m L (ConfirmTrade now later) p = (p1, Some (CallExecute j))"
  shows "tracks j False False p1"
proof -
  from assms(2) obtain q where q: "submit m L now later p = (q, Some j)" "p1 = committed p q" unfolding step_confirm by blast
  from submit_Some[OF q(1)] obtain rq :: quote_record and w s where f:
    "q = persistHashlessUnknown (quote_side (qr_quote rq)) w (pp_token (p_props p)) later
        (p\<lparr>p_error := '''', p_storage := s, p_operation := True, p_interaction := False, p_approvalHash := None,
           p_status := TPreparing\<rparr>)"
    "j = \<lparr>tj_side = quote_side (qr_quote rq), tj_wallet = w, tj_token = pp_token (p_props p),
        tj_identity = p_identity p, tj_generation = p_generation p, tj_record = rq\<rparr>"
    by (elim exE conjE) (rule that, assumption+)
  have i: "p_previous q = p_identity q" "p_operation q" "p_identity q = p_identity p" "p_generation q = p_generation p"
    using assms(1) by (simp_all add: f(1) rendered_def persistHashlessUnknown_def p_identity_def)
  then show ?thesis using committed_rendered[of p q] by (simp add: tracks_def q(2) f(2) keeps_def)
qed


lemma panel_run_append: "panel_run m L (es @ fs) p = panel_run m L fs (panel_run m L es p)"
  by (induction es arbitrary: p) auto

lemma reports_good:
  assumes "list_all event_ok es" and "(st, Some h) \<in> set (trade_reports j es)"
  shows "hash_pattern h"
proof -
  obtain e where e: "e \<in> set es" "report_event j e = Some (st, Some h)"
    using assms(2) by (auto simp: trade_reports_def map_filter_def)
  then have "event_ok e" using assms(1) by (simp add: list_all_iff)
  then show ?thesis using e(2) by (cases e) (auto split: if_splits)
qed

text \<open>The panel a start of a trade leaves, and the stored record it is found with.\<close>

lemma start_stored:
  assumes "panel_ok p" and "0 < later" and "panel_step m L (ConfirmTrade now later) p = (p1, Some (CallExecute j))"
  shows "panel_ok p1" and "good_key (tj_token j, tj_wallet j)"
    and "stored (tj_token j, tj_wallet j) (p_storage p1) \<noteq> None"
proof -
  from assms(3) obtain q where q: "submit m L now later p = (q, Some j)" "p1 = committed p q" unfolding step_confirm by blast
  note start = submit_started[OF assms(1) q(1) assms(2)]
  have okq: "panel_ok q" using submit_safe[OF assms(1,2), of _ m L now] q(1) by (auto simp: safe_step_def)
  have "safe_step (\<lambda>_. False) q p1" unfolding q(2) by (rule committed_safe[OF safe_same[OF okq refl]])
  then show "panel_ok p1" "good_key (tj_token j, tj_wallet j)" "stored (tj_token j, tj_wallet j) (p_storage p1) \<noteq> None"
    using start unfolding safe_step_def by blast+
qed

subsection \<open>The calls a panel has running\<close>

lemma identity_key:
  assumes "good_key (t, w)" and "good_key (t', w')" and "tradeIdentity t (Some w) = tradeIdentity t' (Some w')"
  shows "same_key (t, w) (t', w')"
proof -
  have "length (js_lower w) = length (js_lower w')" using assms(1,2) by (simp add: address_pattern_length)
  then show ?thesis using assms(3) by (simp add: tradeIdentity_def same_address_def)
qed

lemma no_wallet_identity:
  assumes "good_key (t, w)" and "address_pattern t'"
  shows "tradeIdentity t (Some w) \<noteq> tradeIdentity t' None"
proof
  assume "tradeIdentity t (Some w) = tradeIdentity t' None"
  then have "length (tradeIdentity t (Some w)) = length (tradeIdentity t' None)" by simp
  then show False using assms by (simp add: tradeIdentity_def address_pattern_length)
qed

text \<open>A running call was started for an identity the panel showed; in the generation of the panel, for the one it shows.\<close>

fun call_ok :: "panel \<Rightarrow> panel_command \<Rightarrow> bool" where
  "call_ok p (CallExecute j) \<longleftrightarrow> good_key (tj_token j, tj_wallet j)
     \<and> tj_identity j = tradeIdentity (tj_token j) (Some (tj_wallet j)) \<and> tj_generation j \<le> p_generation p
     \<and> (tj_generation j = p_generation p \<longrightarrow> tj_identity j = p_identity p)"
| "call_ok p (CallRecover j) \<longleftrightarrow> good_key (rj_token j, rj_wallet j)
     \<and> rj_identity j = tradeIdentity (rj_token j) (Some (rj_wallet j)) \<and> rj_generation j \<le> p_generation p
     \<and> (rj_generation j = p_generation p \<longrightarrow> rj_identity j = p_identity p)"
| "call_ok p (CallQuote j) \<longleftrightarrow> True"

lemma step_generation:
  assumes "rendered p"
  shows "(p_generation (fst (panel_step m L e p)) = p_generation p \<and> p_identity (fst (panel_step m L e p)) = p_identity p)
    \<or> p_generation (fst (panel_step m L e p)) = Suc (p_generation p)"
proof -
  let ?q = "fst (handle m L e p)"
  have step: "fst (panel_step m L e p) = committed p ?q" by (simp add: panel_step_def split: prod.split)
  show ?thesis using committed_rendered[of p ?q] handle_props[of m L e p] assms unfolding step
    by (auto simp: rendered_def split: if_splits)
qed

lemma step_rendered: "rendered (fst (panel_step m L e p))"
  using committed_rendered by (simp add: panel_step_def split: prod.split)

lemma call_ok_step:
  assumes "rendered p" and "call_ok p c"
  shows "call_ok (fst (panel_step m L e p)) c"
  using step_generation[OF assms(1), of m L e] assms(2) by (cases c) auto

lemma step_recovers:
  assumes "snd (panel_step m L e p) = Some (CallRecover r)"
  shows "\<exists>ck now. e = PressRecover ck now \<and> snd (recover ck now p) = Some r"
  using assms by (cases e) (auto simp: panel_step_def command_of_def split: prod.splits if_splits)

lemma recover_Some:
  assumes "snd (recover ck now p) = Some r"
  shows "\<not> p_operation p \<and> pp_wallet (p_props p) = Some (rj_wallet r) \<and> rj_token r = pp_token (p_props p)
    \<and> p_hash p = Some (rj_hash r) \<and> rj_identity r = p_identity p \<and> rj_generation r = p_generation p"
  using assms by (auto simp: recover_def Let_def truthy_def split: option.splits if_splits)

lemma execute_Some:
  assumes "snd (panel_step m L e p) = Some (CallExecute j)"
  shows "pp_wallet (p_props p) = Some (tj_wallet j) \<and> tj_token j = pp_token (p_props p) \<and> tj_identity j = p_identity p
    \<and> tj_generation j = p_generation p"
proof -
  from step_executes[OF assms] obtain now later where "e = ConfirmTrade now later" by blast
  with assms obtain q where "submit m L now later p = (q, Some j)" using step_confirm by (metis prod.collapse)
  from submit_Some[OF this] show ?thesis by (auto simp: truthy_def split: option.splits if_splits)
qed

lemma begun_ok:
  assumes "panel_ok p" and "c \<in> set (begins (snd (panel_step m L e p)))"
  shows "call_ok p c"
proof -
  have id: "p_identity p = tradeIdentity (pp_token (p_props p)) (pp_wallet (p_props p))" by (simp add: p_identity_def)
  from assms(2) have "snd (panel_step m L e p) = Some c \<and> (\<nexists>qj. c = CallQuote qj)"
    by (cases "snd (panel_step m L e p)" rule: begins.cases) auto
  then have c: "snd (panel_step m L e p) = Some c" "\<nexists>qj. c = CallQuote qj" by blast+
  have props: "address_pattern (pp_token (p_props p))" "if_some address_pattern (pp_wallet (p_props p))"
    using assms(1) by (simp_all add: panel_ok_def props_ok_def)
  show ?thesis
  proof (cases c)
    case (CallExecute j)
    from execute_Some[OF c(1)[unfolded CallExecute]] show ?thesis using props id by (simp add: CallExecute)
  next
    case (CallRecover r)
    from step_recovers[OF c(1)[unfolded CallRecover]] obtain ck now where "snd (recover ck now p) = Some r" by blast
    from recover_Some[OF this] show ?thesis using props id by (simp add: CallRecover)
  qed (use c(2) in simp)
qed

lemma calls_ok_step:
  assumes "panel_ok p" and "rendered p" and "\<forall>c \<in> set cs. call_ok p c"
  shows "\<forall>c \<in> set (calls_after m L e p cs). call_ok (fst (panel_step m L e p)) c"
  using call_ok_step[OF assms(2)] begun_ok[OF assms(1)] assms(3) calls_after_subset[of m L e p cs] by blast

lemma calls_ok_run:
  assumes "panel_ok p" and "rendered p" and "list_all event_ok es" and "\<forall>c \<in> set cs. call_ok p c"
  shows "\<forall>c \<in> set (running m L es p cs). call_ok (panel_run m L es p) c"
  using assms
proof (induction es arbitrary: p cs)
  case (Cons e es)
  let ?q = "fst (panel_step m L e p)"
  have "panel_ok ?q" using panel_step_safe[of p e m L] Cons.prems(1,3) by (simp add: safe_step_def)
  from Cons.IH[OF this step_rendered _ calls_ok_step[OF Cons.prems(1,2,4)]] Cons.prems(3) show ?case by simp
qed simp

subsection \<open>A trade that is followed to its end\<close>

fun ends :: "trade_job \<Rightarrow> panel_event \<Rightarrow> bool" where
  "ends j (TradeSettled j' out now) \<longleftrightarrow> j' = j"
| "ends j _ \<longleftrightarrow> False"

definition follows :: "trade_job \<Rightarrow> bool \<Rightarrow> bool \<Rightarrow> panel_command list \<Rightarrow> panel \<Rightarrow> bool" where
  "follows j asked sent cs p \<longleftrightarrow> tracks j asked sent p \<and> panel_locked (tj_token j, tj_wallet j) p
     \<and> tj_identity j = tradeIdentity (tj_token j) (Some (tj_wallet j)) \<and> alone j cs \<and> (\<forall>c \<in> set cs. call_ok p c)
     \<and> (\<forall>r. CallRecover r \<in> set cs \<longrightarrow> rj_generation r \<noteq> tj_generation j)"

text \<open>Whatever a run lets happen, nothing but the ends listed in \<^verbatim>\<open>resolves\<close> reaches the job in its own generation.\<close>

lemma follows_bystander:
  assumes "follows j asked sent cs p" and "case finishes e of None \<Rightarrow> True | Some c \<Rightarrow> c \<in> set cs"
    and "\<not> ends j e" and "\<not> resolves j p e" and "p_generation p = tj_generation j"
  shows "bystander j e"
proof -
  let ?k = "(tj_token j, tj_wallet j)"
  have j: "p_identity p = tj_identity j" "good_key ?k" "tj_identity j = tradeIdentity (tj_token j) (Some (tj_wallet j))"
    "panel_ok p" using assms(1,5) by (auto simp: follows_def tracks_def panel_locked_def)
  show ?thesis
  proof (cases e)
    case (TradeSettled j' out now)
    then have c: "CallExecute j' \<in> set cs" "j' \<noteq> j" using assms(2,3) by auto
    then have "\<not> same_key (tj_token j', tj_wallet j') ?k" "call_ok p (CallExecute j')"
      using assms(1) unfolding follows_def alone_def by blast+
    then have "tj_identity j' \<noteq> tj_identity j" using identity_key[OF _ j(2)] j(3) by auto
    moreover from this have "tj_generation j' \<noteq> tj_generation j" using \<open>call_ok p (CallExecute j')\<close> j(1) assms(5) by auto
    ultimately show ?thesis using TradeSettled by simp
  next
    case (RecoverSettled r out now)
    then have c: "CallRecover r \<in> set cs" using assms(2) by simp
    then have "call_ok p (CallRecover r)" "rj_generation r \<noteq> tj_generation j" using assms(1) unfolding follows_def by blast+
    moreover have "unresolved out" if "rj_identity r = tj_identity j"
    proof (cases out)
      case (Inr conf)
      have "same_key (rj_token r, rj_wallet r) ?k"
        using identity_key[OF _ j(2), of "rj_token r" "rj_wallet r"] \<open>call_ok p (CallRecover r)\<close> that j(3) by auto
      then have "same_key ?k (rj_token r, rj_wallet r)" by (auto simp: same_address_def)
      then show ?thesis using assms(4) RecoverSettled Inr by simp
    qed simp
    ultimately show ?thesis using RecoverSettled by simp
  next
    case (PressAbandon yes)
    have props: "address_pattern (pp_token (p_props p))" "if_some address_pattern (pp_wallet (p_props p))"
      using j(4) by (simp_all add: panel_ok_def props_ok_def)
    have id: "tradeIdentity (pp_token (p_props p)) (pp_wallet (p_props p)) = tradeIdentity (tj_token j) (Some (tj_wallet j))"
      using j(1,3) by (simp add: p_identity_def)
    obtain w where w: "pp_wallet (p_props p) = Some w"
      using no_wallet_identity[OF j(2) props(1)] id by (cases "pp_wallet (p_props p)") auto
    have "same_key ?k (pp_token (p_props p), w)"
      using identity_key[OF j(2), of "pp_token (p_props p)" w] props w id by simp
    then show ?thesis using assms(4) PressAbandon w by auto
  qed simp_all
qed

lemma follows_step:
  assumes "follows j asked sent cs p" and "event_ok e" and "case finishes e of None \<Rightarrow> True | Some c \<Rightarrow> c \<in> set cs"
    and "\<not> ends j e" and "\<not> resolves j p e"
    and "asked' \<longrightarrow> asked \<or> p_interaction (fst (handle m L e p))"
    and "sent' \<longrightarrow> sent \<or> p_submittedHash (fst (handle m L e p)) \<noteq> None"
  shows "follows j asked' sent' (calls_after m L e p cs) (fst (panel_step m L e p))"
proof -
  have f: "tracks j asked sent p" "panel_locked (tj_token j, tj_wallet j) p" "alone j cs" "\<forall>c \<in> set cs. call_ok p c"
    "panel_ok p" "rendered p"
    using assms(1) by (auto simp: follows_def panel_locked_def tracks_def)
  have t: "tracks j asked' sent' (fst (panel_step m L e p))"
    by (rule tracks_step[OF f(1) follows_bystander[OF assms(1,3,4,5)] assms(6,7)])
  have new: "rj_generation r \<noteq> tj_generation j" if "CallRecover r \<in> set (calls_after m L e p cs)" for r
  proof (cases "snd (panel_step m L e p) = Some (CallRecover r)")
    case True
    from step_recovers[OF True] recover_Some have "\<not> p_operation p" "rj_generation r = p_generation p" by blast+
    then show ?thesis using f(1) by (auto simp: tracks_def)
  next
    case False
    then have "CallRecover r \<notin> set (begins (snd (panel_step m L e p)))"
      by (cases "snd (panel_step m L e p)" rule: begins.cases) auto
    then show ?thesis using calls_after_subset that assms(1) unfolding follows_def by blast
  qed
  show ?thesis using t alone_step[OF f(2) assms(2) f(3) assms(3,5)] calls_ok_step[OF f(5,6,4)] new assms(1)
    unfolding follows_def by blast
qed

lemma follows_run:
  assumes "follows j asked sent cs p" and "list_all event_ok es" and "timely m L es p cs" and "list_all (\<lambda>e. \<not> ends j e) es"
    and "\<not> resolved_in m L j es p"
  shows "follows j (asked \<or> wallet_asked (trade_reports j es)) (sent \<or> hash_reported (trade_reports j es))
    (running m L es p cs) (panel_run m L es p)"
  using assms
proof (induction es arbitrary: p asked sent cs)
  case Nil
  then show ?case by (simp add: trade_reports_def wallet_asked_def hash_reported_def)
next
  case (Cons e es)
  define rs where "rs = (case report_event j e of None \<Rightarrow> [] | Some r \<Rightarrow> [r])"
  have reports: "trade_reports j (e # es) = rs @ trade_reports j es"
    by (simp add: trade_reports_def rs_def map_filter_def split: option.split)
  have "wallet_asked rs \<longrightarrow> p_interaction (fst (handle m L e p))"
    "hash_reported rs \<longrightarrow> p_submittedHash (fst (handle m L e p)) \<noteq> None"
    using reported_notes by (cases e; auto simp: rs_def wallet_asked_def hash_reported_def)+
  then have "follows j (asked \<or> wallet_asked rs) (sent \<or> hash_reported rs) (calls_after m L e p cs) (fst (panel_step m L e p))"
    using Cons.prems by (intro follows_step) auto
  from Cons.IH[OF this] Cons.prems(2-5) show ?case
    by (simp add: reports wallet_asked_def hash_reported_def bex_Un disj_assoc)
qed

lemma started_follows:
  assumes "panel_ok p" and "rendered p" and "0 < later" and "panel_step m L (ConfirmTrade now later) p = (p1, Some (CallExecute j))"
    and "\<forall>c \<in> set cs. call_ok p c" and "nothing_runs (tj_token j, tj_wallet j) cs"
  shows "follows j False False (calls_after m L (ConfirmTrade now later) p cs) p1"
proof -
  let ?k = "(tj_token j, tj_wallet j)" and ?e = "ConfirmTrade now later"
  have p1: "p1 = fst (panel_step m L ?e p)" "snd (panel_step m L ?e p) = Some (CallExecute j)" using assms(4) by simp_all
  note start = start_stored[OF assms(1,3,4)]
  have j: "tj_identity j = p_identity p" "tj_generation j = p_generation p" "tj_identity j = tradeIdentity (tj_token j) (Some (tj_wallet j))"
    using execute_Some[OF p1(2)] by (simp_all add: p_identity_def)
  have "nothing_runs ?k (filter is_execution cs)" using assms(6) by (simp add: nothing_runs_def list_all_iff)
  note alone = alone_started[OF this assms(4)]
  have own: "rj_generation r \<noteq> tj_generation j" if "CallRecover r \<in> set (calls_after m L ?e p cs)" for r
  proof
    assume g: "rj_generation r = tj_generation j"
    have r: "CallRecover r \<in> set cs" using that p1(2) by (auto simp: calls_after_def)
    then have "if_some (\<lambda>k'. \<not> same_key k' ?k) (call_key (CallRecover r))"
      using assms(6) unfolding nothing_runs_def list_all_iff by blast
    moreover have "call_ok p (CallRecover r)" using assms(5) r by blast
    ultimately show False using g j identity_key[OF _ start(2), of "rj_token r" "rj_wallet r"] by auto
  qed
  show ?thesis unfolding follows_def
    using started_tracks[OF assms(2,4)] start alone own j(3) calls_ok_step[OF assms(1,2,5), of m L ?e, folded p1(1)]
    by (simp add: panel_locked_def)
qed

text \<open>What the end of a trade may do to the record stored for it.\<close>

lemma settled_unlocks:
  assumes "panel_ok p" and "event_ok (TradeSettled j out clock)" and "tracks j asked sent p"
    and "stored (tj_token j, tj_wallet j) (p_storage p) \<noteq> None"
    and "stored (tj_token j, tj_wallet j) (p_storage (fst (panel_step m L (TradeSettled j out clock) p))) = None"
  shows "case out of Inr r \<Rightarrow> tc_status r \<noteq> Pending
    | Inl reason \<Rightarrow> \<not> sent \<and> (asked \<longrightarrow> isDefinitivePreSubmissionFailure reason)"
proof -
  let ?k = "(tj_token j, tj_wallet j)" and ?e = "TradeSettled j out clock"
  have key: "good_key ?k" using assms(2) by (simp add: trade_job_ok_def)
  have clears: "clears p ?e ?k"
    using panel_step_safe[OF assms(1,2), of m L] assms(4,5) key unfolding safe_step_def by blast
  show ?thesis
  proof (cases out)
    case (Inr r)
    then show ?thesis using clears by simp
  next
    case (Inl reason)
    have "p_generation p = tj_generation j"
    proof (rule ccontr)
      assume "p_generation p \<noteq> tj_generation j"
      then have "handle m L ?e p = (p, None)"
        by (simp add: Inl submit_settled_def failed_trade_def current_job_def end_operation_def)
      then have "fst (panel_step m L ?e p) = committed p p" by (simp add: panel_step_def)
      moreover have "safe_step (\<lambda>_. False) p (committed p p)" by (rule committed_safe[OF safe_same[OF assms(1) refl]])
      ultimately show False using assms(4,5) key unfolding safe_step_def by metis
    qed
    then show ?thesis using clears assms(3) by (auto simp: Inl tracks_def nothing_submitted_def)
  qed
qed

text \<open>C2: a buy is not forgotten. Take a panel mounted on a working storage and run through any events in which
  results arrive only from the executions and recoveries it has running; let it start a buy while no other
  execution or recovery for this wallet and token is running; let that buy be executed against any node and
  wallet, and let the panel receive its reports among any other events, and then its end. Unless in the
  meantime a check or retry for this wallet and token has come back with a final receipt or the user has
  confirmed to abandon the trade, one of these holds: the execution has ended with a final receipt, nothing
  was handed to the wallet, the wallet itself refused it with an error that rules a submission out, or the
  record of the trade is still stored and the next confirmation starts no trade of this wallet and token.\<close>

theorem buy_not_forgotten:
  assumes "props_ok pr" and "list_all event_ok before" and "p = panel_run m L before (mount_panel d pr (Some st))"
    and "0 < later" and "panel_step m L (ConfirmTrade now later) p = (p1, Some (CallExecute j))"
    and "timely m L (before @ ConfirmTrade now later # es @ [TradeSettled j out clock]) (mount_panel d pr (Some st)) []"
    and "nothing_runs (tj_token j, tj_wallet j) (running m L before (mount_panel d pr (Some st)) [])"
    and "qr_quote (tj_record j) = BuyQuote q"
    and "execute_trade c chainId (Some (tj_wallet j)) hasClient (tj_token j) (BuyQuote q) ready tr = (out, tr @ s)"
    and "list_all event_ok es" and "list_all (\<lambda>e. \<not> ends j e) es" and "trade_reports j es = reports s"
    and "event_ok (TradeSettled j out clock)" and "\<not> resolved_in m L j es p1" and "0 < later'"
    and "p2 = panel_run m L (es @ [TradeSettled j out clock]) p1"
  shows "(\<exists>r. out = Inr r \<and> tc_status r \<noteq> Pending) \<or> writes s = []
    \<or> (\<exists>u request reason. tr @ s = u @ [EvWrite request] \<and> c_write c u request = Inl reason \<and> out = Inl reason
         \<and> isDefinitivePreSubmissionFailure reason)
    \<or> (stored (tj_token j, tj_wallet j) (p_storage p2) \<noteq> None
       \<and> (\<forall>now' p3 j'. panel_step m L (ConfirmTrade now' later') p2 = (p3, Some (CallExecute j'))
            \<longrightarrow> \<not> same_key (tj_token j', tj_wallet j') (tj_token j, tj_wallet j)))"
proof (cases "stored (tj_token j, tj_wallet j) (p_storage p2) = None")
  let ?M = "mount_panel d pr (Some st)" and ?k = "(tj_token j, tj_wallet j)" and ?e = "ConfirmTrade now later"
  have mount: "panel_ok ?M" using mount_ok[OF _ assms(1)] by simp
  have ok: "panel_ok p" using run_ok[OF mount assms(2)] assms(3) by simp
  have rend: "rendered p" unfolding assms(3) by (rule run_rendered[OF mount_rendered])
  have "\<forall>c \<in> set (running m L before ?M []). call_ok p c"
    unfolding assms(3) by (rule calls_ok_run[OF mount mount_rendered assms(2)]) simp
  from started_follows[OF ok rend assms(4,5) this assms(7)]
  have f: "follows j False False (calls_after m L ?e p (running m L before ?M [])) p1" .
  have "timely m L es p1 (calls_after m L ?e p (running m L before ?M []))"
    using assms(3,5,6) by (simp add: timely_append)
  from follows_run[OF f assms(10) this assms(11,14)] assms(12)
  have t: "tracks j (wallet_asked (reports s)) (hash_reported (reports s)) (panel_run m L es p1)"
    and lock: "panel_locked ?k (panel_run m L es p1)" by (simp_all add: follows_def)
  then have kept: "stored ?k (p_storage (panel_run m L es p1)) \<noteq> None" "panel_ok (panel_run m L es p1)"
    by (simp_all add: panel_locked_def)
  {
    case True
    then have gone: "stored ?k (p_storage (fst (panel_step m L (TradeSettled j out clock) (panel_run m L es p1)))) = None"
      unfolding assms(16) by (simp add: panel_run_append)
    note unlocks = settled_unlocks[OF kept(2) assms(13) t kept(1) gone]
    from execute_buy_run[OF assms(9)] consider
        (nothing) "writes s = []"
      | (refused) u request e where "tr @ s = u @ [EvWrite request]" "c_write c u request = Inl e" "out = Inl e"
          "reports s = [(TPreparing, None), (TAwaitingWallet, None)]"
      | (hash) h where "reports s = [(TPreparing, None), (TAwaitingWallet, None), (TSubmitted, Some h), (TConfirming, Some h)]"
      by auto
    then show ?thesis
    proof cases
      case refused
      then have "isDefinitivePreSubmissionFailure e" using unlocks by (simp add: wallet_asked_def)
      then show ?thesis using refused by blast
    next
      case hash
      have "hash_pattern h" using reports_good[OF assms(10), of TSubmitted h j] assms(12) hash by simp
      then have "hash_reported (reports s)" using hash hash_truthy[of "Some h"] by (simp add: hash_reported_def)
      then show ?thesis using unlocks by (cases out) auto
    qed simp
  next
    case False
    have "panel_ok p2" unfolding assms(16) using panel_step_safe[OF kept(2) assms(13)]
      by (simp add: panel_run_append safe_step_def)
    then have locked: "panel_locked ?k p2" using False lock by (simp add: panel_locked_def)
    have "\<not> same_key (tj_token j', tj_wallet j') ?k"
      if "panel_step m L (ConfirmTrade now' later') p2 = (p3, Some (CallExecute j'))" for now' p3 j'
    proof
      assume "same_key (tj_token j', tj_wallet j') ?k"
      then have "panel_starts m L ?k (ConfirmTrade now' later') p2"
        using that locked assms(15) by (auto simp: panel_starts_def panel_locked_def)
      then show False using panel_lock.start_free locked by blast
    qed
    then show ?thesis using False by blast
  }
qed


subsection \<open>A sell the wallet was asked for\<close>

text \<open>The reports that leave no mark on the panel's refs.\<close>

definition plain_status :: "trade_status \<Rightarrow> bool" where
  "plain_status st \<longleftrightarrow> st = TPreparing \<or> st = TPreparingSell \<or> st = TAwaitingSellSignature"

definition plain :: "event \<Rightarrow> bool" where
  "plain e \<longleftrightarrow> (case report_of e of None \<Rightarrow> True | Some r \<Rightarrow> plain_status (fst r) \<and> snd r = None)"

definition approval_asked :: event where
  "approval_asked = EvCallback ''onApprovalRequested'' []"

text \<open>A computation that only makes such reports unless it requests an approval.\<close>

definition plain_unless_approved :: "'a io \<Rightarrow> bool" where
  "plain_unless_approved m \<longleftrightarrow> (\<forall>tr r t. m tr = (r, t) \<longrightarrow>
     (\<exists>s. t = tr @ s \<and> (approval_asked \<in> set s \<or> list_all plain s)))"

lemma plain_emits: "emits plain m \<Longrightarrow> plain_unless_approved m"
  using emitsD[of plain m] by (fastforce simp: plain_unless_approved_def grows_def)

lemma plain_bind:
  assumes "plain_unless_approved m" and "\<And>a. plain_unless_approved (f a)"
  shows "plain_unless_approved (io_bind m f)"
proof (unfold plain_unless_approved_def, intro allI impI)
  fix tr r t
  assume run: "io_bind m f tr = (r, t)"
  obtain r1 t1 where m: "m tr = (r1, t1)" by fastforce
  obtain s where s: "t1 = tr @ s" "approval_asked \<in> set s \<or> list_all plain s"
    using assms(1) m unfolding plain_unless_approved_def by blast
  show "\<exists>s. t = tr @ s \<and> (approval_asked \<in> set s \<or> list_all plain s)"
  proof (cases r1)
    case (Inl e)
    then have "t = t1" using run m by (simp add: io_bind_def)
    then show ?thesis using s by blast
  next
    case (Inr a)
    then have "f a t1 = (r, t)" using run m by (simp add: io_bind_def)
    then obtain s' where s': "t = t1 @ s'" "approval_asked \<in> set s' \<or> list_all plain s'"
      using assms(2) unfolding plain_unless_approved_def by blast
    then have "t = tr @ (s @ s') \<and> (approval_asked \<in> set (s @ s') \<or> list_all plain (s @ s'))"
      using s by auto
    then show ?thesis by blast
  qed
qed

lemma plain_approval:
  assumes "\<And>a. emits (\<lambda>e. True) (f a)"
  shows "plain_unless_approved (io_bind (io_note approval_asked) f)"
proof (unfold plain_unless_approved_def, intro allI impI)
  fix tr r t
  assume "io_bind (io_note approval_asked) f tr = (r, t)"
  then have "f () (tr @ [approval_asked]) = (r, t)" by (simp add: io_bind_def io_note_def)
  from emitsD[OF assms this] show "\<exists>s. t = tr @ s \<and> (approval_asked \<in> set s \<or> list_all plain s)"
    by (auto simp: grows_def)
qed

lemma silent_plain: "silent m \<Longrightarrow> emits plain m"
  by (erule emits_mono) (simp add: plain_def)

lemma plain_notes: "plain (EvCallback ''onSellPreparing'' [])" "plain (EvCallback ''onSellRequested'' [])"
  by (simp_all add: plain_def plain_status_def)

lemma pollAllowance_silent: "silent (pollAllowance c token account curve required first lastError ds)"
  by (induction ds arbitrary: first lastError)
    (auto intro!: emits_intros simp: allowanceAttempt_def split: sum.split option.split)

lemma silent_True: "silent m \<Longrightarrow> emits (\<lambda>e. True) m"
  by (erule emits_mono) simp

lemma approveForSell_plain: "plain_unless_approved (approveForSell c account token curve quote ready)"
  unfolding approveForSell_def approval_asked_def[symmetric]
  by (rule plain_bind, rule plain_emits, rule silent_plain, rule parts_silent,
      rule plain_bind, rule plain_emits, rule emits_check, rule plain_approval)
    (intro emits_intros silent_True[OF requests_silent(5)] silent_True[OF signedWrite_silent]
      silent_True[OF requests_silent(13)] silent_True[OF parts_silent(4)] silent_True[OF pollAllowance_silent] TrueI
      | unfold waitForBrowserAllowance_def)+

lemma finishSell_plain: "emits plain (finishSell c account curve quote ready state)"
  unfolding finishSell_def
  by (intro emits_intros silent_plain[OF parts_silent(4)] silent_plain[OF requests_silent(5)]
      silent_plain[OF signedWrite_silent] plain_notes)

lemma submitSell_plain: "plain_unless_approved (submitSell c account token quote ready)"
  unfolding submitSell_def ensureAllowance_def
  by (intro plain_bind plain_emits[OF silent_plain[OF parts_silent(1)]] plain_emits[OF silent_plain[OF parts_silent(2)]]
      plain_emits[OF silent_plain[OF parts_silent(4)]] plain_emits[OF silent_plain[OF parts_silent(6)]]
      plain_emits[OF emits_check] plain_emits[OF emits_throw_if] plain_emits[OF finishSell_plain])
    (simp add: approveForSell_plain plain_emits emits_return)

text \<open>An execution of a sell that asked for no approval and ended when the sell was handed to the wallet has
  only made such reports.\<close>

lemma execute_sell_refused:
  assumes "execute_trade c chainId walletAddress hasClient token (SellQuote q) ready tr = (out, tr @ v @ [EvWrite request])"
    and "approval_asked \<notin> set v"
  shows "list_all plain (v @ [EvWrite request])"
proof (cases "truthy walletAddress = None \<or> chainId \<noteq> Some (selectedCooketChainId (c_chain c)) \<or> \<not> hasClient")
  case True
  then show ?thesis using assms by (auto simp: execute_trade_def io_throw_def split: option.splits)
next
  case False
  then obtain wallet where wallet: "truthy walletAddress = Some wallet"
    and ok: "chainId = Some (selectedCooketChainId (c_chain c))" hasClient by auto
  have own: "TPreparing \<in> set own_statuses" by (simp add: own_statuses_def)
  obtain e1 where e1: "report_status TPreparing None None tr = (Inr (), tr @ [e1])"
    "report_of e1 = Some (TPreparing, None)" "\<not> is_write e1"
    using report_status_event[OF own, of None None tr] by blast
  have p1: "plain e1" using e1(2) by (simp add: plain_def plain_status_def)
  show ?thesis
  proof (cases "ready (tr @ [e1])")
    case (Inl e)
    then have "tr @ v @ [EvWrite request] = tr @ [e1]"
      using assms(1) by (simp add: execute_trade_def wallet ok io_bind_def e1(1) io_check_def)
    then show ?thesis using e1(3) by (auto simp: Cons_eq_append_conv append_eq_Cons_conv)
  next
    case (Inr u)
    obtain r t1 where sell: "submitSell c wallet token q ready (tr @ [e1]) = (r, t1)" by fastforce
    obtain s where s: "t1 = (tr @ [e1]) @ s" "approval_asked \<in> set s \<or> list_all plain s"
      using submitSell_plain sell unfolding plain_unless_approved_def by blast
    have run: "(case r of Inl e \<Rightarrow> (Inl e, t1) | Inr h \<Rightarrow> confirm_submitted c h Sell token wallet t1)
        = (out, tr @ v @ [EvWrite request])"
      using assms(1) sell Inr by (simp add: execute_trade_def wallet ok io_bind_def e1(1) io_check_def)
    show ?thesis
    proof (cases r)
      case (Inl e)
      then have eq: "e1 # s = v @ [EvWrite request]" using run s(1) by simp
      then have "set s \<subseteq> insert (EvWrite request) (set v)" by (metis list.set(2) rotate1.simps(2) set_rotate1 set_subset_Cons)
      then have "approval_asked \<notin> set s" using assms(2) by (auto simp: approval_asked_def)
      then have "list_all plain (e1 # s)" using s(2) p1 by simp
      then show ?thesis unfolding eq .
    next
      case (Inr h)
      then have "confirm_submitted c h Sell token wallet t1 = (out, tr @ v @ [EvWrite request])" using run by simp
      from confirm_submitted_run[OF this] obtain e s' where
        "tr @ v @ [EvWrite request] = t1 @ e # s'" "\<not> is_write (last (e # s'))" by blast
      then have "\<not> is_write (last (tr @ v @ [EvWrite request]))" by simp
      then show ?thesis by simp
    qed
  qed
qed


text \<open>The panel while it receives such reports: nothing marks that the wallet was asked.\<close>

definition unmarked :: "trade_job \<Rightarrow> panel \<Rightarrow> bool" where
  "unmarked j p \<longleftrightarrow> panel_ok p \<and> rendered p \<and> p_generation p = tj_generation j \<and> p_identity p = tj_identity j
     \<and> \<not> p_interaction p \<and> p_approvalHash p = None \<and> p_submittedHash p = None"

lemma unmarked_report:
  assumes "unmarked j p" and "plain_status st"
  shows "unmarked j (fst (panel_step m L (TradeReport j st None None now) p))
    \<and> p_storage (fst (panel_step m L (TradeReport j st None None now) p)) = p_storage p"
proof -
  have t: "truthy None = None" by (simp add: truthy_def)
  have cur: "current_job (tj_identity j) (tj_generation j) p"
    using assms(1) by (simp add: unmarked_def rendered_def current_job_def)
  have "p_approvalHash p = None" using assms(1) by (simp add: unmarked_def)
  then have nw: "note_recovery None (note_wallet j st None p) = p"
    using assms(2) unfolding plain_status_def note_wallet_def note_recovery_def Let_def by (elim disjE) (simp_all add: t)
  have r: "reported j st None None now p = p\<lparr>p_status := st\<rparr>"
    unfolding reported_def nw Let_def t by (simp add: show_status_def cur t)
  have prev: "p_previous (p\<lparr>p_status := st\<rparr>) = p_identity (p\<lparr>p_status := st\<rparr>)"
    using assms(1) by (simp add: unmarked_def rendered_def p_identity_def)
  from committed_settled[OF prev, of p] obtain md x where
    c: "committed p (p\<lparr>p_status := st\<rparr>) = p\<lparr>p_status := st, p_modal := md, p_latest := x\<rparr>" by auto
  have "rendered (committed p (p\<lparr>p_status := st\<rparr>))" using committed_rendered by blast
  then show ?thesis using assms(1) c
    by (simp add: panel_step_def r unmarked_def panel_ok_def p_identity_def)
qed

lemma unmarked_run:
  assumes "unmarked j p" and "list_all (\<lambda>r. plain_status (fst r) \<and> snd r = None) rs"
  shows "unmarked j (panel_run m L (map (\<lambda>(st, h). TradeReport j st h None now) rs) p)
    \<and> p_storage (panel_run m L (map (\<lambda>(st, h). TradeReport j st h None now) rs) p) = p_storage p"
  using assms
proof (induction rs arbitrary: p)
  case (Cons r rs)
  obtain st where r: "r = (st, None)" "plain_status st" using Cons.prems(2) by (cases r) auto
  note step = unmarked_report[OF Cons.prems(1) r(2), of m L now]
  show ?case using Cons.IH[of "fst (panel_step m L (TradeReport j st None None now) p)"] step Cons.prems(2)
    by (simp add: r(1))
qed simp

lemma started_unmarked:
  assumes "panel_ok p" and "0 < later" and "rendered p" and "p_submittedHash p = None"
    and "panel_step m L (ConfirmTrade now later) p = (p1, Some (CallExecute j))"
  shows "unmarked j p1"
proof -
  from assms(5) obtain q where q: "submit m L now later p = (q, Some j)" "p1 = committed p q" unfolding step_confirm by blast
  from submit_Some[OF q(1)] obtain rq :: quote_record and w s where f:
    "q = persistHashlessUnknown (quote_side (qr_quote rq)) w (pp_token (p_props p)) later
        (p\<lparr>p_error := '''', p_storage := s, p_operation := True, p_interaction := False, p_approvalHash := None,
           p_status := TPreparing\<rparr>)"
    "j = \<lparr>tj_side = quote_side (qr_quote rq), tj_wallet = w, tj_token = pp_token (p_props p),
        tj_identity = p_identity p, tj_generation = p_generation p, tj_record = rq\<rparr>"
    by (elim exE conjE) (rule that, assumption+)
  have i: "p_previous q = p_identity q" "p_identity q = p_identity p" "p_generation q = p_generation p"
    "\<not> p_interaction q" "p_approvalHash q = None" "p_submittedHash q = None"
    using assms(3,4) by (simp_all add: f(1) rendered_def persistHashlessUnknown_def p_identity_def)
  from committed_settled[OF i(1), of p] obtain md x where c: "committed p q = q\<lparr>p_modal := md, p_latest := x\<rparr>" by blast
  show ?thesis using start_stored(1)[OF assms(1,2,5)] committed_rendered[of p q] i
    by (simp add: unmarked_def q(2) f(2) c p_identity_def)
qed

lemma rejections_definitive:
  assumes "matches_any_ci rejection_pattern (error_text e)"
  shows "isDefinitivePreSubmissionFailure e"
proof -
  have "isDefinitivePreSubmissionFailure e \<longleftrightarrow> matches_any_ci (rejection_pattern
      @ [''revert'', ''simulation'', ''insufficient'', ''quote expired'']) (error_text e)"
    by (simp only: isDefinitivePreSubmissionFailure_def rejection_pattern_def append.simps)
  then show ?thesis using assms by (simp only: matches_any_ci_def list_ex_append) simp
qed

text \<open>A failure that rules a submission out, or comes while nothing marks one, clears the record and unlocks.\<close>

lemma failure_clears:
  assumes "panel_ok p" and "rendered p" and "p_generation p = tj_generation j" and "p_identity p = tj_identity j"
    and "nothing_submitted reason p" and "good_key (tj_token j, tj_wallet j)"
  shows "let p2 = fst (panel_step m L (TradeSettled j (Inl reason) clock) p) in
    stored (tj_token j, tj_wallet j) (p_storage p2) = None \<and> \<not> p_operation p2 \<and> \<not> locked p2
    \<and> p_status p2 = (if matches_any_ci rejection_pattern (error_text reason) then TRejected else TFailed)"
proof -
  have t: "truthy None = None" by (simp add: truthy_def)
  have cur: "current_job (tj_identity j) (tj_generation j) p"
    using assms(2-4) by (simp add: rendered_def current_job_def)
  let ?st = "if matches_any_ci rejection_pattern (error_text reason) then TRejected else TFailed"
  let ?q = "p\<lparr>p_storage := clearPendingTrade (tj_token j) (tj_wallet j) (p_storage p), p_submittedAt := None,
      p_status := ?st, p_error := safeMessage reason, p_operation := False\<rparr>"
  have "p_submittedHash p = None" "isDefinitivePreSubmissionFailure reason \<or> p_approvalHash p = None \<and> \<not> p_interaction p"
    using assms(5) by (simp_all add: nothing_submitted_def)
  then have h: "submit_settled m j (Inl reason) clock p = ?q"
    using cur by (auto simp: submit_settled_def failed_trade_def end_operation_def current_job_def t)
  have prev: "p_previous ?q = p_identity ?q" using assms(2) by (simp add: rendered_def p_identity_def)
  from committed_settled[OF prev, of p] obtain md x where c: "committed p ?q = ?q\<lparr>p_modal := md, p_latest := x\<rparr>" by blast
  have "p_storage p \<noteq> None" using assms(1) by (simp add: panel_ok_def)
  from stored_clear[OF this assms(6,6)]
  have "stored (tj_token j, tj_wallet j) (clearPendingTrade (tj_token j) (tj_wallet j) (p_storage p)) = None" by simp
  then show ?thesis by (simp add: panel_step_def h c locked_def blockingStatuses_def)
qed

text \<open>A sell is forgotten. The panel remembers that the wallet was asked only for the statuses of a buy and of an
  approval (\<^verbatim>\<open>awaiting_wallet\<close> and \<^verbatim>\<open>awaiting_approval\<close>), and a sell whose
  allowance suffices reports neither.\<close>

text \<open>C35: a sell that was handed to the wallet is forgotten when the wallet's answer is an uncertain error. Let an idle
  panel start a sell, and let its execution, on an allowance that suffices, end with the sell handed to
  the wallet and an error that does not rule a submission out (a timeout, a lost connection). Once the
  reports and that error have reached the panel, no record of the sell is stored, the panel is unlocked and
  shows a plain failure: the next trade can be started while the sell may still be mined.\<close>

theorem uncertain_sell_forgotten:
  assumes "panel_ok p" and "rendered p" and "p_submittedHash p = None" and "0 < later"
    and "panel_step m L (ConfirmTrade now later) p = (p1, Some (CallExecute j))"
    and "qr_quote (tj_record j) = SellQuote q"
    and "execute_trade c chainId (Some (tj_wallet j)) hasClient (tj_token j) (SellQuote q) ready tr
           = (Inl reason, tr @ v @ [EvWrite request])"
    and "approval_asked \<notin> set v" and "\<not> isDefinitivePreSubmissionFailure reason"
  shows "let p2 = panel_run m L (map (\<lambda>(st, h). TradeReport j st h None clock) (reports (v @ [EvWrite request]))
             @ [TradeSettled j (Inl reason) clock]) p1 in
    stored (tj_token j, tj_wallet j) (p_storage p2) = None \<and> \<not> p_operation p2 \<and> \<not> locked p2 \<and> p_status p2 = TFailed"
proof -
  let ?rs = "reports (v @ [EvWrite request])"
  have "list_all plain (v @ [EvWrite request])" by (rule execute_sell_refused[OF assms(7,8)])
  then have "list_all (\<lambda>r. plain_status (fst r) \<and> snd r = None) ?rs"
    unfolding reports_def map_filter_def by (auto simp: list_all_iff plain_def split: option.splits)
  note run = unmarked_run[OF started_unmarked[OF assms(1,4,2,3,5)] this, of m L clock]
  have "\<not> matches_any_ci rejection_pattern (error_text reason)" using rejections_definitive assms(9) by blast
  moreover have "nothing_submitted reason (panel_run m L (map (\<lambda>(st, h). TradeReport j st h None clock) ?rs) p1)"
    using run by (simp add: unmarked_def nothing_submitted_def)
  ultimately show ?thesis using failure_clears[OF _ _ _ _ _ start_stored(2)[OF assms(1,4,5)]] run
    by (simp add: panel_run_append Let_def unmarked_def)
qed


subsection \<open>Records that are cleared by the result of another trade\<close>

lemma started_hash:
  assumes "rendered p" and "panel_step m L (ConfirmTrade now later) p = (p1, Some (CallExecute j))"
  shows "p_hash p1 = p_hash p" and "p_props p1 = p_props p"
proof -
  from assms(2) obtain q where q: "submit m L now later p = (q, Some j)" "p1 = committed p q" unfolding step_confirm by blast
  from submit_Some[OF q(1)] obtain rq :: quote_record and w s where f:
    "q = persistHashlessUnknown (quote_side (qr_quote rq)) w (pp_token (p_props p)) later
        (p\<lparr>p_error := '''', p_storage := s, p_operation := True, p_interaction := False, p_approvalHash := None,
           p_status := TPreparing\<rparr>)"
    by (elim exE conjE) (rule that, assumption+)
  have "p_previous q = p_identity q" using assms(1) by (simp add: f rendered_def persistHashlessUnknown_def p_identity_def)
  from committed_settled[OF this, of p] show "p_hash p1 = p_hash p" "p_props p1 = p_props p"
    by (auto simp: q(2) f persistHashlessUnknown_def)
qed

text \<open>
  Why no other execution may be running in C1 and C2: the final result of an older one is applied when it
  names the wallet and token the panel shows, whatever trade is stored for them. An older execution can
  outlive its record: a check of the trade after the wallet was switched away and back, or an abandonment,
  removes the record, and the next trade may start.
\<close>

theorem late_result_clears_newer_record:
  assumes "panel_ok p" and "rendered p" and "0 < later" and "panel_step m L (ConfirmTrade now later) p = (p1, Some (CallExecute j))"
    and "tj_token old = tj_token j" and "tj_wallet old = tj_wallet j" and "tj_identity old = tj_identity j"
    and "tc_status r \<noteq> Pending"
  shows "stored (tj_token j, tj_wallet j) (p_storage p1) \<noteq> None
    \<and> stored (tj_token j, tj_wallet j) (p_storage (fst (panel_step m L (TradeSettled old (Inr r) clock) p1))) = None"
proof -
  note start = start_stored[OF assms(1,3,4)]
  have t: "rendered p1" "p_identity p1 = tj_identity j"
    using started_tracks[OF assms(2,4)] execute_Some[of m L "ConfirmTrade now later" p j] assms(4) started_hash[OF assms(2,4)]
    by (simp_all add: tracks_def p_identity_def)
  let ?q = "submit_settled m old (Inr r) clock p1"
  have q: "p_storage ?q = clearPendingTrade (tj_token j) (tj_wallet j) (p_storage p1)"
    using t assms(5-8) by (simp add: submit_settled_def applyResolution_def end_operation_def rendered_def Let_def)
  have "p_previous ?q = p_identity ?q"
    using settled_steady(1)[of p1 m old "Inr r" clock] t(1) by (simp add: steady_def rendered_def p_identity_def)
  from committed_settled[OF this, of p1] have "p_storage (committed p1 ?q) = p_storage ?q" by auto
  moreover have "p_storage p1 \<noteq> None" using start(1) by (simp add: panel_ok_def)
  ultimately show ?thesis using start stored_clear[OF _ start(2,2), of "p_storage p1"] q
    by (simp add: panel_step_def)
qed

text \<open>
  A check may ask for the previous trade: \<^verbatim>\<open>submit\<close> leaves the hash of the last trade on display.
  When the next trade ends with an uncertain error and without a hash, \<^verbatim>\<open>recover\<close> asks the node
  for the hash of the last one, and its receipt, long final, clears the record of the uncertain trade.
\<close>

lemma asked_report:
  assumes "unmarked j p"
  shows "let q = fst (panel_step m L (TradeReport j TAwaitingWallet None None now) p) in
    panel_ok q \<and> rendered q \<and> p_generation q = tj_generation j \<and> p_identity q = tj_identity j \<and> p_submittedHash q = None
    \<and> p_hash q = p_hash p \<and> p_interaction q \<and> p_approvalHash q = None \<and> p_props q = p_props p"
proof -
  have t: "truthy None = None" by (simp add: truthy_def)
  have cur: "current_job (tj_identity j) (tj_generation j) (p\<lparr>p_interaction := True\<rparr>)"
    using assms by (simp add: unmarked_def rendered_def current_job_def)
  have "p_approvalHash p = None" using assms by (simp add: unmarked_def)
  then have nw: "note_recovery None (note_wallet j TAwaitingWallet None p) = p\<lparr>p_interaction := True\<rparr>"
    by (simp add: note_wallet_def note_recovery_def t)
  let ?q = "p\<lparr>p_interaction := True, p_status := TAwaitingWallet\<rparr>"
  have r: "reported j TAwaitingWallet None None now p = ?q"
    unfolding reported_def nw Let_def t by (simp add: show_status_def cur t)
  have prev: "p_previous ?q = p_identity ?q" using assms by (simp add: unmarked_def rendered_def p_identity_def)
  from committed_settled[OF prev, of p] obtain md x where c: "committed p ?q = ?q\<lparr>p_modal := md, p_latest := x\<rparr>" by blast
  have "rendered (committed p ?q)" using committed_rendered by blast
  then show ?thesis using assms c by (simp add: panel_step_def r unmarked_def panel_ok_def p_identity_def Let_def)
qed

lemma uncertain_end:
  assumes "panel_ok p" and "rendered p" and "p_generation p = tj_generation j" and "p_identity p = tj_identity j"
    and "p_submittedHash p = None" and "p_approvalHash p = None" and "p_interaction p" and "\<not> isDefinitivePreSubmissionFailure e"
  shows "let q = fst (panel_step m L (TradeSettled j (Inl e) clock) p) in
    rendered q \<and> p_hash q = p_hash p \<and> p_props q = p_props p \<and> \<not> p_operation q \<and> p_status q = TConfirmationUnknown"
proof -
  have t: "truthy None = None" by (simp add: truthy_def)
  have cur: "current_job (tj_identity j) (tj_generation j) p" using assms(2-4) by (simp add: rendered_def current_job_def)
  let ?q = "submit_settled m j (Inl e) clock p"
  have q: "p_hash ?q = p_hash p" "p_props ?q = p_props p" "\<not> p_operation ?q" "p_status ?q = TConfirmationUnknown"
    using cur assms(5-8)
    by (simp_all add: submit_settled_def failed_trade_def end_operation_def current_job_def t persistHashlessUnknown_def)
  have "p_previous ?q = p_identity ?q"
    using settled_steady(1)[of p m j "Inl e" clock] assms(2) by (simp add: steady_def rendered_def p_identity_def)
  from committed_settled[OF this, of p] obtain md x where c: "committed p ?q = ?q\<lparr>p_modal := md, p_latest := x\<rparr>" by blast
  have "rendered (committed p ?q)" using committed_rendered by blast
  then show ?thesis using q by (simp add: panel_step_def c)
qed

theorem check_asks_for_previous_trade:
  assumes "panel_ok p" and "rendered p" and "p_submittedHash p = None" and "p_hash p = Some previous" and "0 < later"
    and "panel_step m L (ConfirmTrade now later) p = (p1, Some (CallExecute j))" and "\<not> isDefinitivePreSubmissionFailure e"
    and "p2 = panel_run m L [TradeReport j TAwaitingWallet None None clock, TradeSettled j (Inl e) clock] p1"
    and "tc_status r \<noteq> Pending" and "0 < clock"
  shows "\<exists>p3 k. panel_step m L (PressRecover True clock') p2 = (p3, Some (CallRecover k)) \<and> rj_hash k = previous
    \<and> rj_token k = tj_token j \<and> rj_wallet k = tj_wallet j
    \<and> stored (tj_token j, tj_wallet j) (p_storage (fst (panel_step m L (RecoverSettled k (Inr r) clock') p3))) = None"
proof -
  have wallet: "pp_wallet (p_props p) = Some (tj_wallet j)" "tj_token j = pp_token (p_props p)" "tj_identity j = p_identity p"
    using execute_Some[of m L "ConfirmTrade now later" p j] assms(6) by simp_all
  let ?q = "fst (panel_step m L (TradeReport j TAwaitingWallet None None clock) p1)"
  note un = started_unmarked[OF assms(1,5,2,3,6)]
  note a = asked_report[OF un, of m L clock, unfolded Let_def]
  have p2: "p2 = fst (panel_step m L (TradeSettled j (Inl e) clock) ?q)" using assms(8) by simp
  have b: "rendered p2" "p_hash p2 = Some previous" "p_props p2 = p_props p" "\<not> p_operation p2"
    using uncertain_end[of ?q j e m L clock] a assms(4,7) started_hash[OF assms(2,6)]
    unfolding p2 Let_def by auto
  note start = start_stored[OF assms(1,5,6)]
  have good: "truthy (Some (tj_wallet j)) = Some (tj_wallet j)" "truthy (Some previous) = Some previous"
    using start(2) address_truthy[of "Some (tj_wallet j)"] hash_truthy[of "Some previous"] assms(1,4)
    by (simp_all add: panel_ok_def)
  let ?k = "\<lparr>rj_check = True, rj_side = p_side p2, rj_hash = previous, rj_recovery = p_recovery p2, rj_wallet = tj_wallet j,
      rj_token = tj_token j, rj_identity = p_identity p2, rj_generation = p_generation p2\<rparr>"
  let ?r = "persist_trade (p_side p2) previous PConfirming (tj_wallet j) (tj_token j) None clock'
      (p2\<lparr>p_operation := True, p_status := TConfirming, p_error := ''''\<rparr>)"
  have rec: "recover True clock' p2 = (?r, Some ?k)"
    using b good wallet by (simp add: recover_def Let_def)
  have "p_previous ?r = p_identity ?r" using b(1) by (simp add: persist_trade_def rendered_def p_identity_def)
  from committed_settled[OF this, of p2] obtain md x where c: "committed p2 ?r = ?r\<lparr>p_modal := md, p_latest := x\<rparr>" by blast
  let ?p3 = "committed p2 ?r"
  have step: "panel_step m L (PressRecover True clock') p2 = (?p3, Some (CallRecover ?k))"
    by (simp add: panel_step_def command_of_def rec)
  have p3: "rendered ?p3" "p_identity ?p3 = p_identity p2"
    using committed_rendered[of p2 ?r] by (simp_all add: persist_trade_def p_identity_def)
  have live: "p_storage ?p3 \<noteq> None"
  proof -
    have "p_storage p2 \<noteq> None"
      unfolding p2 using panel_step_safe[of ?q "TradeSettled j (Inl e) clock" m L] a start(2) assms(10)
      by (auto simp: safe_step_def panel_ok_def trade_job_ok_def)
    then have "p_storage ?r \<noteq> None" using storage_live(1) by (simp add: persist_trade_def)
    moreover have "p_storage (committed p2 ?r) = p_storage ?r" unfolding c by simp
    ultimately show ?thesis by metis
  qed
  let ?s = "recover_settled m ?k (Inr r) clock' ?p3"
  have s: "p_storage ?s = clearPendingTrade (tj_token j) (tj_wallet j) (p_storage ?p3)"
    using p3 assms(9) by (simp add: recover_settled_def applyResolution_def end_operation_def rendered_def Let_def)
  have "p_previous ?s = p_identity ?s"
    using settled_steady(2)[of ?p3 m ?k "Inr r" clock'] p3(1) by (simp add: steady_def rendered_def p_identity_def)
  from committed_settled[OF this, of ?p3] have "p_storage (committed ?p3 ?s) = p_storage ?s" by auto
  then have "stored (tj_token j, tj_wallet j) (p_storage (fst (panel_step m L (RecoverSettled ?k (Inr r) clock') ?p3))) = None"
    using s stored_clear[OF live start(2,2)] by (simp add: panel_step_def)
  then show ?thesis using step by (intro exI[of _ ?p3] exI[of _ ?k]) simp
qed

subsection \<open>Concrete executions\<close>

text \<open>A node in order and a wallet that is the account shown but answers every request with the error \<^verbatim>\<open>e\<close>.\<close>

definition unwilling :: "js_error \<Rightarrow> client" where
  "unwilling e = demo\<lparr>c_walletAccount := Some (demo_wallet (CHR ''a'')),
     c_walletAddresses := (\<lambda>tr. Inr [demo_wallet (CHR ''a'')]), c_readInt := (\<lambda>tr a f args. Inr 50),
     c_write := (\<lambda>tr request. Inl e)\<rparr>"

lemma unwilling_fields:
  "c_now (unwilling e) = (\<lambda>tr. 1000000)" "c_simulate (unwilling e) = (\<lambda>tr spec. Inr spec)"
  "c_balance (unwilling e) = (\<lambda>tr a. Inr 100)" "c_estimateGas (unwilling e) = (\<lambda>tr spec. Inr 2)"
  "c_gasPrice (unwilling e) = (\<lambda>tr. Inr 3)" "c_readInt (unwilling e) = (\<lambda>tr a f args. Inr 50)"
  "c_chain (unwilling e) = sample_module" "c_write (unwilling e) = (\<lambda>tr request. Inl e)"
  "c_walletAccount (unwilling e) = Some (demo_wallet (CHR ''a''))"
  "c_walletAddresses (unwilling e) = (\<lambda>tr. Inr [demo_wallet (CHR ''a'')])"
  "c_getAddress (unwilling e) = Inr" "c_walletChainId (unwilling e) = (\<lambda>tr. Inr 5042002)"
  by (simp_all add: unwilling_def demo_def)

lemma unwilling_gate: "gate (unwilling e) tr = (Inr (), tr)"
  using gate_demo by (simp add: gate_def unwilling_def)

lemma unwilling_curve: "requireCurve (unwilling e) token tr = (Inr ''0xc'', tr @ [EvRead ''0xf'' ''curveOf'' [AText token]])"
proof -
  have "\<not> zero_address_pattern ''0xc''" by code_simp
  then show ?thesis
    by (simp add: requireCurve_def resolveCurveAddress_def unwilling_def demo_def demo_contracts_def truthy_def io_defs
      readText_def)
qed

lemma sample_chain_selected: "selectedCooketChainId sample_module = 5042002"
  by (simp add: selectedCooketChainId_def sample_module_def sample_chain_def)

lemma unwilling_write:
  "signedWrite (unwilling e) (demo_wallet (CHR ''a'')) request tr
     = (Inl e, tr @ [EvWalletChainId, EvWalletAddresses, EvWrite request])"
proof -
  have "truthy (Some (demo_wallet (CHR ''a''))) = Some (demo_wallet (CHR ''a''))" "demo_wallet (CHR ''a'') \<noteq> []"
    by (rule demo_wallet_ok(1)[OF demo_wallets_differ(3)]) (simp add: demo_wallet_def)
  then show ?thesis
    by (simp add: signedWrite_def assertActiveWalletClient_def unwilling_fields io_defs equalAddresses_def
      sample_chain_selected writeContract_def)
qed

lemma demo_ready_returns: "demo_ready tr = Inr ()"
  by (simp add: demo_ready_def)

lemma preparing_event:
  "report_status TPreparing None None tr = (Inr (), tr @ [EvCallback ''report'' [''preparing'']])"
  "report_status TAwaitingWallet None None tr = (Inr (), tr @ [EvCallback ''report'' [''awaiting_wallet'']])"
  by (simp_all add: report_status_def io_note_def)

definition unwilling_buy :: budget_quote where
  "unwilling_buy = (case demo_quote of BuyQuote q \<Rightarrow> q)"

lemma unwilling_buy_run:
  "\<exists>v spec. execute_trade (unwilling e) (Some 5042002) (Some (demo_wallet (CHR ''a''))) True demo_token
      (BuyQuote unwilling_buy) demo_ready [] = (Inl e, v @ [EvWrite spec])
    \<and> reports (v @ [EvWrite spec]) = [(TPreparing, None), (TAwaitingWallet, None)]"
proof -
  let ?a = "demo_wallet (CHR ''a'')"
  have q: "bud_tokenAmount unwilling_buy = 40" "bud_slippageBps unwilling_buy = Fin 100"
    "bud_deadline unwilling_buy = 2000" "bud_maxReserveIn unwilling_buy = 10"
    by (simp_all add: unwilling_buy_def demo_quote_def)
  let ?spec = "buy_call ''0xc'' ?a unwilling_buy 39"
  have buy: "submitBuy (unwilling e) ?a demo_token unwilling_buy demo_ready tr = (Inl e, tr @
     [EvRead ''0xf'' ''curveOf'' [AText demo_token], EvNow, EvSimulate ?spec, EvBalance ?a, EvEstimateGas ?spec,
      EvGasPrice, EvNow, EvWalletChainId, EvWalletAddresses, EvWrite ?spec])" for tr
    by (simp add: submitBuy_def demo_ready_def io_defs assertBuyQuoteFresh_def request_defs demo_minimum
        unwilling_fields unwilling_gate unwilling_curve unwilling_write q)
  have w: "truthy (Some ?a) = Some ?a" by (rule demo_wallet_ok(1)[OF demo_wallets_differ(3)])
  let ?v = "[EvCallback ''report'' [''preparing''], EvCallback ''report'' [''awaiting_wallet''],
      EvRead ''0xf'' ''curveOf'' [AText demo_token], EvNow, EvSimulate ?spec, EvBalance ?a, EvEstimateGas ?spec,
      EvGasPrice, EvNow, EvWalletChainId, EvWalletAddresses]"
  have "execute_trade (unwilling e) (Some 5042002) (Some ?a) True demo_token (BuyQuote unwilling_buy) demo_ready []
      = (Inl e, ?v @ [EvWrite ?spec])"
    by (simp add: execute_trade_def w unwilling_fields sample_chain_selected io_bind_def preparing_event io_check_def
        demo_ready_returns buy)
  moreover have "reports (?v @ [EvWrite ?spec]) = [(TPreparing, None), (TAwaitingWallet, None)]"
    by (simp add: own_statuses_def first_text_def)
  ultimately show ?thesis by blast
qed

lemma unwilling_sell_run:
  "\<exists>v spec. execute_trade (unwilling e) (Some 5042002) (Some (demo_wallet (CHR ''a''))) True demo_token
      (SellQuote demo_sell) demo_ready [] = (Inl e, v @ [EvWrite spec]) \<and> approval_asked \<notin> set v"
proof -
  let ?a = "demo_wallet (CHR ''a'')"
  have q: "psq_tokenAmount demo_sell = 40" "psq_deadline demo_sell = 1300" by (simp_all add: demo_sell_def)
  let ?spec = "sell_call ''0xc'' ?a demo_sell"
  let ?s = "[EvRead ''0xf'' ''curveOf'' [AText demo_token], EvNow, EvRead demo_token ''allowance'' [AText ?a, AText ''0xc''],
      EvRead demo_token ''balanceOf'' [AText ?a], EvNow, EvCallback ''onSellPreparing'' [], EvSimulate ?spec, EvNow,
      EvCallback ''onSellRequested'' [], EvWalletChainId, EvWalletAddresses]"
  have sell: "submitSell (unwilling e) ?a demo_token demo_sell demo_ready tr = (Inl e, tr @ ?s @ [EvWrite ?spec])" for tr
    by (simp add: submitSell_def ensureAllowance_def finishSell_def readBrowserSellState_def assertSellDeadline_def
        demo_ready_def io_defs request_defs unwilling_fields unwilling_gate unwilling_curve unwilling_write q)
  have w: "truthy (Some ?a) = Some ?a" by (rule demo_wallet_ok(1)[OF demo_wallets_differ(3)])
  have "execute_trade (unwilling e) (Some 5042002) (Some ?a) True demo_token (SellQuote demo_sell) demo_ready []
      = (Inl e, ([EvCallback ''report'' [''preparing'']] @ ?s) @ [EvWrite ?spec])"
    by (simp add: execute_trade_def w unwilling_fields sample_chain_selected io_bind_def preparing_event io_check_def
        demo_ready_returns sell)
  moreover have "approval_asked \<notin> set ([EvCallback ''report'' [''preparing'']] @ ?s)" by (simp add: approval_asked_def)
  ultimately show ?thesis by blast
qed


lemma quoted_starts:
  assumes "p_quote p = Some rq" and "\<not> p_operation p" and "\<not> locked p" and "truthy (pp_wallet (p_props p)) = Some w"
    and "pp_connected (p_props p)" and "pp_ready (p_props p)" and "pp_chain (p_props p) = Some (selectedCooketChainId m)"
    and "readPendingTrade (pp_token (p_props p)) w (p_storage p) = (None, s)"
    and "\<not> p_stale p" and "now < quoteExpiresAt rq" and "may_trade rq p"
  shows "\<exists>p1 j. panel_step m L (ConfirmTrade now later) p = (p1, Some (CallExecute j)) \<and> tj_record j = rq
    \<and> tj_wallet j = w \<and> tj_token j = pp_token (p_props p)"
  using submit_goes[OF assms, of L later] by (simp add: panel_step_def command_of_def)

definition selling_props :: panel_props where
  "selling_props = (demo_props (CHR ''a''))\<lparr>pp_state := Some (demo_state\<lparr>ts_tokenBalance := 100\<rparr>)\<rparr>"

definition selling_panel :: panel where
  "selling_panel = (mount_panel [] selling_props (Some (\<lambda>_. None)))\<lparr>p_side := Sell, p_quote := Some
     \<lparr>qr_quote = SellQuote demo_sell, qr_createdAt = 1000000,
      qr_identity = tradeIdentity demo_token (Some (demo_wallet (CHR ''a''))),
      qr_fingerprint = tradeStateFingerprint (Some (demo_state\<lparr>ts_tokenBalance := 100\<rparr>)) Sell, qr_chain = Some 5042002\<rparr>\<rparr>"

lemma selling_panel_good: "panel_ok selling_panel" "rendered selling_panel" "p_submittedHash selling_panel = None"
proof -
  let ?M = "mount_panel [] selling_props (Some (\<lambda>_. None))"
  have props: "props_ok selling_props"
    using demo_props_ok[OF demo_wallets_differ(3)] by (simp add: selling_props_def props_ok_def)
  have "panel_ok ?M" using mount_ok[OF _ props, of "Some (\<lambda>_. None)"] by simp
  then show "panel_ok selling_panel" by (simp add: selling_panel_def panel_ok_def)
  have "rendered ?M" by (rule mount_rendered)
  then show "rendered selling_panel" by (simp add: selling_panel_def rendered_def p_identity_def)
  show "p_submittedHash selling_panel = None"
    using demo_wallet_ok(1)[OF demo_wallets_differ(3)]
    by (simp add: selling_panel_def mount_panel_def read_pending_def readPendingTrade_def selling_props_def demo_props_def Let_def)
qed

lemma selling_panel_starts:
  "\<exists>p1 j. panel_step sample_module L (ConfirmTrade 1000005 1000006) selling_panel = (p1, Some (CallExecute j))
    \<and> qr_quote (tj_record j) = SellQuote demo_sell \<and> tj_wallet j = demo_wallet (CHR ''a'') \<and> tj_token j = demo_token"
proof -
  have w: "truthy (Some (demo_wallet (CHR ''a''))) = Some (demo_wallet (CHR ''a''))"
    by (rule demo_wallet_ok(1)[OF demo_wallets_differ(3)])
  have f: "p_props selling_panel = selling_props" "p_operation selling_panel = False" "p_status selling_panel = TIdle"
    "p_storage selling_panel = Some (\<lambda>_. None)" "p_stale selling_panel = False" "p_side selling_panel = Sell"
    using w by (simp_all add: selling_panel_def mount_panel_def read_pending_def readPendingTrade_def selling_props_def
        demo_props_def Let_def)
  have pr: "pp_wallet selling_props = Some (demo_wallet (CHR ''a''))" "pp_token selling_props = demo_token"
    "pp_connected selling_props" "pp_ready selling_props" "pp_chain selling_props = Some 5042002"
    "pp_state selling_props = Some (demo_state\<lparr>ts_tokenBalance := 100\<rparr>)"
    by (simp_all add: selling_props_def demo_props_def)
  let ?rq = "\<lparr>qr_quote = SellQuote demo_sell, qr_createdAt = 1000000,
      qr_identity = tradeIdentity demo_token (Some (demo_wallet (CHR ''a''))),
      qr_fingerprint = tradeStateFingerprint (Some (demo_state\<lparr>ts_tokenBalance := 100\<rparr>)) Sell, qr_chain = Some 5042002\<rparr>"
  have quote: "p_quote selling_panel = Some ?rq" by (simp add: selling_panel_def)
  have fresh: "1000005 < quoteExpiresAt ?rq"
    by (subst quoteExpiresAt_small) (simp_all add: demo_sell_def QUOTE_TTL_MS_def)
  have may: "may_trade ?rq selling_panel"
    unfolding may_trade_def p_identity_def p_fingerprint_def sideAllowed_def
    by (simp add: f pr) (simp add: demo_state_def demo_sell_def)
  have "\<exists>p1 j. panel_step sample_module L (ConfirmTrade 1000005 1000006) selling_panel = (p1, Some (CallExecute j))
    \<and> tj_record j = ?rq \<and> tj_wallet j = demo_wallet (CHR ''a'') \<and> tj_token j = pp_token (p_props selling_panel)"
    by (rule quoted_starts[OF quote, where s = "Some (\<lambda>_. None)"])
      (simp_all add: f pr w locked_def blockingStatuses_def sample_chain_selected readPendingTrade_def fresh may)
  then show ?thesis using pr(2) f(1) by auto
qed

theorem uncertain_sell_forgotten_witness:
  "\<exists>p1 j v request. panel_step sample_module demo_library (ConfirmTrade 1000005 1000006) selling_panel = (p1, Some (CallExecute j))
    \<and> execute_trade (unwilling (Err ''Timed out'')) (Some 5042002) (Some (tj_wallet j)) True (tj_token j)
        (SellQuote demo_sell) demo_ready [] = (Inl (Err ''Timed out''), v @ [EvWrite request])
    \<and> \<not> locked (panel_run sample_module demo_library
        (map (\<lambda>(st, h). TradeReport j st h None 1000007) (reports (v @ [EvWrite request]))
          @ [TradeSettled j (Inl (Err ''Timed out'')) 1000007]) p1)"
proof -
  obtain p1 j where s: "panel_step sample_module demo_library (ConfirmTrade 1000005 1000006) selling_panel = (p1, Some (CallExecute j))"
    "qr_quote (tj_record j) = SellQuote demo_sell" "tj_wallet j = demo_wallet (CHR ''a'')" "tj_token j = demo_token"
    using selling_panel_starts by blast
  obtain v request where run: "execute_trade (unwilling (Err ''Timed out'')) (Some 5042002) (Some (tj_wallet j)) True
      (tj_token j) (SellQuote demo_sell) demo_ready [] = (Inl (Err ''Timed out''), [] @ v @ [EvWrite request])"
    "approval_asked \<notin> set v"
    using unwilling_sell_run[of "Err ''Timed out''"] s(3,4) by auto
  have "\<not> isDefinitivePreSubmissionFailure (Err ''Timed out'')" by code_simp
  from uncertain_sell_forgotten[OF selling_panel_good(1-3) _ s(1,2) run(1,2) this, of 1000007] s(1) run(1)
  show ?thesis by (auto simp: Let_def)
qed


text \<open>A buy the wallet rejects: its two reports and its end.\<close>

theorem buy_not_forgotten_witness:
  "\<exists>p1 j s. panel_step sample_module demo_library (ConfirmTrade 1000005 1000006)
        (panel_run sample_module demo_library [demo_answer 0 (CHR ''a'')]
          (mount_panel [] (demo_props (CHR ''a'')) (Some (\<lambda>_. None)))) = (p1, Some (CallExecute j))
    \<and> execute_trade (unwilling (Err ''timeout'')) (Some 5042002) (Some (tj_wallet j)) True (tj_token j)
        (BuyQuote unwilling_buy) demo_ready [] = (Inl (Err ''timeout''), s) \<and> writes s \<noteq> []
    \<and> stored (tj_token j, tj_wallet j) (p_storage (panel_run sample_module demo_library
          [TradeReport j TPreparing None None 1000007, TradeReport j TAwaitingWallet None None 1000007,
           TradeSettled j (Inl (Err ''timeout'')) 1000007] p1)) \<noteq> None"
proof -
  let ?M = "mount_panel [] (demo_props (CHR ''a'')) (Some (\<lambda>_. None))" and ?e = "Err ''timeout''"
  let ?before = "[demo_answer 0 (CHR ''a'')]"
  let ?p = "panel_run sample_module demo_library ?before ?M"
  have "readPendingTrade demo_token (demo_wallet (CHR ''a'')) (p_storage ?M) = (None, Some (\<lambda>_. None))"
    by (simp add: demo_mounted(2) readPendingTrade_def)
  from demo_starts[OF demo_wallets_differ(3) demo_mounted(1) this, of demo_library]
  obtain p1 j where s: "panel_step sample_module demo_library (ConfirmTrade 1000005 1000006) ?p = (p1, Some (CallExecute j))"
    "tj_token j = demo_token" "tj_wallet j = demo_wallet (CHR ''a'')" "qr_quote (tj_record j) = demo_quote"
    by auto
  have q: "qr_quote (tj_record j) = BuyQuote unwilling_buy" using s(4) by (simp add: unwilling_buy_def demo_quote_def)
  obtain v spec where run: "execute_trade (unwilling ?e) (Some 5042002) (Some (tj_wallet j)) True (tj_token j)
      (BuyQuote unwilling_buy) demo_ready [] = (Inl ?e, [] @ v @ [EvWrite spec])"
    "reports (v @ [EvWrite spec]) = [(TPreparing, None), (TAwaitingWallet, None)]"
    using unwilling_buy_run[of ?e] s(2,3) by auto
  have props: "props_ok (demo_props (CHR ''a''))" by (rule demo_props_ok[OF demo_wallets_differ(3)])
  have mount: "panel_ok ?M" using mount_ok[OF _ props, of "Some (\<lambda>_. None)"] by simp
  have before: "list_all event_ok ?before" by (simp add: demo_answer_def)
  have ok: "panel_ok ?p" by (rule run_ok[OF mount before])
  have key: "good_key (tj_token j, tj_wallet j)" by (rule start_stored(2)[OF ok _ s(1)]) simp
  let ?es = "[TradeReport j TPreparing None None 1000007, TradeReport j TAwaitingWallet None None 1000007]"
  have calls: "running sample_module demo_library ?before ?M [] = []"
    by (simp add: calls_after_def demo_answer_def panel_step_def)
  have step: "panel_step sample_module demo_library (ConfirmTrade 1000005 1000006) ?p = (p1, Some (CallExecute j))" by (rule s(1))
  have "calls_after sample_module demo_library (ConfirmTrade 1000005 1000006) ?p [] = [CallExecute j]"
    unfolding calls_after_def step by simp
  then have tail: "timely sample_module demo_library (ConfirmTrade 1000005 1000006 # ?es @ [TradeSettled j (Inl ?e) 1000007]) ?p []"
    by (simp only: timely.simps append.simps finishes.simps option.case simp_thms)
      (simp add: calls_after_def panel_step_def)
  have timely: "timely sample_module demo_library
      (?before @ ConfirmTrade 1000005 1000006 # ?es @ [TradeSettled j (Inl ?e) 1000007]) ?M []"
    unfolding timely_append calls using tail timely_without_results[of ?before] by (simp add: demo_answer_def)
  have alone: "nothing_runs (tj_token j, tj_wallet j) (running sample_module demo_library ?before ?M [])"
    unfolding calls by (simp add: nothing_runs_def)
  have es: "list_all event_ok ?es" "list_all (\<lambda>e. \<not> ends j e) ?es" "trade_reports j ?es = reports (v @ [EvWrite spec])"
    "event_ok (TradeSettled j (Inl ?e) 1000007)" "\<not> resolved_in sample_module demo_library j ?es p1"
    using key run(2) by (simp_all add: trade_job_ok_def trade_reports_def map_filter_def)
  have other: "\<not> isDefinitivePreSubmissionFailure ?e" by code_simp
  from buy_not_forgotten[OF props before refl _ s(1) timely alone q run(1) es, of 1, OF _ _ refl] other
  have "stored (tj_token j, tj_wallet j) (p_storage (panel_run sample_module demo_library
      (?es @ [TradeSettled j (Inl ?e) 1000007]) p1)) \<noteq> None" by auto
  then show ?thesis using s(1) run(1) by (intro exI[of _ p1] exI[of _ j] exI[of _ "v @ [EvWrite spec]"]) simp
qed

end
