(* ===== verification/JsText.thy ===== *)
theory JsText
  imports JsDouble
begin

text \<open>
  \<^verbatim>\<open>Number(text)\<close> for any text, and the pieces of a text at its dots, as \<^verbatim>\<open>split('.')\<close>
  gives them.
\<close>

subsection \<open>Number of a text\<close>

text \<open>The exponent of a decimal literal: nothing, or \<^verbatim>\<open>e\<close> with an optional sign and digits.\<close>

definition exponent_value :: "string \<Rightarrow> int option" where
  "exponent_value s =
     (case s of
        [] \<Rightarrow> None
      | c # d \<Rightarrow>
          if c = CHR ''-'' then (if all_digits d then Some (- int (digits_value d)) else None)
          else if c = CHR ''+'' then (if all_digits d then Some (int (digits_value d)) else None)
          else if all_digits s then Some (int (digits_value s)) else None)"

fun split_exponent :: "string \<Rightarrow> string \<times> string option" where
  "split_exponent [] = ([], None)"
| "split_exponent (c # s) =
     (if c = CHR ''e'' \<or> c = CHR ''E'' then ([], Some s) else (case split_exponent s of (w, f) \<Rightarrow> (c # w, f)))"

definition mantissa_ok :: "string \<Rightarrow> bool" where
  "mantissa_ok s =
     (case split_dot s of
        (w, None) \<Rightarrow> all_digits w
      | (w, Some f) \<Rightarrow> list_all is_digit w \<and> list_all is_digit f \<and> (w \<noteq> [] \<or> f \<noteq> []))"

definition scale_ten :: "rat \<Rightarrow> int \<Rightarrow> rat" where
  "scale_ten q e = (if 0 \<le> e then q * 10 ^ nat e else q / 10 ^ nat (- e))"

definition unsigned_number :: "string \<Rightarrow> jsnum" where
  "unsigned_number s =
     (if s = ''Infinity'' then PosInf
      else case split_exponent s of
        (m, e) \<Rightarrow>
          if \<not> mantissa_ok m then NaN
          else (case e of
              None \<Rightarrow> double_of (decimal_value m)
            | Some t \<Rightarrow> (case exponent_value t of None \<Rightarrow> NaN | Some x \<Rightarrow> double_of (scale_ten (decimal_value m) x))))"

text \<open>\<^verbatim>\<open>Number(text)\<close>: blank is zero, the three radix prefixes, a signed decimal literal, otherwise NaN.\<close>

definition js_number :: "string \<Rightarrow> jsnum" where
  "js_number text =
     (let s = js_trim text; p = take 2 (js_lower s); d = drop 2 s in
      if s = [] then Fin 0
      else if p = ''0x'' then (if d \<noteq> [] \<and> digits_below 16 d then double_of (of_nat (base_value 16 d)) else NaN)
      else if p = ''0o'' then (if d \<noteq> [] \<and> digits_below 8 d then double_of (of_nat (base_value 8 d)) else NaN)
      else if p = ''0b'' then (if d \<noteq> [] \<and> digits_below 2 d then double_of (of_nat (base_value 2 d)) else NaN)
      else if hd s = CHR ''-'' then num_neg (unsigned_number (tl s))
      else if hd s = CHR ''+'' then unsigned_number (tl s)
      else unsigned_number s)"

subsection \<open>Split at dots\<close>

text \<open>The first part of \<^verbatim>\<open>text.split('.')\<close> and the second, if there is one.\<close>

definition dot_parts :: "string \<Rightarrow> string \<times> string option" where
  "dot_parts s = (case split_dot s of (w, f) \<Rightarrow> (w, map_option (fst \<circ> split_dot) f))"

end
