(* ===== verification/SwapPanel.thy ===== *)
theory SwapPanel
  imports UniswapSwap TradeExecution JsText LockedMachine
begin

text \<open>
  The swap panel of a graduated token (\<^verbatim>\<open>components/graduated-token-swap.tsx\<close>): its React
  state and refs as one record, the debounced quote, review, confirmation and closing as functions on
  it, and what a confirmed swap runs and reports.
\<close>

subsection \<open>The received output\<close>

text \<open>viem's \<^verbatim>\<open>decodeEventLog\<close> for the Transfer event: recipient and value, nothing when it throws.\<close>

type_synonym transfer_decoder = "log_entry \<Rightarrow> (string \<times> int) option"

definition received_of :: "transfer_decoder \<Rightarrow> string \<Rightarrow> string \<Rightarrow> log_entry \<Rightarrow> int option" where
  "received_of decode tokenOut recipient entry =
     (if js_lower (log_address entry) \<noteq> js_lower tokenOut \<or> log_topics entry = [] then None
      else case decode entry of
          None \<Rightarrow> None
        | Some (to, v) \<Rightarrow> if js_lower to = js_lower recipient then Some v else None)"

definition receivedOutputFromSwapReceipt :: "transfer_decoder \<Rightarrow> log_entry list \<Rightarrow> string \<Rightarrow> string \<Rightarrow> int option" where
  "receivedOutputFromSwapReceipt decode logs tokenOut recipient =
     (case List.map_filter (received_of decode tokenOut recipient) logs of
        [v] \<Rightarrow> Some v
      | _ \<Rightarrow> None)"

subsection \<open>The panel\<close>

datatype swap_status =
    WIdle | WQuoting | WAwaitingApproval | WApprovalConfirming | WApprovalConfirmed | WRefreshingState
  | WAwaitingWallet | WSubmitted | WConfirming | WConfirmed | WRejected | WError

fun swap_status_text :: "swap_status \<Rightarrow> string" where
  "swap_status_text WIdle = ''idle''"
| "swap_status_text WQuoting = ''quoting''"
| "swap_status_text WAwaitingApproval = ''awaiting_approval''"
| "swap_status_text WApprovalConfirming = ''approval_confirming''"
| "swap_status_text WApprovalConfirmed = ''approval_confirmed''"
| "swap_status_text WRefreshingState = ''refreshing_state''"
| "swap_status_text WAwaitingWallet = ''awaiting_wallet''"
| "swap_status_text WSubmitted = ''submitted''"
| "swap_status_text WConfirming = ''confirming''"
| "swap_status_text WConfirmed = ''confirmed''"
| "swap_status_text WRejected = ''rejected''"
| "swap_status_text WError = ''error''"

fun swapModalPhase :: "swap_status \<Rightarrow> trade_side \<Rightarrow> modal_phase option" where
  "swapModalPhase WIdle side = None"
| "swapModalPhase WQuoting side = None"
| "swapModalPhase WAwaitingApproval side = Some MAwaitingApproval"
| "swapModalPhase WApprovalConfirming side = Some MApprovalSubmitted"
| "swapModalPhase WApprovalConfirmed side = Some MApprovalConfirmed"
| "swapModalPhase WRefreshingState side = Some MRefreshingState"
| "swapModalPhase WAwaitingWallet side = Some (if side = Sell then MAwaitingSellSignature else MAwaitingWallet)"
| "swapModalPhase WSubmitted side = Some (if side = Sell then MSellSubmitted else MSubmitted)"
| "swapModalPhase WConfirming side = Some (if side = Sell then MSellConfirming else MConfirming)"
| "swapModalPhase WConfirmed side = Some MConfirmed"
| "swapModalPhase WRejected side = Some MRejected"
| "swapModalPhase WError side = Some MFailed"

text \<open>What the component is rendered with: its props, the wallet hook and the queries. The swap state is
  queried per side.\<close>

record swap_props =
  sp_token :: string
  sp_poolAddress :: "string option"
  sp_symbol :: string
  sp_configured :: bool
  sp_connected :: bool
  sp_canTransact :: bool
  sp_walletStatus :: wallet_status
  sp_wallet :: "string option"
  sp_chain :: "int option"
  sp_hasClient :: bool
  sp_pool :: "validated_pool option"
  sp_poolError :: "string option"
  sp_decimals :: "int option"
  sp_state :: "trade_side \<Rightarrow> graduated_state option"

record reviewed_swap =
  rv_quote :: graduated_quote
  rv_side :: trade_side
  rv_slippage :: string
  rv_tokenDecimals :: int

record swap_panel =
  w_props :: swap_props
  w_side :: trade_side
  w_amount :: string
  w_slippage :: string
  w_quote :: "graduated_quote option"
  w_reviewed :: "reviewed_swap option"
  w_receivedOut :: "int option"
  w_status :: swap_status
  w_error :: string
  w_hash :: "string option"
  w_pending :: bool
  w_modal :: modal_state
  w_busy :: bool
  w_modalOpen :: bool
  w_context :: "string option \<times> int option"

definition swap_guard :: "chain_module \<Rightarrow> swap_props \<Rightarrow> string option" where
  "swap_guard m pr =
     (if \<not> sp_configured pr
      then Some (''Swap configuration unavailable: verified '' @ selectedCooketChainName m
             @ '' QuoterV2, SwapRouter, and factory addresses are required.'')
      else if truthy (sp_poolAddress pr) = None
      then Some ''No indexed canonical graduation pool is available for this token.''
      else if sp_chain pr \<noteq> None \<and> sp_chain pr \<noteq> Some (selectedCooketChainId m)
      then Some (''Switch the active wallet to '' @ selectedCooketChainName m @ '' (''
             @ int_text (selectedCooketChainId m) @ '').'')
      else if \<not> sp_connected pr \<or> truthy (sp_wallet pr) = None \<or> \<not> sp_hasClient pr \<or> \<not> sp_canTransact pr
      then Some (activeWalletStatusMessage m (sp_walletStatus pr))
      else sp_poolError pr)"

definition mount_swap :: "swap_props \<Rightarrow> swap_panel" where
  "mount_swap pr =
     \<lparr>w_props = pr, w_side = Buy, w_amount = '''', w_slippage = ''0.50'', w_quote = None, w_reviewed = None,
      w_receivedOut = None, w_status = WIdle, w_error = '''', w_hash = None, w_pending = False,
      w_modal = closedTransactionModal, w_busy = False, w_modalOpen = False,
      w_context = (sp_wallet pr, sp_chain pr)\<rparr>"

text \<open>The three effects after a render: the two refs, and the dialog that follows the status while it is
  open.\<close>

definition modal_side :: "swap_panel \<Rightarrow> trade_side" where
  "modal_side p = (case w_reviewed p of None \<Rightarrow> w_side p | Some r \<Rightarrow> rv_side r)"

definition swap_committed :: "swap_panel \<Rightarrow> swap_panel \<Rightarrow> swap_panel" where
  "swap_committed before p =
     (let changed = (md_open (w_modal before), modal_side before, w_side before, w_status before)
                      \<noteq> (md_open (w_modal p), modal_side p, w_side p, w_status p);
          q = p\<lparr>w_context := (sp_wallet (w_props p), sp_chain (w_props p)), w_modalOpen := md_open (w_modal p)\<rparr> in
      if \<not> changed \<or> \<not> md_open (w_modal p) then q
      else case swapModalPhase (w_status p) (modal_side p) of
          None \<Rightarrow> q
        | Some phase \<Rightarrow> q\<lparr>w_modal := transactionModalReducer (w_modal q) (ProgressAction phase)\<rparr>)"

subsection \<open>Quotes\<close>

record swap_quote_job =
  sq_pool :: validated_pool
  sq_side :: trade_side
  sq_amountIn :: int
  sq_bps :: jsnum
  sq_wallet :: string

definition validateSwapInput ::
    "(string \<Rightarrow> int \<Rightarrow> int result) \<Rightarrow> string \<Rightarrow> int \<Rightarrow> trade_side \<Rightarrow> graduated_state option \<Rightarrow> string \<Rightarrow> int result" where
  "validateSwapInput parseUnits amount decimals side state symbol =
     try_bind (parseUnits amount decimals) (\<lambda>parsed.
     try_bind (throw_if (parsed \<le> 0) ''Enter an amount greater than zero before reviewing the swap.'') (\<lambda>_.
     try_bind (throw_if (side = Buy \<and> (case state of None \<Rightarrow> False | Some s \<Rightarrow> parsed > gs_usdc s))
        ''Insufficient canonical ERC20 USDC balance.'') (\<lambda>_.
     try_bind (throw_if (side = Sell \<and> (case state of None \<Rightarrow> False | Some s \<Rightarrow> parsed > gs_token s))
        (''Insufficient '' @ symbol @ '' balance.'')) (\<lambda>_.
       Inr parsed))))"

definition ARC_USDC_DECIMALS :: int where
  "ARC_USDC_DECIMALS = 6"

text \<open>\<^verbatim>\<open>requestQuote\<close> up to its \<^verbatim>\<open>await\<close>: the request it makes, when it makes one.\<close>

definition swap_input_of :: "(string \<Rightarrow> int \<Rightarrow> int result) \<Rightarrow> swap_panel \<Rightarrow> int result" where
  "swap_input_of parseUnits p =
     (case (if w_side p = Buy then Some ARC_USDC_DECIMALS else sp_decimals (w_props p)) of
        None \<Rightarrow> Inl (Err ''Token decimals are unavailable.'')
      | Some decimals \<Rightarrow>
          validateSwapInput parseUnits (w_amount p) decimals (w_side p) (sp_state (w_props p) (w_side p)) (sp_symbol (w_props p)))"

definition requestQuote ::
    "chain_module \<Rightarrow> (string \<Rightarrow> int \<Rightarrow> int result) \<Rightarrow> swap_panel \<Rightarrow> swap_panel \<times> swap_quote_job option" where
  "requestQuote m parseUnits p =
     (case (sp_pool (w_props p), truthy (sp_wallet (w_props p))) of
        (Some pool, Some wallet) \<Rightarrow>
          if swap_guard m (w_props p) \<noteq> None \<or> w_busy p \<or> w_modalOpen p then (p, None)
          else (case swap_input_of parseUnits p of
              Inl e \<Rightarrow> (p\<lparr>w_status := WError, w_error := error_text e\<rparr>, None)
            | Inr parsed \<Rightarrow>
                (p\<lparr>w_status := WQuoting, w_error := ''''\<rparr>,
                 Some \<lparr>sq_pool = pool, sq_side = w_side p, sq_amountIn = parsed,
                   sq_bps = math_round (num_times_100 (js_number (w_slippage p))), sq_wallet = wallet\<rparr>))
      | _ \<Rightarrow> (p, None))"

text \<open>What the request runs, and the rest of \<^verbatim>\<open>requestQuote\<close> when its outcome arrives. No
  request is told apart from another.\<close>

definition run_quote :: "client \<Rightarrow> swap_quote_job \<Rightarrow> graduated_quote io" where
  "run_quote c j = quoteGraduatedSwap c (sq_pool j) (sq_side j) (sq_amountIn j) (sq_bps j) (sq_wallet j)"

definition quote_arrived :: "graduated_quote result \<Rightarrow> swap_panel \<Rightarrow> swap_panel" where
  "quote_arrived answer p =
     (if w_busy p \<or> w_modalOpen p then p
      else case answer of
          Inr q \<Rightarrow> p\<lparr>w_quote := Some q, w_status := WIdle\<rparr>
        | Inl reason \<Rightarrow> p\<lparr>w_status := WError, w_error := error_text reason\<rparr>)"


definition changeSwapAmount :: "string \<Rightarrow> swap_panel \<Rightarrow> swap_panel" where
  "changeSwapAmount v p = p\<lparr>w_amount := v, w_quote := None\<rparr>"

definition changeSwapSlippage :: "string \<Rightarrow> swap_panel \<Rightarrow> swap_panel" where
  "changeSwapSlippage v p = p\<lparr>w_slippage := v, w_quote := None\<rparr>"

definition pickSwapSide :: "trade_side \<Rightarrow> swap_panel \<Rightarrow> swap_panel" where
  "pickSwapSide side p = (if w_pending p then p else p\<lparr>w_side := side, w_quote := None\<rparr>)"

subsection \<open>Review and confirmation\<close>

text \<open>The button is rendered without a guard, and disabled without a quote, while pending or quoting.\<close>

definition openReview :: "chain_module \<Rightarrow> swap_panel \<Rightarrow> swap_panel" where
  "openReview m p =
     (case w_quote p of
        None \<Rightarrow> p
      | Some q \<Rightarrow>
          if swap_guard m (w_props p) \<noteq> None \<or> w_pending p \<or> w_status p = WQuoting then p
          else p\<lparr>w_reviewed := Some \<lparr>rv_quote = q, rv_side = w_side p, rv_slippage = w_slippage p,
                    rv_tokenDecimals = or_else (sp_decimals (w_props p)) 18\<rparr>,
                 w_receivedOut := None, w_modal := transactionModalReducer (w_modal p) ReviewAction\<rparr>)"

definition closeModal :: "swap_panel \<Rightarrow> swap_panel" where
  "closeModal p =
     (let q = p\<lparr>w_modal := transactionModalReducer (w_modal p) CloseAction, w_reviewed := None, w_receivedOut := None,
                w_hash := None\<rparr> in
      if w_status p = WConfirmed \<or> w_status p = WRejected \<or> w_status p = WError
      then q\<lparr>w_status := WIdle, w_error := ''''\<rparr> else q)"

definition rejectStaleQuote :: "swap_panel \<Rightarrow> swap_panel" where
  "rejectStaleQuote p = p\<lparr>w_quote := None, w_status := WError, w_error := stale_quote_message\<rparr>"

text \<open>What a running swap has captured.\<close>

record swap_job =
  sj_quote :: graduated_quote
  sj_side :: trade_side
  sj_pool :: validated_pool
  sj_wallet :: string
  sj_chain :: "int option"
  sj_token :: string
  sj_state :: graduated_state
  sj_hasClient :: bool

text \<open>The context of the quote, as \<^verbatim>\<open>assertContext\<close> finds it before the swap starts.\<close>

definition context_holds :: "swap_panel \<Rightarrow> graduated_quote \<Rightarrow> string \<Rightarrow> validated_pool \<Rightarrow> int \<Rightarrow> bool" where
  "context_holds p quote wallet pool now \<longleftrightarrow>
     map_option js_lower (fst (w_context p)) = Some (js_lower wallet) \<and> snd (w_context p) = sp_chain (w_props p)
     \<and> quoteIsFresh quote wallet (vp_pool pool) (or_else (sp_chain (w_props p)) 0) now"

definition confirmSwap :: "int \<Rightarrow> swap_panel \<Rightarrow> swap_panel \<times> swap_job option" where
  "confirmSwap now p =
     (if w_busy p then (p, None)
      else case (w_reviewed p, sp_pool (w_props p), truthy (sp_wallet (w_props p)), sp_state (w_props p) (w_side p)) of
        (Some r, Some pool, Some wallet, Some state) \<Rightarrow>
          if \<not> context_holds p (rv_quote r) wallet pool now then (rejectStaleQuote p, None)
          else (p\<lparr>w_busy := True, w_pending := True, w_error := ''''\<rparr>,
                Some \<lparr>sj_quote = rv_quote r, sj_side = rv_side r, sj_pool = pool, sj_wallet = wallet,
                  sj_chain = sp_chain (w_props p), sj_token = sp_token (w_props p), sj_state = state,
                  sj_hasClient = sp_hasClient (w_props p)\<rparr>)
      | _ \<Rightarrow> (p, None))"

text \<open>What the confirmed swap runs: the single-click flow, its receipt, the output it received, and the
  refresh of the queries.\<close>

definition execute_swap ::
    "client \<Rightarrow> call_encoder \<Rightarrow> transfer_decoder \<Rightarrow> (trace \<Rightarrow> string option \<times> int option) \<Rightarrow> swap_job \<Rightarrow> unit io" where
  "execute_swap c encode decode current j =
     io_bind (io_throw_if (\<not> sj_hasClient j) ''The connected browser wallet is unavailable.'') (\<lambda>_.
     io_bind (panel_swap c encode current (sj_pool j) (sj_wallet j) (sj_chain j) (sj_token j) (sj_quote j) (sj_side j)
                (sj_state j)) (\<lambda>swapHash.
     io_bind (setHash [swapHash]) (\<lambda>_.
     io_bind (setStatus ''submitted'') (\<lambda>_.
     io_bind (setStatus ''confirming'') (\<lambda>_.
     io_bind (waitForTransactionReceipt c swapHash (Some 120000)) (\<lambda>(_, receipt).
     io_bind (io_throw_if (rc_status receipt \<noteq> ''success'')
        (''The swap reverted on '' @ selectedCooketChainName (c_chain c) @ ''.'')) (\<lambda>_.
     io_bind (case receivedOutputFromSwapReceipt decode (rc_logs receipt)
                     (if sj_side j = Buy then sj_token j else ARC_CANONICAL_USDC) (sj_wallet j) of
                None \<Rightarrow> io_return ()
              | Some v \<Rightarrow> io_note (EvCallback ''setReceivedOut'' [int_text v])) (\<lambda>_.
     io_bind (setStatus ''confirmed'') (\<lambda>_.
     io_bind (io_all (map (\<lambda>k. io_note (EvCallback ''invalidateQueries'' k))
                ([''graduated-swap-state'', sj_token j] # tradeInvalidationKeys (sj_token j)))) (\<lambda>_.
       io_return ()))))))))))"

text \<open>The end of the swap: the \<^verbatim>\<open>catch\<close> and the \<^verbatim>\<open>finally\<close> of \<^verbatim>\<open>submit\<close>.\<close>

definition swap_settled :: "unit result \<Rightarrow> swap_panel \<Rightarrow> swap_panel" where
  "swap_settled outcome p =
     (case outcome of
        Inr u \<Rightarrow> p
      | Inl reason \<Rightarrow> p\<lparr>w_status := (if matches_any_ci rejection_pattern (error_text reason) then WRejected else WError),
          w_error := swapErrorMessage reason\<rparr>)
     \<lparr>w_busy := False, w_pending := False\<rparr>"

subsection \<open>Interleavings\<close>

text \<open>
  What can happen to the panel: new props or query answers, the quote timer, input, the outcome of a
  request, the review button, a gesture on the dialog, and the reports and the end of the running swap.
\<close>

datatype swap_event =
    NewSwapProps swap_props
  | SwapQuoteTimer
  | SwapQuoteAnswer "graduated_quote result"
  | TypeSwapAmount string
  | TypeSwapSlippage string
  | PickSwapSide trade_side
  | PressReview
  | DialogGesture modal_gesture int
  | SwapStatusSet swap_status
  | SwapHashSet "string option"
  | SwapReceivedSet int
  | SwapSettled "unit result"

datatype swap_command = AskSwapQuote swap_quote_job | RunSwap swap_job

fun swap_handle ::
    "chain_module \<Rightarrow> (string \<Rightarrow> int \<Rightarrow> int result) \<Rightarrow> swap_event \<Rightarrow> swap_panel \<Rightarrow> swap_panel \<times> swap_command option" where
  "swap_handle m U (NewSwapProps pr) p = (p\<lparr>w_props := pr\<rparr>, None)"
| "swap_handle m U SwapQuoteTimer p =
     (if swap_guard m (w_props p) \<noteq> None \<or> w_amount p = [] \<or> w_busy p \<or> md_open (w_modal p) then (p, None)
      else (case requestQuote m U p of (q, j) \<Rightarrow> (q, map_option AskSwapQuote j)))"
| "swap_handle m U (SwapQuoteAnswer answer) p = (quote_arrived answer p, None)"
| "swap_handle m U (TypeSwapAmount v) p = ((if swap_guard m (w_props p) \<noteq> None then p else changeSwapAmount v p), None)"
| "swap_handle m U (TypeSwapSlippage v) p = ((if swap_guard m (w_props p) \<noteq> None then p else changeSwapSlippage v p), None)"
| "swap_handle m U (PickSwapSide side) p = (pickSwapSide side p, None)"
| "swap_handle m U PressReview p = (openReview m p, None)"
| "swap_handle m U (DialogGesture g now) p =
     (case modal_gesture_call (w_modal p) True (swap_guard m (w_props p) \<noteq> None) g of
        NoCall \<Rightarrow> (p, None)
      | CallClose \<Rightarrow> (closeModal p, None)
      | CallConfirm \<Rightarrow> (case confirmSwap now p of (q, j) \<Rightarrow> (q, map_option RunSwap j)))"
| "swap_handle m U (SwapStatusSet st) p = (p\<lparr>w_status := st\<rparr>, None)"
| "swap_handle m U (SwapHashSet h) p = (p\<lparr>w_hash := h\<rparr>, None)"
| "swap_handle m U (SwapReceivedSet v) p = (p\<lparr>w_receivedOut := Some v\<rparr>, None)"
| "swap_handle m U (SwapSettled outcome) p = (swap_settled outcome p, None)"

definition swap_step ::
    "chain_module \<Rightarrow> (string \<Rightarrow> int \<Rightarrow> int result) \<Rightarrow> swap_event \<Rightarrow> swap_panel \<Rightarrow> swap_panel \<times> swap_command option" where
  "swap_step m U e p = (case swap_handle m U e p of (q, c) \<Rightarrow> (swap_committed p q, c))"

fun swap_run :: "chain_module \<Rightarrow> (string \<Rightarrow> int \<Rightarrow> int result) \<Rightarrow> swap_event list \<Rightarrow> swap_panel \<Rightarrow> swap_panel" where
  "swap_run m U [] p = p"
| "swap_run m U (e # es) p = swap_run m U es (fst (swap_step m U e p))"


subsection \<open>One swap at a time\<close>

fun settles :: "swap_event \<Rightarrow> bool" where
  "settles (SwapSettled outcome) = True"
| "settles _ = False"

lemma swap_committed_keeps:
  "w_busy (swap_committed b p) = w_busy p" "w_pending (swap_committed b p) = w_pending p"
  "w_quote (swap_committed b p) = w_quote p" "w_reviewed (swap_committed b p) = w_reviewed p"
  "w_side (swap_committed b p) = w_side p" "w_props (swap_committed b p) = w_props p"
  "w_status (swap_committed b p) = w_status p" "w_amount (swap_committed b p) = w_amount p"
  "md_open (w_modal (swap_committed b p)) = md_open (w_modal p)"
  "w_modalOpen (swap_committed b p) = md_open (w_modal p)"
  "w_context (swap_committed b p) = (sp_wallet (w_props p), sp_chain (w_props p))"
  by (auto simp: swap_committed_def Let_def split: option.split)

lemma requestQuote_keeps:
  "w_busy (fst (requestQuote m U p)) = w_busy p \<and> w_reviewed (fst (requestQuote m U p)) = w_reviewed p"
  by (auto simp: requestQuote_def split: option.split sum.split)

lemma confirmSwap_starts:
  assumes "confirmSwap now p = (q, Some j)"
  shows "\<exists>r pool wallet state. \<not> w_busy p \<and> w_reviewed p = Some r \<and> sp_pool (w_props p) = Some pool
    \<and> truthy (sp_wallet (w_props p)) = Some wallet \<and> sp_state (w_props p) (w_side p) = Some state
    \<and> context_holds p (rv_quote r) wallet pool now \<and> q = p\<lparr>w_busy := True, w_pending := True, w_error := ''''\<rparr>
    \<and> j = \<lparr>sj_quote = rv_quote r, sj_side = rv_side r, sj_pool = pool, sj_wallet = wallet,
                  sj_chain = sp_chain (w_props p), sj_token = sp_token (w_props p), sj_state = state,
                  sj_hasClient = sp_hasClient (w_props p)\<rparr>"
  using assms by (auto simp: confirmSwap_def split: if_splits option.splits)

lemma swap_handle_starts:
  assumes "swap_handle m U e p = (q, Some (RunSwap j))"
  shows "\<exists>g now. e = DialogGesture g now \<and> modal_gesture_call (w_modal p) True (swap_guard m (w_props p) \<noteq> None) g = CallConfirm
    \<and> confirmSwap now p = (q, Some j)"
  using assms by (cases e) (auto split: if_splits prod.splits modal_call.splits)

lemma busy_handle:
  assumes "w_busy p" and "\<not> settles e"
  shows "w_busy (fst (swap_handle m U e p)) \<and> snd (swap_handle m U e p) = None"
  using assms by (cases e)
    (auto simp: quote_arrived_def changeSwapAmount_def changeSwapSlippage_def pickSwapSide_def openReview_def
      closeModal_def confirmSwap_def Let_def split: option.split modal_call.split sum.split)

lemma swap_step_parts:
  "fst (swap_step m U e p) = swap_committed p (fst (swap_handle m U e p))"
  "snd (swap_step m U e p) = snd (swap_handle m U e p)"
  by (simp_all add: swap_step_def split: prod.split)

lemma swap_run_events: "swap_run m U es p = run_events (\<lambda>e p. fst (swap_step m U e p)) es p"
  by (induction es arbitrary: p) auto

lemma swap_step_locks:
  assumes "snd (swap_step m U e p) = Some (RunSwap j)"
  shows "\<not> w_busy p \<and> w_busy (fst (swap_step m U e p))"
proof -
  obtain q where h: "swap_handle m U e p = (q, Some (RunSwap j))"
    using assms by (metis swap_step_parts(2) prod.collapse)
  from swap_handle_starts[OF h] obtain now where "confirmSwap now p = (q, Some j)" by blast
  from confirmSwap_starts[OF this] h show ?thesis by (auto simp: swap_step_parts swap_committed_keeps)
qed

interpretation swap_lock: locked_machine "\<lambda>e p. fst (swap_step m U e p)"
    "\<lambda>e p. \<exists>j. snd (swap_step m U e p) = Some (RunSwap j)" w_busy "\<lambda>e p. settles e" for m U
  by unfold_locales (use swap_step_locks in blast, use swap_step_locks in blast,
    use busy_handle in \<open>simp add: swap_step_parts swap_committed_keeps\<close>)

text \<open>C3: one swap at a time. Once the panel has started a swap, whatever happens to it until that swap has
  ended, it starts no other and requests no quote, however often its dialog is confirmed, closed and
  reopened, its inputs are changed or the wallet is switched.\<close>

theorem one_swap_at_a_time:
  assumes "swap_step m U e0 p = (p1, Some (RunSwap j))" and "list_all (\<lambda>e. \<not> settles e) es" and "\<not> settles e"
  shows "snd (swap_step m U e (swap_run m U es p1)) = None"
proof -
  have p1: "p1 = fst (swap_step m U e0 p)" "snd (swap_step m U e0 p) = Some (RunSwap j)" using assms(1) by simp_all
  have "\<not> released_in (\<lambda>e p. fst (swap_step m U e p)) (\<lambda>e p. settles e) es p1"
    by (rule not_released) (use assms(2) in \<open>simp add: list_all_iff\<close>)
  then have "w_busy (swap_run m U es p1)"
    unfolding swap_run_events using swap_lock.run_locked swap_step_locks[OF p1(2)] p1(1) by metis
  from busy_handle[OF this assms(3)] show ?thesis by (simp add: swap_step_parts)
qed

subsection \<open>What is reviewed is what is swapped\<close>

lemma reviewed_by_review:
  assumes "w_reviewed (fst (swap_step m U e p)) = Some r" and "w_reviewed p \<noteq> Some r"
  shows "e = PressReview \<and> w_quote p = Some (rv_quote r) \<and> w_side p = rv_side r \<and> w_slippage p = rv_slippage r
    \<and> swap_guard m (w_props p) = None \<and> \<not> w_pending p \<and> w_status p \<noteq> WQuoting"
proof -
  have "w_reviewed (fst (swap_handle m U e p)) = Some r"
    using assms(1) by (simp add: swap_step_parts swap_committed_keeps)
  then show ?thesis using assms(2) requestQuote_keeps[of m U p]
    by (cases e) (auto simp: quote_arrived_def changeSwapAmount_def changeSwapSlippage_def pickSwapSide_def openReview_def
      closeModal_def confirmSwap_def swap_settled_def rejectStaleQuote_def Let_def
      split: option.splits modal_call.splits sum.splits if_splits prod.splits)
qed

lemma swap_run_append: "swap_run m U (es @ fs) p = swap_run m U fs (swap_run m U es p)"
  by (induction es arbitrary: p) auto

lemma reviewed_origin:
  assumes "w_reviewed (swap_run m U es p) = Some r" and "w_reviewed p = None"
  shows "\<exists>before after. es = before @ PressReview # after \<and> w_quote (swap_run m U before p) = Some (rv_quote r)
    \<and> w_side (swap_run m U before p) = rv_side r \<and> w_slippage (swap_run m U before p) = rv_slippage r
    \<and> swap_guard m (w_props (swap_run m U before p)) = None"
  using assms(1)
proof (induction es rule: rev_induct)
  case Nil
  then show ?case using assms(2) by simp
next
  case (snoc e es)
  let ?q = "swap_run m U es p"
  have step: "w_reviewed (fst (swap_step m U e ?q)) = Some r" using snoc.prems by (simp add: swap_run_append)
  show ?case
  proof (cases "w_reviewed ?q = Some r")
    case True
    from snoc.IH[OF this] show ?thesis by (metis append.assoc append_Cons)
  next
    case False
    from reviewed_by_review[OF step False] show ?thesis by (intro exI[of _ es] exI[of _ "[]"]) simp
  qed
qed


text \<open>What a swap asks the wallet for: at most its requests, and exactly these once its flow returned.\<close>

abbreviation after_swap_flow :: "client \<Rightarrow> transfer_decoder \<Rightarrow> swap_job \<Rightarrow> string \<Rightarrow> unit io" where
  "after_swap_flow c decode j swapHash \<equiv>
     io_bind (setHash [swapHash]) (\<lambda>_.
     io_bind (setStatus ''submitted'') (\<lambda>_.
     io_bind (setStatus ''confirming'') (\<lambda>_.
     io_bind (waitForTransactionReceipt c swapHash (Some 120000)) (\<lambda>(_, receipt).
     io_bind (io_throw_if (rc_status receipt \<noteq> ''success'')
        (''The swap reverted on '' @ selectedCooketChainName (c_chain c) @ ''.'')) (\<lambda>_.
     io_bind (case receivedOutputFromSwapReceipt decode (rc_logs receipt)
                     (if sj_side j = Buy then sj_token j else ARC_CANONICAL_USDC) (sj_wallet j) of
                None \<Rightarrow> io_return ()
              | Some v \<Rightarrow> io_note (EvCallback ''setReceivedOut'' [int_text v])) (\<lambda>_.
     io_bind (setStatus ''confirmed'') (\<lambda>_.
     io_bind (io_all (map (\<lambda>k. io_note (EvCallback ''invalidateQueries'' k))
                ([''graduated-swap-state'', sj_token j] # tradeInvalidationKeys (sj_token j)))) (\<lambda>_.
       io_return ()))))))))"

lemma after_swap_flow_read_only: "read_only (after_swap_flow c decode j h)"
  by (intro emits_intros; auto intro!: emits_intros simp: list_all_iff split: option.split prod.split)

lemma execute_swap_submits:
  "submits (swap_requests encode (sj_pool j) (sj_wallet j) (sj_token j) (sj_quote j) (sj_side j) (sj_state j))
     (execute_swap c encode decode current j)"
  unfolding execute_swap_def
  by (rule submits_read_bind[OF emits_throw_if], rule submits_bind_read[OF panel_swap_submits after_swap_flow_read_only])

lemma returned_flow_was_sent:
  assumes "sj_hasClient j" and "panel_swap c encode current (sj_pool j) (sj_wallet j) (sj_chain j) (sj_token j)
      (sj_quote j) (sj_side j) (sj_state j) tr = (Inr h, t1)"
    and "execute_swap c encode decode current j tr = (out, t)"
  shows "writes t = writes tr
    @ swap_requests encode (sj_pool j) (sj_wallet j) (sj_token j) (sj_quote j) (sj_side j) (sj_state j)"
proof -
  have client: "io_bind (io_throw_if (\<not> sj_hasClient j) msg) f tr = f () tr" for msg and f :: "unit \<Rightarrow> unit io"
    using assms(1) by (simp add: io_bind_def io_throw_if_def io_result_def throw_if_def)
  have flow: "io_bind (panel_swap c encode current (sj_pool j) (sj_wallet j) (sj_chain j) (sj_token j)
      (sj_quote j) (sj_side j) (sj_state j)) f tr = f h t1" for f :: "string \<Rightarrow> unit io"
    using assms(2) by (simp add: io_bind_def)
  have "after_swap_flow c decode j h t1 = (out, t)"
    using assms(3) unfolding execute_swap_def client flow .
  then have "writes t = writes t1" by (rule read_only_writes[OF after_swap_flow_read_only[of h c decode j]])
  moreover have "writes t1 = writes tr
    @ swap_requests encode (sj_pool j) (sj_wallet j) (sj_token j) (sj_quote j) (sj_side j) (sj_state j)"
    by (rule submitsD(1)[OF panel_swap_submits assms(2)])
  ultimately show ?thesis by simp
qed

text \<open>C4: the swap that runs is the one that was reviewed. In any run from the first render, a started swap carries the
  quote and the side that were on display when the review was opened, is started by the dialog's
  confirmation in its review phase with no guard in the way, and its quote is then fresh for the wallet,
  the pool and the chain of that moment; and whatever the node and the wallet answer, the wallet
  receives at most the exact approval, if the allowance falls short, and the swap of that quote.\<close>

theorem swap_is_reviewed:
  assumes "swap_step m U e (swap_run m U es (mount_swap pr)) = (p1, Some (RunSwap j))"
    and "execute_swap c encode decode current j tr = (out, t)"
  shows "(\<exists>before after g now. es = before @ PressReview # after \<and> e = DialogGesture g now
      \<and> w_quote (swap_run m U before (mount_swap pr)) = Some (sj_quote j)
      \<and> w_side (swap_run m U before (mount_swap pr)) = sj_side j
      \<and> quoteIsFresh (sj_quote j) (sj_wallet j) (vp_pool (sj_pool j)) (or_else (sj_chain j) 0) now)
    \<and> (let p = swap_run m U es (mount_swap pr) in
        md_phase (w_modal p) = MReview \<and> swap_guard m (w_props p) = None \<and> \<not> w_busy p
        \<and> sp_wallet (w_props p) = Some (sj_wallet j) \<and> sp_chain (w_props p) = sj_chain j
        \<and> sp_pool (w_props p) = Some (sj_pool j) \<and> sp_token (w_props p) = sj_token j)
    \<and> (\<exists>n. writes t = writes tr
          @ take n (swap_requests encode (sj_pool j) (sj_wallet j) (sj_token j) (sj_quote j) (sj_side j) (sj_state j)))"
proof -
  let ?p = "swap_run m U es (mount_swap pr)"
  obtain q where h: "swap_handle m U e ?p = (q, Some (RunSwap j))"
    using assms(1) by (auto simp: swap_step_def split: prod.splits)
  from swap_handle_starts[OF h] obtain g now where e: "e = DialogGesture g now"
    "modal_gesture_call (w_modal ?p) True (swap_guard m (w_props ?p) \<noteq> None) g = CallConfirm"
    "confirmSwap now ?p = (q, Some j)" by blast
  from confirmSwap_starts[OF e(3)] obtain r pool wallet state where s: "\<not> w_busy ?p" "w_reviewed ?p = Some r"
    "sp_pool (w_props ?p) = Some pool" "truthy (sp_wallet (w_props ?p)) = Some wallet"
    "context_holds ?p (rv_quote r) wallet pool now"
    "j = \<lparr>sj_quote = rv_quote r, sj_side = rv_side r, sj_pool = pool, sj_wallet = wallet,
          sj_chain = sp_chain (w_props ?p), sj_token = sp_token (w_props ?p), sj_state = state,
          sj_hasClient = sp_hasClient (w_props ?p)\<rparr>" by blast
  have "w_reviewed (mount_swap pr) = None" by (simp add: mount_swap_def)
  from reviewed_origin[OF s(2) this] obtain before after where origin: "es = before @ PressReview # after"
    "w_quote (swap_run m U before (mount_swap pr)) = Some (rv_quote r)"
    "w_side (swap_run m U before (mount_swap pr)) = rv_side r" by blast
  have wallet: "sp_wallet (w_props ?p) = Some wallet" using s(4) by (auto simp: truthy_def split: option.splits if_splits)
  have "\<exists>n. writes t = writes tr @ take n (swap_requests encode pool wallet (sp_token (w_props ?p)) (rv_quote r) (rv_side r) state)"
    using submits_prefix[OF execute_swap_submits assms(2)] by (simp add: s(6))
  then show ?thesis using origin e s wallet confirm_only_in_review[OF e(2)]
    by (auto simp: context_holds_def Let_def)
qed

subsection \<open>A quote of the other side\<close>

lemma guard_has_client: "swap_guard m pr = None \<Longrightarrow> sp_hasClient pr"
  by (auto simp: swap_guard_def split: if_splits)

text \<open>A quote on display that is reviewed and confirmed while it is fresh starts its swap.\<close>

lemma review_confirm_starts:
  assumes "w_quote p = Some q" and "\<not> w_busy p" and "\<not> w_pending p" and "\<not> md_open (w_modal p)" and "w_status p = WIdle"
    and "swap_guard m (w_props p) = None" and "sp_pool (w_props p) = Some pool" and "truthy (sp_wallet (w_props p)) = Some wallet"
    and "sp_state (w_props p) (w_side p) = Some state"
    and "quoteIsFresh q wallet (vp_pool pool) (or_else (sp_chain (w_props p)) 0) now"
  shows "\<exists>p3. swap_step m U (DialogGesture ClickConfirm now) (fst (swap_step m U PressReview p)) = (p3, Some (RunSwap
      \<lparr>sj_quote = q, sj_side = w_side p, sj_pool = pool, sj_wallet = wallet, sj_chain = sp_chain (w_props p),
       sj_token = sp_token (w_props p), sj_state = state, sj_hasClient = sp_hasClient (w_props p)\<rparr>))"
proof -
  have wallet: "sp_wallet (w_props p) = Some wallet" using assms(8) by (auto simp: truthy_def split: option.splits if_splits)
  let ?p2 = "p\<lparr>w_reviewed := Some \<lparr>rv_quote = q, rv_side = w_side p, rv_slippage = w_slippage p,
      rv_tokenDecimals = or_else (sp_decimals (w_props p)) 18\<rparr>, w_receivedOut := None,
      w_modal := \<lparr>md_open = True, md_phase = MReview\<rparr>, w_modalOpen := True, w_context := (Some wallet, sp_chain (w_props p))\<rparr>"
  have d: "fst (swap_step m U PressReview p) = ?p2"
    using assms(1,3-6) wallet by (simp add: swap_step_parts swap_committed_def openReview_def Let_def)
  have call: "modal_gesture_call (w_modal ?p2) True (swap_guard m (w_props ?p2) \<noteq> None) ClickConfirm = CallConfirm"
    using assms(6) by (simp add: modal_gesture_call_def)
  have ctx: "context_holds ?p2 q wallet pool now" using assms(10) by (simp add: context_holds_def)
  have go: "confirmSwap now ?p2 = (?p2\<lparr>w_busy := True, w_pending := True, w_error := []\<rparr>,
      Some \<lparr>sj_quote = q, sj_side = w_side p, sj_pool = pool, sj_wallet = wallet, sj_chain = sp_chain (w_props p),
            sj_token = sp_token (w_props p), sj_state = state, sj_hasClient = sp_hasClient (w_props p)\<rparr>)"
    using assms(2,7,8,9) ctx by (simp add: confirmSwap_def)
  show ?thesis unfolding d using call go by (simp add: swap_step_def)
qed

text \<open>C36: a review can show one side and swap the other. Let a panel on its buy side, ready to transact, request a
  quote, and let the user switch to selling before the quote arrives. The late quote is shown as if it
  were one of the sell; opened for review and confirmed while it is fresh, the panel starts a swap whose
  reviewed side is the sale of the token and whose quote is the buy; and when that swap runs and its flow
  comes back from the wallet, however its confirmation then ends, the wallet has been asked to sign a
  transaction that pays with USDC, as its last request.\<close>

theorem late_quote_swaps_other_side:
  assumes "w_side p = Buy" and "\<not> w_busy p" and "\<not> w_pending p" and "\<not> md_open (w_modal p)"
    and "swap_guard m (w_props p) = None" and "sp_chain (w_props p) = Some (selectedCooketChainId m)"
    and "swap_step m U SwapQuoteTimer p = (p1, Some (AskSwapQuote j))"
    and "run_quote c j tr = (Inr q, t)" and "c_chain c = m" and "now < gq_createdAt q + 60000"
    and "sp_state (w_props p) Sell = Some state"
    and "panel_swap c encode current (sq_pool j) (sq_wallet j) (sp_chain (w_props p)) (sp_token (w_props p)) q Sell state tr'
      = (Inr h, t1)"
  shows "\<exists>p3 k out t2. swap_step m U (DialogGesture ClickConfirm now)
        (swap_run m U [PickSwapSide Sell, SwapQuoteAnswer (Inr q), PressReview] p1) = (p3, Some (RunSwap k))
    \<and> sj_side k = Sell \<and> sj_quote k = q \<and> gq_side q = Buy
    \<and> execute_swap c encode decode current k tr' = (out, t2) \<and> length (writes t2) > length (writes tr')
    \<and> last (writes t2) = transaction_spec (sj_wallet k) \<lparr>sx_to = uc_router (sj_pool k),
            sx_data = encode ''exactInputSingle''
              [AText ARC_CANONICAL_USDC, AText (vp_token (sj_pool k)), AInt CANONICAL_POOL_FEE, AText (sj_wallet k),
               AInt (gq_deadline q), AInt (gq_amountIn q), AInt (gq_minimumOut q), AInt 0],
            sx_value = 0\<rparr>"
proof -
  from assms(7) obtain p0 where req: "requestQuote m U p = (p0, Some j)" "p1 = swap_committed p p0"
    by (auto simp: swap_step_def split: if_splits prod.splits option.splits)
  then obtain pool wallet parsed where r: "sp_pool (w_props p) = Some pool" "truthy (sp_wallet (w_props p)) = Some wallet"
    "p0 = p\<lparr>w_status := WQuoting, w_error := ''''\<rparr>" "sq_pool j = pool" "sq_wallet j = wallet" "sq_side j = Buy"
    using assms(1) by (auto simp: requestQuote_def split: option.splits if_splits sum.splits)
  have wallet: "sp_wallet (w_props p) = Some wallet" using r(2) by (auto simp: truthy_def split: option.splits if_splits)
  let ?ctx = "(Some wallet, Some (selectedCooketChainId m))"
  have p1: "p1 = p\<lparr>w_status := WQuoting, w_error := '''', w_context := ?ctx, w_modalOpen := False\<rparr>"
    unfolding req(2) r(3) swap_committed_def using assms(4,6) wallet by (simp add: Let_def)
  note asked = quoteGraduatedSwap_Inr[OF assms(8)[unfolded run_quote_def]]
  have q: "gq_side q = Buy" "gq_pool q = vp_pool pool" "gq_wallet q = wallet" "gq_chainId q = selectedCooketChainId m"
    "gq_deadline q = transactionDeadline (gq_createdAt q)"
    using asked r(4-6) assms(9) by auto
  have fresh: "quoteIsFresh q wallet (vp_pool pool) (selectedCooketChainId m) now"
    using quoteIsFresh_window[OF q(5), of wallet "vp_pool pool" "selectedCooketChainId m" now] q assms(10)
    by (simp add: quote_ttl_ms_def)
  have a: "fst (swap_step m U (PickSwapSide Sell) p1) = p1\<lparr>w_side := Sell, w_quote := None\<rparr>"
    using assms(3,4,6) wallet by (simp add: swap_step_parts swap_committed_def pickSwapSide_def p1 Let_def)
  have b: "fst (swap_step m U (SwapQuoteAnswer (Inr q)) (p1\<lparr>w_side := Sell, w_quote := None\<rparr>))
      = p1\<lparr>w_side := Sell, w_quote := Some q, w_status := WIdle\<rparr>"
    using assms(2,4,6) wallet by (simp add: swap_step_parts swap_committed_def quote_arrived_def p1 Let_def)
  let ?p2 = "p1\<lparr>w_side := Sell, w_quote := Some q, w_status := WIdle\<rparr>"
  have run: "swap_run m U [PickSwapSide Sell, SwapQuoteAnswer (Inr q), PressReview] p1 = fst (swap_step m U PressReview ?p2)"
    by (simp only: swap_run.simps a b)
  have "\<exists>p3. swap_step m U (DialogGesture ClickConfirm now) (fst (swap_step m U PressReview ?p2)) = (p3, Some (RunSwap
      \<lparr>sj_quote = q, sj_side = w_side ?p2, sj_pool = pool, sj_wallet = wallet, sj_chain = sp_chain (w_props ?p2),
       sj_token = sp_token (w_props ?p2), sj_state = state, sj_hasClient = sp_hasClient (w_props ?p2)\<rparr>))"
    by (rule review_confirm_starts) (use assms(2-6,11) r(1,2) fresh in \<open>simp_all add: p1 or_else_def\<close>)
  moreover define k where "k = \<lparr>sj_quote = q, sj_side = w_side ?p2, sj_pool = pool, sj_wallet = wallet,
    sj_chain = sp_chain (w_props ?p2), sj_token = sp_token (w_props ?p2), sj_state = state,
    sj_hasClient = sp_hasClient (w_props ?p2)\<rparr>"
  ultimately obtain p3 where started: "swap_step m U (DialogGesture ClickConfirm now)
      (swap_run m U [PickSwapSide Sell, SwapQuoteAnswer (Inr q), PressReview] p1) = (p3, Some (RunSwap k))"
    unfolding run by blast
  have k: "sj_quote k = q" "sj_side k = Sell" "sj_pool k = pool" "sj_wallet k = wallet" "sj_state k = state"
    "sj_chain k = sp_chain (w_props p)" "sj_token k = sp_token (w_props p)" "sj_hasClient k"
    using guard_has_client[OF assms(5)] by (simp_all add: k_def p1)
  obtain out t2 where ran: "execute_swap c encode decode current k tr' = (out, t2)" by fastforce
  have flow: "panel_swap c encode current (sj_pool k) (sj_wallet k) (sj_chain k) (sj_token k) (sj_quote k) (sj_side k)
      (sj_state k) tr' = (Inr h, t1)" using assms(12) by (simp add: k r(4,5))
  from returned_flow_was_sent[OF k(8) flow ran] show ?thesis using started ran k(1,2) q(1)
    by (intro exI[of _ p3] exI[of _ k] exI[of _ out] exI[of _ t2])
      (simp add: swap_requests_def buildGraduatedSwapTransaction_def k)
qed



subsection \<open>The output of a swap\<close>

lemma map_filter_single: "List.map_filter f xs = [v] \<longleftrightarrow>
    (\<exists>before x after. xs = before @ x # after \<and> f x = Some v \<and> list_all (\<lambda>y. f y = None) (before @ after))"
proof
  assume "List.map_filter f xs = [v]"
  then show "\<exists>before x after. xs = before @ x # after \<and> f x = Some v \<and> list_all (\<lambda>y. f y = None) (before @ after)"
  proof (induction xs)
    case (Cons y ys)
    show ?case
    proof (cases "f y")
      case None
      then have "List.map_filter f ys = [v]" using Cons.prems by (simp add: map_filter_def)
      from Cons.IH[OF this] obtain before x after where
        "ys = before @ x # after" "f x = Some v" "list_all (\<lambda>y. f y = None) (before @ after)" by blast
      then show ?thesis using None by (intro exI[of _ "y # before"] exI[of _ x] exI[of _ after]) simp
    next
      case (Some w)
      then have "w = v" "List.map_filter f ys = []" using Cons.prems by (simp_all add: map_filter_def)
      then have "list_all (\<lambda>y. f y = None) ys" by (auto simp: map_filter_def list_all_iff filter_empty_conv)
      then show ?thesis using Some \<open>w = v\<close> by (intro exI[of _ "[]"] exI[of _ y] exI[of _ ys]) simp
    qed
  qed (simp add: map_filter_def)
next
  assume "\<exists>before x after. xs = before @ x # after \<and> f x = Some v \<and> list_all (\<lambda>y. f y = None) (before @ after)"
  then obtain before x after where x: "xs = before @ x # after" "f x = Some v"
    "list_all (\<lambda>y. f y = None) before" "list_all (\<lambda>y. f y = None) after" by auto
  then have "filter (\<lambda>y. f y \<noteq> None) before = []" "filter (\<lambda>y. f y \<noteq> None) after = []"
    by (auto simp: list_all_iff filter_empty_conv)
  then show "List.map_filter f xs = [v]" using x(1,2) by (simp add: map_filter_def)
qed

text \<open>The transfers that count: of the output token, to the recipient.\<close>

definition output_transfer :: "transfer_decoder \<Rightarrow> string \<Rightarrow> string \<Rightarrow> log_entry \<Rightarrow> int \<Rightarrow> bool" where
  "output_transfer decode tokenOut recipient entry v \<longleftrightarrow>
     same_address (log_address entry) tokenOut \<and> log_topics entry \<noteq> []
     \<and> (\<exists>to. decode entry = Some (to, v) \<and> same_address to recipient)"

lemma received_of_iff: "received_of decode tokenOut recipient entry = Some v \<longleftrightarrow> output_transfer decode tokenOut recipient entry v"
  by (auto simp: received_of_def output_transfer_def same_address_def split: option.split)

lemma received_of_None:
  "received_of decode tokenOut recipient entry = None \<longleftrightarrow> (\<nexists>v. output_transfer decode tokenOut recipient entry v)"
  by (auto simp: received_of_iff[symmetric])

lemma receivedOutput_iff:
  "receivedOutputFromSwapReceipt decode logs tokenOut recipient = Some v \<longleftrightarrow>
     (\<exists>before x after. logs = before @ x # after \<and> output_transfer decode tokenOut recipient x v
        \<and> (\<forall>y \<in> set (before @ after). \<nexists>w. output_transfer decode tokenOut recipient y w))"
proof -
  have "receivedOutputFromSwapReceipt decode logs tokenOut recipient = Some v \<longleftrightarrow>
     List.map_filter (received_of decode tokenOut recipient) logs = [v]"
    unfolding receivedOutputFromSwapReceipt_def by (auto split: list.splits)
  then show ?thesis unfolding map_filter_single received_of_iff received_of_None list_all_iff .
qed

lemma waitForTransactionReceipt_Inr:
  "waitForTransactionReceipt c h timeout tr = (Inr a, t) \<longleftrightarrow>
     (\<exists>reason receipt. a = (reason, receipt) \<and> c_waitReceipt c tr h = (reason, Inr receipt) \<and> t = tr @ [EvWaitReceipt h timeout])"
  by (cases "c_waitReceipt c tr h") (auto simp: waitForTransactionReceipt_def io_inv try_bind_Inr_iff)

text \<open>
  Conversely nothing else is asked of the receipt: whatever reason the wait gives for a replacement of the
  transaction, a cancellation included, a successful receipt of the replacing transaction confirms the swap.
\<close>

lemma any_successful_receipt_confirms:
  assumes "sj_hasClient j"
    and "panel_swap c encode current (sj_pool j) (sj_wallet j) (sj_chain j) (sj_token j) (sj_quote j) (sj_side j) (sj_state j) tr
      = (Inr h, t1)"
    and "\<And>tr. c_waitReceipt c tr h = (Some reason, Inr receipt)" and "rc_status receipt = ''success''"
  shows "\<exists>t. execute_swap c encode decode current j tr = (Inr (), t) \<and> EvCallback ''setStatus'' [''confirmed''] \<in> set t"
proof -
  have client: "io_bind (io_throw_if (\<not> sj_hasClient j) msg) f tr = f () tr" for msg and f :: "unit \<Rightarrow> unit io"
    using assms(1) by (simp add: io_bind_def io_throw_if_def io_result_def throw_if_def)
  have flow: "io_bind (panel_swap c encode current (sj_pool j) (sj_wallet j) (sj_chain j) (sj_token j)
      (sj_quote j) (sj_side j) (sj_state j)) f tr = f h t1" for f :: "string \<Rightarrow> unit io"
    using assms(2) by (simp add: io_bind_def)
  have wait: "waitForTransactionReceipt c h n s = (Inr (Some reason, receipt), s @ [EvWaitReceipt h n])" for n s
    by (simp add: waitForTransactionReceipt_def io_call_def assms(3))
  show ?thesis unfolding execute_swap_def client flow
    by (simp add: io_defs set_run wait assms(4) tradeInvalidationKeys_def split: option.split)
qed

text \<open>C9: a swap is shown as confirmed only after its own flow returned a hash and waiting for the receipt of that hash, after
  the panel's three reports, answered with a successful receipt, which is the replacing transaction's when
  the wallet replaced it; an output is shown only when exactly one log of that receipt is a transfer of the
  output token to the wallet, which it then is; the queries refreshed include the swap state and every
  query a trade invalidates.\<close>

theorem confirmed_swap:
  assumes "execute_swap c encode decode current j tr = (Inr u, t)"
  shows "\<exists>h t1 t2 reason receipt shown. panel_swap c encode current (sj_pool j) (sj_wallet j) (sj_chain j) (sj_token j)
        (sj_quote j) (sj_side j) (sj_state j) tr = (Inr h, t1)
    \<and> t2 = t1 @ [EvCallback ''setHash'' [h], EvCallback ''setStatus'' [''submitted''], EvCallback ''setStatus'' [''confirming'']]
    \<and> c_waitReceipt c t2 h = (reason, Inr receipt) \<and> rc_status receipt = ''success''
    \<and> t = t2 @ [EvWaitReceipt h (Some 120000)] @ shown @ [EvCallback ''setStatus'' [''confirmed'']]
         @ map (EvCallback ''invalidateQueries'') ([''graduated-swap-state'', sj_token j] # tradeInvalidationKeys (sj_token j))
    \<and> (case shown of
         [] \<Rightarrow> \<nexists>v. receivedOutputFromSwapReceipt decode (rc_logs receipt)
                 (if sj_side j = Buy then sj_token j else ARC_CANONICAL_USDC) (sj_wallet j) = Some v
       | e # es \<Rightarrow> \<exists>v before x after. e = EvCallback ''setReceivedOut'' [int_text v] \<and> es = []
            \<and> rc_logs receipt = before @ x # after
            \<and> output_transfer decode (if sj_side j = Buy then sj_token j else ARC_CANONICAL_USDC) (sj_wallet j) x v
            \<and> (\<forall>y \<in> set (before @ after). \<nexists>w.
                 output_transfer decode (if sj_side j = Buy then sj_token j else ARC_CANONICAL_USDC) (sj_wallet j) y w))"
proof -
  let ?out = "if sj_side j = Buy then sj_token j else ARC_CANONICAL_USDC"
  have added: "io_all (map (\<lambda>k. io_note (EvCallback ''invalidateQueries'' k)) ks) s = (Inr us, s')
      \<Longrightarrow> s' = s @ map (EvCallback ''invalidateQueries'') ks" for ks s us s'
    by (induction ks arbitrary: s us s') (fastforce simp: io_inv)+
  from assms obtain h t1 reason receipt t3 us where run:
    "panel_swap c encode current (sj_pool j) (sj_wallet j) (sj_chain j) (sj_token j) (sj_quote j) (sj_side j) (sj_state j) tr
       = (Inr h, t1)"
    "c_waitReceipt c (t1 @ [EvCallback ''setHash'' [h], EvCallback ''setStatus'' [''submitted''],
        EvCallback ''setStatus'' [''confirming'']]) h = (reason, Inr receipt)" "rc_status receipt = ''success''"
    "(case receivedOutputFromSwapReceipt decode (rc_logs receipt) ?out (sj_wallet j) of None \<Rightarrow> io_return ()
       | Some v \<Rightarrow> io_note (EvCallback ''setReceivedOut'' [int_text v]))
      (t1 @ [EvCallback ''setHash'' [h], EvCallback ''setStatus'' [''submitted''], EvCallback ''setStatus'' [''confirming''],
        EvWaitReceipt h (Some 120000)]) = (Inr (), t3)"
    "io_all (map (\<lambda>k. io_note (EvCallback ''invalidateQueries'' k)) ([''graduated-swap-state'', sj_token j]
        # tradeInvalidationKeys (sj_token j))) (t3 @ [EvCallback ''setStatus'' [''confirmed'']]) = (Inr us, t)"
    unfolding execute_swap_def setHash_def setStatus_def
    by (auto simp: io_bind_Inr io_throw_if_Inr io_note_Inr io_return_Inr waitForTransactionReceipt_Inr simp del: io_all.simps list.map)
  let ?t2 = "t1 @ [EvCallback ''setHash'' [h], EvCallback ''setStatus'' [''submitted''], EvCallback ''setStatus'' [''confirming'']]"
  note fin = added[OF run(5)]
  show ?thesis
  proof (cases "receivedOutputFromSwapReceipt decode (rc_logs receipt) ?out (sj_wallet j)")
    case None
    then have "t3 = ?t2 @ [EvWaitReceipt h (Some 120000)]" using run(4) by (simp add: io_return_def)
    then show ?thesis using run(1-3) None fin
      by (intro exI[of _ h] exI[of _ t1] exI[of _ ?t2] exI[of _ reason] exI[of _ receipt] exI[of _ "[]"]) simp
  next
    case (Some v)
    then have "t3 = ?t2 @ [EvWaitReceipt h (Some 120000), EvCallback ''setReceivedOut'' [int_text v]]"
      using run(4) by (simp add: io_note_def)
    then show ?thesis using run(1-3) Some[unfolded receivedOutput_iff] fin
      by (intro exI[of _ h] exI[of _ t1] exI[of _ ?t2] exI[of _ reason] exI[of _ receipt]
          exI[of _ "[EvCallback ''setReceivedOut'' [int_text v]]"]) simp
  qed
qed


lemma default_slippage: "math_round (num_times_100 (js_number ''0.50'')) = Fin 50"
proof -
  have parts: "js_trim ''0.50'' = ''0.50''" "split_exponent ''0.50'' = (''0.50'', None)" "mantissa_ok ''0.50''"
    "take 2 (js_lower ''0.50'') = ''0.''" "hd ''0.50'' = CHR ''0''" by code_simp+
  have d: "decimal_value ''0.50'' = of_int 50 / 100" by (simp add: decimal_value_def digits_value_Cons digit_value_def)
  have n: "js_number ''0.50'' = double_of (decimal_value ''0.50'')"
    by (simp add: js_number_def unsigned_number_def Let_def parts)
  show ?thesis unfolding n d using slippage_rounding(1)[of 50] by simp
qed


subsection \<open>Concrete swaps\<close>

definition demo_swap_props :: swap_props where
  "demo_swap_props = \<lparr>sp_token = ''0xt'', sp_poolAddress = Some ''0xp'', sp_symbol = ''T'', sp_configured = True,
     sp_connected = True, sp_canTransact = True, sp_walletStatus = WalletReady, sp_wallet = Some ''0xa'',
     sp_chain = Some 5042002, sp_hasClient = True, sp_pool = Some demo_pool, sp_poolError = None, sp_decimals = Some 18,
     sp_state = (\<lambda>s. Some short_state)\<rparr>"

definition demo_units :: "string \<Rightarrow> int \<Rightarrow> int result" where
  "demo_units s d = Inr (int (digits_value s))"

definition demo_decode :: transfer_decoder where
  "demo_decode entry = Some (''0xA'', 5)"

lemma demo_swap_guard: "swap_guard sample_module demo_swap_props = None" "truthy (Some ''0xa'') = Some ''0xa''"
  by (simp_all add: swap_guard_def demo_swap_props_def truthy_def sample_chain_selected)

definition demo_job :: swap_job where
  "demo_job = \<lparr>sj_quote = UniswapSwap.demo_quote, sj_side = Buy, sj_pool = demo_pool, sj_wallet = ''0xa'', sj_chain = Some 5042002,
     sj_token = ''0xt'', sj_state = short_state, sj_hasClient = True\<rparr>"

lemma demo_quoted:
  "fst (swap_step m U (SwapQuoteAnswer (Inr q)) (mount_swap demo_swap_props)) = (mount_swap demo_swap_props)\<lparr>w_quote := Some q\<rparr>"
  by (simp add: swap_step_parts swap_committed_def quote_arrived_def mount_swap_def closedTransactionModal_def
      demo_swap_props_def Let_def)

lemma demo_swap_starts:
  "\<exists>p1. swap_step sample_module U (DialogGesture ClickConfirm 1000005)
     (swap_run sample_module U [SwapQuoteAnswer (Inr UniswapSwap.demo_quote), PressReview] (mount_swap demo_swap_props))
     = (p1, Some (RunSwap demo_job))"
proof -
  have fresh: "quoteIsFresh UniswapSwap.demo_quote ''0xa'' ''0xp'' 5042002 1000005"
    by (simp add: quoteIsFresh_def UniswapSwap.demo_quote_def quote_ttl_ms_def)
  let ?p = "(mount_swap demo_swap_props)\<lparr>w_quote := Some UniswapSwap.demo_quote\<rparr>"
  have "\<exists>p3. swap_step sample_module U (DialogGesture ClickConfirm 1000005) (fst (swap_step sample_module U PressReview ?p)) =
      (p3, Some (RunSwap \<lparr>sj_quote = UniswapSwap.demo_quote, sj_side = w_side ?p, sj_pool = demo_pool, sj_wallet = ''0xa'',
       sj_chain = sp_chain (w_props ?p), sj_token = sp_token (w_props ?p), sj_state = short_state,
       sj_hasClient = sp_hasClient (w_props ?p)\<rparr>))"
    by (rule review_confirm_starts)
      (use demo_swap_guard fresh in \<open>simp_all add: mount_swap_def closedTransactionModal_def demo_swap_props_def demo_fields or_else_def\<close>)
  then show ?thesis by (simp add: demo_quoted demo_job_def) (simp add: mount_swap_def demo_swap_props_def)
qed

theorem one_swap_at_a_time_witness:
  "\<exists>p1 j. swap_step sample_module demo_units (DialogGesture ClickConfirm 1000005)
     (swap_run sample_module demo_units [SwapQuoteAnswer (Inr UniswapSwap.demo_quote), PressReview] (mount_swap demo_swap_props))
     = (p1, Some (RunSwap j))
    \<and> snd (swap_step sample_module demo_units (DialogGesture ClickConfirm 1000006)
        (swap_run sample_module demo_units [SwapStatusSet WRejected, DialogGesture PressEscape 1000005, PressReview] p1)) = None"
proof -
  obtain p1 where s: "swap_step sample_module demo_units (DialogGesture ClickConfirm 1000005)
     (swap_run sample_module demo_units [SwapQuoteAnswer (Inr UniswapSwap.demo_quote), PressReview] (mount_swap demo_swap_props))
     = (p1, Some (RunSwap demo_job))" using demo_swap_starts by blast
  from one_swap_at_a_time[OF s, of "[SwapStatusSet WRejected, DialogGesture PressEscape 1000005, PressReview]"
      "DialogGesture ClickConfirm 1000006"] s
  show ?thesis by auto
qed

theorem swap_is_reviewed_witness:
  "\<exists>p1 out t n. swap_step sample_module demo_units (DialogGesture ClickConfirm 1000005)
     (swap_run sample_module demo_units [SwapQuoteAnswer (Inr UniswapSwap.demo_quote), PressReview] (mount_swap demo_swap_props))
     = (p1, Some (RunSwap demo_job))
    \<and> execute_swap demo demo_encode demo_decode demo_context demo_job [] = (out, t)
    \<and> writes t = take n (swap_requests demo_encode demo_pool ''0xa'' ''0xt'' UniswapSwap.demo_quote Buy short_state)"
proof -
  obtain p1 where s: "swap_step sample_module demo_units (DialogGesture ClickConfirm 1000005)
     (swap_run sample_module demo_units [SwapQuoteAnswer (Inr UniswapSwap.demo_quote), PressReview] (mount_swap demo_swap_props))
     = (p1, Some (RunSwap demo_job))" using demo_swap_starts by blast
  obtain out t where run: "execute_swap demo demo_encode demo_decode demo_context demo_job [] = (out, t)" by fastforce
  from swap_is_reviewed[OF s run] obtain n where "writes t = writes [] @
      take n (swap_requests demo_encode (sj_pool demo_job) (sj_wallet demo_job) (sj_token demo_job) (sj_quote demo_job)
        (sj_side demo_job) (sj_state demo_job))" by blast
  then show ?thesis using s run by (auto simp: demo_job_def)
qed

definition rich_state :: graduated_state where
  "rich_state = \<lparr>gs_usdc = 50, gs_token = 60, gs_allowance = 50\<rparr>"

definition rich_swap_props :: swap_props where
  "rich_swap_props = demo_swap_props\<lparr>sp_state := (\<lambda>s. Some rich_state)\<rparr>"

definition late_quote :: graduated_quote where
  "late_quote = \<lparr>gq_side = Buy, gq_amountIn = 40, gq_amountOut = 50, gq_minimumOut = 49, gq_slippageBps = Fin 50,
     gq_createdAt = 1000000, gq_deadline = 1300, gq_pool = ''0xp'', gq_wallet = ''0xa'', gq_chainId = 5042002\<rparr>"

definition late_quote_job :: swap_quote_job where
  "late_quote_job = \<lparr>sq_pool = demo_pool, sq_side = Buy, sq_amountIn = 40, sq_bps = Fin 50, sq_wallet = ''0xa''\<rparr>"

lemma late_quote_answered: "\<exists>t. run_quote demo late_quote_job [] = (Inr late_quote, t)"
proof -
  have fields: "c_readInt demo = (\<lambda>tr a f args. Inr (if f = ''allowance'' \<and> writes tr = [] then 0 else 50))"
    "c_timerFired demo = (\<lambda>tr. False)" "c_now demo = (\<lambda>tr. 1000000)" "c_chain demo = sample_module" by (simp_all add: demo_def)
  have ms: "positive_finite graduated_rpc_timeout" by (simp add: graduated_rpc_timeout_def)
  have least: "minimumOutput 50 (Fin 50) = Inr 49" by code_simp
  show ?thesis
    by (simp add: run_quote_def late_quote_job_def quoteGraduatedSwap_def Let_def io_defs request_defs withGraduatedRpcTimeout_def
        withAbortableTimeout_def fields ms least late_quote_def transactionDeadline_def demo_pool_def sample_chain_selected)
qed

lemma late_quote_flow:
  "\<exists>t. panel_swap demo demo_encode demo_context demo_pool ''0xa'' (Some 5042002) ''0xt'' late_quote Sell rich_state []
     = (Inr ''0xh'', t)"
proof -
  have now: "c_now demo = (\<lambda>tr. 1000000)" by (simp add: demo_def)
  have holds: "assertContext demo demo_context late_quote ''0xa'' (Some 5042002) ''0xp'' tr = (Inr (), tr @ [EvNow])" for tr
    by (simp add: assertContext_def io_defs dateNow_def demo_context_def late_quote_def quoteIsFresh_def quote_ttl_ms_def
        or_else_def now)
  have late: "gq_amountIn late_quote = 40" "gs_usdc rich_state = 50" "gs_token rich_state = 60" "gs_allowance rich_state = 50"
    by (simp_all add: late_quote_def rich_state_def)
  show ?thesis
    by (simp add: panel_swap_def orchestrateGraduatedSwap_def Let_def io_bind_def io_throw_if_def io_result_def
        io_return_def holds demo_fields(1,2) late set_run walletTransport_demo or_else_def)
qed

lemma rich_guard: "swap_guard sample_module rich_swap_props = None" "truthy (Some ''0xa'') = Some ''0xa''"
  by (simp_all add: swap_guard_def rich_swap_props_def demo_swap_props_def truthy_def sample_chain_selected)

lemma late_quote_asked:
  "\<exists>p1. swap_step sample_module demo_units SwapQuoteTimer ((mount_swap rich_swap_props)\<lparr>w_amount := ''40''\<rparr>)
     = (p1, Some (AskSwapQuote late_quote_job))"
proof -
  let ?p = "(mount_swap rich_swap_props)\<lparr>w_amount := ''40''\<rparr>"
  have units: "demo_units ''40'' 6 = Inr 40" by (simp add: demo_units_def digits_value_def digit_value_def of_char_def)
  have input: "swap_input_of demo_units ?p = Inr 40"
    by (simp add: swap_input_of_def validateSwapInput_def ARC_USDC_DECIMALS_def units mount_swap_def rich_swap_props_def
        demo_swap_props_def rich_state_def throw_if_def)
  have ask: "requestQuote sample_module demo_units ?p = (?p\<lparr>w_status := WQuoting, w_error := ''''\<rparr>, Some late_quote_job)"
    using rich_guard default_slippage unfolding requestQuote_def input
    by (simp add: mount_swap_def rich_swap_props_def demo_swap_props_def late_quote_job_def)
  have "snd (swap_step sample_module demo_units SwapQuoteTimer ?p) = Some (AskSwapQuote late_quote_job)"
    using rich_guard ask by (simp add: swap_step_parts) (simp add: mount_swap_def closedTransactionModal_def)
  then show ?thesis by (metis prod.collapse)
qed

theorem late_quote_swaps_other_side_witness:
  "\<exists>p p1 t p3 k out t2. swap_step sample_module demo_units SwapQuoteTimer p = (p1, Some (AskSwapQuote late_quote_job))
    \<and> w_side p = Buy \<and> run_quote demo late_quote_job [] = (Inr late_quote, t)
    \<and> swap_step sample_module demo_units (DialogGesture ClickConfirm 1000005)
        (swap_run sample_module demo_units [PickSwapSide Sell, SwapQuoteAnswer (Inr late_quote), PressReview] p1)
        = (p3, Some (RunSwap k))
    \<and> sj_side k = Sell \<and> gq_side (sj_quote k) = Buy
    \<and> execute_swap demo demo_encode demo_decode demo_context k [] = (out, t2) \<and> writes t2 \<noteq> []"
proof -
  let ?p = "(mount_swap rich_swap_props)\<lparr>w_amount := ''40''\<rparr>"
  obtain p1 where timer: "swap_step sample_module demo_units SwapQuoteTimer ?p = (p1, Some (AskSwapQuote late_quote_job))"
    using late_quote_asked by blast
  obtain t where run: "run_quote demo late_quote_job [] = (Inr late_quote, t)" using late_quote_answered by blast
  obtain t' where flow: "panel_swap demo demo_encode demo_context (sq_pool late_quote_job) (sq_wallet late_quote_job)
      (sp_chain (w_props ?p)) (sp_token (w_props ?p)) late_quote Sell rich_state [] = (Inr ''0xh'', t')"
    using late_quote_flow by (auto simp: mount_swap_def rich_swap_props_def demo_swap_props_def late_quote_job_def)
  have mod: "c_chain demo = sample_module" by (simp add: demo_def)
  have start: "w_side ?p = Buy" "\<not> w_busy ?p" "\<not> w_pending ?p" "\<not> md_open (w_modal ?p)"
    "swap_guard sample_module (w_props ?p) = None" "sp_chain (w_props ?p) = Some (selectedCooketChainId sample_module)"
    "sp_state (w_props ?p) Sell = Some rich_state" "(1000005::int) < gq_createdAt late_quote + 60000"
    using rich_guard by (simp_all add: mount_swap_def closedTransactionModal_def sample_chain_selected rich_swap_props_def
      demo_swap_props_def late_quote_def)
  from late_quote_swaps_other_side[OF start(1-6) timer run mod start(8,7) flow, of demo_decode]
  show ?thesis using timer run start(1) by fastforce
qed

theorem confirmed_swap_witness:
  "\<exists>t. execute_swap demo demo_encode demo_decode demo_context demo_job [] = (Inr (), t)
    \<and> (\<exists>h t1. panel_swap demo demo_encode demo_context demo_pool ''0xa'' (Some 5042002) ''0xt'' UniswapSwap.demo_quote Buy short_state []
        = (Inr h, t1))"
proof -
  obtain t1 where swap: "demo_swap demo [] = (Inr ''0xh'', t1)" using demo_swap_returns by blast
  have wait: "waitForTransactionReceipt demo h n tr = (Inr (None, demo_receipt), tr @ [EvWaitReceipt h n])" for h n tr
    by (simp add: waitForTransactionReceipt_def io_call_def demo_def)
  have ok: "rc_status demo_receipt = ''success''" by (simp add: demo_receipt_def)
  have "\<exists>t. execute_swap demo demo_encode demo_decode demo_context demo_job [] = (Inr (), t)"
    using swap unfolding demo_job_def execute_swap_def
    by (simp add: io_defs setHash_def setStatus_def wait ok tradeInvalidationKeys_def split: option.split)
  then obtain t where run: "execute_swap demo demo_encode demo_decode demo_context demo_job [] = (Inr (), t)" by blast
  from confirmed_swap[OF run] show ?thesis using run by (auto simp: demo_job_def)
qed

end
