(* ===== verification/DisplayFormat.thy ===== *)
theory DisplayFormat
  imports TradePanel Realtime JsText
begin

text \<open>
  The texts the client shows for amounts, prices, counts and ages (\<^verbatim>\<open>lib/format.ts\<close>,
  \<^verbatim>\<open>lib/relative-time.ts\<close>), and what a reader may conclude from them. viem's
  \<^verbatim>\<open>formatUnits\<close> is the parameter \<^verbatim>\<open>U\<close>; \<^verbatim>\<open>Intl\<close> is not modelled.
\<close>

subsection \<open>Grouping and trimming\<close>

text \<open>\<^verbatim>\<open>replace(/\B(?=(\d{3})+(?!\d))/g, ',')\<close>: a comma after a word character where a run of
  three, six, ... digits begins. The flag tells whether the character before is a word character.\<close>

definition word_char :: "char \<Rightarrow> bool" where
  "word_char c \<longleftrightarrow> is_alpha c \<or> is_digit c \<or> c = CHR ''_''"

fun group_after :: "bool \<Rightarrow> string \<Rightarrow> string" where
  "group_after w [] = []"
| "group_after w (c # s) =
     (let n = length (takeWhile is_digit (c # s)) in
      (if w \<and> 0 < n \<and> 3 dvd n then [CHR '','', c] else [c]) @ group_after (word_char c) s)"

definition groupInteger :: "string \<Rightarrow> string" where
  "groupInteger s =
     (if starts_with ''-'' s then ''-'' @ group_after False (tl s) else group_after False s)"

definition with_fraction :: "string \<Rightarrow> string \<Rightarrow> string" where
  "with_fraction whole fraction = (if fraction = [] then whole else whole @ ''.'' @ fraction)"

definition trimDecimal :: "string \<Rightarrow> nat \<Rightarrow> string" where
  "trimDecimal s digits =
     (case dot_parts s of (whole, fraction) \<Rightarrow>
       with_fraction whole (strip_zeros (take digits (case fraction of None \<Rightarrow> [] | Some f \<Rightarrow> f))))"

definition groupDecimal :: "string \<Rightarrow> string" where
  "groupDecimal s =
     (case dot_parts s of (whole, fraction) \<Rightarrow>
       with_fraction (groupInteger whole) (case fraction of None \<Rightarrow> [] | Some f \<Rightarrow> f))"

text \<open>A rounded amount with its last two, four, ... digits behind the point.\<close>

definition fixed_text :: "int \<Rightarrow> nat \<Rightarrow> string" where
  "fixed_text rounded digits =
     with_fraction (groupInteger (int_text (rounded div 10 ^ digits)))
       (strip_zeros (pad_start digits (int_text (rounded mod 10 ^ digits))))"

subsection \<open>Amounts\<close>

text \<open>\<^verbatim>\<open>string | bigint | null | undefined\<close>.\<close>

datatype amount = AmText string | AmBig int | AmNone

fun big_of_amount :: "amount \<Rightarrow> int option" where
  "big_of_amount (AmText s) = js_bigint s"
| "big_of_amount (AmBig i) = Some i"
| "big_of_amount AmNone = None"

definition usdc_suffix :: "bool \<Rightarrow> string \<Rightarrow> string" where
  "usdc_suffix suffix display = (if suffix then display @ '' USDC'' else display)"

definition positive_or_tiny :: "int \<Rightarrow> string \<Rightarrow> string" where
  "positive_or_tiny raw formatted = (if formatted = ''0'' \<and> 0 < raw then ''<0.000001'' else formatted)"

definition formatNative :: "(int \<Rightarrow> int \<Rightarrow> string) \<Rightarrow> amount \<Rightarrow> bool \<Rightarrow> string" where
  "formatNative U v suffix =
     (case big_of_amount v of
        None \<Rightarrow> dash
      | Some raw \<Rightarrow> usdc_suffix suffix (positive_or_tiny raw (groupDecimal (trimDecimal (U raw 18) 6))))"

definition formatTradeUsdc :: "(int \<Rightarrow> int \<Rightarrow> string) \<Rightarrow> amount \<Rightarrow> trade_source \<Rightarrow> bool \<Rightarrow> string" where
  "formatTradeUsdc U v source suffix =
     (case big_of_amount v of
        None \<Rightarrow> dash
      | Some raw \<Rightarrow> usdc_suffix suffix
          (positive_or_tiny raw (groupDecimal (trimDecimal (U raw (if source = FromCurve then 18 else 6)) 6))))"

definition formatExactDecimal :: "(int \<Rightarrow> int \<Rightarrow> string) \<Rightarrow> amount \<Rightarrow> int \<Rightarrow> int \<Rightarrow> string" where
  "formatExactDecimal U v decimals digits =
     (case big_of_amount v of
        None \<Rightarrow> dash
      | Some raw \<Rightarrow> groupDecimal (trimDecimal (U raw decimals) (nat digits)))"

definition formatExactUSDC :: "(int \<Rightarrow> int \<Rightarrow> string) \<Rightarrow> amount \<Rightarrow> bool \<Rightarrow> string" where
  "formatExactUSDC U v suffix =
     (let display = formatExactDecimal U v 18 18 in if display = dash then display else usdc_suffix suffix display)"

definition formatRoundedDecimal :: "int \<Rightarrow> nat \<Rightarrow> nat \<Rightarrow> string" where
  "formatRoundedDecimal v decimals digits =
     (let unit = 10 ^ decimals; rounded = (\<bar>v\<bar> * 10 ^ digits + unit div 2) div unit in
      (if v < 0 then ''-'' else '''') @ fixed_text rounded digits)"

subsection \<open>Compact amounts\<close>

definition compact_suffix :: "nat \<Rightarrow> string" where
  "compact_suffix scale = [[], ''K'', ''M'', ''B'', ''T''] ! scale"

text \<open>The two loops of \<^verbatim>\<open>formatCompactAmount\<close>: the first scale below which the amount lies, then
  the next one if rounding reaches it.\<close>

function compact_scale :: "int \<Rightarrow> int \<Rightarrow> nat \<Rightarrow> nat" where
  "compact_scale absolute unit scale =
     (if scale < 4 \<and> unit * 1000 ^ (scale + 1) \<le> absolute then compact_scale absolute unit (scale + 1) else scale)"
  by pat_completeness auto
termination by (relation "measure (\<lambda>(a, u, s). 4 - s)") auto

function compact_round :: "bool \<Rightarrow> int \<Rightarrow> int \<Rightarrow> nat \<Rightarrow> string" where
  "compact_round negative absolute unit scale =
     (let denominator = unit * 1000 ^ scale; rounded = (absolute * 100 + denominator div 2) div denominator in
      if rounded = 0 \<and> 0 < absolute then (if negative then ''>-'' else ''<'') @ ''0.01'' @ compact_suffix scale
      else if 100000 \<le> rounded \<and> scale < 4 then compact_round negative absolute unit (scale + 1)
      else (if negative then ''-'' else '''') @ fixed_text rounded 2 @ compact_suffix scale)"
  by pat_completeness auto
termination by (relation "measure (\<lambda>(n, a, u, s). 4 - s)") auto

declare compact_scale.simps [simp del] compact_round.simps [simp del]

definition formatCompactAmount :: "amount \<Rightarrow> int \<Rightarrow> string" where
  "formatCompactAmount v decimals =
     (if decimals < 0 then dash
      else case big_of_amount v of
          None \<Rightarrow> dash
        | Some raw \<Rightarrow>
            let unit = 10 ^ nat decimals in compact_round (raw < 0) \<bar>raw\<bar> unit (compact_scale \<bar>raw\<bar> unit 0))"

definition dollar :: "bool \<Rightarrow> string \<Rightarrow> string" where
  "dollar suffix display = (if display = dash then display else if suffix then ''$'' @ display else display)"

definition formatMarketUSDC :: "amount \<Rightarrow> bool \<Rightarrow> string" where
  "formatMarketUSDC v suffix = dollar suffix (formatCompactAmount v 18)"

definition formatMarketTradeUSDC :: "amount \<Rightarrow> trade_source \<Rightarrow> bool \<Rightarrow> string" where
  "formatMarketTradeUSDC v source suffix =
     dollar suffix (formatCompactAmount v (if source = FromCurve then 18 else 6))"

definition price_display :: "int \<Rightarrow> string" where
  "price_display raw =
     (let a = \<bar>raw\<bar>; unit = 10 ^ 18 in
      if raw = 0 then ''0''
      else if unit * 1000 \<le> a then formatCompactAmount (AmBig raw) 18
      else if unit * 10 \<le> a then formatRoundedDecimal raw 18 2
      else if unit \<le> a then formatRoundedDecimal raw 18 4
      else if unit div 10 \<le> a then formatRoundedDecimal raw 18 5
      else if unit div 1000 \<le> a then formatRoundedDecimal raw 18 6
      else if unit div 100000000 \<le> a then formatRoundedDecimal raw 18 8
      else if 0 < raw then ''<0.00000001'' else ''>-0.00000001'')"

definition formatPrice :: "amount \<Rightarrow> bool \<Rightarrow> string" where
  "formatPrice v suffix =
     (case big_of_amount v of
        None \<Rightarrow> dash
      | Some raw \<Rightarrow>
          let display = price_display raw in
          if \<not> suffix then display
          else if starts_with ''<'' display then ''<$'' @ tl display
          else if starts_with ''>'' display then ''>$'' @ tl display
          else ''$'' @ display)"

subsection \<open>Symbols, counts and percentages\<close>

definition symbol_char :: "char \<Rightarrow> bool" where
  "symbol_char c \<longleftrightarrow> is_alpha c \<or> is_digit c \<or> c \<in> set ''._-''"

definition formatTokenSymbol :: "string option \<Rightarrow> string" where
  "formatTokenSymbol symbol =
     (case symbol of
        None \<Rightarrow> dash
      | Some s \<Rightarrow>
          let normalized = dropWhile (\<lambda>c. c = CHR ''$'') (js_trim s) in
          if normalized \<noteq> [] \<and> list_all symbol_char normalized then ''$'' @ normalized else dash)"

definition with_symbol :: "string option \<Rightarrow> string \<Rightarrow> string" where
  "with_symbol symbol display =
     (if display = dash then display
      else case truthy symbol of
          None \<Rightarrow> display
        | Some s \<Rightarrow>
            let t = formatTokenSymbol (Some s) in if t \<noteq> dash then display @ '' '' @ t else display)"

definition formatTokenAmount :: "amount \<Rightarrow> int \<Rightarrow> string option \<Rightarrow> string" where
  "formatTokenAmount v decimals symbol = with_symbol symbol (formatCompactAmount v decimals)"

definition formatExactTokenAmount :: "(int \<Rightarrow> int \<Rightarrow> string) \<Rightarrow> amount \<Rightarrow> int \<Rightarrow> string option \<Rightarrow> string" where
  "formatExactTokenAmount U v decimals symbol = with_symbol symbol (formatExactDecimal U v decimals decimals)"

datatype count = CountNumber jsnum | CountAmount amount

fun formatCount :: "count \<Rightarrow> string" where
  "formatCount (CountNumber n) = (if is_integer_num n then formatCompactAmount (AmBig (int_of_num n)) 0 else dash)"
| "formatCount (CountAmount v) = formatCompactAmount v 0"

definition strip_point :: "string \<Rightarrow> string" where
  "strip_point s = (if s \<noteq> [] \<and> last s = CHR ''.'' then butlast s else s)"

definition formatPercentage :: "jsnum option \<Rightarrow> nat \<Rightarrow> string" where
  "formatPercentage v maxDigits =
     (case v of
        Some (Fin q) \<Rightarrow> strip_point (strip_zeros (to_fixed maxDigits (min 100 (max 0 q)))) @ ''%''
      | _ \<Rightarrow> dash)"

text \<open>\<^verbatim>\<open>Number(bps) / 100\<close>.\<close>

fun num_over_100 :: "jsnum \<Rightarrow> jsnum" where
  "num_over_100 (Fin q) = double_of (q / 100)"
| "num_over_100 n = n"

definition graduationProgress :: "string option \<Rightarrow> string option \<Rightarrow> jsnum option" where
  "graduationProgress sold threshold =
     (case (truthy sold, truthy threshold) of
        (Some s, Some t) \<Rightarrow>
          (case js_bigint t of
             None \<Rightarrow> None
           | Some denominator \<Rightarrow>
               if denominator \<le> 0 then None
               else (case js_bigint s of
                   None \<Rightarrow> None
                 | Some amount \<Rightarrow>
                     let bps = big_div (amount * 10000) denominator in
                     Some (num_over_100 (double_of (of_int (if 10000 < bps then 10000 else bps))))))
      | _ \<Rightarrow> None)"

definition presentationNumber :: "(int \<Rightarrow> int \<Rightarrow> string) \<Rightarrow> int \<Rightarrow> int \<Rightarrow> jsnum" where
  "presentationNumber U v decimals = (let numeric = js_number (U v decimals) in if is_finite_num numeric then numeric else Fin 0)"

text \<open>A number too large to be multiplied by 100 makes \<^verbatim>\<open>BigInt(Infinity)\<close> throw.\<close>

definition formatCompactNumber :: "jsnum \<Rightarrow> string result" where
  "formatCompactNumber v =
     (case v of
        Fin q \<Rightarrow>
          if \<bar>q\<bar> < 1000 then Inr (strip_point (strip_zeros (to_fixed 2 q)))
          else (case math_round (num_times_100 (Fin q)) of
              Fin r \<Rightarrow> Inr (formatCompactAmount (AmBig \<lfloor>r\<rfloor>) 2)
            | _ \<Rightarrow> Inl (JsError ''RangeError'' ''The number Infinity cannot be converted to a BigInt because it is not an integer''))
      | _ \<Rightarrow> Inr dash)"

subsection \<open>Ages and the shared clock\<close>

text \<open>Block times and the clock are whole seconds; the divisions are those of \<^verbatim>\<open>number\<close>.\<close>

definition floor_div :: "int \<Rightarrow> int \<Rightarrow> int" where
  "floor_div a b = int_of_num (double_of (of_int a / of_int b))"

definition formatRelativeAge :: "int \<Rightarrow> int \<Rightarrow> string" where
  "formatRelativeAge timestamp now =
     (let seconds = max 0 (now - timestamp) in
      if seconds < 60 then int_text seconds @ ''s''
      else if seconds < 3600 then int_text (floor_div seconds 60) @ ''m''
      else if seconds < 86400 then int_text (floor_div seconds 3600) @ ''h''
      else if seconds < 604800 then int_text (floor_div seconds 86400) @ ''d''
      else if seconds < 2592000 then int_text (floor_div seconds 604800) @ ''w''
      else int_text (floor_div seconds 2592000) @ ''mo'')"

text \<open>The module's set of listeners and its one interval timer. Each operation returns the listeners
  it calls.\<close>

record shared_clock =
  sc_listeners :: "nat list"
  sc_timer :: bool

definition clock_subscribe :: "nat \<Rightarrow> shared_clock \<Rightarrow> shared_clock \<times> nat list" where
  "clock_subscribe l c = (c\<lparr>sc_listeners := (if l \<in> set (sc_listeners c) then sc_listeners c else sc_listeners c @ [l]), sc_timer := True\<rparr>, [l])"

definition clock_unsubscribe :: "nat \<Rightarrow> shared_clock \<Rightarrow> shared_clock" where
  "clock_unsubscribe l c =
     (let rest = removeAll l (sc_listeners c) in
      c\<lparr>sc_listeners := rest, sc_timer := (if rest = [] then False else sc_timer c)\<rparr>)"

definition clock_tick :: "shared_clock \<Rightarrow> nat list" where
  "clock_tick c = (if sc_timer c then sc_listeners c else [])"

subsection \<open>What a text says\<close>

text \<open>A reader drops the commas of a number.\<close>

definition ungroup :: "string \<Rightarrow> string" where
  "ungroup s = filter (\<lambda>c. c \<noteq> CHR '','') s"

definition shown_value :: "string \<Rightarrow> rat" where
  "shown_value s = decimal_value (ungroup s)"

lemma ungroup_append [simp]: "ungroup (s @ t) = ungroup s @ ungroup t"
  by (simp add: ungroup_def)

lemma ungroup_Cons: "ungroup (c # s) = (if c = CHR '','' then ungroup s else c # ungroup s)"
  by (simp add: ungroup_def)

lemma ungroup_Nil [simp]: "ungroup [] = []"
  by (simp add: ungroup_def)

lemma ungroup_digits [simp]: "list_all is_digit s \<Longrightarrow> ungroup s = s"
  by (induction s) (auto simp: ungroup_def is_digit_def)

lemma ungroup_group_after: "ungroup (group_after w s) = ungroup s"
  by (induction w s rule: group_after.induct) (simp_all add: Let_def ungroup_def)

lemma ungroup_groupInteger [simp]: "ungroup (groupInteger s) = ungroup s"
  by (cases s) (auto simp: groupInteger_def ungroup_group_after ungroup_Cons starts_with_def)

lemma digits_no_sign: "list_all is_digit s \<Longrightarrow> \<not> starts_with ''-'' s"
  by (cases s) (auto simp: starts_with_def is_digit_def)

text \<open>Grouping a number of digits, from its last three on.\<close>

function by_threes :: "string \<Rightarrow> string" where
  "by_threes s = (if length s \<le> 3 then s else by_threes (take (length s - 3) s) @ '','' @ drop (length s - 3) s)"
  by pat_completeness auto
termination by (relation "measure length") auto

declare by_threes.simps [simp del]

lemma three_dvd_small: "3 dvd Suc (Suc (Suc 0))" "\<not> 3 dvd Suc (Suc 0)"
  by presburger+

lemma group_after_three:
  assumes "list_all is_digit t" and "length t = 3"
  shows "group_after True t = CHR '','' # t"
proof -
  obtain a b c where "t = [a, b, c]" using assms(2) by (auto simp: length_Suc_conv numeral_3_eq_3)
  then show ?thesis using assms(1) by (simp add: word_char_def three_dvd_small)
qed

lemma group_after_append_three:
  assumes "list_all is_digit s" and "list_all is_digit t" and "length t = 3"
  shows "s \<noteq> [] \<or> w \<Longrightarrow> group_after w (s @ t) = group_after w s @ CHR '','' # t"
  using assms(1)
proof (induction s arbitrary: w)
  case Nil
  then show ?case using group_after_three[OF assms(2,3)] by simp
next
  case (Cons c s)
  have digits: "takeWhile is_digit (c # s @ t) = c # s @ t" "takeWhile is_digit (c # s) = c # s"
    using Cons.prems(2) assms(2) by (auto simp: list_all_iff intro!: takeWhile_eq_all_conv[THEN iffD2])
  have "group_after (word_char c) (s @ t) = group_after (word_char c) s @ CHR '','' # t"
    using Cons by (intro Cons.IH) (auto simp: word_char_def)
  moreover have "3 dvd length (c # s @ t) \<longleftrightarrow> 3 dvd length (c # s)"
    unfolding length_Cons length_append assms(3) by presburger
  ultimately show ?case by (simp only: append_Cons group_after.simps Let_def digits) simp
qed

lemma group_after_short:
  assumes "list_all is_digit s" and "length s \<le> 3"
  shows "group_after False s = s"
proof -
  have "s = [] \<or> (\<exists>a. s = [a]) \<or> (\<exists>a b. s = [a, b]) \<or> (\<exists>a b c. s = [a, b, c])"
    using assms(2) by (cases s rule: remdups_adj.cases; cases "tl (tl s)"; auto)
  then show ?thesis using assms(1) by (auto simp: three_dvd_small)
qed

lemma groupInteger_by_threes: "list_all is_digit s \<Longrightarrow> groupInteger s = by_threes s"
proof (induction s rule: by_threes.induct)
  case (1 s)
  have plain: "groupInteger u = group_after False u" if "list_all is_digit u" for u
    using digits_no_sign[OF that] by (simp add: groupInteger_def)
  show ?case
  proof (cases "length s \<le> 3")
    case True
    then show ?thesis using 1(2) group_after_short by (simp add: plain by_threes.simps[of s])
  next
    case False
    let ?a = "take (length s - 3) s" and ?b = "drop (length s - 3) s"
    have ab: "list_all is_digit ?a" "list_all is_digit ?b" "length ?b = 3" "?a \<noteq> []"
      using 1(2) False by (auto simp: list_all_iff dest: in_set_takeD in_set_dropD)
    have "groupInteger s = group_after False (?a @ ?b)" using plain[OF 1(2)] by simp
    also have "\<dots> = group_after False ?a @ CHR '','' # ?b" by (rule group_after_append_three[OF ab(1-3)]) (use ab(4) in simp)
    finally show ?thesis using 1(1)[OF False ab(1)] False plain[OF ab(1)] by (simp add: by_threes.simps[of s])
  qed
qed

text \<open>Reading a decimal text.\<close>

lemma decimal_value_with_fraction:
  "list_all is_digit w \<Longrightarrow> decimal_value (with_fraction w f) = of_nat (digits_value w) + of_nat (digits_value f) / 10 ^ length f"
  by (auto simp: with_fraction_def decimal_value_def)

lemma strip_zeros_value:
  "of_nat (digits_value (strip_zeros p)) / 10 ^ length (strip_zeros p) = (of_nat (digits_value p) / 10 ^ length p :: rat)"
proof -
  obtain k where k: "p = strip_zeros p @ replicate k (CHR ''0'')" using strip_zeros_split by blast
  have "digits_value p = digits_value (strip_zeros p) * 10 ^ k"
    by (subst k) (simp add: digits_value_append)
  moreover have "length p = length (strip_zeros p) + k" by (subst k) simp
  ultimately show ?thesis by (simp add: power_add)
qed

lemma ungroup_with_fraction:
  "list_all is_digit f \<Longrightarrow> ungroup (with_fraction (groupInteger w) f) = with_fraction (ungroup w) f"
  by (simp add: with_fraction_def ungroup_Cons)

lemma shown_fixed_text:
  assumes "0 \<le> r"
  shows "shown_value (fixed_text r digits) = of_int r / 10 ^ digits"
proof -
  let ?m = "r mod 10 ^ digits" and ?w = "nat_text (nat (r div 10 ^ digits))"
  let ?p = "pad_start digits (nat_text (nat ?m))"
  have m: "0 \<le> ?m" "?m < 10 ^ digits" by simp_all
  have d: "0 \<le> r div 10 ^ digits" using assms by (simp add: pos_imp_zdiv_nonneg_iff)
  have pd: "list_all is_digit (strip_zeros ?p)" by (rule strip_zeros_digits) simp
  have len: "of_nat (digits_value ?p) / 10 ^ length ?p = (of_int ?m / 10 ^ digits :: rat)"
  proof (cases "digits = 0")
    case False
    have "nat ?m < 10 ^ digits" using m by (simp add: nat_less_iff)
    then have "length (nat_text (nat ?m)) \<le> digits" using False by (intro nat_text_length_le) simp_all
    then show ?thesis using m(1) by (simp add: max_absorb1)
  qed (simp add: digits_value_Cons)
  have "shown_value (fixed_text r digits) = decimal_value (with_fraction ?w (strip_zeros ?p))"
    using d m(1) by (simp add: shown_value_def fixed_text_def int_text_nonneg ungroup_with_fraction[OF pd])
  also have "\<dots> = of_nat (digits_value ?w) + of_nat (digits_value (strip_zeros ?p)) / 10 ^ length (strip_zeros ?p)"
    by (rule decimal_value_with_fraction) (rule nat_text_digits)
  also have "\<dots> = of_nat (digits_value ?w) + of_int ?m / 10 ^ digits"
    by (simp only: strip_zeros_value[of ?p] len)
  also have "\<dots> = of_int (r div 10 ^ digits) + of_int ?m / 10 ^ digits"
    by (simp only: digits_value_nat_text of_nat_nat[OF d])
  also have "\<dots> = of_int r / 10 ^ digits"
  proof -
    have "(of_int r :: rat) = of_int (r div 10 ^ digits * 10 ^ digits + ?m)" by (simp only: div_mult_mod_eq)
    then have "(of_int r :: rat) = of_int (r div 10 ^ digits) * 10 ^ digits + of_int ?m"
      by (simp only: of_int_add of_int_mult of_int_power of_int_numeral)
    then show ?thesis by (simp add: add_divide_distrib)
  qed
  finally show ?thesis .
qed

subsection \<open>Rounding and scale\<close>

text \<open>\<^verbatim>\<open>(a + d / 2n) / d\<close> on \<^verbatim>\<open>bigint\<close> is the nearest integer of the quotient.\<close>

lemma half_remainder:
  fixes x m a h d :: int
  assumes "x + m = a + h" and "0 \<le> m" and "m < d" and "2 * h \<le> d" and "d < 2 * h + 2"
  shows "\<bar>2 * (x - a)\<bar> \<le> d"
  by (rule abs_leI; use assms in presburger)

lemma round_div:
  fixes a d :: int
  assumes "0 < d"
  shows "\<bar>2 * ((a + d div 2) div d * d - a)\<bar> \<le> d"
proof (rule half_remainder)
  show "(a + d div 2) div d * d + (a + d div 2) mod d = a + d div 2" by (rule div_mult_mod_eq)
  show "0 \<le> (a + d div 2) mod d" "(a + d div 2) mod d < d" using assms by simp_all
  show "2 * (d div 2) \<le> d" "d < 2 * (d div 2) + 2" by presburger+
qed

lemma round_div_near:
  fixes a d k :: int
  assumes "0 < d" and "0 < k"
  shows "\<bar>of_int ((a * k + d div 2) div d) / of_int k - of_int a / of_int d\<bar> \<le> 1 / (2 * of_int k :: rat)"
proof -
  let ?r = "(a * k + d div 2) div d"
  have "(of_int \<bar>2 * (?r * d - a * k)\<bar> :: rat) \<le> of_int d" using round_div[OF assms(1), of "a * k"] by (simp only: of_int_le_iff)
  then have "2 * \<bar>of_int ?r * of_int d - of_int a * (of_int k :: rat)\<bar> \<le> of_int d"
    by (simp only: of_int_abs of_int_mult of_int_diff of_int_numeral abs_mult abs_numeral)
  moreover have pos: "0 < (of_int d :: rat)" "0 < (of_int k :: rat)" using assms by simp_all
  moreover have "of_int ?r / of_int k - of_int a / of_int d = (of_int ?r * of_int d - of_int a * of_int k) / (of_int k * of_int d :: rat)"
    using pos by (simp add: diff_frac_eq mult.commute)
  ultimately show ?thesis by (simp add: abs_mult divide_le_eq mult.commute pos_divide_le_eq)
qed

lemma compact_scale_bounds:
  assumes "s0 \<le> 4" and "s0 = 0 \<or> unit * 1000 ^ s0 \<le> a"
  shows "compact_scale a unit s0 \<le> 4
    \<and> (compact_scale a unit s0 = 0 \<or> unit * 1000 ^ compact_scale a unit s0 \<le> a)
    \<and> (compact_scale a unit s0 < 4 \<longrightarrow> a < unit * 1000 ^ (compact_scale a unit s0 + 1))"
  using assms
proof (induction a unit s0 rule: compact_scale.induct)
  case (1 a unit s)
  show ?case
  proof (cases "s < 4 \<and> unit * 1000 ^ (s + 1) \<le> a")
    case True
    then have "compact_scale a unit s = compact_scale a unit (s + 1)" by (simp add: compact_scale.simps[of a unit s])
    then show ?thesis using 1(1)[OF True] True by simp
  next
    case False
    then have "compact_scale a unit s = s" by (auto simp: compact_scale.simps[of a unit s])
    then show ?thesis using 1 False by auto
  qed
qed

lemma le_div_int:
  fixes q n c :: int
  assumes "0 < c"
  shows "q \<le> n div c \<longleftrightarrow> q * c \<le> n"
proof
  assume "q \<le> n div c"
  then have "q * c \<le> n div c * c" using assms by (intro mult_right_mono) simp_all
  moreover have "n div c * c \<le> n"
    using div_mult_mod_eq[of n c] pos_mod_sign[OF assms, of n] by linarith
  ultimately show "q * c \<le> n" by linarith
next
  assume "q * c \<le> n"
  then have "q * c div c \<le> n div c" using assms by (rule zdiv_mono1)
  then show "q \<le> n div c" using assms by simp
qed

text \<open>An abbreviated amount: its sign, a body of at most one point, and the suffix of its scale.\<close>

definition abbreviates :: "bool \<Rightarrow> rat \<Rightarrow> string \<Rightarrow> bool" where
  "abbreviates negative v text \<longleftrightarrow>
     (\<exists>scale body. scale \<le> 4 \<and> text = (if negative then ''-'' else '''') @ body @ compact_suffix scale
       \<and> \<bar>shown_value body * 1000 ^ scale - v\<bar> \<le> 1000 ^ scale / 200
       \<and> (scale < 4 \<longrightarrow> shown_value body < 1000) \<and> (0 < scale \<longrightarrow> 1 \<le> shown_value body)
       \<and> (shown_value body = 0 \<longleftrightarrow> v = 0))"

lemma fixed_text_abbreviates:
  fixes a unit :: int and s :: nat
  defines "d \<equiv> unit * 1000 ^ s"
  defines "r \<equiv> (a * 100 + d div 2) div d"
  assumes "0 < unit" and "0 \<le> a" and "s \<le> 4" and "r = 0 \<longrightarrow> a = 0" and "s < 4 \<longrightarrow> r < 100000" and "0 < s \<longrightarrow> 100 \<le> r"
  shows "abbreviates negative (of_int a / of_int unit) ((if negative then ''-'' else '''') @ fixed_text r 2 @ compact_suffix s)"
proof -
  have d: "0 < d" using assms(3) by (simp add: d_def)
  have r: "0 \<le> r" unfolding r_def using assms(4) d by (intro pos_imp_zdiv_nonneg_iff[THEN iffD2]) simp_all
  have shown: "shown_value (fixed_text r 2) = of_int r / 100" using shown_fixed_text[OF r, of 2] by simp
  have "\<bar>of_int r / 100 - of_int a / of_int d\<bar> \<le> (1 / 200 :: rat)"
    using round_div_near[OF d, of 100 a] by (simp add: r_def)
  then have "\<bar>of_int r / 100 - of_int a / of_int d\<bar> * 1000 ^ s \<le> (1 / 200 * 1000 ^ s :: rat)"
    by (rule mult_right_mono) simp
  moreover have "\<bar>of_int r / 100 - of_int a / of_int d\<bar> * 1000 ^ s
      = \<bar>of_int r / 100 * 1000 ^ s - (of_int a / of_int unit :: rat)\<bar>"
  proof -
    have "\<bar>of_int r / 100 - of_int a / of_int d\<bar> * 1000 ^ s = \<bar>(of_int r / 100 - of_int a / of_int d) * 1000 ^ s :: rat\<bar>"
      by (simp add: abs_mult)
    moreover have "(of_int a / of_int d :: rat) * 1000 ^ s = of_int a / of_int unit" by (simp add: d_def)
    ultimately show ?thesis by (simp add: left_diff_distrib)
  qed
  ultimately have near: "\<bar>of_int r / 100 * 1000 ^ s - (of_int a / of_int unit :: rat)\<bar> \<le> 1000 ^ s / 200" by simp
  have "r = 0" if "a = 0" using that d by (simp add: r_def)
  then have zero: "r = 0 \<longleftrightarrow> a = 0" using assms(6) by blast
  have "(of_int r / 100 < (1000 :: rat))" if "r < 100000"
  proof -
    have "(of_int r :: rat) < of_int 100000" using that by (simp only: of_int_less_iff)
    then show ?thesis by simp
  qed
  moreover have "1 \<le> (of_int r / 100 :: rat)" if "100 \<le> r"
  proof -
    have "of_int 100 \<le> (of_int r :: rat)" using that by (simp only: of_int_le_iff)
    then show ?thesis by simp
  qed
  ultimately show ?thesis unfolding abbreviates_def
    using assms(3,5,7,8) near zero by (intro exI[of _ s] exI[of _ "fixed_text r 2"]) (simp add: shown)
qed

lemma carry_bounds:
  fixes d a h e :: int
  shows "100000 * d \<le> a * 100 + h \<Longrightarrow> 2 * h \<le> d \<Longrightarrow> 0 < d \<Longrightarrow> 100 * (1000 * d) \<le> a * 100 + 500 * d"
    and "a < e \<Longrightarrow> 0 < e \<Longrightarrow> 2 * h \<le> e \<Longrightarrow> \<not> 100000 * e \<le> a * 100 + h"
  by linarith+

lemma compact_round_spec:
  assumes "0 < unit" and "0 \<le> a"
  shows "(0 < a \<and> 200 * a < unit \<and> compact_round negative a unit (compact_scale a unit 0) = (if negative then ''>-0.01'' else ''<0.01''))
    \<or> abbreviates negative (of_int a / of_int unit) (compact_round negative a unit (compact_scale a unit 0))"
proof -
  define s where "s = compact_scale a unit 0"
  have s: "s \<le> 4" "s = 0 \<or> unit * 1000 ^ s \<le> a" "s < 4 \<Longrightarrow> a < unit * 1000 ^ (s + 1)"
    using compact_scale_bounds[of 0 unit a] by (simp_all add: s_def)
  define d where "d = unit * 1000 ^ s"
  define r where "r = (a * 100 + d div 2) div d"
  have d: "0 < d" using assms(1) by (simp add: d_def)
  have big: "100 \<le> r" if "0 < s"
    using that s(2) d by (auto simp: r_def le_div_int d_def[symmetric])
  have step: "compact_round negative a unit s =
     (if r = 0 \<and> 0 < a then (if negative then ''>-'' else ''<'') @ ''0.01'' @ compact_suffix s
      else if 100000 \<le> r \<and> s < 4 then compact_round negative a unit (s + 1)
      else (if negative then ''-'' else '''') @ fixed_text r 2 @ compact_suffix s)"
    by (subst compact_round.simps) (simp add: d_def r_def Let_def)
  consider (tiny) "r = 0" "0 < a" | (carry) "100000 \<le> r" "s < 4" | (plain) "r = 0 \<longrightarrow> a = 0" "s < 4 \<longrightarrow> r < 100000"
    using assms(2) by fastforce
  then show ?thesis
  proof cases
    case tiny
    then have zero: "s = 0" using big by fastforce
    have "a * 100 + d div 2 < d" using tiny(1) le_div_int[OF d, of 1 "a * 100 + d div 2"] by (simp add: r_def not_le)
    then have "200 * a < unit" using tiny(2) zero by (simp add: d_def)
    then show ?thesis using tiny zero step by (simp add: s_def[symmetric] compact_suffix_def)
  next
    case carry
    let ?d = "unit * 1000 ^ (s + 1)"
    let ?r = "(a * 100 + ?d div 2) div ?d"
    have e: "?d = 1000 * d" "a < ?d" "0 < ?d" using s(3)[OF carry(2)] d by (simp_all add: d_def)
    have "100000 * d \<le> a * 100 + d div 2" using carry(1) d by (simp add: r_def le_div_int)
    then have "100 * (1000 * d) \<le> a * 100 + 500 * d" by (rule carry_bounds(1)) (use d in \<open>simp_all\<close>)
    moreover have "?d div 2 = 500 * d" unfolding e(1) by simp
    ultimately have "100 * ?d \<le> a * 100 + ?d div 2" by (simp only: e(1))
    then have lo: "100 \<le> ?r" by (simp only: le_div_int[OF e(3)])
    have "\<not> 100000 * ?d \<le> a * 100 + ?d div 2" by (rule carry_bounds(2)[OF e(2,3)]) simp
    then have hi: "\<not> 100000 \<le> ?r" by (simp only: le_div_int[OF e(3)] not_False_eq_True)
    have "compact_round negative a unit s = compact_round negative a unit (s + 1)" using step carry by simp
    also have "\<dots> = (if negative then ''-'' else '''') @ fixed_text ?r 2 @ compact_suffix (s + 1)"
      using lo hi by (subst compact_round.simps) (simp add: Let_def)
    finally have "compact_round negative a unit s = (if negative then ''-'' else '''') @ fixed_text ?r 2 @ compact_suffix (s + 1)" .
    moreover have "abbreviates negative (of_int a / of_int unit)
        ((if negative then ''-'' else '''') @ fixed_text ?r 2 @ compact_suffix (s + 1))"
      by (rule fixed_text_abbreviates[OF assms]) (use carry(2) lo hi in linarith)+
    ultimately show ?thesis unfolding s_def[symmetric] by (simp only:) blast
  next
    case plain
    have "compact_round negative a unit s = (if negative then ''-'' else '''') @ fixed_text r 2 @ compact_suffix s"
      using step plain by auto
    moreover have "abbreviates negative (of_int a / of_int unit) ((if negative then ''-'' else '''') @ fixed_text r 2 @ compact_suffix s)"
      unfolding r_def d_def
      by (rule fixed_text_abbreviates[OF assms s(1)]; fold d_def; fold r_def) (use plain big in blast)+
    ultimately show ?thesis unfolding s_def[symmetric] by (simp only:) blast
  qed
qed

text \<open>C30: an abbreviated amount stays close to what it abbreviates. For every amount and every number of
  decimals the text shown is either \<^verbatim>\<open><0.01\<close> (or \<^verbatim>\<open>>-0.01\<close>), for an amount
  other than zero of less than half a hundredth; or a sign, a number and one of the suffixes of a thousand, a million,
  a billion and a trillion, such that the number, read without its commas and scaled, is within half of its last digit of
  the exact amount, is below 1000 unless the suffix is the last one, is at least 1 where there is a
  suffix, and is zero only for the amount zero.\<close>

theorem formatCompactAmount_close:
  assumes "0 \<le> decimals"
  shows "let v = of_int \<bar>raw\<bar> / 10 ^ nat decimals in (0 < v \<and> 200 * v < 1 \<and> formatCompactAmount (AmBig raw) decimals = (if raw < 0 then ''>-0.01'' else ''<0.01''))
    \<or> (\<exists>scale body. scale \<le> 4
        \<and> formatCompactAmount (AmBig raw) decimals = (if raw < 0 then ''-'' else '''') @ body @ compact_suffix scale
        \<and> \<bar>shown_value body * 1000 ^ scale - v\<bar> \<le> 1000 ^ scale / 200
        \<and> (scale < 4 \<longrightarrow> shown_value body < 1000) \<and> (0 < scale \<longrightarrow> 1 \<le> shown_value body)
        \<and> (shown_value body = 0 \<longleftrightarrow> raw = 0))"
proof -
  let ?unit = "10 ^ nat decimals :: int"
  define v :: rat where "v = of_int \<bar>raw\<bar> / 10 ^ nat decimals"
  have unit: "of_int ?unit = (10 ^ nat decimals :: rat)" by simp
  have shape: "formatCompactAmount (AmBig raw) decimals = compact_round (raw < 0) \<bar>raw\<bar> ?unit (compact_scale \<bar>raw\<bar> ?unit 0)"
    using assms(1) by (simp add: formatCompactAmount_def Let_def)
  have zero: "v = 0 \<longleftrightarrow> raw = 0" by (simp add: v_def)
  have "(0 < \<bar>raw\<bar> \<and> 200 * \<bar>raw\<bar> < ?unit
        \<and> compact_round (raw < 0) \<bar>raw\<bar> ?unit (compact_scale \<bar>raw\<bar> ?unit 0) = (if raw < 0 then ''>-0.01'' else ''<0.01''))
      \<or> abbreviates (raw < 0) v (compact_round (raw < 0) \<bar>raw\<bar> ?unit (compact_scale \<bar>raw\<bar> ?unit 0))"
    using compact_round_spec[of ?unit "\<bar>raw\<bar>" "raw < 0"] by (simp only: unit v_def) simp
  moreover have "200 * v < 1" if "200 * \<bar>raw\<bar> < ?unit"
  proof -
    have "(of_int (200 * \<bar>raw\<bar>) :: rat) < of_int ?unit" using that by (simp only: of_int_less_iff)
    then show ?thesis by (simp add: v_def divide_less_eq)
  qed
  moreover have "0 < v" if "0 < \<bar>raw\<bar>" using that by (simp add: v_def)
  ultimately show ?thesis unfolding shape abbreviates_def zero Let_def v_def[symmetric] by blast
qed

theorem formatCompactAmount_close_witness:
  "\<exists>scale body. formatCompactAmount (AmBig 1234567) 2 = body @ compact_suffix scale
     \<and> \<bar>shown_value body * 1000 ^ scale - 1234567 / 10 ^ 2\<bar> \<le> 1000 ^ scale / 200"
  using formatCompactAmount_close[of 2 1234567] by (auto simp: Let_def)

lemma compact_example: "formatCompactAmount (AmBig 1234567) 2 = ''12.35K''"
  by code_simp

subsection \<open>Prices\<close>

lemma rounded_decimal_shown:
  "\<exists>body. formatRoundedDecimal raw decimals digits = (if raw < 0 then ''-'' else '''') @ body
     \<and> \<bar>shown_value body - of_int \<bar>raw\<bar> / 10 ^ decimals\<bar> \<le> 1 / (2 * 10 ^ digits)"
proof -
  let ?r = "(\<bar>raw\<bar> * 10 ^ digits + 10 ^ decimals div 2) div 10 ^ decimals"
  have "0 \<le> ?r" by (intro pos_imp_zdiv_nonneg_iff[THEN iffD2]) simp_all
  from shown_fixed_text[OF this, of digits]
  have "\<bar>shown_value (fixed_text ?r digits) - of_int \<bar>raw\<bar> / 10 ^ decimals\<bar> \<le> 1 / (2 * 10 ^ digits)"
    using round_div_near[of "10 ^ decimals" "10 ^ digits" "\<bar>raw\<bar>"] by simp
  then show ?thesis by (auto simp: formatRoundedDecimal_def Let_def)
qed

text \<open>The number of digits behind the point that a price of moderate size is rounded to.\<close>

definition price_digits :: "int \<Rightarrow> nat" where
  "price_digits a = (if 10 ^ 19 \<le> a then 2 else if 10 ^ 18 \<le> a then 4 else if 10 ^ 17 \<le> a then 5
     else if 10 ^ 15 \<le> a then 6 else 8)"

lemma price_display_moderate:
  "10 ^ 10 \<le> \<bar>raw\<bar> \<Longrightarrow> \<bar>raw\<bar> < 10 ^ 21 \<Longrightarrow> price_display raw = formatRoundedDecimal raw 18 (price_digits \<bar>raw\<bar>)"
  by (auto simp: price_display_def price_digits_def Let_def)

lemma price_display_tiny:
  "raw \<noteq> 0 \<Longrightarrow> \<bar>raw\<bar> < 10 ^ 10 \<Longrightarrow> price_display raw = (if 0 < raw then ''<0.00000001'' else ''>-0.00000001'')"
  by (auto simp: price_display_def Let_def)

lemma price_digits_relative:
  assumes "10 ^ 10 \<le> a" and "a < 10 ^ 21"
  shows "1 / (2 * 10 ^ price_digits a) \<le> (of_int a / 10 ^ 18 / 2 :: rat)"
    and "10 ^ 15 \<le> a \<Longrightarrow> 1 / (2 * 10 ^ price_digits a) \<le> (of_int a / 10 ^ 18 / 2000 :: rat)"
proof -
  have le: "of_int k \<le> (of_int a :: rat)" if "k \<le> a" for k using that by (simp only: of_int_le_iff)
  show "1 / (2 * 10 ^ price_digits a) \<le> (of_int a / 10 ^ 18 / 2 :: rat)"
    using le[of "10 ^ 19"] le[of "10 ^ 18"] le[of "10 ^ 17"] le[of "10 ^ 15"] le[of "10 ^ 10"] assms(1)
    by (simp add: price_digits_def split: if_splits)
  show "1 / (2 * 10 ^ price_digits a) \<le> (of_int a / 10 ^ 18 / 2000 :: rat)" if "10 ^ 15 \<le> a"
    using le[of "10 ^ 19"] le[of "10 ^ 18"] le[of "10 ^ 17"] le[of "10 ^ 15"] that
    by (simp add: price_digits_def split: if_splits)
qed

lemma groupInteger_first: "list_all is_digit s \<Longrightarrow> s \<noteq> [] \<Longrightarrow> \<exists>c t. groupInteger s = c # t \<and> is_digit c"
  using digits_no_sign by (cases s) (auto simp: groupInteger_def)

lemma fixed_text_first: "0 \<le> r \<Longrightarrow> \<exists>c t. fixed_text r digits = c # t \<and> is_digit c"
proof -
  assume "0 \<le> r"
  then have "0 \<le> r div 10 ^ digits" by (simp add: pos_imp_zdiv_nonneg_iff)
  then obtain c t where "groupInteger (int_text (r div 10 ^ digits)) = c # t" "is_digit c"
    using groupInteger_first[of "int_text (r div 10 ^ digits)"] by (auto simp: int_text_nonneg)
  then show ?thesis by (auto simp: fixed_text_def with_fraction_def)
qed

lemma rounded_decimal_first:
  "\<exists>c t. formatRoundedDecimal raw decimals digits = c # t \<and> c \<noteq> CHR ''<'' \<and> c \<noteq> CHR ''>''"
proof -
  let ?r = "(\<bar>raw\<bar> * 10 ^ digits + 10 ^ decimals div 2) div 10 ^ decimals"
  have "0 \<le> ?r" by (intro pos_imp_zdiv_nonneg_iff[THEN iffD2]) simp_all
  from fixed_text_first[OF this, of digits] obtain c t where ct: "fixed_text ?r digits = c # t" "is_digit c" by blast
  have "c \<noteq> CHR ''<''" "c \<noteq> CHR ''>''" using ct(2) by (auto simp: is_digit_def)
  then show ?thesis using ct(1) by (simp add: formatRoundedDecimal_def Let_def)
qed

text \<open>A price other than zero is never shown as zero. A price of less than ten to the minus eight
  is shown as \<^verbatim>\<open><$0.00000001\<close>, a price from there up to 1000 USDC as a number that is
  positive, is within half of the price, and from a thousandth of a USDC on within a two-thousandth of
  the price.\<close>

theorem formatPrice_never_zero:
  assumes "raw \<noteq> 0" and "\<bar>raw\<bar> < 10 ^ 21"
  shows "let v = of_int \<bar>raw\<bar> / 10 ^ 18; t = formatPrice (AmBig raw) True in
     if \<bar>raw\<bar> < 10 ^ 10 then t = (if 0 < raw then ''<$0.00000001'' else ''>$-0.00000001'')
     else (\<exists>body. t = ''$'' @ (if raw < 0 then ''-'' else '''') @ body \<and> 0 < shown_value body
         \<and> \<bar>shown_value body - v\<bar> \<le> v / 2 \<and> (10 ^ 15 \<le> \<bar>raw\<bar> \<longrightarrow> \<bar>shown_value body - v\<bar> \<le> v / 2000))"
proof (cases "\<bar>raw\<bar> < 10 ^ 10")
  case True
  then show ?thesis using price_display_tiny[OF assms(1)]
    by (simp add: formatPrice_def Let_def starts_with_def)
next
  case False
  define v :: rat where "v = of_int \<bar>raw\<bar> / 10 ^ 18"
  have d: "price_display raw = formatRoundedDecimal raw 18 (price_digits \<bar>raw\<bar>)"
    using False assms(2) by (intro price_display_moderate) simp_all
  from rounded_decimal_shown[of raw 18 "price_digits \<bar>raw\<bar>"] obtain body
    where body: "price_display raw = (if raw < 0 then ''-'' else '''') @ body"
      "\<bar>shown_value body - v\<bar> \<le> 1 / (2 * 10 ^ price_digits \<bar>raw\<bar>)" unfolding d v_def by blast
  have t: "formatPrice (AmBig raw) True = ''$'' @ (if raw < 0 then ''-'' else '''') @ body"
    using rounded_decimal_first[of raw 18 "price_digits \<bar>raw\<bar>"] body(1)
    unfolding d[symmetric] by (auto simp: formatPrice_def Let_def starts_with_def)
  have near: "\<bar>shown_value body - v\<bar> \<le> v / 2" "10 ^ 15 \<le> \<bar>raw\<bar> \<longrightarrow> \<bar>shown_value body - v\<bar> \<le> v / 2000"
    using price_digits_relative[of "\<bar>raw\<bar>", folded v_def] False assms(2) body(2) by linarith+
  have "0 < v" using assms(1) by (simp add: v_def)
  then have "0 < shown_value body" using near(1) by linarith
  then show ?thesis using t near False by (auto simp: v_def Let_def)
qed

theorem formatPrice_never_zero_witness:
  "\<exists>body. formatPrice (AmBig 1234567890123456) True = ''$'' @ body \<and> 0 < shown_value body
     \<and> \<bar>shown_value body - 1234567890123456 / 10 ^ 18\<bar> \<le> 1234567890123456 / 10 ^ 18 / 2000"
proof -
  have r: "(1234567890123456 :: int) \<noteq> 0" "\<bar>1234567890123456\<bar> < (10 :: int) ^ 21"
    "\<not> \<bar>1234567890123456\<bar> < (10 :: int) ^ 10" "(10 :: int) ^ 15 \<le> \<bar>1234567890123456\<bar>" "\<not> (1234567890123456 :: int) < 0" by simp_all
  from formatPrice_never_zero[OF r(1,2), unfolded Let_def if_not_P[OF r(3)] if_not_P[OF r(5)]] r(4)
  obtain body where b: "formatPrice (AmBig 1234567890123456) True = ''$'' @ '''' @ body" "0 < shown_value body"
    "\<bar>shown_value body - of_int \<bar>1234567890123456\<bar> / 10 ^ 18\<bar> \<le> of_int \<bar>1234567890123456\<bar> / 10 ^ 18 / 2000"
    by (elim exE conjE) (rule that, assumption, assumption, blast)
  have "of_int \<bar>1234567890123456\<bar> = (1234567890123456 :: rat)" by simp
  then show ?thesis using b by (intro exI[of _ body]) (simp only: append_Nil)
qed

subsection \<open>Exact and truncated amounts\<close>

text \<open>What viem documents of \<^verbatim>\<open>formatUnits\<close>: the exact decimal text of the amount, with at
  most as many digits behind the point as there are decimals.\<close>

definition exact_units :: "(int \<Rightarrow> int \<Rightarrow> string) \<Rightarrow> bool" where
  "exact_units U \<longleftrightarrow> (\<forall>raw d. 0 \<le> raw \<and> 0 \<le> d \<longrightarrow>
     (\<exists>w f. U raw d = with_fraction w f \<and> all_digits w \<and> (hd w = CHR ''0'' \<longrightarrow> length w = 1) \<and> list_all is_digit f
        \<and> length f \<le> nat d \<and> int (digits_value w) = raw div 10 ^ nat d
        \<and> int (digits_value f) * 10 ^ (nat d - length f) = raw mod 10 ^ nat d))"

lemma dot_parts_with_fraction:
  assumes "list_all is_digit w" and "list_all is_digit f"
  shows "dot_parts (with_fraction w f) = (w, if f = [] then None else Some f)"
  using assms by (auto simp: dot_parts_def with_fraction_def)

text \<open>Keeping the first digits of a fraction is rounding it down.\<close>

lemma take_digits_value:
  assumes "list_all is_digit f"
  shows "digits_value (take k f) = digits_value f div 10 ^ (length f - k)"
proof -
  have "digits_value f = digits_value (take k f) * 10 ^ (length f - k) + digits_value (drop k f)"
    by (metis append_take_drop_id digits_value_append length_drop)
  moreover have "digits_value (drop k f) < 10 ^ (length f - k)"
    using digits_value_less[of "drop k f"] assms by (auto simp: list_all_iff dest: in_set_dropD)
  ultimately show ?thesis by simp
qed

lemma trimmed_value:
  assumes "list_all is_digit f" and "length f \<le> n" and "k \<le> n"
    and "int (digits_value f) * 10 ^ (n - length f) = m"
  shows "of_nat (digits_value (strip_zeros (take k f))) / 10 ^ length (strip_zeros (take k f)) = (of_int (m div 10 ^ (n - k)) / 10 ^ k :: rat)"
proof (cases "k \<le> length f")
  case True
  let ?a = "digits_value f"
  have "m div 10 ^ (n - k) = int ?a * 10 ^ (n - length f) div (10 ^ (n - length f) * 10 ^ (length f - k))"
    using True assms(2,4) by (simp add: power_add[symmetric])
  also have "\<dots> = int (?a div 10 ^ (length f - k))"
    by (simp add: div_mult2_eq[symmetric] mult.commute zdiv_int div_mult2_eq)
  finally show ?thesis using True take_digits_value[OF assms(1), of k]
    by (simp add: strip_zeros_value)
next
  case False
  then have "m = int (digits_value f) * 10 ^ (k - length f) * 10 ^ (n - k)"
    using assms(3,4) by (simp add: power_add[symmetric] mult.assoc)
  then have "m div 10 ^ (n - k) = int (digits_value f) * 10 ^ (k - length f)" by simp
  moreover have "(10 :: rat) ^ k = 10 ^ (k - length f) * 10 ^ length f"
    using False by (simp add: power_add[symmetric])
  ultimately show ?thesis using False by (simp add: strip_zeros_value)
qed

text \<open>The digits of an amount that is trimmed to \<^verbatim>\<open>k\<close> digits and grouped.\<close>

lemma trimmed_amount:
  assumes "exact_units U" and "0 \<le> raw" and "0 \<le> d" and "int k \<le> d"
  shows "\<exists>w g. groupDecimal (trimDecimal (U raw d) k) = with_fraction (groupInteger w) g
    \<and> all_digits w \<and> (hd w = CHR ''0'' \<longrightarrow> length w = 1) \<and> list_all is_digit g
    \<and> (g \<noteq> [] \<longrightarrow> last g \<noteq> CHR ''0'')
    \<and> shown_value (with_fraction (groupInteger w) g) = of_int (raw div 10 ^ (nat d - k)) / 10 ^ k"
proof -
  let ?n = "nat d"
  from assms(1-3) obtain w f where wf: "U raw d = with_fraction w f" "all_digits w" "hd w = CHR ''0'' \<longrightarrow> length w = 1"
    "list_all is_digit f" "length f \<le> ?n" "int (digits_value w) = raw div 10 ^ ?n"
    "int (digits_value f) * 10 ^ (?n - length f) = raw mod 10 ^ ?n" unfolding exact_units_def by meson
  have w: "list_all is_digit w" using wf(2) by (simp add: all_digits_def)
  define g where "g = strip_zeros (take k f)"
  have g: "list_all is_digit g" unfolding g_def
    using wf(4) by (intro strip_zeros_digits) (auto simp: list_all_iff dest: in_set_takeD)
  have trim: "trimDecimal (U raw d) k = with_fraction w g"
    unfolding wf(1) trimDecimal_def dot_parts_with_fraction[OF w wf(4)] by (auto simp: g_def strip_zeros_def)
  have gr: "groupDecimal (with_fraction w g) = with_fraction (groupInteger w) g"
    unfolding groupDecimal_def dot_parts_with_fraction[OF w g] by (auto simp: with_fraction_def)
  have k: "k \<le> ?n" using assms(3,4) by linarith
  have "shown_value (with_fraction (groupInteger w) g) = of_nat (digits_value w) + of_nat (digits_value g) / 10 ^ length g"
    using w by (simp add: shown_value_def ungroup_with_fraction[OF g] decimal_value_with_fraction)
  also have "of_nat (digits_value g) / 10 ^ length g = (of_int (raw mod 10 ^ ?n div 10 ^ (?n - k)) / 10 ^ k :: rat)"
    unfolding g_def by (rule trimmed_value[OF wf(4,5) k wf(7)])
  also have "of_nat (digits_value w) = (of_int (raw div 10 ^ ?n) :: rat)" by (metis of_int_of_nat_eq wf(6))
  also have "(of_int (raw div 10 ^ ?n) :: rat) + of_int (raw mod 10 ^ ?n div 10 ^ (?n - k)) / 10 ^ k
      = of_int (raw div 10 ^ (?n - k)) / 10 ^ k"
  proof -
    have e: "(10 :: int) ^ ?n = 10 ^ (?n - k) * 10 ^ k" using k by (simp add: power_add[symmetric])
    have "raw div 10 ^ (?n - k) = (raw div 10 ^ ?n * 10 ^ k) + raw mod 10 ^ ?n div 10 ^ (?n - k)"
    proof -
      have "raw = raw mod 10 ^ ?n + 10 ^ (?n - k) * (10 ^ k * (raw div 10 ^ ?n))"
        using mod_mult_div_eq[of raw "10 ^ ?n"] by (simp only: e mult.assoc)
      then have "raw div 10 ^ (?n - k) = (raw mod 10 ^ ?n + 10 ^ (?n - k) * (10 ^ k * (raw div 10 ^ ?n))) div 10 ^ (?n - k)"
        by (rule arg_cong[of _ _ "\<lambda>x. x div 10 ^ (?n - k)"])
      also have "\<dots> = 10 ^ k * (raw div 10 ^ ?n) + raw mod 10 ^ ?n div 10 ^ (?n - k)"
        by (rule div_mult_self2) simp
      finally show ?thesis by (simp only: mult.commute)
    qed
    then have "(of_int (raw div 10 ^ (?n - k)) :: rat) = of_int (raw div 10 ^ ?n) * 10 ^ k + of_int (raw mod 10 ^ ?n div 10 ^ (?n - k))"
      by (simp only: of_int_add of_int_mult of_int_power of_int_numeral)
    then show ?thesis by (simp add: add_divide_distrib)
  qed
  finally show ?thesis using trim gr wf(2,3) g strip_zeros_last[of "take k f"]
    by (intro exI[of _ w] exI[of _ g]) (simp add: g_def)
qed

lemma digits_value_zero_iff: "list_all is_digit s \<Longrightarrow> digits_value s = 0 \<longleftrightarrow> (\<forall>c \<in> set s. c = CHR ''0'')"
proof (induction s rule: rev_induct)
  case (snoc c s)
  have "digit_value c = 0 \<longleftrightarrow> c = CHR ''0''"
    using snoc.prems digit_char_digit_value[of c] by (auto simp: digit_value_def)
  then show ?case using snoc by auto
qed simp

lemma trimmed_zero:
  assumes "all_digits w" and "hd w = CHR ''0'' \<longrightarrow> length w = 1" and "list_all is_digit g"
    and "g \<noteq> [] \<longrightarrow> last g \<noteq> CHR ''0''"
  shows "with_fraction (groupInteger w) g = ''0'' \<longleftrightarrow> shown_value (with_fraction (groupInteger w) g) = 0"
proof
  assume "with_fraction (groupInteger w) g = ''0''"
  then show "shown_value (with_fraction (groupInteger w) g) = 0"
    by (simp add: shown_value_def ungroup_def decimal_value_def digits_value_Cons)
next
  assume z: "shown_value (with_fraction (groupInteger w) g) = 0"
  have w: "list_all is_digit w" "w \<noteq> []" using assms(1) by (simp_all add: all_digits_def)
  have "of_nat (digits_value w) + of_nat (digits_value g) / 10 ^ length g = (0 :: rat)"
    using z w by (simp add: shown_value_def ungroup_with_fraction[OF assms(3)] decimal_value_with_fraction)
  moreover have "0 \<le> (of_nat (digits_value g) / 10 ^ length g :: rat)" by simp
  ultimately have zero: "of_nat (digits_value w) = (0 :: rat)" "of_nat (digits_value g) / 10 ^ length g = (0 :: rat)"
    using of_nat_0_le_iff[of "digits_value w"] by linarith+
  have "\<forall>c \<in> set g. c = CHR ''0''" using zero(2) digits_value_zero_iff[OF assms(3)] by simp
  then have "g = []" using assms(4) by (metis last_in_set)
  moreover have "\<forall>c \<in> set w. c = CHR ''0''" using zero(1) digits_value_zero_iff[OF w(1)] by simp
  then have "w = ''0''" using assms(2) w(2) by (cases w) auto
  ultimately show "with_fraction (groupInteger w) g = ''0''"
    by (simp add: with_fraction_def groupInteger_def starts_with_def)
qed

lemma truncated_text:
  assumes "exact_units U" and "0 \<le> raw" and "6 \<le> d"
  shows "positive_or_tiny raw (groupDecimal (trimDecimal (U raw d) 6)) = ''<0.000001'' \<and> 0 < raw \<and> raw < 10 ^ (nat d - 6)
    \<or> (raw = 0 \<or> 10 ^ (nat d - 6) \<le> raw)
      \<and> shown_value (positive_or_tiny raw (groupDecimal (trimDecimal (U raw d) 6))) = of_int (raw div 10 ^ (nat d - 6)) / 10 ^ 6"
proof -
  from trimmed_amount[OF assms(1,2), of d 6] assms(3) obtain w g where wg:
    "groupDecimal (trimDecimal (U raw d) 6) = with_fraction (groupInteger w) g"
    "all_digits w" "hd w = CHR ''0'' \<longrightarrow> length w = 1" "list_all is_digit g" "g \<noteq> [] \<longrightarrow> last g \<noteq> CHR ''0''"
    "shown_value (with_fraction (groupInteger w) g) = of_int (raw div 10 ^ (nat d - 6)) / 10 ^ 6" by auto
  have zero: "with_fraction (groupInteger w) g = ''0'' \<longleftrightarrow> raw div 10 ^ (nat d - 6) = 0"
    unfolding trimmed_zero[OF wg(2-5)] wg(6) by simp
  also have "\<dots> \<longleftrightarrow> raw < 10 ^ (nat d - 6)"
    using assms(2) le_div_int[of "10 ^ (nat d - 6)" 1 raw] pos_imp_zdiv_nonneg_iff[of "10 ^ (nat d - 6)" raw] by auto
  finally show ?thesis unfolding wg(1) positive_or_tiny_def using wg(6) assms(2) by auto
qed

lemma trimmed_exact:
  assumes "exact_units U" and "0 \<le> raw" and "0 \<le> d"
  shows "shown_value (groupDecimal (trimDecimal (U raw d) (nat d))) = of_int raw / 10 ^ nat d"
    and "groupDecimal (trimDecimal (U raw d) (nat d)) \<noteq> dash"
proof -
  from trimmed_amount[OF assms, of "nat d"] assms(3) obtain w g where wg:
    "groupDecimal (trimDecimal (U raw d) (nat d)) = with_fraction (groupInteger w) g" "all_digits w"
    "shown_value (with_fraction (groupInteger w) g) = of_int raw / 10 ^ nat d" by auto
  then show "shown_value (groupDecimal (trimDecimal (U raw d) (nat d))) = of_int raw / 10 ^ nat d" by simp
  obtain c t where "groupInteger w = c # t" "is_digit c"
    using groupInteger_first wg(2) unfolding all_digits_def by blast
  then show "groupDecimal (trimDecimal (U raw d) (nat d)) \<noteq> dash"
    unfolding wg(1) by (auto simp: with_fraction_def dash_def is_digit_def)
qed

text \<open>The amounts of forms, balances and receipts are exact or rounded down. For a
  \<^verbatim>\<open>formatUnits\<close> that is exact and an amount that is not negative, \<^verbatim>\<open>formatExactUSDC\<close> shows the exact amount;
  \<^verbatim>\<open>formatNative\<close> shows it rounded down to six digits behind the point, and an amount other than zero
  below a millionth as less than a millionth; and a USDC amount of a swap, with its six decimals, is shown exactly.\<close>

theorem formatNative_truncates:
  assumes "exact_units U" and "0 \<le> raw"
  shows "(0 < raw \<and> raw < 10 ^ 12 \<longrightarrow> formatNative U (AmBig raw) False = ''<0.000001'')
    \<and> (raw = 0 \<or> 10 ^ 12 \<le> raw \<longrightarrow> shown_value (formatNative U (AmBig raw) False) = of_int (raw div 10 ^ 12) / 10 ^ 6)
    \<and> shown_value (formatExactUSDC U (AmBig raw) False) = of_int raw / 10 ^ 18
    \<and> shown_value (formatTradeUsdc U (AmBig raw) FromUniswap False) = of_int raw / 10 ^ 6"
proof -
  have "shown_value (formatTradeUsdc U (AmBig raw) FromUniswap False) = of_int raw / 10 ^ 6"
    using truncated_text[OF assms, of 6] by (auto simp: formatTradeUsdc_def usdc_suffix_def)
  moreover have "shown_value (formatExactUSDC U (AmBig raw) False) = of_int raw / 10 ^ 18"
    using trimmed_exact[OF assms, of 18]
    by (simp add: formatExactUSDC_def formatExactDecimal_def usdc_suffix_def)
  ultimately show ?thesis using truncated_text[OF assms, of 18]
    by (auto simp: formatNative_def usdc_suffix_def)
qed

definition plain_units :: "int \<Rightarrow> int \<Rightarrow> string" where
  "plain_units raw d = with_fraction (nat_text (nat (raw div 10 ^ nat d)))
     (strip_zeros (pad_start (nat d) (nat_text (nat (raw mod 10 ^ nat d)))))"

lemma plain_units_exact: "exact_units plain_units"
  unfolding exact_units_def
proof (intro allI impI)
  fix raw d :: int
  assume rd: "0 \<le> raw \<and> 0 \<le> d"
  let ?m = "raw mod 10 ^ nat d" and ?w = "nat_text (nat (raw div 10 ^ nat d))"
  let ?p = "pad_start (nat d) (nat_text (nat ?m))"
  obtain k where k: "?p = strip_zeros ?p @ replicate k (CHR ''0'')" using strip_zeros_split by blast
  have m: "0 \<le> ?m" "?m < 10 ^ nat d" by simp_all
  have "nat ?m < 10 ^ nat d" using m by (simp add: nat_less_iff)
  then have len: "length ?p = nat d" if "nat d \<noteq> 0" using that nat_text_length_le[of "nat ?m" "nat d"] by simp
  have "digits_value ?p = digits_value (strip_zeros ?p) * 10 ^ k" by (subst k) (simp add: digits_value_append)
  then have v: "int (digits_value (strip_zeros ?p)) * 10 ^ k = ?m" using m(1)
    by (simp only: digits_value_pad_start digits_value_nat_text)
       (metis int_nat_eq m(1) of_nat_mult of_nat_numeral of_nat_power)
  have f: "length (strip_zeros ?p) \<le> nat d" "int (digits_value (strip_zeros ?p)) * 10 ^ (nat d - length (strip_zeros ?p)) = ?m"
  proof -
    have "length ?p = length (strip_zeros ?p) + k" by (subst k) simp
    then have *: "nat d \<noteq> 0 \<Longrightarrow> length (strip_zeros ?p) \<le> nat d \<and> k = nat d - length (strip_zeros ?p)" using len by linarith
    have "nat d = 0 \<Longrightarrow> strip_zeros ?p = []" by (simp add: pad_start_def strip_zeros_def)
    then show "length (strip_zeros ?p) \<le> nat d" "int (digits_value (strip_zeros ?p)) * 10 ^ (nat d - length (strip_zeros ?p)) = ?m"
      using * v by (cases "nat d = 0"; simp)+
  qed
  have h: "hd ?w = CHR ''0'' \<longrightarrow> length ?w = 1" using nat_text_hd_zero[of "nat (raw div 10 ^ nat d)"] by auto
  show "\<exists>w f. plain_units raw d = with_fraction w f \<and> all_digits w \<and> (hd w = CHR ''0'' \<longrightarrow> length w = 1) \<and> list_all is_digit f
      \<and> length f \<le> nat d \<and> int (digits_value w) = raw div 10 ^ nat d
      \<and> int (digits_value f) * 10 ^ (nat d - length f) = raw mod 10 ^ nat d"
    using f h rd by (intro exI[of _ ?w] exI[of _ "strip_zeros ?p"])
      (simp add: plain_units_def strip_zeros_digits pos_imp_zdiv_nonneg_iff)
qed

theorem formatNative_truncates_witness:
  "formatNative plain_units (AmBig 1500000) False = ''<0.000001''
    \<and> shown_value (formatExactUSDC plain_units (AmBig 1500000) False) = 1500000 / 10 ^ 18
    \<and> shown_value (formatTradeUsdc plain_units (AmBig 1500000) FromUniswap False) = 1500000 / 10 ^ 6"
  using formatNative_truncates[OF plain_units_exact, of 1500000] by simp

subsection \<open>Progress, symbols and ages\<close>

text \<open>The graduation progress is full exactly when the curve is sold. For decimal texts of a sold
  amount and of a positive threshold it is a number of percent from 0 to 100, it is 100 exactly when the
  threshold is reached, and it is within one and a half hundredths of the exact share, despite floating point.\<close>

theorem graduationProgress_full:
  assumes "all_digits sold" and "all_digits threshold" and "0 < digits_value threshold"
  shows "\<exists>q. graduationProgress (Some sold) (Some threshold) = Some (Fin q) \<and> 0 \<le> q \<and> q \<le> 100
    \<and> (q = 100 \<longleftrightarrow> digits_value threshold \<le> digits_value sold)
    \<and> (let exact = min 100 (100 * of_nat (digits_value sold) / of_nat (digits_value threshold)) in
        \<bar>q - exact\<bar> \<le> 15 / 1000)"
proof -
  define s t where "s = int (digits_value sold)" and "t = int (digits_value threshold)"
  have st: "0 \<le> s" "0 < t" using assms(3) by (simp_all add: s_def t_def)
  define b where "b = min 10000 (s * 10000 div t)"
  have bnn: "0 \<le> b" using st by (simp add: b_def pos_imp_zdiv_nonneg_iff)
  have "\<bar>b\<bar> \<le> 2 ^ 53" using bnn by (simp add: b_def)
  from double_of_int[OF this] have db: "double_of (of_int b) = Fin (of_int b)" .
  have val: "graduationProgress (Some sold) (Some threshold) = Some (double_of (of_int b / 100))"
  proof -
    have "sold \<noteq> []" "threshold \<noteq> []" using assms(1,2) by (simp_all add: all_digits_def)
    then have "graduationProgress (Some sold) (Some threshold)
        = Some (num_over_100 (double_of (of_int (if 10000 < s * 10000 div t then 10000 else s * 10000 div t))))"
      using assms st by (simp add: graduationProgress_def truthy_def Let_def s_def t_def)
    also have "(if 10000 < s * 10000 div t then 10000 else s * 10000 div t) = b" by (simp add: b_def min_def)
    finally show ?thesis by (simp add: db)
  qed
  have top: "b = 10000 \<longleftrightarrow> t \<le> s"
  proof -
    have "10000 \<le> s * 10000 div t \<longleftrightarrow> 10000 * t \<le> s * 10000" by (rule le_div_int) (rule st(2))
    then show ?thesis by (auto simp: b_def min_def)
  qed
  have bq: "(of_int b :: rat) \<le> 10000" "0 \<le> (of_int b :: rat)"
    using bnn of_int_le_iff[of b 10000, where 'a=rat] by (simp_all add: b_def)
  have tiny: "of_int b / 100 / 2 ^ 53 \<le> (1 / 1000 :: rat)" using bq by simp
  obtain q where q: "double_of (of_int b / 100) = Fin q" "\<bar>q - of_int b / 100\<bar> \<le> of_int b / 100 / 2 ^ 53" "b = 10000 \<longrightarrow> q = 100"
  proof (cases "b = 0 \<or> b = 10000")
    case True
    have "double_of 0 = Fin 0" "double_of 100 = Fin 100" using double_of_int[of 0] double_of_int[of 100] by simp_all
    with True show ?thesis by (intro that[of "of_int b / 100"]) auto
  next
    case False
    then have "1 \<le> b" using bnn by linarith
    then have "(of_int 1 :: rat) \<le> of_int b" by (simp only: of_int_le_iff)
    then have "pow2 (- 100) \<le> of_int b / 100" by (simp add: pow2_def)
    from double_of_near[OF this] obtain x where x: "\<bar>x - of_int b / 100\<bar> \<le> of_int b / 100 / 2 ^ 53"
      "double_of (of_int b / 100) = (if x < pow2 1024 then Fin x else PosInf)" .
    have "x \<le> 200" using x(1) tiny bq(1) by linarith
    also have "(200 :: rat) < pow2 10" by (simp add: pow2_def)
    also have "\<dots> < pow2 1024" by (simp only: pow2_less_iff)
    finally show ?thesis using x False by (intro that[of x]) simp_all
  qed
  have range: "0 \<le> q"
  proof -
    have "of_int b / 100 / 2 ^ 53 \<le> (of_int b / 100 :: rat)" using bq(2) by simp
    then show ?thesis using q(2) by linarith
  qed
  have near: "\<bar>q - of_int b / 100\<bar> \<le> 1 / 1000" using q(2) tiny by linarith
  have below: "q < 100" if "b \<noteq> 10000"
  proof -
    have "b \<le> 9999" using that by (simp add: b_def min_def split: if_splits)
    then have "(of_int b :: rat) \<le> of_int 9999" by (simp only: of_int_le_iff)
    then have "(of_int b :: rat) \<le> 9999" by (simp only: of_int_numeral)
    then show ?thesis using near by linarith
  qed
  have exact: "\<bar>of_int b / 100 - min 100 (100 * of_int s / of_int t)\<bar> \<le> (1 / 100 :: rat)"
  proof (cases "t \<le> s")
    case True
    then have "(of_int t :: rat) \<le> of_int s" by (simp only: of_int_le_iff)
    then have "100 \<le> (100 * of_int s / of_int t :: rat)" using st by (simp add: le_divide_eq)
    then show ?thesis using True top by (simp add: min_def)
  next
    case False
    then have b: "b = s * 10000 div t" using top by (auto simp: b_def min_def split: if_splits)
    have "s * 10000 = b * t + s * 10000 mod t" unfolding b by simp
    moreover have "0 \<le> s * 10000 mod t" "s * 10000 mod t < t" using st by simp_all
    ultimately have "b * t \<le> s * 10000" "s * 10000 \<le> b * t + t" by linarith+
    then have "of_int (b * t) \<le> (of_int (s * 10000) :: rat)" "of_int (s * 10000) \<le> (of_int (b * t + t) :: rat)"
      by (simp_all only: of_int_le_iff)
    then have "of_int b / 100 \<le> (100 * of_int s / of_int t :: rat)" "(100 * of_int s / of_int t :: rat) \<le> of_int b / 100 + 1 / 100"
      using st by (simp_all add: field_simps)
    moreover have "(100 * of_int s / of_int t :: rat) \<le> 100" using False st by (simp add: divide_le_eq)
    ultimately show ?thesis by (simp add: min_def abs_le_iff)
  qed
  have "\<bar>q - min 100 (100 * of_int s / of_int t)\<bar> \<le> 15 / 1000"
    using near exact by linarith
  moreover have "of_nat (digits_value sold) = (of_int s :: rat)" "of_nat (digits_value threshold) = (of_int t :: rat)"
    by (simp_all add: s_def t_def)
  moreover have "digits_value threshold \<le> digits_value sold \<longleftrightarrow> t \<le> s" by (simp add: s_def t_def)
  ultimately show ?thesis using val q(1,3) range below top
    by (intro exI[of _ q]) (auto simp: Let_def)
qed

theorem graduationProgress_full_witness:
  "\<exists>q. graduationProgress (Some ''250'') (Some ''1000'') = Some (Fin q) \<and> 0 \<le> q \<and> q \<le> 100
    \<and> (q = 100 \<longleftrightarrow> digits_value ''1000'' \<le> digits_value ''250'')
    \<and> (let exact = min 100 (100 * of_nat (digits_value ''250'') / of_nat (digits_value ''1000'')) in
        \<bar>q - exact\<bar> \<le> 15 / 1000)"
  by (rule graduationProgress_full) (simp_all add: all_digits_def is_digit_def digits_value_Cons digit_value_def)

text \<open>A shown symbol is shown the same when it is formatted again.\<close>

lemma ws_end_plain:
  assumes "32 < code_of c" and "code_of c < 128"
  shows "ws_end (s @ [c]) = 0"
proof -
  have 1: "\<not> ws_char (map of_char (rev (take 1 (rev (s @ [c])))))" using assms by simp
  have 2: "\<not> ws_char (map of_char (rev (take 2 (rev (s @ [c])))))"
    using assms by (cases "rev s") (simp_all add: take_Suc_conv_app_nth)
  have 3: "\<not> ws_char (map of_char (rev (take 3 (rev (s @ [c])))))"
    using assms by (cases "rev s" rule: remdups_adj.cases) (auto simp: numeral_3_eq_3)
  show ?thesis unfolding ws_end_def using 1 2 3 by presburger
qed

lemma js_trim_plain:
  assumes "32 < code_of c" "code_of c < 128" "32 < code_of d" "code_of d < 128"
  shows "js_trim (c # s @ [d]) = c # s @ [d]"
  using assms ws_start_plain[of c "s @ [d]"] ws_end_plain[of d "c # s"]
  by (simp add: js_trim_def trim_start.simps trim_end.simps)

lemma symbol_char_code: "symbol_char c \<Longrightarrow> 32 < code_of c \<and> code_of c < 128 \<and> c \<noteq> CHR ''$''"
  by (auto simp: symbol_char_def is_alpha_def is_digit_def)

lemma formatTokenSymbol_shown:
  assumes "n \<noteq> []" and "list_all symbol_char n"
  shows "formatTokenSymbol (Some (''$'' @ n)) = ''$'' @ n"
proof -
  obtain m d where n: "n = m @ [d]" using assms(1) by (metis rev_exhaust)
  have d: "32 < code_of d" "code_of d < 128" using assms(2) symbol_char_code by (auto simp: n)
  have trim: "js_trim (''$'' @ n) = ''$'' @ n" using js_trim_plain[OF _ _ d, of "CHR ''$''" m] by (simp add: n)
  have "dropWhile (\<lambda>c. c = CHR ''$'') n = n"
    using assms symbol_char_code by (cases n) auto
  then show ?thesis using assms unfolding formatTokenSymbol_def by (simp add: trim[simplified])
qed

lemma formatTokenSymbol_idem: "formatTokenSymbol (Some (formatTokenSymbol s)) = formatTokenSymbol s"
proof -
  have dash: "formatTokenSymbol (Some dash) = dash"
    by code_simp
  show ?thesis
  proof (cases "formatTokenSymbol s = dash")
    case False
    then obtain n where "formatTokenSymbol s = ''$'' @ n" "n \<noteq> []" "list_all symbol_char n"
      by (auto simp: formatTokenSymbol_def Let_def split: option.splits if_splits)
    then show ?thesis using formatTokenSymbol_shown by simp
  qed (simp add: dash)
qed

text \<open>The divisions of an age are exact: an age is shown in the largest unit it fills, rounded down.\<close>

lemma floor_div_exact: "\<bar>a\<bar> < 2 ^ 53 \<Longrightarrow> 0 < b \<Longrightarrow> b \<le> 2 ^ 53 \<Longrightarrow> floor_div a b = a div b"
  using floor_quotient[of a b] by (auto simp: floor_div_def)

definition age_unit :: "int \<Rightarrow> int \<times> string" where
  "age_unit seconds =
     (if seconds < 60 then (1, ''s'') else if seconds < 3600 then (60, ''m'') else if seconds < 86400 then (3600, ''h'')
      else if seconds < 604800 then (86400, ''d'') else if seconds < 2592000 then (604800, ''w'') else (2592000, ''mo''))"

lemma formatRelativeAge_exact:
  assumes "now - timestamp < 2 ^ 53"
  shows "formatRelativeAge timestamp now =
    (case age_unit (max 0 (now - timestamp)) of (u, t) \<Rightarrow> int_text (max 0 (now - timestamp) div u) @ t)"
proof -
  define s where "s = max 0 (now - timestamp)"
  have "floor_div s b = s div b" if "0 < b" "b \<le> 2592000" for b
    unfolding s_def by (rule floor_div_exact) (use assms that in auto)
  then show ?thesis unfolding formatRelativeAge_def Let_def s_def[symmetric] by (simp add: age_unit_def)
qed

text \<open>The shared timer runs exactly while somebody listens, and nobody listens twice.\<close>

definition clock_ok :: "shared_clock \<Rightarrow> bool" where
  "clock_ok c \<longleftrightarrow> sc_timer c = (sc_listeners c \<noteq> []) \<and> distinct (sc_listeners c)"

lemma clock_subscribe_ok: "clock_ok c \<Longrightarrow> clock_ok (fst (clock_subscribe l c))"
  by (auto simp: clock_ok_def clock_subscribe_def)

lemma clock_unsubscribe_ok: "clock_ok c \<Longrightarrow> clock_ok (clock_unsubscribe l c)"
  by (auto simp: clock_ok_def clock_unsubscribe_def Let_def distinct_removeAll)

lemma clock_tick_all: "clock_ok c \<Longrightarrow> clock_tick c = sc_listeners c"
  by (auto simp: clock_ok_def clock_tick_def)

end
