(* ===== verification/Datafeed.thy ===== *)
theory Datafeed
  imports Realtime JsDouble
begin

text \<open>
  The adapter between the page's candles and the charting library
  (\<^verbatim>\<open>lib/tradingview-datafeed.ts\<close>): conversion of 18-decimal amounts to display numbers,
  symbol metadata, history requests, and the subscriptions that are sent the latest bar whenever
  the provisional trades or the indexed candles change.
\<close>

subsection \<open>Data\<close>

datatype tv_resolution = Res1 | Res5 | Res15 | Res60 | Res240 | ResD | ResW

record tv_bar =
  tb_time :: int
  tb_open :: jsnum
  tb_high :: jsnum
  tb_low :: jsnum
  tb_close :: jsnum
  tb_volume :: jsnum

fun resolution_interval :: "tv_resolution \<Rightarrow> chart_interval" where
  "resolution_interval Res1 = Minute1"
| "resolution_interval Res5 = Minute5"
| "resolution_interval Res15 = Minute15"
| "resolution_interval Res60 = Hour1"
| "resolution_interval Res240 = Hour4"
| "resolution_interval ResD = Day1"
| "resolution_interval ResW = Week1"

definition resolution_of :: "string \<Rightarrow> tv_resolution option" where
  "resolution_of s = map_of [(''1'', Res1), (''5'', Res5), (''15'', Res15), (''60'', Res60), (''240'', Res240),
     (''D'', ResD), (''W'', ResW)] s"

definition cooketIntervalForResolution :: "string \<Rightarrow> chart_interval option" where
  "cooketIntervalForResolution s = map_option resolution_interval (resolution_of s)"

fun interval_name :: "chart_interval \<Rightarrow> string" where
  "interval_name Minute1 = ''1m''"
| "interval_name Minute5 = ''5m''"
| "interval_name Minute15 = ''15m''"
| "interval_name Hour1 = ''1h''"
| "interval_name Hour4 = ''4h''"
| "interval_name Day1 = ''1d''"
| "interval_name Week1 = ''1w''"

record chart_page =
  ch_interval :: chart_interval
  ch_indexed :: "int option"
  ch_candles :: "candle list"

subsection \<open>Numbers and metadata\<close>

text \<open>\<^verbatim>\<open>s.slice(-n)\<close> and \<^verbatim>\<open>s.slice(0, -n)\<close>.\<close>

definition slice_last :: "nat \<Rightarrow> string \<Rightarrow> string" where
  "slice_last n s = drop (length s - n) s"

definition slice_but_last :: "nat \<Rightarrow> string \<Rightarrow> string" where
  "slice_but_last n s = take (length s - n) s"

definition nativeUsdc18ToDisplayNumber :: "string \<Rightarrow> jsnum option" where
  "nativeUsdc18ToDisplayNumber v =
     (if \<not> all_digits v then None
      else let whole = (if length v > 18 then slice_but_last 18 v else ''0'');
               fraction = (if length v > 18 then slice_last 18 v else pad_start 18 v);
               number = number_of_decimal (whole @ ''.'' @ fraction) in
           if is_finite_num number then Some number else None)"

definition complete :: "candle \<Rightarrow> bool" where
  "complete point \<longleftrightarrow> list_all (\<lambda>v. case v of None \<Rightarrow> False | Some s \<Rightarrow> all_digits s)
     [cd_open point, cd_high point, cd_low point, cd_close point]"

definition candleToTradingViewBar :: "candle \<Rightarrow> tv_bar option" where
  "candleToTradingViewBar point =
     (if \<not> complete point then None
      else case map (\<lambda>v. nativeUsdc18ToDisplayNumber v)
          (map the [cd_open point, cd_high point, cd_low point, cd_close point] @ [cd_volume point]) of
          [Some op, Some hi, Some lo, Some cl, Some vol] \<Rightarrow>
            Some \<lparr>tb_time = cd_bucket point * 1000, tb_open = op, tb_high = hi, tb_low = lo, tb_close = cl, tb_volume = vol\<rparr>
        | _ \<Rightarrow> None)"

definition tradingViewDisplayPrecision :: "string option \<Rightarrow> int" where
  "tradingViewDisplayPrecision price =
     (case truthy price of
        None \<Rightarrow> 10
      | Some p \<Rightarrow>
          if \<not> all_digits p then 10
          else let decimal = slice_last 18 (pad_start 19 p);
                   leadingZeroes = int (length (takeWhile (\<lambda>c. c = CHR ''0'') decimal)) in
               min 12 (max 8 (leadingZeroes + 6)))"

definition tradingViewPriceScale :: "string option \<Rightarrow> int" where
  "tradingViewPriceScale price = 10 ^ nat (tradingViewDisplayPrecision price)"

record tv_symbol =
  sy_name :: string
  sy_description :: string
  sy_pricescale :: int
  sy_token :: string

text \<open>The constant fields of the symbol are left out.\<close>

definition cooketSymbol :: "string \<Rightarrow> string \<Rightarrow> string \<Rightarrow> string option \<Rightarrow> tv_symbol" where
  "cooketSymbol address name symbol currentPrice =
     (let stripped = js_upper (dropWhile (\<lambda>c. c = CHR ''$'') (js_trim symbol));
          base = (if stripped = [] then ''TOKEN'' else stripped) in
      \<lparr>sy_name = base @ '' / USDC'', sy_description = name, sy_pricescale = tradingViewPriceScale currentPrice,
       sy_token = address\<rparr>)"

subsection \<open>History\<close>

record history_period =
  hp_from :: jsnum
  hp_to :: jsnum
  hp_countBack :: "jsnum option"

datatype history_answer = Bars "tv_bar list" bool | HistoryError string

fun less_num :: "jsnum \<Rightarrow> jsnum \<Rightarrow> bool" where
  "less_num a b = num_greater b a"

definition period_ok :: "history_period \<Rightarrow> bool" where
  "period_ok p \<longleftrightarrow> validWatermark (Some (hp_from p)) \<and> validWatermark (Some (hp_to p))
     \<and> less_num (hp_from p) (hp_to p)
     \<and> (case hp_countBack p of None \<Rightarrow> True | Some n \<Rightarrow> is_safe_integer n \<and> 0 < int_of_num n)"

definition history_query :: "chart_interval \<Rightarrow> history_period \<Rightarrow> string" where
  "history_query interval p =
     (let limit = min 1000 (max 1 (case hp_countBack p of None \<Rightarrow> 1000 | Some n \<Rightarrow> int_of_num n));
          tail = ''to='' @ int_text (int_of_num (hp_to p)) @ ''&limit='' @ int_text limit in
      ''?interval='' @ interval_name interval @ ''&''
        @ (if hp_countBack p \<noteq> None then tail else ''from='' @ int_text (int_of_num (hp_from p)) @ ''&'' @ tail))"

definition getBars :: "(string \<Rightarrow> string \<Rightarrow> chart_page result) \<Rightarrow> string \<Rightarrow> string \<Rightarrow> history_period \<Rightarrow> history_answer" where
  "getBars chart address resolution period =
     (case cooketIntervalForResolution resolution of
        None \<Rightarrow> HistoryError (''Unsupported Cooket resolution: '' @ resolution)
      | Some interval \<Rightarrow>
          if \<not> period_ok period then HistoryError ''Invalid chart history range''
          else (case chart address (history_query interval period) of
              Inl (JsError n m) \<Rightarrow> HistoryError m
            | Inl (JsOther s) \<Rightarrow> HistoryError ''Cooket chart history could not be loaded.''
            | Inr page \<Rightarrow>
                (let bars = List.map_filter candleToTradingViewBar (ch_candles page) in Bars bars (bars = []))))"

subsection \<open>Subscriptions\<close>

text \<open>What the charting library is told, by listener. The callbacks of a subscription are named by its
  listener's id.\<close>

datatype emission =
    Subscribed string
  | Unsubscribed string
  | SendBar string tv_bar
  | ResetCache string

record subscription =
  sb_resolution :: tv_resolution
  sb_canonical :: "candle list"
  sb_indexed :: "int option"
  sb_lastTime :: "int option"

record datafeed =
  df_token :: string
  df_subs :: "(string \<times> subscription) list"
  df_realtime :: "realtime_trade list"

definition subscribeBars :: "string \<Rightarrow> string \<Rightarrow> datafeed \<Rightarrow> datafeed \<times> emission list" where
  "subscribeBars resolution guid s =
     (case resolution_of resolution of
        None \<Rightarrow> (s, [])
      | Some r \<Rightarrow>
          (s\<lparr>df_subs := AList.update guid \<lparr>sb_resolution = r, sb_canonical = [], sb_indexed = None, sb_lastTime = None\<rparr>
               (df_subs s)\<rparr>, [Subscribed guid]))"

definition unsubscribeBars :: "string \<Rightarrow> datafeed \<Rightarrow> datafeed \<times> emission list" where
  "unsubscribeBars guid s = (s\<lparr>df_subs := AList.delete guid (df_subs s)\<rparr>, [Unsubscribed guid])"

text \<open>The bar a subscription shows: the latest complete one of the overlay, which may throw on
  malformed candles.\<close>

definition latest_bar ::
    "chain_module \<Rightarrow> (string \<Rightarrow> string \<Rightarrow> int) \<Rightarrow> realtime_trade list \<Rightarrow> subscription \<Rightarrow> tv_bar option result" where
  "latest_bar m lc realtime sub =
     (let provisional = reconcileRealtimeTrades m lc realtime (sb_indexed sub) [] in
      try_bind (overlayCandles lc (sb_canonical sub) provisional (resolution_interval (sb_resolution sub))) (\<lambda>candles.
        let bars = List.map_filter candleToTradingViewBar candles in
        Inr (if bars = [] then None else Some (last bars))))"

definition emitSubscription ::
    "chain_module \<Rightarrow> (string \<Rightarrow> string \<Rightarrow> int) \<Rightarrow> realtime_trade list \<Rightarrow> string \<Rightarrow> subscription
     \<Rightarrow> (subscription \<times> emission list) result" where
  "emitSubscription m lc realtime guid sub =
     try_bind (latest_bar m lc realtime sub) (\<lambda>bar.
       let backwards = (case bar of
             None \<Rightarrow> True
           | Some b \<Rightarrow> (case sb_lastTime sub of None \<Rightarrow> False | Some t \<Rightarrow> tb_time b < t)) in
       if backwards
       then Inr (if sb_lastTime sub \<noteq> None then (sub\<lparr>sb_lastTime := None\<rparr>, [ResetCache guid]) else (sub, []))
       else Inr (sub\<lparr>sb_lastTime := map_option tb_time bar\<rparr>, [SendBar guid (the bar)]))"

text \<open>The loop over the subscriptions in the order of the map. A throw leaves the loop: the
  subscriptions before it are updated, the rest are not.\<close>

fun emitAll ::
    "chain_module \<Rightarrow> (string \<Rightarrow> string \<Rightarrow> int) \<Rightarrow> realtime_trade list \<Rightarrow> (string \<times> subscription) list
     \<Rightarrow> (string \<times> subscription) list \<times> emission list" where
  "emitAll m lc realtime [] = ([], [])"
| "emitAll m lc realtime ((guid, sub) # rest) =
     (case emitSubscription m lc realtime guid sub of
        Inl e \<Rightarrow> ((guid, sub) # rest, [])
      | Inr (sub', out) \<Rightarrow>
          (case emitAll m lc realtime rest of (rest', out') \<Rightarrow> ((guid, sub') # rest', out @ out')))"

definition activeEvents :: "string \<Rightarrow> realtime_trade list \<Rightarrow> (string \<times> realtime_trade) list" where
  "activeEvents token events =
     foldl (\<lambda>active e.
        if \<not> same_address (rt_token e) token then active
        else if rt_removed e then AList.delete (rt_identity e) active
        else AList.update (rt_identity e) e active) [] events"

definition syncRealtime ::
    "chain_module \<Rightarrow> (string \<Rightarrow> string \<Rightarrow> int) \<Rightarrow> realtime_trade list \<Rightarrow> datafeed \<Rightarrow> datafeed \<times> emission list" where
  "syncRealtime m lc events s =
     (let active = map snd (activeEvents (df_token s) events) in
      case emitAll m lc active (df_subs s) of
        (subs, out) \<Rightarrow> (s\<lparr>df_realtime := active, df_subs := subs\<rparr>, out))"

definition outdated :: "subscription \<Rightarrow> chart_page \<Rightarrow> bool" where
  "outdated sub page \<longleftrightarrow>
     (case sb_indexed sub of
        None \<Rightarrow> False
      | Some b \<Rightarrow> (case ch_indexed page of None \<Rightarrow> True | Some n \<Rightarrow> n < b))"

definition reconcileCanonical ::
    "chain_module \<Rightarrow> (string \<Rightarrow> string \<Rightarrow> int) \<Rightarrow> string \<Rightarrow> chart_page \<Rightarrow> datafeed \<Rightarrow> datafeed \<times> emission list" where
  "reconcileCanonical m lc guid page s =
     (case map_of (df_subs s) guid of
        None \<Rightarrow> (s, [])
      | Some sub \<Rightarrow>
          if ch_interval page \<noteq> resolution_interval (sb_resolution sub) then (s, [])
          else if outdated sub page then (s, [])
          else let fresh = sub\<lparr>sb_canonical := ch_candles page, sb_indexed := ch_indexed page\<rparr> in
            (case emitSubscription m lc (df_realtime s) guid fresh of
               Inl e \<Rightarrow> (s\<lparr>df_subs := AList.update guid fresh (df_subs s)\<rparr>, [])
             | Inr (sub', out) \<Rightarrow> (s\<lparr>df_subs := AList.update guid sub' (df_subs s)\<rparr>, out)))"

subsection \<open>What a listener may be told\<close>

text \<open>
  The charting library's rule, as an automaton: a listener is not subscribed (\<^verbatim>\<open>None\<close>), or
  subscribed and shown no bar yet, or shown a bar of some time. A bar may not go back in time, a
  cache is only reset after a bar, and nothing is sent to one that is not subscribed.
\<close>

type_synonym listeners = "string \<Rightarrow> int option option"

fun listen :: "emission \<Rightarrow> listeners \<Rightarrow> listeners option" where
  "listen (Subscribed g) l = Some (l(g \<mapsto> None))"
| "listen (Unsubscribed g) l = Some (l(g := None))"
| "listen (SendBar g b) l =
     (case l g of
        None \<Rightarrow> None
      | Some None \<Rightarrow> Some (l(g \<mapsto> Some (tb_time b)))
      | Some (Some t) \<Rightarrow> if t \<le> tb_time b then Some (l(g \<mapsto> Some (tb_time b))) else None)"
| "listen (ResetCache g) l = (case l g of Some (Some t) \<Rightarrow> Some (l(g \<mapsto> None)) | _ \<Rightarrow> None)"

fun listen_all :: "emission list \<Rightarrow> listeners \<Rightarrow> listeners option" where
  "listen_all [] l = Some l"
| "listen_all (e # es) l = (case listen e l of None \<Rightarrow> None | Some l' \<Rightarrow> listen_all es l')"

lemma listen_all_append:
  "listen_all (es @ fs) l = (case listen_all es l of None \<Rightarrow> None | Some l' \<Rightarrow> listen_all fs l')"
  by (induction es arbitrary: l) (auto split: option.splits)

definition shown :: "(string \<times> subscription) list \<Rightarrow> listeners" where
  "shown subs g = map_option sb_lastTime (map_of subs g)"

lemma emit_listened:
  assumes "emitSubscription m lc realtime guid sub = Inr (sub', out)" and "l guid = Some (sb_lastTime sub)"
  shows "listen_all out l = Some (l(guid \<mapsto> sb_lastTime sub'))"
proof -
  obtain bar where b: "latest_bar m lc realtime sub = Inr bar"
    using assms(1) by (auto simp: emitSubscription_def try_bind_Inr_iff)
  show ?thesis using assms b
    by (cases bar; cases "sb_lastTime sub")
      (auto simp: emitSubscription_def Let_def fun_upd_idem_iff split: if_splits)
qed

lemma emitAll_listened:
  assumes "emitAll m lc realtime subs = (subs', out)" and "distinct (map fst subs)"
    and "\<forall>p \<in> set subs. l (fst p) = Some (sb_lastTime (snd p))"
  shows "map fst subs' = map fst subs
    \<and> listen_all out l = Some (\<lambda>g. case map_of subs' g of None \<Rightarrow> l g | Some s \<Rightarrow> Some (sb_lastTime s))"
  using assms
proof (induction subs arbitrary: subs' out l)
  case (Cons p rest)
  obtain guid sub where p: "p = (guid, sub)" by (cases p)
  have mine: "l guid = Some (sb_lastTime sub)" using Cons.prems(3) p by simp
  show ?case
  proof (cases "emitSubscription m lc realtime guid sub")
    case (Inl e)
    then have "subs' = (guid, sub) # rest" "out = []" using Cons.prems(1) p by simp_all
    moreover have "l = (\<lambda>g. case map_of ((guid, sub) # rest) g of None \<Rightarrow> l g | Some s \<Rightarrow> Some (sb_lastTime s))"
      using Cons.prems(3) p by (auto simp: fun_eq_iff dest!: map_of_SomeD split: option.splits)
    ultimately show ?thesis using p by (simp only: list.map fst_conv listen_all.simps)
  next
    case (Inr x)
    then obtain sub' o1 where x: "emitSubscription m lc realtime guid sub = Inr (sub', o1)" by (cases x) auto
    obtain rest' o2 where r: "emitAll m lc realtime rest = (rest', o2)" by (cases "emitAll m lc realtime rest")
    have eq: "subs' = (guid, sub') # rest'" "out = o1 @ o2" using Cons.prems(1) p x r by simp_all
    have l1: "listen_all o1 l = Some (l(guid \<mapsto> sb_lastTime sub'))" by (rule emit_listened[where l = l, OF x mine])
    have fresh: "guid \<notin> fst ` set rest" using Cons.prems(2) p by auto
    have pre: "\<forall>q \<in> set rest. (l(guid \<mapsto> sb_lastTime sub')) (fst q) = Some (sb_lastTime (snd q))"
      using Cons.prems(3) fresh by force
    have IH: "map fst rest' = map fst rest" "listen_all o2 (l(guid \<mapsto> sb_lastTime sub'))
        = Some (\<lambda>g. case map_of rest' g of None \<Rightarrow> (l(guid \<mapsto> sb_lastTime sub')) g | Some s \<Rightarrow> Some (sb_lastTime s))"
      using Cons.IH[where l = "l(guid \<mapsto> sb_lastTime sub')", OF r _ pre] Cons.prems(2)
      by (simp_all only: list.map distinct.simps)
    have "guid \<notin> fst ` set rest'" using fresh IH(1) by (metis list.set_map)
    then have "map_of rest' guid = None" by (simp add: map_of_eq_None_iff)
    then have "(\<lambda>g. case map_of rest' g of None \<Rightarrow> (l(guid \<mapsto> sb_lastTime sub')) g | Some s \<Rightarrow> Some (sb_lastTime s))
        = (\<lambda>g. case map_of subs' g of None \<Rightarrow> l g | Some s \<Rightarrow> Some (sb_lastTime s))"
      by (auto simp: fun_eq_iff eq(1) split: option.splits)
    then show ?thesis using l1 IH eq p by (simp add: listen_all_append)
  qed
qed simp

text \<open>The operations of the datafeed, as the page calls them.\<close>

datatype feed_op =
    Subscribe string string
  | Unsubscribe string
  | Sync "realtime_trade list"
  | Canonical string chart_page

fun feed_step ::
    "chain_module \<Rightarrow> (string \<Rightarrow> string \<Rightarrow> int) \<Rightarrow> feed_op \<Rightarrow> datafeed \<Rightarrow> datafeed \<times> emission list" where
  "feed_step m lc (Subscribe resolution guid) s = subscribeBars resolution guid s"
| "feed_step m lc (Unsubscribe guid) s = unsubscribeBars guid s"
| "feed_step m lc (Sync events) s = syncRealtime m lc events s"
| "feed_step m lc (Canonical guid page) s = reconcileCanonical m lc guid page s"

fun feed_run ::
    "chain_module \<Rightarrow> (string \<Rightarrow> string \<Rightarrow> int) \<Rightarrow> feed_op list \<Rightarrow> datafeed \<Rightarrow> datafeed \<times> emission list" where
  "feed_run m lc [] s = (s, [])"
| "feed_run m lc (op # ops) s =
     (case feed_step m lc op s of (s1, out) \<Rightarrow> (case feed_run m lc ops s1 of (s2, out') \<Rightarrow> (s2, out @ out')))"

definition new_feed :: "string \<Rightarrow> datafeed" where
  "new_feed token = \<lparr>df_token = token, df_subs = [], df_realtime = []\<rparr>"

lemma shown_update: "shown (AList.update g s subs) = (shown subs)(g \<mapsto> sb_lastTime s)"
  by (auto simp: shown_def fun_eq_iff update_conv')

lemma shown_delete: "shown (AList.delete g subs) = (shown subs)(g := None)"
  by (auto simp: shown_def fun_eq_iff delete_conv')

lemma shown_over: "map fst subs' = map fst subs \<Longrightarrow>
  (\<lambda>g. case map_of subs' g of None \<Rightarrow> shown subs g | Some s \<Rightarrow> Some (sb_lastTime s)) = shown subs'"
proof (rule ext)
  fix g assume keys: "map fst subs' = map fst subs"
  show "(case map_of subs' g of None \<Rightarrow> shown subs g | Some s \<Rightarrow> Some (sb_lastTime s)) = shown subs' g"
  proof (cases "map_of subs' g")
    case None
    then have "map_of subs g = None" using keys by (metis list.set_map map_of_eq_None_iff)
    then show ?thesis using None by (simp add: shown_def)
  qed (simp add: shown_def)
qed

lemma feed_step_listened:
  assumes "feed_step m lc op s = (s', out)" and "distinct (map fst (df_subs s))"
  shows "distinct (map fst (df_subs s')) \<and> listen_all out (shown (df_subs s)) = Some (shown (df_subs s'))"
proof (cases op)
  case (Subscribe resolution guid)
  then show ?thesis using assms
    by (auto simp: subscribeBars_def distinct_update shown_update split: option.splits)
next
  case (Unsubscribe guid)
  then show ?thesis using assms by (auto simp: unsubscribeBars_def distinct_delete shown_delete)
next
  case (Sync events)
  let ?a = "map snd (activeEvents (df_token s) events)"
  obtain subs out' where e: "emitAll m lc ?a (df_subs s) = (subs, out')" by (cases "emitAll m lc ?a (df_subs s)")
  have "\<forall>p \<in> set (df_subs s). shown (df_subs s) (fst p) = Some (sb_lastTime (snd p))"
    using assms(2) by (auto simp: shown_def)
  from emitAll_listened[where l = "shown (df_subs s)", OF e assms(2) this] shown_over show ?thesis
    using assms e Sync by (auto simp: syncRealtime_def Let_def)
next
  case (Canonical guid page)
  show ?thesis
  proof (cases "map_of (df_subs s) guid")
    case None
    then show ?thesis using assms Canonical by (simp add: reconcileCanonical_def)
  next
    case (Some sub)
    let ?fresh = "sub\<lparr>sb_canonical := ch_candles page, sb_indexed := ch_indexed page\<rparr>"
    have mine: "shown (df_subs s) guid = Some (sb_lastTime ?fresh)" using Some by (simp add: shown_def)
    have same: "(shown (df_subs s))(guid \<mapsto> sb_lastTime sub) = shown (df_subs s)"
      using mine by (auto simp: fun_eq_iff)
    show ?thesis
    proof (cases "emitSubscription m lc (df_realtime s) guid ?fresh")
      case (Inl e)
      then show ?thesis using assms Canonical Some same
        by (auto simp: reconcileCanonical_def Let_def distinct_update shown_update split: if_splits)
    next
      case (Inr x)
      then obtain sub' o1 where x: "emitSubscription m lc (df_realtime s) guid ?fresh = Inr (sub', o1)" by (cases x) auto
      from emit_listened[where l = "shown (df_subs s)", OF x mine] show ?thesis
        using assms Canonical Some x
        by (auto simp: reconcileCanonical_def Let_def distinct_update shown_update split: if_splits)
    qed
  qed
qed

text \<open>C19: the datafeed refines the listener automaton: after any sequence of subscriptions, unsubscriptions, new
  provisional trades and new indexed candles, everything that was sent is accepted by the automaton (no bar
  earlier than the one a listener was last shown, unless its cache was reset in between; nothing to a listener
  that is not subscribed), and the automaton's state is exactly the last emitted times of the subscriptions.\<close>

theorem datafeed_refines_listeners:
  "case feed_run m lc ops (new_feed token) of
     (s, out) \<Rightarrow> listen_all out (\<lambda>g. None) = Some (shown (df_subs s))"
proof -
  have "distinct (map fst (df_subs s)) \<longrightarrow>
      (case feed_run m lc ops s of (s', out) \<Rightarrow> listen_all out (shown (df_subs s)) = Some (shown (df_subs s')))" for s
  proof (induction ops arbitrary: s)
    case (Cons op ops)
    obtain s1 o1 where step: "feed_step m lc op s = (s1, o1)" by (cases "feed_step m lc op s")
    obtain s2 o2 where rest: "feed_run m lc ops s1 = (s2, o2)" by (cases "feed_run m lc ops s1")
    show ?case using feed_step_listened[OF step] Cons.IH[of s1] step rest by (auto simp: listen_all_append)
  qed simp
  moreover have "shown (df_subs (new_feed token)) = (\<lambda>g. None)" "distinct (map fst (df_subs (new_feed token)))"
    by (simp_all add: new_feed_def shown_def fun_eq_iff)
  ultimately show ?thesis by metis
qed

subsection \<open>Display numbers are the nearest doubles\<close>

lemma split_digits_value:
  assumes "all_digits v"
  shows "\<exists>w f. (if length v > 18 then slice_but_last 18 v else ''0'') = w
    \<and> (if length v > 18 then slice_last 18 v else pad_start 18 v) = f
    \<and> list_all is_digit w \<and> list_all is_digit f \<and> length f = 18
    \<and> digits_value w * 10 ^ 18 + digits_value f = digits_value v"
proof (cases "length v > 18")
  case True
  have v: "v = slice_but_last 18 v @ slice_last 18 v" by (simp add: slice_but_last_def slice_last_def)
  have len: "length (slice_last 18 v) = 18" using True by (simp add: slice_last_def)
  have dig: "list_all is_digit (slice_but_last 18 v)" "list_all is_digit (slice_last 18 v)"
    using assms v by (metis all_digits_def list_all_append)+
  have "digits_value v = digits_value (slice_but_last 18 v) * 10 ^ 18 + digits_value (slice_last 18 v)"
    using digits_value_append[of "slice_but_last 18 v" "slice_last 18 v"] v len by simp
  then show ?thesis using True len dig by simp
next
  case False
  have "digits_value ''0'' = 0" using digits_value_zeros[of 1] by simp
  then show ?thesis using False assms by (simp add: all_digits_def is_digit_zero)
qed

text \<open>The display number of an 18-decimal amount is the double nearest to its exact value: nothing is lost
  before the one unavoidable rounding. Texts that are not decimal, and amounts too large for a double, have
  none.\<close>

theorem display_number_nearest:
  "nativeUsdc18ToDisplayNumber v = Some n \<longleftrightarrow>
     all_digits v \<and> is_finite_num n \<and> n = double_of (of_nat (digits_value v) / 10 ^ 18)"
proof (cases "all_digits v")
  case True
  from split_digits_value[OF True] obtain w f where wf:
    "(if length v > 18 then slice_but_last 18 v else ''0'') = w"
    "(if length v > 18 then slice_last 18 v else pad_start 18 v) = f"
    "list_all is_digit w" "list_all is_digit f" "length f = 18"
    "digits_value w * 10 ^ 18 + digits_value f = digits_value v" by blast
  have "(of_nat (digits_value v) :: rat) = of_nat (digits_value w) * 10 ^ 18 + of_nat (digits_value f)"
    unfolding wf(6)[symmetric] by simp
  then have "decimal_value (w @ ''.'' @ f) = of_nat (digits_value v) / 10 ^ 18"
    using wf(3,5) by (simp add: decimal_value_def add_divide_distrib)
  then have "number_of_decimal (w @ ''.'' @ f) = double_of (of_nat (digits_value v) / 10 ^ 18)"
    unfolding number_of_decimal_def by (rule arg_cong)
  then show ?thesis using True unfolding nativeUsdc18ToDisplayNumber_def Let_def wf(1,2) by auto
qed (simp add: nativeUsdc18ToDisplayNumber_def)

lemma precision_bounds: "8 \<le> tradingViewDisplayPrecision p \<and> tradingViewDisplayPrecision p \<le> 12"
  by (auto simp: tradingViewDisplayPrecision_def Let_def split: option.splits)

lemma price_scale_safe: "tradingViewPriceScale p dvd 10 ^ 12"
proof -
  have "nat (tradingViewDisplayPrecision p) \<le> 12" using precision_bounds[of p] by linarith
  then show ?thesis unfolding tradingViewPriceScale_def by (rule le_imp_power_dvd)
qed

end
