(* ===== verification/CtoFlow.thy ===== *)
theory CtoFlow
  imports ClientEnv JsDouble
begin

text \<open>
  Community takeovers (\<^verbatim>\<open>lib/cto-transactions.ts\<close>): what the client reads of a takeover, the
  rules it checks before each of the five takeover transactions, and their submission and
  confirmation. viem's \<^verbatim>\<open>isAddress\<close>, \<^verbatim>\<open>keccak256\<close>, the calldata encoder and the struct that
  the registry's \<^verbatim>\<open>proposal\<close> view returns are parameters.
\<close>

subsection \<open>Constants and data\<close>

definition CTO_ACCEPTANCE_WINDOW :: int where
  "CTO_ACCEPTANCE_WINDOW = 7 * 24 * 60 * 60"

definition CTO_EXECUTION_DELAY :: int where
  "CTO_EXECUTION_DELAY = 72 * 60 * 60"

definition CTO_EXECUTION_GRACE_PERIOD :: int where
  "CTO_EXECUTION_GRACE_PERIOD = 7 * 24 * 60 * 60"

record cto_proposal =
  cp_token :: string
  cp_creator :: string
  cp_controller :: string
  cp_treasury :: string
  cp_previousRecipient :: string
  cp_metadataHash :: string
  cp_nonce :: int
  cp_createdAt :: int
  cp_acceptedAt :: int
  cp_state :: int

record cto_state =
  cs_registry :: string
  cs_creator :: string
  cs_currentProposalId :: string
  cs_proposal :: "cto_proposal option"
  cs_currentPayout :: string
  cs_blockTimestamp :: jsnum
  cs_acceptanceWindow :: jsnum
  cs_executionDelay :: jsnum
  cs_executionGracePeriod :: jsnum

record cto_library =
  cl_isAddress :: "string \<Rightarrow> bool"
  cl_keccak :: "string \<Rightarrow> string"
  cl_encodeAccept :: "string \<Rightarrow> string result"
  cl_proposal :: "trace \<Rightarrow> string \<Rightarrow> string \<Rightarrow> cto_proposal result"

definition zero_hash :: string where
  "zero_hash = ''0x'' @ replicate 64 (CHR ''0'')"

definition zero_address :: string where
  "zero_address = ''0x'' @ replicate 40 (CHR ''0'')"

subsection \<open>Checks of inputs\<close>

definition configuredCTORegistry :: "client \<Rightarrow> string result" where
  "configuredCTORegistry c =
     (case truthy (ctoRegistry (c_contracts c)) of
        None \<Rightarrow> Inl (Err ''The CTO registry address is not configured.'')
      | Some registry \<Rightarrow> c_getAddress c registry)"

definition resolveCTOMetadata :: "cto_library \<Rightarrow> string \<Rightarrow> (string \<times> string) result" where
  "resolveCTOMetadata L metadataURI =
     (let normalized = js_trim metadataURI in
      try_bind (throw_if (length normalized > 256) ''The metadata URI must not exceed 256 UTF-8 bytes.'') (\<lambda>_.
        Inr (normalized, if normalized \<noteq> [] then cl_keccak L normalized else zero_hash)))"

definition validateControllerAddress :: "client \<Rightarrow> cto_library \<Rightarrow> string \<Rightarrow> string result" where
  "validateControllerAddress c L v =
     try_bind (throw_if (\<not> cl_isAddress L v) ''Enter a valid EVM controller contract address.'') (\<lambda>_.
     try_bind (c_getAddress c v) (\<lambda>address.
     try_bind (throw_if (address = zero_address) ''The controller cannot be the zero address.'') (\<lambda>_.
       Inr address)))"

definition requireDeployedController :: "client \<Rightarrow> cto_library \<Rightarrow> string \<Rightarrow> string option \<Rightarrow> string result" where
  "requireDeployedController c L v bytecode =
     try_bind (validateControllerAddress c L v) (\<lambda>address.
     try_bind (throw_if (no_code bytecode) ''The controller must be a deployed contract, normally a Safe.'') (\<lambda>_.
       Inr address))"

record acceptance_payload =
  ap_target :: string
  ap_value :: int
  ap_data :: string

definition buildCTOAcceptancePayload ::
    "client \<Rightarrow> cto_library \<Rightarrow> string \<Rightarrow> string \<Rightarrow> acceptance_payload result" where
  "buildCTOAcceptancePayload c L treasury proposalId =
     try_bind (c_getAddress c treasury) (\<lambda>target.
     try_bind (cl_encodeAccept L proposalId) (\<lambda>data.
       Inr \<lparr>ap_target = target, ap_value = 0, ap_data = data\<rparr>))"

subsection \<open>The state of a takeover on the chain\<close>

text \<open>\<^verbatim>\<open>Number(x)\<close> of a \<^verbatim>\<open>bigint\<close>.\<close>

definition number_of_bigint :: "int \<Rightarrow> jsnum" where
  "number_of_bigint i = double_of (of_int i)"

definition normalizedProposal :: "client \<Rightarrow> cto_proposal \<Rightarrow> cto_proposal result" where
  "normalizedProposal c raw =
     try_bind (c_getAddress c (cp_token raw)) (\<lambda>token.
     try_bind (c_getAddress c (cp_creator raw)) (\<lambda>creator.
     try_bind (c_getAddress c (cp_controller raw)) (\<lambda>controller.
     try_bind (c_getAddress c (cp_treasury raw)) (\<lambda>treasury.
     try_bind (c_getAddress c (cp_previousRecipient raw)) (\<lambda>previous.
       Inr (raw\<lparr>cp_token := token, cp_creator := creator, cp_controller := controller,
         cp_treasury := treasury, cp_previousRecipient := previous\<rparr>))))))"

definition checkFeeManager :: "client \<Rightarrow> string \<Rightarrow> unit result" where
  "checkFeeManager c manager =
     (case truthy (feeManager (c_contracts c)) of
        None \<Rightarrow> Inr ()
      | Some configured \<Rightarrow>
          try_bind (equalAddresses c manager configured) (\<lambda>same.
            throw_if (\<not> same) ''The CTO registry does not reference the configured FeeManagerV3.''))"

definition readProposal :: "cto_library \<Rightarrow> string \<Rightarrow> string \<Rightarrow> cto_proposal option io" where
  "readProposal L registry proposalId =
     (if proposalId = zero_hash then io_return None
      else io_bind (io_call (EvRead registry ''proposal'' [AText proposalId])
             (\<lambda>tr. cl_proposal L tr registry proposalId)) (\<lambda>p. io_return (Some p)))"

text \<open>\<^verbatim>\<open>tokenInfo\<close> answers a tuple, of which only the first component, the creator, is used.\<close>

definition readCTOChainState :: "client \<Rightarrow> cto_library \<Rightarrow> string \<Rightarrow> cto_state io" where
  "readCTOChainState c L tokenInput =
     io_bind (io_result (configuredCTORegistry c)) (\<lambda>registry.
     io_bind (case truthy (cooketFactory (c_contracts c)) of
          None \<Rightarrow> io_throw (Err ''The Cooket factory address is not configured.'')
        | Some factory \<Rightarrow> io_return factory) (\<lambda>factory.
     io_bind (io_result (c_getAddress c tokenInput)) (\<lambda>token.
     io_bind (io_both (readText c factory ''tokenInfo'' [AText token])
             (io_both (readText c registry ''currentProposalId'' [AText token])
             (io_both (readText c registry ''feeManager'' [])
             (io_both (getLatestTimestamp c)
             (io_both (readInt c registry ''ACCEPTANCE_WINDOW'' [])
             (io_both (readInt c registry ''EXECUTION_DELAY'' [])
                      (readInt c registry ''EXECUTION_GRACE_PERIOD'' [])))))))
       (\<lambda>(tokenCreator, currentProposalId, manager, timestamp, acceptance, delay, grace).
     io_bind (io_both (readProposal L registry currentProposalId)
                      (readText c manager ''creatorPayoutOf'' [AText token])) (\<lambda>(proposal, payout).
     io_bind (io_result (checkFeeManager c manager)) (\<lambda>_.
     io_bind (io_result (c_getAddress c tokenCreator)) (\<lambda>creator.
     io_bind (io_result (case proposal of None \<Rightarrow> Inr None
        | Some raw \<Rightarrow> try_bind (normalizedProposal c raw) (\<lambda>p. Inr (Some p)))) (\<lambda>normalized.
     io_bind (io_result (c_getAddress c payout)) (\<lambda>currentPayout.
       io_return \<lparr>cs_registry = registry, cs_creator = creator, cs_currentProposalId = currentProposalId,
         cs_proposal = normalized, cs_currentPayout = currentPayout,
         cs_blockTimestamp = number_of_bigint timestamp,
         cs_acceptanceWindow = number_of_bigint acceptance,
         cs_executionDelay = number_of_bigint delay,
         cs_executionGracePeriod = number_of_bigint grace\<rparr>)))))))))"

subsection \<open>Submission\<close>

definition cto_receipt_timeout :: nat where
  "cto_receipt_timeout = 120000"

definition submitAndConfirm :: "client \<Rightarrow> string \<Rightarrow> call_spec \<Rightarrow> string io" where
  "submitAndConfirm c account request =
     io_bind (signedWrite c account request) (\<lambda>hash.
     io_bind (waitForTransactionReceipt c hash (Some cto_receipt_timeout)) (\<lambda>(reason, receipt).
     io_bind (io_throw_if (rc_status receipt \<noteq> ''success'') ''The CTO transaction reverted.'') (\<lambda>_.
       io_return hash)))"

definition cto_call :: "string \<Rightarrow> string \<Rightarrow> arg list \<Rightarrow> string \<Rightarrow> call_spec" where
  "cto_call target fn args account =
     \<lparr>call_to = target, call_fn = fn, call_args = args, call_account = account, call_value = 0\<rparr>"

text \<open>The last two lines of each of the five flows.\<close>

definition simulateAndSubmit :: "client \<Rightarrow> string \<Rightarrow> call_spec \<Rightarrow> string io" where
  "simulateAndSubmit c account spec =
     io_bind (simulateContract c spec) (\<lambda>request. submitAndConfirm c account request)"

definition proposeCTO ::
    "client \<Rightarrow> cto_library \<Rightarrow> string \<Rightarrow> string \<Rightarrow> string \<Rightarrow> string \<Rightarrow> string io" where
  "proposeCTO c L accountInput tokenInput controllerInput metadataURIInput =
     io_bind (gate c) (\<lambda>_.
     io_bind (io_result (c_getAddress c accountInput)) (\<lambda>account.
     io_bind (io_result (c_getAddress c tokenInput)) (\<lambda>token.
     io_bind (io_result (validateControllerAddress c L controllerInput)) (\<lambda>controller.
     io_bind (io_result (resolveCTOMetadata L metadataURIInput)) (\<lambda>(metadataURI, metadataHash).
     io_bind (io_both (getBytecode c controller) (readCTOChainState c L token)) (\<lambda>(controllerCode, state).
     io_bind (io_result (requireDeployedController c L controller controllerCode)) (\<lambda>_.
     io_bind (io_throw_if (cs_creator state \<noteq> account)
         ''Only the canonical token creator can start a community takeover.'') (\<lambda>_.
     io_bind (io_throw_if (case cs_proposal state of None \<Rightarrow> False
           | Some p \<Rightarrow> cp_state p = 1 \<or> cp_state p = 2 \<or> cp_state p = 5)
         ''This token already has a live CTO proposal.'') (\<lambda>_.
       simulateAndSubmit c account
         (cto_call (cs_registry state) ''proposeCTO''
            [AText token, AText controller, AText metadataHash, AText metadataURI] account))))))))))"

definition proposal_changed_message :: string where
  "proposal_changed_message = ''The on-chain CTO proposal state changed. Refresh before continuing.''"

text \<open>\<^verbatim>\<open>state.proposal!\<close> of the callers is the second component.\<close>

definition freshProposal ::
    "client \<Rightarrow> cto_library \<Rightarrow> string \<Rightarrow> string \<Rightarrow> int list \<Rightarrow> (cto_state \<times> cto_proposal) io" where
  "freshProposal c L token proposalId states =
     io_bind (readCTOChainState c L token) (\<lambda>state.
       if cs_currentProposalId state \<noteq> proposalId then io_throw (Err proposal_changed_message)
       else case cs_proposal state of
           None \<Rightarrow> io_throw (Err proposal_changed_message)
         | Some p \<Rightarrow>
             io_bind (io_result (c_getAddress c token)) (\<lambda>t.
             io_bind (io_throw_if (cp_token p \<noteq> t \<or> cp_state p \<notin> set states) proposal_changed_message) (\<lambda>_.
               io_return (state, p))))"

text \<open>The relationships of a treasury, compared left to right with the short circuit of
  \<^verbatim>\<open>||\<close>.\<close>

definition treasuryLinked ::
    "client \<Rightarrow> string \<Rightarrow> string \<Rightarrow> string \<Rightarrow> string \<Rightarrow> string \<Rightarrow> string \<Rightarrow> bool result" where
  "treasuryLinked c account registry token treasuryController treasuryRegistry treasuryToken =
     try_bind (c_getAddress c treasuryController) (\<lambda>x.
       if x \<noteq> account then Inr False
       else try_bind (c_getAddress c treasuryRegistry) (\<lambda>y.
         if y \<noteq> registry then Inr False
         else try_bind (c_getAddress c treasuryToken) (\<lambda>z.
           try_bind (c_getAddress c token) (\<lambda>t. Inr (z = t)))))"

definition acceptCTOFromController ::
    "client \<Rightarrow> cto_library \<Rightarrow> string \<Rightarrow> string \<Rightarrow> string \<Rightarrow> string io" where
  "acceptCTOFromController c L accountInput token proposalId =
     io_bind (gate c) (\<lambda>_.
     io_bind (io_result (c_getAddress c accountInput)) (\<lambda>account.
     io_bind (freshProposal c L token proposalId [1]) (\<lambda>(state, proposal).
     io_bind (io_throw_if (account \<noteq> cp_controller proposal)
         ''Acceptance must be submitted by the proposal controller contract.'') (\<lambda>_.
     io_bind (io_both (getBytecode c account)
             (io_both (readText c (cp_treasury proposal) ''controller'' [])
             (io_both (readText c (cp_treasury proposal) ''registry'' [])
                      (readText c (cp_treasury proposal) ''launchToken'' []))))
       (\<lambda>(accountCode, treasuryController, treasuryRegistry, treasuryToken).
     io_bind (io_throw_if (no_code accountCode)
         ''An ordinary EOA cannot accept this proposal. Submit the payload through the controller contract wallet.'') (\<lambda>_.
     io_bind (io_result (treasuryLinked c account (cs_registry state) token
         treasuryController treasuryRegistry treasuryToken)) (\<lambda>linked.
     io_bind (io_throw_if (\<not> linked)
         ''The CTO treasury relationships do not match the indexed proposal.'') (\<lambda>_.
       simulateAndSubmit c account
         (cto_call (cp_treasury proposal) ''acceptCTO'' [AText proposalId] account)))))))))"

definition cancelCTO :: "client \<Rightarrow> cto_library \<Rightarrow> string \<Rightarrow> string \<Rightarrow> string \<Rightarrow> string io" where
  "cancelCTO c L accountInput token proposalId =
     io_bind (gate c) (\<lambda>_.
     io_bind (io_result (c_getAddress c accountInput)) (\<lambda>account.
     io_bind (freshProposal c L token proposalId [1, 2]) (\<lambda>(state, proposal).
     io_bind (io_throw_if (cs_creator state \<noteq> account \<or> cp_creator proposal \<noteq> account)
         ''Only the canonical token creator can cancel this proposal.'') (\<lambda>_.
       simulateAndSubmit c account
         (cto_call (cs_registry state) ''cancelCTO'' [AText proposalId] account)))))"

definition expireCTO :: "client \<Rightarrow> cto_library \<Rightarrow> string \<Rightarrow> string \<Rightarrow> string \<Rightarrow> string io" where
  "expireCTO c L account token proposalId =
     io_bind (gate c) (\<lambda>_.
     io_bind (freshProposal c L token proposalId [1, 2]) (\<lambda>(state, proposal).
       simulateAndSubmit c account
         (cto_call (cs_registry state) ''expireCTO'' [AText proposalId] account)))"

definition executeCTO :: "client \<Rightarrow> cto_library \<Rightarrow> string \<Rightarrow> string \<Rightarrow> string \<Rightarrow> string io" where
  "executeCTO c L account token proposalId =
     io_bind (gate c) (\<lambda>_.
     io_bind (freshProposal c L token proposalId [2]) (\<lambda>(state, proposal).
     io_bind (io_throw_if (cs_currentPayout state \<noteq> cp_previousRecipient proposal)
         ''The creator payout changed after proposal creation; execution is no longer safe.'') (\<lambda>_.
       simulateAndSubmit c account
         (cto_call (cs_registry state) ''executeCTO'' [AText proposalId] account))))"

subsection \<open>What a takeover transaction does\<close>

text \<open>
  Either nothing was sent and the run threw, or exactly one request was: the node's answer to the
  simulation of \<^verbatim>\<open>spec\<close>, signed for the account it was simulated for right after the wallet
  confirmed it; then only the receipt of the returned hash was awaited, and the run returned that
  hash exactly when the receipt is a success.
\<close>

definition confirmed_by :: "client \<Rightarrow> string \<Rightarrow> trace \<Rightarrow> js_error + string \<Rightarrow> bool" where
  "confirmed_by c hash tr r \<longleftrightarrow>
     (case snd (c_waitReceipt c tr hash) of
        Inl e \<Rightarrow> r = Inl e
      | Inr receipt \<Rightarrow> r = (if rc_status receipt = ''success'' then Inr hash
          else Inl (Err ''The CTO transaction reverted.'')))"

definition sent_once :: "client \<Rightarrow> call_spec \<Rightarrow> trace \<Rightarrow> js_error + string \<Rightarrow> trace \<Rightarrow> bool" where
  "sent_once c spec tr r t \<longleftrightarrow>
     (\<exists>p request s. let t0 = p @ [EvSimulate spec, EvWalletChainId, EvWalletAddresses] in
        t = t0 @ EvWrite request # s \<and> writes p = writes tr
        \<and> c_simulate c p spec = Inr request \<and> signer_verified c (call_account spec) t0 request
        \<and> (case c_write c t0 request of
             Inl e \<Rightarrow> r = Inl e \<and> s = []
           | Inr hash \<Rightarrow> s = [EvWaitReceipt hash (Some cto_receipt_timeout)]
               \<and> confirmed_by c hash (t0 @ [EvWrite request]) r))"

definition cto_outcome :: "client \<Rightarrow> trace \<Rightarrow> js_error + string \<Rightarrow> trace \<Rightarrow> bool" where
  "cto_outcome c tr r t \<longleftrightarrow>
     writes t = writes tr \<and> (\<exists>e. r = Inl e) \<or> (\<exists>spec. sent_once c spec tr r t)"

lemma submitAndConfirm_sends:
  assumes "submitAndConfirm c account request t1 = (r, t)"
  shows "(writes t = writes t1 \<and> (\<exists>e. r = Inl e)) \<or>
    (let t0 = t1 @ [EvWalletChainId, EvWalletAddresses] in
      \<exists>s. t = t0 @ EvWrite request # s \<and> signer_verified c account t0 request
        \<and> (case c_write c t0 request of
             Inl e \<Rightarrow> r = Inl e \<and> s = []
           | Inr hash \<Rightarrow> s = [EvWaitReceipt hash (Some cto_receipt_timeout)]
               \<and> confirmed_by c hash (t0 @ [EvWrite request]) r))"
proof -
  obtain q t2 where check: "assertActiveWalletClient c account t1 = (q, t2)"
    by (cases "assertActiveWalletClient c account t1")
  show ?thesis
  proof (cases q)
    case (Inl e)
    then have "r = Inl e" "t = t2"
      using assms check by (simp_all add: submitAndConfirm_def signedWrite_def io_bind_def)
    then show ?thesis using read_only_writes[OF assertActiveWalletClient_read_only check] by blast
  next
    case (Inr u)
    with check have ok: "assertActiveWalletClient c account t1 = (Inr u, t2)" by simp
    obtain w where answer: "c_waitReceipt c (t2 @ [EvWrite request]) h = w h" for h by blast
    show ?thesis
      using assms assertActiveWalletClient_Inr(2)[OF ok]
        assertActiveWalletClient_Inr(1)[OF ok, of request] ok
      by (cases "c_write c t2 request")
        (auto simp: submitAndConfirm_def signedWrite_def io_bind_def writeContract_def io_call_def Let_def
          waitForTransactionReceipt_def confirmed_by_def io_throw_if_def io_result_def throw_if_def io_return_def
          split: prod.splits sum.splits if_splits)
  qed
qed

lemma simulateAndSubmit_sends:
  assumes "call_account spec = account"
    and flow: "simulateAndSubmit c account spec tr = (r, t)"
  shows "writes t = writes tr \<and> (\<exists>e. r = Inl e) \<or> sent_once c spec tr r t"
proof (cases "c_simulate c tr spec")
  case (Inl e)
  then show ?thesis using flow
    by (auto simp: simulateAndSubmit_def simulateContract_def io_steps)
next
  case (Inr request)
  then have run: "submitAndConfirm c account request (tr @ [EvSimulate spec]) = (r, t)"
    using flow by (simp add: simulateAndSubmit_def simulateContract_def io_steps)
  show ?thesis
    using submitAndConfirm_sends[OF run]
  proof (elim disjE)
    assume "writes t = writes (tr @ [EvSimulate spec]) \<and> (\<exists>e. r = Inl e)"
    then show ?thesis by simp
  next
    assume "let t0 = (tr @ [EvSimulate spec]) @ [EvWalletChainId, EvWalletAddresses] in
      \<exists>s. t = t0 @ EvWrite request # s \<and> signer_verified c account t0 request
        \<and> (case c_write c t0 request of
             Inl e \<Rightarrow> r = Inl e \<and> s = []
           | Inr hash \<Rightarrow> s = [EvWaitReceipt hash (Some cto_receipt_timeout)]
               \<and> confirmed_by c hash (t0 @ [EvWrite request]) r)"
    then obtain s where "t = ((tr @ [EvSimulate spec]) @ [EvWalletChainId, EvWalletAddresses]) @ EvWrite request # s"
      "signer_verified c account ((tr @ [EvSimulate spec]) @ [EvWalletChainId, EvWalletAddresses]) request"
      "case c_write c ((tr @ [EvSimulate spec]) @ [EvWalletChainId, EvWalletAddresses]) request of
         Inl e \<Rightarrow> r = Inl e \<and> s = []
       | Inr hash \<Rightarrow> s = [EvWaitReceipt hash (Some cto_receipt_timeout)]
           \<and> confirmed_by c hash (((tr @ [EvSimulate spec]) @ [EvWalletChainId, EvWalletAddresses]) @ [EvWrite request]) r"
      unfolding Let_def by blast
    then have "sent_once c spec tr r t"
      using Inr assms unfolding sent_once_def Let_def append_assoc append_Cons append_Nil
      by - (rule exI[of _ tr], rule exI[of _ request], rule exI[of _ s], simp)
    then show ?thesis by blast
  qed
qed

text \<open>Reading before the submission changes nothing about its outcome.\<close>

definition cto_flow :: "client \<Rightarrow> string io \<Rightarrow> bool" where
  "cto_flow c m \<longleftrightarrow> (\<forall>tr. cto_outcome c tr (fst (m tr)) (snd (m tr)))"

named_theorems cto_flow_intros \<open>flows that submit one takeover transaction\<close>

lemma cto_outcome_writes: "writes t1 = writes tr \<Longrightarrow> cto_outcome c t1 r t \<Longrightarrow> cto_outcome c tr r t"
  unfolding cto_outcome_def sent_once_def by simp

lemma cto_flow_bind [cto_flow_intros]:
  assumes "read_only m" and "\<And>a. cto_flow c (f a)"
  shows "cto_flow c (io_bind m f)"
proof (unfold cto_flow_def, intro allI)
  fix tr
  obtain r t where run: "m tr = (r, t)" by (cases "m tr")
  have w: "writes t = writes tr" by (rule read_only_writes[OF assms(1) run])
  show "cto_outcome c tr (fst (io_bind m f tr)) (snd (io_bind m f tr))"
  proof (cases r)
    case (Inl e)
    then show ?thesis using run w by (simp add: io_bind_def cto_outcome_def)
  next
    case (Inr a)
    then show ?thesis using run assms(2)[of a] cto_outcome_writes[OF w]
      by (simp add: io_bind_def cto_flow_def)
  qed
qed

lemma cto_flow_prod [cto_flow_intros]:
  "(\<And>a b. x = (a, b) \<Longrightarrow> cto_flow c (f a b)) \<Longrightarrow> cto_flow c (case x of (a, b) \<Rightarrow> f a b)"
  by (cases x) auto

lemma cto_flow_submit [cto_flow_intros]:
  "cto_flow c (simulateAndSubmit c account (cto_call target fn args account))"
proof -
  have "call_account (cto_call target fn args account) = account" by (simp add: cto_call_def)
  from simulateAndSubmit_sends[OF this] show ?thesis
    unfolding cto_flow_def cto_outcome_def by (metis prod.collapse)
qed

lemma readProposal_read_only [emits_intros]: "read_only (readProposal L registry proposalId)"
  unfolding readProposal_def by (intro emits_intros) simp

lemma readCTOChainState_read_only [emits_intros]: "read_only (readCTOChainState c L token)"
  unfolding readCTOChainState_def by (intro emits_intros)

lemma freshProposal_read_only [emits_intros]: "read_only (freshProposal c L token proposalId states)"
  unfolding freshProposal_def by (intro emits_intros)

lemma cto_flows:
  "cto_flow c (proposeCTO c L accountInput token controller metadataURI)"
  "cto_flow c (acceptCTOFromController c L accountInput token proposalId)"
  "cto_flow c (cancelCTO c L accountInput token proposalId)"
  "cto_flow c (expireCTO c L account token proposalId)"
  "cto_flow c (executeCTO c L account token proposalId)"
  unfolding proposeCTO_def acceptCTOFromController_def cancelCTO_def expireCTO_def executeCTO_def
  by (intro cto_flow_intros emits_intros; simp)+

text \<open>C14: whatever the node and the wallet answer, a takeover transaction (propose, accept, cancel,
  expire, execute) hands the wallet at most one request: the node's answer to simulating the call, right
  after the wallet confirmed chain and signer for the account of the call. When nothing was sent the flow
  threw; when a request was sent, the flow reports the wallet's refusal, or the hash exactly when the
  receipt it then waits for is a success.\<close>

theorem cto_transaction_once:
  assumes "run = proposeCTO c L account token controller metadataURI
      \<or> run = acceptCTOFromController c L account token proposalId
      \<or> run = cancelCTO c L account token proposalId
      \<or> run = expireCTO c L account token proposalId
      \<or> run = executeCTO c L account token proposalId"
    and "run tr = (r, t)"
  shows "writes t = writes tr \<and> (\<exists>e. r = Inl e) \<or> (\<exists>spec. sent_once c spec tr r t)"
proof -
  have "cto_flow c run" using assms(1) by (elim disjE) (simp_all only: cto_flows)
  then have "cto_outcome c tr (fst (run tr)) (snd (run tr))" unfolding cto_flow_def by blast
  then show ?thesis using assms(2) by (simp add: cto_outcome_def)
qed

subsection \<open>Which proposals may be acted on\<close>

datatype cto_action = Accept | Cancel | Expire | Execute

fun cto_run :: "client \<Rightarrow> cto_library \<Rightarrow> cto_action \<Rightarrow> string \<Rightarrow> string \<Rightarrow> string \<Rightarrow> string io" where
  "cto_run c L Accept = acceptCTOFromController c L"
| "cto_run c L Cancel = cancelCTO c L"
| "cto_run c L Expire = expireCTO c L"
| "cto_run c L Execute = executeCTO c L"

text \<open>The registry's states: 1 is proposed, 2 accepted.\<close>

fun states_for :: "cto_action \<Rightarrow> int set" where
  "states_for Accept = {1}"
| "states_for Cancel = {1, 2}"
| "states_for Expire = {1, 2}"
| "states_for Execute = {2}"

fun allowed_for :: "client \<Rightarrow> cto_action \<Rightarrow> string \<Rightarrow> cto_state \<Rightarrow> cto_proposal \<Rightarrow> bool" where
  "allowed_for c Accept account state p \<longleftrightarrow> c_getAddress c account = Inr (cp_controller p)"
| "allowed_for c Cancel account state p \<longleftrightarrow>
     c_getAddress c account = Inr (cs_creator state) \<and> cp_creator p = cs_creator state"
| "allowed_for c Expire account state p \<longleftrightarrow> True"
| "allowed_for c Execute account state p \<longleftrightarrow> cs_currentPayout state = cp_previousRecipient p"

fun call_for :: "cto_action \<Rightarrow> cto_state \<Rightarrow> cto_proposal \<Rightarrow> string \<times> string" where
  "call_for Accept state p = (cp_treasury p, ''acceptCTO'')"
| "call_for Cancel state p = (cs_registry state, ''cancelCTO'')"
| "call_for Expire state p = (cs_registry state, ''expireCTO'')"
| "call_for Execute state p = (cs_registry state, ''executeCTO'')"

text \<open>Who signs: accepting and cancelling convert the account to its checksummed address first.\<close>

fun signer_for :: "client \<Rightarrow> cto_action \<Rightarrow> string \<Rightarrow> string \<Rightarrow> bool" where
  "signer_for c Accept account signer \<longleftrightarrow> c_getAddress c account = Inr signer"
| "signer_for c Cancel account signer \<longleftrightarrow> c_getAddress c account = Inr signer"
| "signer_for c Expire account signer \<longleftrightarrow> signer = account"
| "signer_for c Execute account signer \<longleftrightarrow> signer = account"

lemma freshProposal_Inr:
  assumes "freshProposal c L token proposalId states tr = (Inr (state, p), t)"
  shows "readCTOChainState c L token tr = (Inr state, t)"
    and "cs_currentProposalId state = proposalId" and "cs_proposal state = Some p"
    and "c_getAddress c token = Inr (cp_token p)" and "cp_state p \<in> set states"
  using assms unfolding freshProposal_def
  by (auto simp: io_bind_Inr io_if_throw_Inr io_option_Inr io_result_Inr io_throw_if_Inr io_return_Inr)

text \<open>A returned submission, in the form the rules below use.\<close>

lemma submitted:
  assumes "simulateAndSubmit c account (cto_call target fn args account) tr = (Inr h, t)"
  shows "sent_once c (cto_call target fn args account) tr (Inr h) t"
  using simulateAndSubmit_sends[OF _ assms] by (simp add: cto_call_def)

lemma gate_Inr: "gate c tr = (Inr u, t) \<longleftrightarrow> assertArcProtocolEconomicsReady (c_env c) (c_chain c) = Inr () \<and> t = tr"
  by (simp add: gate_def io_result_Inr)

lemmas cto_steps = io_bind_Inr io_result_Inr io_throw_if_Inr io_both_Inr gate_Inr split_paired_Ex prod.case fst_conv snd_conv

lemma cancel_returned:
  assumes "cancelCTO c L account token proposalId tr = (Inr h, t)"
  shows "\<exists>state p t1 a. assertArcProtocolEconomicsReady (c_env c) (c_chain c) = Inr ()
    \<and> freshProposal c L token proposalId [1, 2] tr = (Inr (state, p), t1)
    \<and> c_getAddress c account = Inr a \<and> cs_creator state = a \<and> cp_creator p = a
    \<and> sent_once c (cto_call (cs_registry state) ''cancelCTO'' [AText proposalId] a) t1 (Inr h) t"
  using assms submitted unfolding cancelCTO_def cto_steps by blast

lemma expire_returned:
  assumes "expireCTO c L account token proposalId tr = (Inr h, t)"
  shows "\<exists>state p t1. assertArcProtocolEconomicsReady (c_env c) (c_chain c) = Inr ()
    \<and> freshProposal c L token proposalId [1, 2] tr = (Inr (state, p), t1)
    \<and> sent_once c (cto_call (cs_registry state) ''expireCTO'' [AText proposalId] account) t1 (Inr h) t"
  using assms submitted unfolding expireCTO_def cto_steps by blast

lemma execute_returned:
  assumes "executeCTO c L account token proposalId tr = (Inr h, t)"
  shows "\<exists>state p t1. assertArcProtocolEconomicsReady (c_env c) (c_chain c) = Inr ()
    \<and> freshProposal c L token proposalId [2] tr = (Inr (state, p), t1)
    \<and> cs_currentPayout state = cp_previousRecipient p
    \<and> sent_once c (cto_call (cs_registry state) ''executeCTO'' [AText proposalId] account) t1 (Inr h) t"
  using assms submitted unfolding executeCTO_def cto_steps by blast

lemma accept_returned:
  assumes "acceptCTOFromController c L account token proposalId tr = (Inr h, t)"
  shows "\<exists>state p t1 a code x y z t2. assertArcProtocolEconomicsReady (c_env c) (c_chain c) = Inr ()
    \<and> freshProposal c L token proposalId [1] tr = (Inr (state, p), t1)
    \<and> c_getAddress c account = Inr a \<and> cp_controller p = a
    \<and> c_code c t1 a = Inr code \<and> \<not> no_code code
    \<and> treasuryLinked c a (cs_registry state) token x y z = Inr True
    \<and> writes t2 = writes t1
    \<and> sent_once c (cto_call (cp_treasury p) ''acceptCTO'' [AText proposalId] a) t2 (Inr h) t"
proof -
  from assms obtain a state p t1 code x y z t2 t3 t4 t5 linked where run:
    "assertArcProtocolEconomicsReady (c_env c) (c_chain c) = Inr ()" "c_getAddress c account = Inr a"
    "freshProposal c L token proposalId [1] tr = (Inr (state, p), t1)" "a = cp_controller p"
    "getBytecode c a t1 = (Inr code, t3)" "readText c (cp_treasury p) ''controller'' [] t3 = (Inr x, t4)"
    "readText c (cp_treasury p) ''registry'' [] t4 = (Inr y, t5)"
    "readText c (cp_treasury p) ''launchToken'' [] t5 = (Inr z, t2)" "\<not> no_code code"
    "treasuryLinked c a (cs_registry state) token x y z = Inr linked" "linked"
    "simulateAndSubmit c a (cto_call (cp_treasury p) ''acceptCTO'' [AText proposalId] a) t2 = (Inr h, t)"
    unfolding acceptCTOFromController_def cto_steps not_not by blast
  have "c_code c t1 a = Inr code" "writes t2 = writes t1" "cp_controller p = a" "linked = True"
    using run(4-8,11) by (auto simp: getBytecode_def readText_def io_call_Inr)
  then show ?thesis using run(1-3) run(9,10) submitted[OF run(12)] by blast
qed

lemma sent_once_writes: "sent_once c spec tr r t \<Longrightarrow> writes t1 = writes tr \<Longrightarrow> sent_once c spec t1 r t"
  by (simp add: sent_once_def)

text \<open>A takeover action that returned its hash acted on the proposal the user saw: with the gate open
  the registry still named it as the token's current proposal, it belongs to this token and was in a state
  the action allows (1 for accepting, 1 or 2 for cancelling and expiring, 2 for executing), the account was
  the controller for accepting and the token's and the proposal's creator for cancelling, and for executing
  the creator payout was still the one of the proposal. The one request sent is signed by that account and calls that function for that
  proposal, at the registry, or at the proposal's treasury for accepting.\<close>

theorem cto_action_rules:
  assumes "cto_run c L action account token proposalId tr = (Inr h, t)"
  shows "\<exists>state p t1 a target fn. assertArcProtocolEconomicsReady (c_env c) (c_chain c) = Inr ()
    \<and> readCTOChainState c L token tr = (Inr state, t1)
    \<and> cs_currentProposalId state = proposalId \<and> cs_proposal state = Some p
    \<and> c_getAddress c token = Inr (cp_token p)
    \<and> cp_state p \<in> states_for action \<and> allowed_for c action account state p
    \<and> call_for action state p = (target, fn) \<and> signer_for c action account a
    \<and> sent_once c (cto_call target fn [AText proposalId] a) tr (Inr h) t"
proof -
  have reads: "writes tr = writes t1" if "freshProposal c L token proposalId states tr = (x, t1)" for states x t1
    using read_only_writes[OF freshProposal_read_only that] by simp
  show ?thesis
  proof (cases action)
    case Accept
    with accept_returned[of c L account token proposalId tr h t] assms obtain state p t1 a t2 where f:
      "assertArcProtocolEconomicsReady (c_env c) (c_chain c) = Inr ()"
      "freshProposal c L token proposalId [1] tr = (Inr (state, p), t1)"
      "c_getAddress c account = Inr a" "cp_controller p = a" "writes t2 = writes t1"
      "sent_once c (cto_call (cp_treasury p) ''acceptCTO'' [AText proposalId] a) t2 (Inr h) t" by auto
    have "sent_once c (cto_call (cp_treasury p) ''acceptCTO'' [AText proposalId] a) tr (Inr h) t"
      using sent_once_writes[OF f(6)] reads[OF f(2)] f(5) by simp
    then show ?thesis using f(1,3,4) freshProposal_Inr[OF f(2)] Accept by auto
  next
    case Cancel
    with cancel_returned[of c L account token proposalId tr h t] assms obtain state p t1 a where f:
      "assertArcProtocolEconomicsReady (c_env c) (c_chain c) = Inr ()"
      "freshProposal c L token proposalId [1, 2] tr = (Inr (state, p), t1)"
      "c_getAddress c account = Inr a" "cs_creator state = a" "cp_creator p = a"
      "sent_once c (cto_call (cs_registry state) ''cancelCTO'' [AText proposalId] a) t1 (Inr h) t" by auto
    then show ?thesis using sent_once_writes[OF f(6) reads[OF f(2)]] freshProposal_Inr[OF f(2)] Cancel by auto
  next
    case Expire
    with expire_returned[of c L account token proposalId tr h t] assms obtain state p t1 where f:
      "assertArcProtocolEconomicsReady (c_env c) (c_chain c) = Inr ()"
      "freshProposal c L token proposalId [1, 2] tr = (Inr (state, p), t1)"
      "sent_once c (cto_call (cs_registry state) ''expireCTO'' [AText proposalId] account) t1 (Inr h) t" by auto
    then show ?thesis using sent_once_writes[OF f(3) reads[OF f(2)]] freshProposal_Inr[OF f(2)] Expire by auto
  next
    case Execute
    with execute_returned[of c L account token proposalId tr h t] assms obtain state p t1 where f:
      "assertArcProtocolEconomicsReady (c_env c) (c_chain c) = Inr ()"
      "freshProposal c L token proposalId [2] tr = (Inr (state, p), t1)"
      "cs_currentPayout state = cp_previousRecipient p"
      "sent_once c (cto_call (cs_registry state) ''executeCTO'' [AText proposalId] account) t1 (Inr h) t" by auto
    then show ?thesis using sent_once_writes[OF f(4) reads[OF f(2)]] freshProposal_Inr[OF f(2)] Execute by auto
  qed
qed

lemma requireDeployedController_Inr:
  "requireDeployedController c L v code = Inr a \<longleftrightarrow> validateControllerAddress c L v = Inr a \<and> \<not> no_code code"
  by (auto simp: requireDeployedController_def try_bind_Inr_iff)

text \<open>C32: a proposal that returned its hash named, with the gate open, a controller that is a nonzero address
  with code, was made by the token's creator as the registered factory reports it, while no proposal of the
  token was live (state 1, 2 or 5), and the one request sent calls \<^verbatim>\<open>proposeCTO\<close> at the configured registry
  with the token, the controller, the trimmed metadata URI of at most 256 bytes and its hash, the zero hash
  for an empty one.\<close>

theorem proposeCTO_rules:
  assumes "proposeCTO c L accountInput tokenInput controllerInput uri tr = (Inr h, t)"
  shows "\<exists>account token controller code state t1.
    assertArcProtocolEconomicsReady (c_env c) (c_chain c) = Inr ()
    \<and> c_getAddress c accountInput = Inr account \<and> c_getAddress c tokenInput = Inr token
    \<and> cl_isAddress L controllerInput \<and> c_getAddress c controllerInput = Inr controller \<and> controller \<noteq> zero_address
    \<and> c_code c tr controller = Inr code \<and> \<not> no_code code \<and> length (js_trim uri) \<le> 256
    \<and> readCTOChainState c L token (tr @ [EvCode controller]) = (Inr state, t1)
    \<and> cs_creator state = account
    \<and> map_option cp_state (cs_proposal state) \<notin> {Some 1, Some 2, Some 5}
    \<and> sent_once c (cto_call (cs_registry state) ''proposeCTO''
         [AText token, AText controller, AText (if js_trim uri = [] then zero_hash else cl_keccak L (js_trim uri)),
          AText (js_trim uri)] account) tr (Inr h) t"
proof -
  obtain account token controller m mh code state t1 t2 a where run:
    "assertArcProtocolEconomicsReady (c_env c) (c_chain c) = Inr ()"
    "c_getAddress c accountInput = Inr account" "c_getAddress c tokenInput = Inr token"
    "validateControllerAddress c L controllerInput = Inr controller"
    "resolveCTOMetadata L uri = Inr (m, mh)" "getBytecode c controller tr = (Inr code, t2)"
    "readCTOChainState c L token t2 = (Inr state, t1)"
    "requireDeployedController c L controller code = Inr a" "\<not> cs_creator state \<noteq> account"
    "\<not> (case cs_proposal state of None \<Rightarrow> False | Some p \<Rightarrow> cp_state p = 1 \<or> cp_state p = 2 \<or> cp_state p = 5)"
    "simulateAndSubmit c account (cto_call (cs_registry state) ''proposeCTO''
        [AText token, AText controller, AText mh, AText m] account) t1 = (Inr h, t)"
    using assms unfolding proposeCTO_def cto_steps by blast
  have code: "t2 = tr @ [EvCode controller]" "c_code c tr controller = Inr code"
    using run(6) by (simp_all add: getBytecode_def io_call_Inr)
  have "writes tr = writes t1"
    using read_only_writes[OF readCTOChainState_read_only run(7)] code(1) by simp
  from sent_once_writes[OF submitted[OF run(11)] this] have sent: "sent_once c (cto_call (cs_registry state)
      ''proposeCTO'' [AText token, AText controller, AText mh, AText m] account) tr (Inr h) t" .
  have m: "length (js_trim uri) \<le> 256" "m = js_trim uri"
    "mh = (if js_trim uri = [] then zero_hash else cl_keccak L (js_trim uri))"
    using run(5) by (auto simp: resolveCTOMetadata_def Let_def try_bind_Inr_iff)
  have ctl: "cl_isAddress L controllerInput" "c_getAddress c controllerInput = Inr controller" "controller \<noteq> zero_address"
    using run(4) by (auto simp: validateControllerAddress_def try_bind_Inr_iff)
  have "map_option cp_state (cs_proposal state) \<notin> {Some 1, Some 2, Some 5}"
    using run(10) by (auto split: option.splits)
  then show ?thesis using run(1-3) run(7,8,9) code m ctl sent
    by (auto simp: requireDeployedController_Inr)
qed

subsection \<open>A takeover on a concrete chain\<close>

definition demo_proposal :: cto_proposal where
  "demo_proposal = \<lparr>cp_token = ''0xt'', cp_creator = ''0xa'', cp_controller = ''0xs'', cp_treasury = ''0xy'',
     cp_previousRecipient = ''0xc'', cp_metadataHash = ''0x'', cp_nonce = 1, cp_createdAt = 5, cp_acceptedAt = 6,
     cp_state = 2\<rparr>"

definition demo_library :: cto_library where
  "demo_library = \<lparr>cl_isAddress = (\<lambda>s. s \<noteq> []), cl_keccak = (\<lambda>s. ''0xk''), cl_encodeAccept = Inr,
     cl_proposal = (\<lambda>tr registry i. Inr demo_proposal)\<rparr>"

definition demo_cto_state :: cto_state where
  "demo_cto_state = \<lparr>cs_registry = ''0xr'', cs_creator = ''0xc'', cs_currentProposalId = ''0xc'',
     cs_proposal = Some demo_proposal, cs_currentPayout = ''0xc'', cs_blockTimestamp = number_of_bigint 1000,
     cs_acceptanceWindow = number_of_bigint 50, cs_executionDelay = number_of_bigint 50,
     cs_executionGracePeriod = number_of_bigint 50\<rparr>"

definition demo_reads :: trace where
  "demo_reads = [EvRead ''0xf'' ''tokenInfo'' [AText ''0xt''], EvRead ''0xr'' ''currentProposalId'' [AText ''0xt''],
     EvRead ''0xr'' ''feeManager'' [], EvLatestBlock, EvRead ''0xr'' ''ACCEPTANCE_WINDOW'' [],
     EvRead ''0xr'' ''EXECUTION_DELAY'' [], EvRead ''0xr'' ''EXECUTION_GRACE_PERIOD'' [],
     EvRead ''0xr'' ''proposal'' [AText ''0xc''], EvRead ''0xc'' ''creatorPayoutOf'' [AText ''0xt'']]"

lemma demo_read_state:
  "readCTOChainState demo demo_library ''0xt'' tr = (Inr demo_cto_state, tr @ demo_reads)"
proof -
  have "zero_hash \<noteq> ''0xc''" by code_simp
  then show ?thesis
    by (simp add: readCTOChainState_def configuredCTORegistry_def checkFeeManager_def readProposal_def
      normalizedProposal_def demo_def demo_contracts_def demo_library_def demo_proposal_def demo_cto_state_def
      demo_reads_def truthy_def io_defs request_defs)
qed

definition demo_executed :: trace where
  "demo_executed = demo_reads @ [EvSimulate (cto_call ''0xr'' ''executeCTO'' [AText ''0xc''] ''0xa''), EvWalletChainId,
     EvWalletAddresses, EvWrite (cto_call ''0xr'' ''executeCTO'' [AText ''0xc''] ''0xa''),
     EvWaitReceipt ''0xh'' (Some cto_receipt_timeout)]"

lemma demo_fresh:
  "freshProposal demo demo_library ''0xt'' ''0xc'' [2] tr = (Inr (demo_cto_state, demo_proposal), tr @ demo_reads)"
proof -
  have "c_getAddress demo = Inr" by (simp add: demo_def)
  moreover have "cs_currentProposalId demo_cto_state = ''0xc''" "cs_proposal demo_cto_state = Some demo_proposal"
    "cp_token demo_proposal = ''0xt''" "cp_state demo_proposal = 2"
    by (simp_all add: demo_cto_state_def demo_proposal_def)
  ultimately show ?thesis
    by (simp add: freshProposal_def io_bind_def demo_read_state io_result_def io_throw_if_def io_return_def)
qed

lemma demo_submit:
  "simulateAndSubmit demo ''0xa'' spec tr = (Inr ''0xh'', tr @ [EvSimulate spec, EvWalletChainId, EvWalletAddresses,
     EvWrite spec, EvWaitReceipt ''0xh'' (Some cto_receipt_timeout)])"
proof -
  have sim: "c_simulate demo = (\<lambda>tr spec. Inr spec)" by (simp add: demo_def)
  have wait: "c_waitReceipt demo = (\<lambda>tr h. (None, Inr demo_receipt))" by (simp add: demo_def)
  have ok: "rc_status demo_receipt = ''success''" by (simp add: demo_receipt_def)
  show ?thesis
    by (simp add: simulateAndSubmit_def simulateContract_def submitAndConfirm_def waitForTransactionReceipt_def io_bind_def
      io_call_def sim wait ok io_throw_if_def io_result_def io_return_def)
qed

lemma demo_execute:
  "executeCTO demo demo_library ''0xa'' ''0xt'' ''0xc'' [] = (Inr ''0xh'', demo_executed)"
proof -
  have "cs_currentPayout demo_cto_state = cp_previousRecipient demo_proposal" "cs_registry demo_cto_state = ''0xr''"
    by (simp_all add: demo_cto_state_def demo_proposal_def)
  then show ?thesis
    by (simp add: executeCTO_def io_bind_def demo_fresh demo_submit io_throw_if_def io_result_def demo_executed_def)
qed

theorem cto_transaction_once_witness:
  "writes demo_executed \<noteq> [] \<and> (\<exists>spec. sent_once demo spec [] (Inr ''0xh'') demo_executed)"
proof -
  have "writes demo_executed = writes [] \<and> (\<exists>e. Inr ''0xh'' = (Inl e :: js_error + string))
      \<or> (\<exists>spec. sent_once demo spec [] (Inr ''0xh'') demo_executed)"
    by (rule cto_transaction_once[where run = "executeCTO demo demo_library ''0xa'' ''0xt'' ''0xc''"],
        (rule disjI2)+, rule refl, rule demo_execute)
  then show ?thesis by (auto simp: demo_executed_def)
qed

theorem cto_action_rules_witness:
  "\<exists>state p t1 a target fn. readCTOChainState demo demo_library ''0xt'' [] = (Inr state, t1)
    \<and> cs_proposal state = Some p \<and> cp_state p \<in> states_for Execute
    \<and> sent_once demo (cto_call target fn [AText ''0xc''] a) [] (Inr ''0xh'') demo_executed"
proof -
  have "cto_run demo demo_library Execute ''0xa'' ''0xt'' ''0xc'' [] = (Inr ''0xh'', demo_executed)"
    using demo_execute by simp
  from cto_action_rules[OF this] show ?thesis by blast
qed

text \<open>The creator of a token starts its first takeover.\<close>

definition demo_creator :: client where
  "demo_creator = demo\<lparr>c_readText := \<lambda>tr a f args.
     if f = ''tokenInfo'' then Inr ''0xa'' else if f = ''currentProposalId'' then Inr zero_hash else Inr ''0xc''\<rparr>"

lemma demo_creator_submit: "simulateAndSubmit demo_creator ''0xa'' spec tr = simulateAndSubmit demo ''0xa'' spec tr"
proof -
  have sel: "c_env demo_creator = c_env demo" "c_chain demo_creator = c_chain demo" "c_walletAccount demo_creator = c_walletAccount demo"
    "c_walletChainId demo_creator = c_walletChainId demo" "c_walletAddresses demo_creator = c_walletAddresses demo"
    "c_getAddress demo_creator = c_getAddress demo" "c_write demo_creator = c_write demo"
    "c_simulate demo_creator = c_simulate demo" "c_waitReceipt demo_creator = c_waitReceipt demo"
    by (simp_all add: demo_creator_def)
  show ?thesis
    unfolding simulateAndSubmit_def simulateContract_def submitAndConfirm_def waitForTransactionReceipt_def signedWrite_def
      assertActiveWalletClient_def equalAddresses_def writeContract_def sel by (rule refl)
qed

lemma demo_propose:
  "\<exists>t. proposeCTO demo_creator demo_library ''0xa'' ''0xt'' ''0xs'' '''' [] = (Inr ''0xh'', t)"
proof -
  have gate: "gate demo_creator tr = (Inr (), tr)" for tr
    using gate_demo[of tr] by (simp add: gate_def demo_creator_def)
  have nonzero: "''0xs'' \<noteq> zero_address" by code_simp
  have trim: "js_trim '''' = ''''" by code_simp
  have pure: "validateControllerAddress demo_creator demo_library ''0xs'' = Inr ''0xs''"
    "resolveCTOMetadata demo_library '''' = Inr ('''', zero_hash)" "c_getAddress demo_creator = Inr"
    "requireDeployedController demo_creator demo_library ''0xs'' (Some ''0x60'') = Inr ''0xs''"
    using nonzero
    by (simp_all add: validateControllerAddress_def resolveCTOMetadata_def requireDeployedController_def demo_creator_def
      demo_def demo_library_def throw_if_def trim no_code_def truthy_def)
  have code: "getBytecode demo_creator ''0xs'' tr = (Inr (Some ''0x60''), tr @ [EvCode ''0xs''])" for tr
    by (simp add: getBytecode_def io_call_def demo_creator_def demo_def)
  have "\<exists>state t. readCTOChainState demo_creator demo_library ''0xt'' tr = (Inr state, t)
      \<and> cs_creator state = ''0xa'' \<and> cs_proposal state = None" for tr
    by (simp add: readCTOChainState_def configuredCTORegistry_def checkFeeManager_def readProposal_def demo_creator_def
      demo_def demo_contracts_def truthy_def io_defs request_defs)
  then obtain state t where state: "readCTOChainState demo_creator demo_library ''0xt'' [EvCode ''0xs''] = (Inr state, t)"
    "cs_creator state = ''0xa''" "cs_proposal state = None" by blast
  show ?thesis
    by (simp add: proposeCTO_def io_bind_def io_both_def gate pure code state io_result_def io_throw_if_def
      demo_creator_submit demo_submit)
qed

theorem proposeCTO_rules_witness:
  "\<exists>state t1 h t. readCTOChainState demo_creator demo_library ''0xt'' [EvCode ''0xs''] = (Inr state, t1)
    \<and> cs_creator state = ''0xa'' \<and> sent_once demo_creator (cto_call (cs_registry state) ''proposeCTO''
         [AText ''0xt'', AText ''0xs'', AText zero_hash, AText ''''] ''0xa'') [] (Inr h) t"
proof -
  obtain t where "proposeCTO demo_creator demo_library ''0xa'' ''0xt'' ''0xs'' '''' [] = (Inr ''0xh'', t)"
    using demo_propose by blast
  moreover have "c_getAddress demo_creator = Inr" by (simp add: demo_creator_def demo_def)
  moreover have "js_trim '''' = ''''" by code_simp
  ultimately show ?thesis using proposeCTO_rules[of demo_creator demo_library "''0xa''" "''0xt''" "''0xs''" "''''" "[]" "''0xh''" t]
    by auto
qed

end
