(* ===== verification/ChartView.thy ===== *)
theory ChartView
  imports DisplayFormat Datafeed CtoFlow
begin

text \<open>
  The candle chart of a token page (\<^verbatim>\<open>components/token-chart.tsx\<close>): which bars it shows
  first and when it follows new ones, the numbers and colours it hands to the chart library, and the
  labels of its price scale. The chart library itself is not modelled; its visible ranges are events.
\<close>

subsection \<open>Timeframes\<close>

fun recent_visible_bars :: "chart_interval \<Rightarrow> nat" where
  "recent_visible_bars Minute1 = 100"
| "recent_visible_bars Minute5 = 100"
| "recent_visible_bars Minute15 = 96"
| "recent_visible_bars Hour1 = 96"
| "recent_visible_bars Hour4 = 90"
| "recent_visible_bars Day1 = 84"
| "recent_visible_bars Week1 = 80"

fun recent_horizon_seconds :: "chart_interval \<Rightarrow> int" where
  "recent_horizon_seconds Minute1 = 6 * 60 * 60"
| "recent_horizon_seconds Minute5 = 24 * 60 * 60"
| "recent_horizon_seconds Minute15 = 3 * 24 * 60 * 60"
| "recent_horizon_seconds Hour1 = 14 * 24 * 60 * 60"
| "recent_horizon_seconds Hour4 = 42 * 24 * 60 * 60"
| "recent_horizon_seconds Day1 = 120 * 24 * 60 * 60"
| "recent_horizon_seconds Week1 = 365 * 24 * 60 * 60"

fun inactivity_gap_buckets :: "chart_interval \<Rightarrow> int" where
  "inactivity_gap_buckets Minute1 = 180"
| "inactivity_gap_buckets Minute5 = 72"
| "inactivity_gap_buckets Minute15 = 48"
| "inactivity_gap_buckets Hour1 = 12"
| "inactivity_gap_buckets Hour4 = 24"
| "inactivity_gap_buckets Day1 = 14"
| "inactivity_gap_buckets Week1 = 8"

definition right_offset_bars :: nat where
  "right_offset_bars = 4"

definition sparse_fallback_visible_bars :: nat where
  "sparse_fallback_visible_bars = 8"

definition sparse_logical_width :: nat where
  "sparse_logical_width = 24"

subsection \<open>The first view\<close>

text \<open>A range of logical bar positions; the library reports fractions, too.\<close>

record viewport =
  vw_from :: rat
  vw_to :: rat

definition gap_seconds :: "chart_interval \<Rightarrow> int" where
  "gap_seconds interval = interval_seconds interval * inactivity_gap_buckets interval"

definition session_break :: "int \<Rightarrow> jsnum \<Rightarrow> jsnum \<Rightarrow> bool" where
  "session_break gap older newer =
     (case (older, newer) of
        (Fin p, Fin q) \<Rightarrow> p < q \<and> (case double_of (q - p) of Fin d \<Rightarrow> of_int gap < d | PosInf \<Rightarrow> True | _ \<Rightarrow> False)
      | _ \<Rightarrow> False)"

text \<open>The loop, from the pair of bars \<^verbatim>\<open>i - 1\<close> and \<^verbatim>\<open>i\<close> on down.\<close>

fun cluster_scan :: "int \<Rightarrow> jsnum list \<Rightarrow> nat \<Rightarrow> nat option" where
  "cluster_scan gap bs 0 = None"
| "cluster_scan gap bs (Suc i) =
     (if session_break gap (bs ! i) (bs ! Suc i) then Some (Suc i) else cluster_scan gap bs i)"

definition newestActiveClusterStart :: "chart_interval \<Rightarrow> jsnum list \<Rightarrow> nat option" where
  "newestActiveClusterStart interval bs = cluster_scan (gap_seconds interval) bs (length bs - 1)"

fun find_index :: "('a \<Rightarrow> bool) \<Rightarrow> 'a list \<Rightarrow> nat option" where
  "find_index P [] = None"
| "find_index P (x # xs) = (if P x then Some 0 else map_option Suc (find_index P xs))"

text \<open>\<^verbatim>\<open>Number.isFinite(b) && b >= cutoff\<close>.\<close>

fun at_or_after :: "jsnum \<Rightarrow> jsnum \<Rightarrow> bool" where
  "at_or_after (Fin cutoff) (Fin b) = (cutoff \<le> b)"
| "at_or_after NegInf (Fin b) = True"
| "at_or_after _ _ = False"

definition horizon_cutoff :: "chart_interval \<Rightarrow> jsnum list \<Rightarrow> jsnum" where
  "horizon_cutoff interval bs =
     (case last bs of Fin q \<Rightarrow> double_of (q - of_int (recent_horizon_seconds interval)) | _ \<Rightarrow> PosInf)"

definition recent_start :: "chart_interval \<Rightarrow> jsnum list \<Rightarrow> nat" where
  "recent_start interval bs =
     (case newestActiveClusterStart interval bs of
        Some i \<Rightarrow> i
      | None \<Rightarrow>
          max (case find_index (at_or_after (horizon_cutoff interval bs)) bs of None \<Rightarrow> length bs - 1 | Some i \<Rightarrow> i)
            (length bs - sparse_fallback_visible_bars))"

definition defaultChartViewport :: "chart_interval \<Rightarrow> jsnum list \<Rightarrow> viewport option" where
  "defaultChartViewport interval bs =
     (let n = length bs; target = recent_visible_bars interval in
      if n = 0 then None
      else if target \<le> n then Some \<lparr>vw_from = of_nat (n - target), vw_to = of_nat (n - 1 + right_offset_bars)\<rparr>
      else
        let start = recent_start interval bs; emptySlots = sparse_logical_width - (n - start); left = emptySlots div 2 in
        if start = 0
        then Some \<lparr>vw_from = - of_nat left, vw_to = of_nat (n - 1 + (emptySlots - left))\<rparr>
        else Some \<lparr>vw_from = of_nat start, vw_to = of_nat (n - 1 + emptySlots)\<rparr>)"

definition viewportFollowsLatest :: "viewport option \<Rightarrow> nat \<Rightarrow> rat \<Rightarrow> bool" where
  "viewportFollowsLatest seen barCount tolerance =
     (case seen of None \<Rightarrow> True | Some r \<Rightarrow> barCount = 0 \<or> of_nat barCount - 1 - tolerance \<le> vw_to r)"

definition shouldFollowAfterDataUpdate :: "bool \<Rightarrow> nat \<Rightarrow> nat \<Rightarrow> bool" where
  "shouldFollowAfterDataUpdate following prior next_count \<longleftrightarrow> following \<and> prior \<noteq> next_count"

subsection \<open>The live chart\<close>

text \<open>The refs of the component, and what it tells the time scale.\<close>

record live_chart =
  lc_barCount :: nat
  lc_follows :: bool
  lc_needsInitial :: bool

datatype scale_command = SetVisibleRange viewport | ScrollToRealTime

text \<open>A chart was created; the library reports its visible range; new bars arrive.\<close>

datatype chart_event = ChartCreated | RangeObserved "viewport option" | BarsUpdated chart_interval "jsnum list"

fun chart_step :: "chart_event \<Rightarrow> live_chart \<Rightarrow> live_chart \<times> scale_command list" where
  "chart_step ChartCreated s = (\<lparr>lc_barCount = 0, lc_follows = True, lc_needsInitial = True\<rparr>, [])"
| "chart_step (RangeObserved seen) s = (s\<lparr>lc_follows := viewportFollowsLatest seen (lc_barCount s) 2\<rparr>, [])"
| "chart_step (BarsUpdated interval bs) s =
     (if lc_needsInitial s
      then (s\<lparr>lc_barCount := length bs, lc_needsInitial := False\<rparr>,
            case defaultChartViewport interval bs of None \<Rightarrow> [] | Some v \<Rightarrow> [SetVisibleRange v])
      else (s\<lparr>lc_barCount := length bs\<rparr>,
            if shouldFollowAfterDataUpdate (lc_follows s) (lc_barCount s) (length bs) then [ScrollToRealTime] else []))"

fun chart_run :: "chart_event list \<Rightarrow> live_chart \<Rightarrow> live_chart \<times> scale_command list" where
  "chart_run [] s = (s, [])"
| "chart_run (e # es) s = (case chart_step e s of (s1, c) \<Rightarrow> (case chart_run es s1 of (s2, d) \<Rightarrow> (s2, c @ d)))"

subsection \<open>Candles\<close>

datatype chart_view = PriceView | FdvView

datatype direction = Bullish | Bearish

definition body_color :: "direction \<Rightarrow> string" where
  "body_color d = (if d = Bullish then ''#10b981'' else ''#f43f5e'')"

definition wick_color :: "direction \<Rightarrow> string" where
  "wick_color d = (if d = Bullish then ''#34d399'' else ''#fb7185'')"

definition volume_color :: "direction \<Rightarrow> string" where
  "volume_color d = (if d = Bullish then ''rgb(16 185 129 / 0.32)'' else ''rgb(244 63 94 / 0.32)'')"

record display_candle =
  dc_time :: int
  dc_open :: jsnum
  dc_high :: jsnum
  dc_low :: jsnum
  dc_close :: jsnum
  dc_color :: string
  dc_wick :: string

record volume_bar =
  vb_time :: int
  vb_value :: jsnum
  vb_color :: string

text \<open>\<^verbatim>\<open>BigInt\<close> of a price of a complete candle, a text of digits.\<close>

definition price_of :: "string option \<Rightarrow> int" where
  "price_of v = (case v of None \<Rightarrow> 0 | Some s \<Rightarrow> int (digits_value s))"

definition candleDirection :: "candle \<Rightarrow> direction" where
  "candleDirection point = (if price_of (cd_open point) \<le> price_of (cd_close point) then Bullish else Bearish)"

definition display_of :: "(int \<Rightarrow> jsnum) \<Rightarrow> candle \<Rightarrow> display_candle" where
  "display_of f point =
     \<lparr>dc_time = cd_bucket point, dc_open = f (price_of (cd_open point)), dc_high = f (price_of (cd_high point)),
       dc_low = f (price_of (cd_low point)), dc_close = f (price_of (cd_close point)),
       dc_color = body_color (candleDirection point), dc_wick = wick_color (candleDirection point)\<rparr>"

definition largest_price :: "candle list \<Rightarrow> int" where
  "largest_price points =
     foldl max 0 (concat (map (\<lambda>p. map price_of [cd_open p, cd_high p, cd_low p, cd_close p]) points))"

definition chartCandles :: "candle list \<Rightarrow> display_candle list \<times> int" where
  "chartCandles points =
     (let complete = filter complete points in
      if complete = [] then ([], 1)
      else let digits = length (int_text (largest_price complete));
               scale = (if 12 < digits then 10 ^ (digits - 12) else 1) in
           (map (display_of (\<lambda>v. number_of_bigint (v div scale))) complete, scale))"

fun try_list :: "'a result list \<Rightarrow> 'a list result" where
  "try_list [] = Inr []"
| "try_list (r # rs) = try_bind r (\<lambda>x. try_bind (try_list rs) (\<lambda>xs. Inr (x # xs)))"

text \<open>\<^verbatim>\<open>priceValue\<close>: the displayed number of a price, or of the value of the whole supply at this
  price.\<close>

definition shown_amount :: "chart_view \<Rightarrow> string option \<Rightarrow> int \<Rightarrow> int option result" where
  "shown_amount view initialSupply wei =
     (if view = PriceView then Inr (Some wei)
      else case truthy initialSupply of
          None \<Rightarrow> Inr None
        | Some s \<Rightarrow> try_bind (bigint_of s) (\<lambda>supply. Inr (Some (big_div (wei * supply) (10 ^ 18)))))"

definition price_value :: "(int \<Rightarrow> int \<Rightarrow> string) \<Rightarrow> chart_view \<Rightarrow> string option \<Rightarrow> string option \<Rightarrow> jsnum result" where
  "price_value U view initialSupply v =
     try_bind (shown_amount view initialSupply (price_of v)) (\<lambda>wei.
       Inr (case wei of None \<Rightarrow> Fin 0 | Some w \<Rightarrow> presentationNumber U w 18))"

definition display_candle_of ::
    "(int \<Rightarrow> int \<Rightarrow> string) \<Rightarrow> chart_view \<Rightarrow> string option \<Rightarrow> candle \<Rightarrow> display_candle result" where
  "display_candle_of U view initialSupply point =
     try_bind (price_value U view initialSupply (cd_open point)) (\<lambda>op.
     try_bind (price_value U view initialSupply (cd_high point)) (\<lambda>hi.
     try_bind (price_value U view initialSupply (cd_low point)) (\<lambda>lo.
     try_bind (price_value U view initialSupply (cd_close point)) (\<lambda>cl.
       Inr \<lparr>dc_time = cd_bucket point, dc_open = op, dc_high = hi, dc_low = lo, dc_close = cl,
         dc_color = body_color (candleDirection point), dc_wick = wick_color (candleDirection point)\<rparr>))))"

definition volume_bar_of :: "(int \<Rightarrow> int \<Rightarrow> string) \<Rightarrow> candle \<Rightarrow> volume_bar result" where
  "volume_bar_of U point =
     try_bind (bigint_of (cd_volume point)) (\<lambda>v.
       Inr \<lparr>vb_time = cd_bucket point, vb_value = presentationNumber U v 18, vb_color = volume_color (candleDirection point)\<rparr>)"

definition chartDisplayData ::
    "(int \<Rightarrow> int \<Rightarrow> string) \<Rightarrow> candle list \<Rightarrow> chart_view \<Rightarrow> string option
       \<Rightarrow> (display_candle list \<times> volume_bar list) result" where
  "chartDisplayData U points view initialSupply =
     (let complete = filter complete points in
      try_bind (try_list (map (display_candle_of U view initialSupply) complete)) (\<lambda>candles.
      try_bind (try_list (map (volume_bar_of U) complete)) (\<lambda>volumes.
        Inr (candles, volumes))))"

definition headerCandle :: "display_candle list \<Rightarrow> int option \<Rightarrow> display_candle option" where
  "headerCandle candles hovered =
     (case (case hovered of None \<Rightarrow> None | Some t \<Rightarrow> List.find (\<lambda>c. dc_time c = t) candles) of
        Some c \<Rightarrow> Some c
      | None \<Rightarrow> if candles = [] then None else Some (last candles))"

subsection \<open>Labels of the price scale\<close>

definition trimFixed :: "rat \<Rightarrow> nat \<Rightarrow> string" where
  "trimFixed v digits = strip_point (strip_zeros (to_fixed digits v))"

text \<open>The two literal bounds are the doubles next to the decimal fractions.\<close>

definition formatChartValue :: "jsnum \<Rightarrow> string result" where
  "formatChartValue v =
     (case v of
        Fin q \<Rightarrow>
          if q = 0 then Inr ''$0''
          else if 1000 \<le> \<bar>q\<bar> then try_bind (formatCompactNumber v) (\<lambda>s. Inr (''$'' @ s))
          else if (case double_of (1 / 100000000) of Fin b \<Rightarrow> \<bar>q\<bar> < b | _ \<Rightarrow> False)
          then Inr (if 0 < q then ''<$0.00000001'' else ''>$0.00000001'')
          else Inr (''$'' @ trimFixed q (if 1 \<le> \<bar>q\<bar> then 4 else 8))
      | _ \<Rightarrow> Inr dash)"

subsection \<open>What the first view shows\<close>

lemma cluster_scan_Some:
  "cluster_scan gap bs n = Some i \<Longrightarrow> 0 < i \<and> i \<le> n \<and> session_break gap (bs ! (i - 1)) (bs ! i)
     \<and> (\<forall>k. i < k \<and> k \<le> n \<longrightarrow> \<not> session_break gap (bs ! (k - 1)) (bs ! k))"
proof (induction n)
  case (Suc n)
  show ?case
  proof (cases "session_break gap (bs ! n) (bs ! Suc n)")
    case True
    then show ?thesis using Suc.prems by auto
  next
    case False
    then have "cluster_scan gap bs n = Some i" using Suc.prems by simp
    then show ?thesis using Suc.IH False by (auto simp: le_Suc_eq)
  qed
qed simp

lemma cluster_scan_None: "cluster_scan gap bs n = None \<Longrightarrow> 0 < k \<Longrightarrow> k \<le> n \<Longrightarrow> \<not> session_break gap (bs ! (k - 1)) (bs ! k)"
  by (induction n) (auto simp: le_Suc_eq split: if_splits)

lemma find_index_Some: "find_index P xs = Some i \<Longrightarrow> i < length xs \<and> P (xs ! i)"
  by (induction xs arbitrary: i) (auto split: if_splits)

lemma find_index_None: "find_index P xs = None \<longleftrightarrow> (\<forall>x \<in> set xs. \<not> P x)"
  by (induction xs) auto

definition bucket_times :: "int list \<Rightarrow> bool" where
  "bucket_times ts \<longleftrightarrow> ts \<noteq> [] \<and> sorted ts \<and> list_all (\<lambda>t. 0 \<le> t \<and> t \<le> 2 ^ 52) ts"

lemma exact_difference:
  "0 \<le> (p :: int) \<Longrightarrow> p \<le> 2 ^ 52 \<Longrightarrow> 0 \<le> q \<Longrightarrow> q \<le> 2 ^ 52 \<Longrightarrow> double_of (of_int q - of_int p) = num_of (q - p)"
  using double_of_int[of "q - p"] by simp

lemma session_break_ints:
  assumes "0 \<le> p" "p \<le> 2 ^ 52" "0 \<le> q" "q \<le> 2 ^ 52" "0 \<le> gap"
  shows "session_break gap (num_of p) (num_of q) \<longleftrightarrow> gap < q - p"
proof -
  have "of_int gap < (of_int (q - p) :: rat) \<longleftrightarrow> gap < q - p" by (simp only: of_int_less_iff)
  then show ?thesis using assms exact_difference[OF assms(1-4)] by (auto simp: session_break_def)
qed

lemma gap_seconds_pos: "0 \<le> gap_seconds interval"
  by (cases interval) (simp_all add: gap_seconds_def)

lemma horizon_small: "0 \<le> recent_horizon_seconds interval" "recent_horizon_seconds interval \<le> 2 ^ 52"
  by (cases interval; simp)+

lemma breaks_of_times:
  assumes "bucket_times ts" and "0 < k" and "k < length ts"
  shows "session_break (gap_seconds interval) (map num_of ts ! (k - 1)) (map num_of ts ! k) \<longleftrightarrow> gap_seconds interval < ts ! k - ts ! (k - 1)"
proof -
  have "\<forall>n < length ts. 0 \<le> ts ! n \<and> ts ! n \<le> 2 ^ 52" using assms(1) by (simp add: bucket_times_def list_all_length)
  then have "0 \<le> ts ! (k - 1)" "ts ! (k - 1) \<le> 2 ^ 52" "0 \<le> ts ! k" "ts ! k \<le> 2 ^ 52" using assms(2,3) by simp_all
  from session_break_ints[OF this gap_seconds_pos, of interval] show ?thesis using assms(2,3) by simp
qed

lemma horizon_of_times:
  assumes "bucket_times ts" and "i < length ts"
  shows "at_or_after (horizon_cutoff interval (map num_of ts)) (map num_of ts ! i) \<longleftrightarrow> last ts - recent_horizon_seconds interval \<le> ts ! i"
proof -
  have l: "0 \<le> last ts" "last ts \<le> 2 ^ 52" using assms(1) by (auto simp: bucket_times_def list_all_iff)
  have "double_of (of_int (last ts) - of_int (recent_horizon_seconds interval)) = num_of (last ts - recent_horizon_seconds interval)"
    by (rule exact_difference) (use l horizon_small in auto)
  moreover have "of_int (last ts - recent_horizon_seconds interval) \<le> (of_int (ts ! i) :: rat) \<longleftrightarrow> last ts - recent_horizon_seconds interval \<le> ts ! i"
    by (simp only: of_int_le_iff)
  ultimately show ?thesis using assms by (simp add: horizon_cutoff_def bucket_times_def last_map)
qed

text \<open>The first bar of a sparse view: no session break after it, and without any session break
  everything from it on is within the horizon.\<close>

lemma recent_start_facts:
  fixes interval :: chart_interval
  assumes "bucket_times ts"
  defines "start \<equiv> recent_start interval (map num_of ts)"
  shows "start < length ts"
    and "\<forall>k. start < k \<and> k < length ts \<longrightarrow> ts ! k - ts ! (k - 1) \<le> gap_seconds interval"
    and "(\<exists>k. 0 < k \<and> k < length ts \<and> gap_seconds interval < ts ! k - ts ! (k - 1))
      \<or> (\<forall>k. start \<le> k \<and> k < length ts \<longrightarrow> last ts - recent_horizon_seconds interval \<le> ts ! k)"
proof -
  have ne: "ts \<noteq> []" using assms(1) by (simp add: bucket_times_def)
  note br = breaks_of_times[OF assms(1), where interval = interval]
  let ?c = "newestActiveClusterStart interval (map num_of ts)"
  let ?f = "find_index (at_or_after (horizon_cutoff interval (map num_of ts))) (map num_of ts)"
  have "start < length ts \<and> (\<forall>k. start < k \<and> k < length ts \<longrightarrow> ts ! k - ts ! (k - 1) \<le> gap_seconds interval)
    \<and> ((\<exists>k. 0 < k \<and> k < length ts \<and> gap_seconds interval < ts ! k - ts ! (k - 1))
      \<or> (\<forall>k. start \<le> k \<and> k < length ts \<longrightarrow> last ts - recent_horizon_seconds interval \<le> ts ! k))"
  proof (cases ?c)
    case (Some i)
    from cluster_scan_Some[OF Some[unfolded newestActiveClusterStart_def]] have i: "0 < i" "i < length ts"
      "session_break (gap_seconds interval) (map num_of ts ! (i - 1)) (map num_of ts ! i)"
      "\<And>k. i < k \<Longrightarrow> k < length ts \<Longrightarrow> \<not> session_break (gap_seconds interval) (map num_of ts ! (k - 1)) (map num_of ts ! k)"
      using ne by (auto simp: less_eq_Suc_le[symmetric] Suc_le_eq)
    have "start = i" using Some by (simp add: start_def recent_start_def)
    then show ?thesis using i br by (meson less_trans not_le)
  next
    case None
    have gaps: "ts ! k - ts ! (k - 1) \<le> gap_seconds interval" if "0 < k" "k < length ts" for k
      using cluster_scan_None[OF None[unfolded newestActiveClusterStart_def], of k] br[OF that] that by (simp add: not_less)
    have "at_or_after (horizon_cutoff interval (map num_of ts)) (map num_of ts ! (length ts - 1))"
      using horizon_of_times[OF assms(1), of "length ts - 1" interval] horizon_small(1)[of interval] ne by (simp add: last_conv_nth)
    then have "?f \<noteq> None" using ne unfolding find_index_None by (metis diff_less length_greater_0_conv length_map nth_mem zero_less_one)
    then obtain i where i: "?f = Some i" by blast
    have il: "i < length ts" "last ts - recent_horizon_seconds interval \<le> ts ! i"
      using find_index_Some[OF i] horizon_of_times[OF assms(1), of i interval] by (metis length_map)+
    have start: "start = max i (length ts - sparse_fallback_visible_bars)"
      using None i by (simp add: start_def recent_start_def)
    have later: "last ts - recent_horizon_seconds interval \<le> ts ! k" if "start \<le> k" "k < length ts" for k
      using sorted_nth_mono[of ts i k] assms(1) that il(2) start by (simp add: bucket_times_def)
    have "start < length ts" using il(1) ne by (simp add: start sparse_fallback_visible_bars_def)
    then show ?thesis using gaps later by auto
  qed
  then show "start < length ts"
    and "\<forall>k. start < k \<and> k < length ts \<longrightarrow> ts ! k - ts ! (k - 1) \<le> gap_seconds interval"
    and "(\<exists>k. 0 < k \<and> k < length ts \<and> gap_seconds interval < ts ! k - ts ! (k - 1))
      \<or> (\<forall>k. start \<le> k \<and> k < length ts \<longrightarrow> last ts - recent_horizon_seconds interval \<le> ts ! k)" by blast+
qed

text \<open>C31: the first view of a chart, for bucket times in order. The view contains the newest bar and counts as
  following the latest. With at least as many bars as a full view of the timeframe it is exactly that many
  newest bars and four empty slots, whatever breaks in trading lie between them. With fewer, the view
  is at least 24 slots wide, no two neighbouring bars in it are further apart than the session gap of the
  timeframe, and if no two bars of the history are, every bar in view lies within the recent horizon.\<close>

theorem first_view_is_current:
  assumes "bucket_times ts"
  shows "\<exists>v. defaultChartViewport interval (map num_of ts) = Some v
    \<and> vw_from v \<le> of_nat (length ts - 1) \<and> of_nat (length ts - 1) \<le> vw_to v
    \<and> viewportFollowsLatest (Some v) (length ts) 2
    \<and> (if recent_visible_bars interval \<le> length ts
       then vw_from v = of_nat (length ts - recent_visible_bars interval) \<and> vw_to v = of_nat (length ts - 1 + 4)
       else 24 \<le> vw_to v - vw_from v + 1
        \<and> (\<forall>k. 0 < k \<and> k < length ts \<and> vw_from v < of_nat k \<longrightarrow> ts ! k - ts ! (k - 1) \<le> gap_seconds interval)
        \<and> ((\<exists>k. 0 < k \<and> k < length ts \<and> gap_seconds interval < ts ! k - ts ! (k - 1))
          \<or> (\<forall>k < length ts. vw_from v \<le> of_nat k \<longrightarrow> last ts - recent_horizon_seconds interval \<le> ts ! k)))"
proof -
  let ?n = "length ts" and ?start = "recent_start interval (map num_of ts)"
  have n: "0 < ?n" using assms by (simp add: bucket_times_def)
  have follows: "viewportFollowsLatest (Some v) ?n 2" if "of_nat (?n - 1) \<le> vw_to v" for v
    using that n by (simp add: viewportFollowsLatest_def of_nat_diff)
  show ?thesis
  proof (cases "recent_visible_bars interval \<le> ?n")
    case True
    let ?v = "\<lparr>vw_from = of_nat (?n - recent_visible_bars interval), vw_to = of_nat (?n - 1 + right_offset_bars)\<rparr>"
    have "defaultChartViewport interval (map num_of ts) = Some ?v"
      using True n by (simp add: defaultChartViewport_def Let_def)
    moreover have "(0 :: nat) < recent_visible_bars interval" by (cases interval) simp_all
    ultimately show ?thesis using True n follows[of ?v] by (intro exI[of _ ?v]) (simp add: right_offset_bars_def)
  next
    case False
    note st = recent_start_facts[OF assms, of interval]
    let ?e = "sparse_logical_width - (?n - ?start)"
    let ?v = "if ?start = 0 then \<lparr>vw_from = - of_nat (?e div 2), vw_to = of_nat (?n - 1 + (?e - ?e div 2))\<rparr>
      else \<lparr>vw_from = of_nat ?start, vw_to = of_nat (?n - 1 + ?e)\<rparr>"
    have v: "defaultChartViewport interval (map num_of ts) = Some ?v"
      using False n by (simp add: defaultChartViewport_def Let_def)
    have low: "vw_from ?v \<le> of_nat ?start" "of_nat (?n - 1) \<le> vw_to ?v" by simp_all
    have wide: "24 \<le> vw_to ?v - vw_from ?v + 1"
    proof (cases "?start = 0")
      case True
      have "24 \<le> ?n - 1 + (?e - ?e div 2) + ?e div 2 + 1" using n True by (simp add: sparse_logical_width_def)
      then have "of_nat 24 \<le> (of_nat (?n - 1 + (?e - ?e div 2) + ?e div 2 + 1) :: rat)" by (simp only: of_nat_le_iff)
      then have "24 \<le> of_nat (?n - 1 + (?e - ?e div 2)) + of_nat (?e div 2) + (1 :: rat)"
        by (simp only: of_nat_add of_nat_numeral of_nat_1)
      then show ?thesis using True by simp
    next
      case False
      have "24 + ?start \<le> ?n - 1 + ?e + 1" using n st(1) by (simp add: sparse_logical_width_def)
      then have "of_nat (24 + ?start) \<le> (of_nat (?n - 1 + ?e + 1) :: rat)" by (simp only: of_nat_le_iff)
      then have "24 + of_nat ?start \<le> of_nat (?n - 1 + ?e) + (1 :: rat)"
        by (simp only: of_nat_add of_nat_numeral of_nat_1)
      then show ?thesis using False by simp
    qed
    have first: "?start \<le> k \<longleftrightarrow> vw_from ?v \<le> of_nat k" for k
      by (simp add: order_trans[of "- of_nat (?e div 2)" 0])
    have after: "?start < k" if "0 < k" "vw_from ?v < of_nat k" for k using that by (auto split: if_splits)
    have newest: "vw_from ?v \<le> of_nat (?n - 1)" using low(1) st(1) by (metis Suc_diff_1 first less_Suc_eq_le n)
    have gaps: "\<forall>k. 0 < k \<and> k < ?n \<and> vw_from ?v < of_nat k \<longrightarrow> ts ! k - ts ! (k - 1) \<le> gap_seconds interval"
      using st(2) after by blast
    have recent: "(\<exists>k. 0 < k \<and> k < ?n \<and> gap_seconds interval < ts ! k - ts ! (k - 1))
        \<or> (\<forall>k < ?n. vw_from ?v \<le> of_nat k \<longrightarrow> last ts - recent_horizon_seconds interval \<le> ts ! k)"
      using st(3) first by blast
    show ?thesis using False v newest low(2) follows[OF low(2)] wide gaps recent by (simp only: if_False) blast
  qed
qed

definition demo_times :: "int list" where
  "demo_times = [0, 60, 120, 864000, 864060]"

theorem first_view_is_current_witness:
  "\<exists>v. defaultChartViewport Minute1 (map num_of demo_times) = Some v
    \<and> vw_from v \<le> of_nat (length demo_times - 1) \<and> of_nat (length demo_times - 1) \<le> vw_to v
    \<and> viewportFollowsLatest (Some v) (length demo_times) 2 \<and> 24 \<le> vw_to v - vw_from v + 1"
proof -
  have "bucket_times demo_times" by (simp add: bucket_times_def demo_times_def)
  from first_view_is_current[OF this, of Minute1] show ?thesis by (auto simp: demo_times_def)
qed

subsection \<open>Following the latest bar\<close>

fun count_changes :: "nat \<Rightarrow> nat list \<Rightarrow> nat" where
  "count_changes n [] = 0"
| "count_changes n (k # ks) = (if n = k then 0 else 1) + count_changes k ks"

lemma updates_scroll:
  "\<not> lc_needsInitial s \<Longrightarrow> snd (chart_run (map (\<lambda>(i, bs). BarsUpdated i bs) us) s)
     = (if lc_follows s then replicate (count_changes (lc_barCount s) (map (\<lambda>u. length (snd u)) us)) ScrollToRealTime else [])"
proof (induction us arbitrary: s)
  case (Cons u us)
  obtain i bs where u: "u = (i, bs)" by (cases u)
  obtain s2 d where r: "chart_run (map (\<lambda>(i, bs). BarsUpdated i bs) us) (s\<lparr>lc_barCount := length bs\<rparr>) = (s2, d)"
    by (cases "chart_run (map (\<lambda>(i, bs). BarsUpdated i bs) us) (s\<lparr>lc_barCount := length bs\<rparr>)")
  show ?case using Cons.prems Cons.IH[of "s\<lparr>lc_barCount := length bs\<rparr>"]
    by (simp add: u r shouldFollowAfterDataUpdate_def)
qed simp

text \<open>A chart that is looked at elsewhere stays there. Once the first view is set and the library has
  reported a visible range, new bars never move a chart whose range ends more than two bars before the
  newest one, and otherwise scroll it to the newest bar exactly when their number changes.\<close>

theorem chart_follows_only_latest:
  assumes "\<not> lc_needsInitial s"
  shows "snd (chart_run (RangeObserved (Some r) # map (\<lambda>(i, bs). BarsUpdated i bs) us) s)
    = (if lc_barCount s = 0 \<or> of_nat (lc_barCount s) - 3 \<le> vw_to r
       then replicate (count_changes (lc_barCount s) (map (\<lambda>u. length (snd u)) us)) ScrollToRealTime else [])"
  using assms updates_scroll[of "s\<lparr>lc_follows := viewportFollowsLatest (Some r) (lc_barCount s) 2\<rparr>" us]
  by (simp add: viewportFollowsLatest_def split: prod.splits)

theorem chart_follows_only_latest_witness:
  "snd (chart_run (RangeObserved (Some \<lparr>vw_from = 0, vw_to = 50\<rparr>) # map (\<lambda>(i, bs). BarsUpdated i bs) [(Minute5, [])])
      \<lparr>lc_barCount = 100, lc_follows = True, lc_needsInitial = False\<rparr>) = []"
  by (subst chart_follows_only_latest) simp_all

subsection \<open>Scaled candles\<close>

lemma price_of_nonneg: "0 \<le> price_of v"
  by (simp add: price_of_def split: option.split)

lemma foldl_max: "foldl max (m :: int) xs \<ge> m \<and> (\<forall>x \<in> set xs. x \<le> foldl max m xs)"
proof (induction xs arbitrary: m)
  case (Cons x xs)
  from Cons[of "max m x"] show ?case by (auto intro: order_trans[OF max.cobounded2])
qed simp

definition prices :: "candle \<Rightarrow> int list" where
  "prices p = map price_of [cd_open p, cd_high p, cd_low p, cd_close p]"

lemma largest_price_bound: "p \<in> set points \<Longrightarrow> v \<in> set (prices p) \<Longrightarrow> v \<le> largest_price points"
proof -
  assume "p \<in> set points" "v \<in> set (prices p)"
  then have "v \<in> set (concat (map prices points))" by auto
  moreover have "largest_price points = foldl max 0 (concat (map prices points))"
    by (simp add: largest_price_def prices_def[abs_def])
  ultimately show "v \<le> largest_price points" using foldl_max[of 0 "concat (map prices points)"] by auto
qed

lemma text_length_bound: "0 \<le> v \<Longrightarrow> v < 10 ^ length (int_text v)"
proof -
  assume v: "0 \<le> v"
  have "digits_value (int_text v) < 10 ^ length (int_text v)"
    using v by (intro digits_value_less) (simp add: int_text_nonneg)
  then have "nat v < 10 ^ length (int_text v)" using v by simp
  then have "int (nat v) < int (10 ^ length (int_text v))" by (simp only: of_nat_less_iff)
  then show ?thesis using v by simp
qed

lemma scaled_price:
  fixes v :: int
  assumes "0 \<le> v" and "v < 10 ^ digits"
  defines "scale \<equiv> (if 12 < digits then 10 ^ (digits - 12) else 1 :: int)"
  shows "v div scale < 10 ^ 12" and "number_of_bigint (v div scale) = num_of (v div scale)"
proof -
  have "v < scale * 10 ^ 12"
  proof (cases "12 < digits")
    case True
    then have "scale * 10 ^ 12 = 10 ^ (digits - 12 + 12)" by (simp only: scale_def if_True power_add)
    then show ?thesis using assms(2) True by simp
  next
    case False
    then have "(10 :: int) ^ digits \<le> 10 ^ 12" by (intro power_increasing) simp_all
    then show ?thesis using assms(2) False by (simp add: scale_def)
  qed
  moreover have s: "0 < scale" by (simp add: scale_def)
  ultimately show lt: "v div scale < 10 ^ 12"
    using le_div_int[OF s, of "10 ^ 12" v] by (simp add: mult.commute not_le)
  have "0 \<le> v div scale" using assms(1) s by (simp add: pos_imp_zdiv_nonneg_iff)
  then show "number_of_bigint (v div scale) = num_of (v div scale)"
    unfolding number_of_bigint_def using lt by (intro double_of_int) simp
qed

text \<open>The scaled candles keep twelve digits and the order of the prices. Every complete candle gives
  one candle of the same time whose four numbers are the exact prices divided by the scale and rounded
  down, as numbers below ten to the twelve that floating point represents exactly; the scale is a power of ten,
  one when no price needs more than twelve digits; and the colours follow the exact prices.\<close>

theorem chartCandles_scaled:
  "let (candles, scale) = chartCandles points; complete = filter complete points in
     (\<exists>k. scale = 10 ^ k) \<and> length candles = length complete
     \<and> list_all2 (\<lambda>c p. dc_time c = cd_bucket p
         \<and> [dc_open c, dc_high c, dc_low c, dc_close c] = map (\<lambda>v. num_of (v div scale)) (prices p)
         \<and> list_all (\<lambda>v. 0 \<le> v div scale \<and> v div scale < 10 ^ 12) (prices p)
         \<and> dc_color c = (if price_of (cd_open p) \<le> price_of (cd_close p) then ''#10b981'' else ''#f43f5e'')) candles complete"
proof (cases "filter complete points = []")
  case True
  then show ?thesis by (simp add: chartCandles_def) (metis power_0)
next
  case False
  let ?c = "filter complete points"
  let ?d = "length (int_text (largest_price ?c))"
  define scale :: int where "scale = (if 12 < ?d then 10 ^ (?d - 12) else 1)"
  have run: "chartCandles points = (map (display_of (\<lambda>v. number_of_bigint (v div scale))) ?c, scale)"
    using False by (simp add: chartCandles_def Let_def scale_def)
  have s: "0 < scale" by (simp add: scale_def)
  have big: "0 \<le> largest_price ?c" using foldl_max[of 0] unfolding largest_price_def by blast
  have one: "number_of_bigint (v div scale) = num_of (v div scale) \<and> 0 \<le> v div scale \<and> v div scale < 10 ^ 12"
    if "p \<in> set ?c" "v \<in> set (prices p)" for p v
  proof -
    have "0 \<le> v" using that(2) price_of_nonneg by (auto simp: prices_def)
    moreover have "v < 10 ^ ?d" using largest_price_bound[OF that] text_length_bound[OF big] by linarith
    ultimately show ?thesis using scaled_price[of v ?d, folded scale_def] s by (simp add: pos_imp_zdiv_nonneg_iff)
  qed
  have "list_all2 (\<lambda>c p. dc_time c = cd_bucket p
         \<and> [dc_open c, dc_high c, dc_low c, dc_close c] = map (\<lambda>v. num_of (v div scale)) (prices p)
         \<and> list_all (\<lambda>v. 0 \<le> v div scale \<and> v div scale < 10 ^ 12) (prices p)
         \<and> dc_color c = (if price_of (cd_open p) \<le> price_of (cd_close p) then ''#10b981'' else ''#f43f5e''))
       (map (display_of (\<lambda>v. number_of_bigint (v div scale))) ?c) ?c"
    unfolding list_all2_map1
  proof (rule list.rel_refl_strong)
    fix p assume p: "p \<in> set ?c"
    note four = one[OF p, of "price_of (cd_open p)"] one[OF p, of "price_of (cd_high p)"]
      one[OF p, of "price_of (cd_low p)"] one[OF p, of "price_of (cd_close p)"]
    show "dc_time (display_of (\<lambda>v. number_of_bigint (v div scale)) p) = cd_bucket p
         \<and> [dc_open (display_of (\<lambda>v. number_of_bigint (v div scale)) p), dc_high (display_of (\<lambda>v. number_of_bigint (v div scale)) p),
             dc_low (display_of (\<lambda>v. number_of_bigint (v div scale)) p), dc_close (display_of (\<lambda>v. number_of_bigint (v div scale)) p)]
           = map (\<lambda>v. num_of (v div scale)) (prices p)
         \<and> list_all (\<lambda>v. 0 \<le> v div scale \<and> v div scale < 10 ^ 12) (prices p)
         \<and> dc_color (display_of (\<lambda>v. number_of_bigint (v div scale)) p)
           = (if price_of (cd_open p) \<le> price_of (cd_close p) then ''#10b981'' else ''#f43f5e'')"
      using four by (simp add: display_of_def prices_def body_color_def candleDirection_def)
  qed
  moreover have "\<exists>k. scale = 10 ^ k" unfolding scale_def by (metis power_0)
  ultimately show ?thesis by (simp add: run)
qed

subsection \<open>Displayed numbers\<close>

definition plain_char :: "char \<Rightarrow> bool" where
  "plain_char c \<longleftrightarrow> 32 < code_of c \<and> code_of c < 128"

lemma js_trim_plain_text:
  assumes "list_all plain_char s"
  shows "js_trim s = s"
proof (cases s rule: rev_cases)
  case Nil
  then show ?thesis by (simp add: js_trim_def trim_start.simps trim_end.simps)
next
  case (snoc t d)
  have d: "ws_end s = 0" using assms ws_end_plain[of d t] by (simp add: snoc plain_char_def)
  have "s \<noteq> []" by (simp add: snoc)
  then obtain c u where "s = c # u" by (meson neq_Nil_conv)
  then have "ws_start s = 0" using assms ws_start_plain[of c u] by (simp add: plain_char_def)
  then show ?thesis using d by (simp add: js_trim_def trim_start.simps trim_end.simps)
qed

lemma split_exponent_plain: "list_all (\<lambda>c. c \<noteq> CHR ''e'' \<and> c \<noteq> CHR ''E'') s \<Longrightarrow> split_exponent s = (s, None)"
  by (induction s) auto

definition decimal_char :: "char \<Rightarrow> bool" where
  "decimal_char c \<longleftrightarrow> is_digit c \<or> c = CHR ''.''"

lemma decimal_char_facts:
  "decimal_char c \<Longrightarrow> plain_char c \<and> c \<noteq> CHR ''e'' \<and> c \<noteq> CHR ''E'' \<and> lower_char c = c
     \<and> c \<notin> {CHR ''x'', CHR ''o'', CHR ''b'', CHR ''-'', CHR ''+'', CHR ''I''}"
  by (auto simp: decimal_char_def plain_char_def is_digit_def lower_char_def)

lemma js_number_decimal:
  assumes "all_digits w" and "list_all is_digit f"
  shows "js_number (with_fraction w f) = double_of (decimal_value (with_fraction w f))"
proof -
  let ?t = "with_fraction w f"
  have chars: "list_all decimal_char ?t" using assms
    by (auto simp: with_fraction_def all_digits_def list_all_iff decimal_char_def)
  then have facts: "\<And>c. c \<in> set ?t \<Longrightarrow> plain_char c \<and> c \<noteq> CHR ''e'' \<and> c \<noteq> CHR ''E'' \<and> lower_char c = c
     \<and> c \<notin> {CHR ''x'', CHR ''o'', CHR ''b'', CHR ''-'', CHR ''+'', CHR ''I''}"
    using decimal_char_facts unfolding list_all_iff by blast
  have trim: "js_trim ?t = ?t" by (rule js_trim_plain_text) (use facts in \<open>auto simp: list_all_iff\<close>)
  have exponent: "split_exponent ?t = (?t, None)"
    by (rule split_exponent_plain) (use facts in \<open>auto simp: list_all_iff\<close>)
  have lower: "js_lower ?t = ?t" unfolding js_lower_def using facts by (simp add: map_idI)
  have ne: "?t \<noteq> []" using assms(1) by (auto simp: with_fraction_def all_digits_def)
  then have head: "hd ?t \<noteq> CHR ''-''" "hd ?t \<noteq> CHR ''+''" "?t \<noteq> ''Infinity''" using facts[of "hd ?t"] by auto
  have prefix: "take 2 ?t \<noteq> [c, x]" if "x \<in> {CHR ''x'', CHR ''o'', CHR ''b''}" for c x
  proof
    assume "take 2 ?t = [c, x]"
    then have "x \<in> set (take 2 ?t)" by simp
    then have "x \<in> set ?t" by (rule in_set_takeD)
    then show False using facts that by auto
  qed
  have "mantissa_ok ?t" using assms by (auto simp: mantissa_ok_def with_fraction_def all_digits_def)
  then show ?thesis
    by (simp add: js_number_def unsigned_number_def Let_def trim lower ne head exponent prefix)
qed

lemma presentationNumber_nearest:
  assumes "exact_units U" and "0 \<le> v" and "0 \<le> d"
  shows "presentationNumber U v d = (let n = double_of (of_int v / 10 ^ nat d) in if is_finite_num n then n else Fin 0)"
proof -
  from assms obtain w f where wf: "U v d = with_fraction w f" "all_digits w" "list_all is_digit f"
    "length f \<le> nat d" "int (digits_value w) = v div 10 ^ nat d"
    "int (digits_value f) * 10 ^ (nat d - length f) = v mod 10 ^ nat d" unfolding exact_units_def by meson
  have w: "list_all is_digit w" using wf(2) by (simp add: all_digits_def)
  have "(10 :: rat) ^ nat d = 10 ^ (nat d - length f) * 10 ^ length f" using wf(4) by (simp add: power_add[symmetric])
  then have fr: "of_nat (digits_value f) / 10 ^ length f = (of_nat (digits_value f) * 10 ^ (nat d - length f) / 10 ^ nat d :: rat)"
    by simp
  have "of_nat (digits_value f) * 10 ^ (nat d - length f) = (of_int (int (digits_value f) * 10 ^ (nat d - length f)) :: rat)"
    by simp
  also have "\<dots> = of_int (v mod 10 ^ nat d)" by (simp only: wf(6))
  finally have frac: "of_nat (digits_value f) / 10 ^ length f = (of_int (v mod 10 ^ nat d) / 10 ^ nat d :: rat)" using fr by simp
  have whole: "(of_nat (digits_value w) :: rat) = of_int (v div 10 ^ nat d)" by (metis of_int_of_nat_eq wf(5))
  have split: "(of_int v :: rat) = of_int (v div 10 ^ nat d) * 10 ^ nat d + of_int (v mod 10 ^ nat d)"
  proof -
    have "(of_int v :: rat) = of_int (v div 10 ^ nat d * 10 ^ nat d + v mod 10 ^ nat d)" by (simp only: div_mult_mod_eq)
    then show ?thesis by (simp only: of_int_add of_int_mult of_int_power of_int_numeral)
  qed
  have "decimal_value (U v d) = of_int (v div 10 ^ nat d) + of_int (v mod 10 ^ nat d) / 10 ^ nat d"
    unfolding wf(1) decimal_value_with_fraction[OF w] whole frac ..
  also have "\<dots> = of_int v / 10 ^ nat d" unfolding split by (simp add: add_divide_distrib)
  finally have exact: "decimal_value (U v d) = of_int v / 10 ^ nat d" .
  show ?thesis unfolding presentationNumber_def using js_number_decimal[OF wf(2,3)] exact
    by (simp add: wf(1)[symmetric])
qed

lemma try_list_Inr: "try_list rs = Inr xs \<longleftrightarrow> list_all2 (\<lambda>r x. r = Inr x) rs xs"
proof (induction rs arbitrary: xs)
  case (Cons r rs)
  then show ?case by (cases r; cases xs) (auto simp: try_bind_Inr_iff list_all2_Cons1)
qed auto

text \<open>The number the chart shows for a price: of the price itself, or of the whole supply at this price.\<close>

definition nearest_shown :: "int \<Rightarrow> jsnum" where
  "nearest_shown wei = (let n = double_of (of_int wei / 10 ^ 18) in if is_finite_num n then n else Fin 0)"

definition valued :: "chart_view \<Rightarrow> int \<Rightarrow> int \<Rightarrow> int" where
  "valued view supply v = (if view = PriceView then v else v * supply div 10 ^ 18)"

lemma price_value_nearest:
  assumes "exact_units U" and "all_digits initialSupply"
  shows "price_value U view (Some initialSupply) v = Inr (nearest_shown (valued view (int (digits_value initialSupply)) (price_of v)))"
proof -
  have s: "truthy (Some initialSupply) = Some initialSupply" using assms(2) by (auto simp: truthy_def all_digits_def)
  have b: "bigint_of initialSupply = Inr (int (digits_value initialSupply))" using assms(2) by (simp add: bigint_of_def)
  have nn: "0 \<le> valued view (int (digits_value initialSupply)) (price_of v)"
    using price_of_nonneg[of v] by (simp add: valued_def pos_imp_zdiv_nonneg_iff)
  have "presentationNumber U w 18 = nearest_shown w" if "0 \<le> w" for w
    using presentationNumber_nearest[OF assms(1) that, of 18] by (simp add: nearest_shown_def)
  from this[OF nn] show ?thesis using price_of_nonneg[of v]
    by (simp add: price_value_def shown_amount_def s b valued_def split: if_splits)
qed

text \<open>The chart shows the indexed amounts as the nearest numbers. With an exact \<^verbatim>\<open>formatUnits\<close> and a decimal
  supply, chart data that is returned has one candle and one volume bar for every complete point,
  at the same times and in the same order; each of the four numbers of a candle is the double nearest to the price in USDC, or in
  the FDV view to the rounded down value of the supply at that price, and a volume is the double nearest to the
  volume; a number too large for a double is shown as zero.\<close>

theorem chartDisplayData_nearest:
  assumes "exact_units U" and "all_digits initialSupply" and "list_all (\<lambda>p. all_digits (cd_volume p)) points"
  shows "\<exists>candles volumes. chartDisplayData U points view (Some initialSupply) = Inr (candles, volumes)
    \<and> list_all2 (\<lambda>c p. dc_time c = cd_bucket p
        \<and> [dc_open c, dc_high c, dc_low c, dc_close c]
          = map (\<lambda>v. nearest_shown (valued view (int (digits_value initialSupply)) v)) (prices p)) candles (filter complete points)
    \<and> list_all2 (\<lambda>b p. vb_time b = cd_bucket p \<and> vb_value b = nearest_shown (int (digits_value (cd_volume p)))
        \<and> vb_color b = volume_color (candleDirection p)) volumes (filter complete points)"
proof -
  let ?c = "filter complete points" and ?s = "int (digits_value initialSupply)"
  define dc where "dc p = \<lparr>dc_time = cd_bucket p, dc_open = nearest_shown (valued view ?s (price_of (cd_open p))),
      dc_high = nearest_shown (valued view ?s (price_of (cd_high p))), dc_low = nearest_shown (valued view ?s (price_of (cd_low p))),
      dc_close = nearest_shown (valued view ?s (price_of (cd_close p))),
      dc_color = body_color (candleDirection p), dc_wick = wick_color (candleDirection p)\<rparr>" for p
  define vb where "vb p = \<lparr>vb_time = cd_bucket p, vb_value = nearest_shown (int (digits_value (cd_volume p))),
      vb_color = volume_color (candleDirection p)\<rparr>" for p
  have candle: "display_candle_of U view (Some initialSupply) p = Inr (dc p)" for p
    by (simp add: display_candle_of_def price_value_nearest[OF assms(1,2)] dc_def)
  have bar: "volume_bar_of U p = Inr (vb p)" if "p \<in> set ?c" for p
  proof -
    have "all_digits (cd_volume p)" using that assms(3) by (auto simp: list_all_iff)
    then show ?thesis using presentationNumber_nearest[OF assms(1), of "int (digits_value (cd_volume p))" 18]
      by (simp add: volume_bar_of_def bigint_of_def vb_def nearest_shown_def)
  qed
  have "try_list (map (display_candle_of U view (Some initialSupply)) ?c) = Inr (map dc ?c)"
    unfolding try_list_Inr list_all2_map1 list_all2_map2 using candle by (simp add: list.rel_refl_strong)
  moreover have "try_list (map (volume_bar_of U) ?c) = Inr (map vb ?c)"
    unfolding try_list_Inr list_all2_map1 list_all2_map2 by (rule list.rel_refl_strong) (rule bar)
  ultimately have "chartDisplayData U points view (Some initialSupply) = Inr (map dc ?c, map vb ?c)"
    by (simp add: chartDisplayData_def Let_def)
  moreover have "list_all2 (\<lambda>c p. dc_time c = cd_bucket p
        \<and> [dc_open c, dc_high c, dc_low c, dc_close c] = map (\<lambda>v. nearest_shown (valued view ?s v)) (prices p)) (map dc ?c) ?c"
    unfolding list_all2_map1 by (rule list.rel_refl_strong) (simp add: dc_def prices_def)
  moreover have "list_all2 (\<lambda>b p. vb_time b = cd_bucket p \<and> vb_value b = nearest_shown (int (digits_value (cd_volume p)))
        \<and> vb_color b = volume_color (candleDirection p)) (map vb ?c) ?c"
    unfolding list_all2_map1 by (rule list.rel_refl_strong) (simp add: vb_def)
  ultimately show ?thesis by blast
qed

definition demo_point :: candle where
  "demo_point = \<lparr>cd_bucket = 600, cd_trades = 1, cd_buys = 1, cd_sells = 0, cd_volume = ''25'', cd_traders = 1,
     cd_open = Some ''10'', cd_high = Some ''12'', cd_low = Some ''9'', cd_close = Some ''11''\<rparr>"

theorem chartDisplayData_nearest_witness:
  "\<exists>candles volumes. chartDisplayData plain_units [demo_point] FdvView (Some ''1000'') = Inr (candles, volumes)
    \<and> length candles = 1 \<and> length volumes = 1"
proof -
  have "all_digits ''1000''" "list_all (\<lambda>p. all_digits (cd_volume p)) [demo_point]" "complete demo_point"
    by (simp_all add: all_digits_def is_digit_def demo_point_def complete_def)
  with chartDisplayData_nearest[OF plain_units_exact this(1,2), of FdvView] show ?thesis
    by (auto dest!: list_all2_lengthD)
qed

lemma headerCandle_in: "headerCandle candles hovered = Some c \<Longrightarrow> c \<in> set candles"
  by (auto simp: headerCandle_def find_Some_iff split: option.splits if_splits)

lemma headerCandle_None: "headerCandle candles hovered = None \<longleftrightarrow> candles = []"
  by (auto simp: headerCandle_def split: option.splits)

end
