(* ===== verification/CtoRegistry.thy ===== *)
theory CtoRegistry
  imports CtoFlow
begin

text \<open>
  The contract side of a takeover: the four calls of \<^verbatim>\<open>contracts/src/v3/CTORegistryV3.sol\<close> on a
  stored proposal, with all their guards in the order of the code, the acceptance as
  \<^verbatim>\<open>CTOTreasuryV3.sol\<close> forwards it, and the activation in \<^verbatim>\<open>FeeManagerV3.sol\<close> that an
  execution ends with. An address is its text in lower case, an unbounded integer is kept below the width
  of its type by the checked additions. What the getters of the other contracts answer is a parameter, and
  so is the collection of the pool fees by the custodian.
\<close>

subsection \<open>State and errors\<close>

datatype registry_error =
    ProposalNotFound | InvalidProposalState | AcceptanceWindowExpired | UnauthorizedTreasury | UnauthorizedCreator
  | InvalidTreasury | TimelockNotElapsed | ExecutionGraceExpired | InvalidCanonicalRelationship | StaleCreatorPayout
  | UnauthorizedController | UnauthorizedCTORegistry | CTOAlreadyActive | InvalidCTOTreasury
  | ReentrantCall | ArithmeticPanic | CollectionFailed

definition ACCEPTANCE_WINDOW :: int where
  "ACCEPTANCE_WINDOW = 7 * 86400"

definition EXECUTION_DELAY :: int where
  "EXECUTION_DELAY = 72 * 3600"

definition EXECUTION_GRACE_PERIOD :: int where
  "EXECUTION_GRACE_PERIOD = 7 * 86400"

text \<open>The storage of the registry. A proposal that was never made is the default one, with state 0.\<close>

record registry =
  rg_self :: string
  rg_feeManager :: string
  rg_activeTreasury :: "string \<Rightarrow> string"
  rg_isCanonicalTreasury :: "string \<Rightarrow> string \<Rightarrow> bool"
  rg_proposals :: "string \<Rightarrow> cto_proposal"
  rg_entered :: bool

text \<open>The storage of the fee manager that an activation reads and writes.\<close>

record fee_manager =
  fm_factory :: string
  fm_ctoRegistry :: string
  fm_curveOf :: "string \<Rightarrow> string"
  fm_creatorOf :: "string \<Rightarrow> string"
  fm_creatorPayoutOf :: "string \<Rightarrow> string"
  fm_pendingCreatorPayoutOf :: "string \<Rightarrow> string"
  fm_creatorFeesAccrued :: "string \<Rightarrow> int"
  fm_checkpointedCreatorFees :: "string \<Rightarrow> string \<Rightarrow> int"
  fm_ctoActive :: "string \<Rightarrow> bool"
  fm_ctoTreasuryOf :: "string \<Rightarrow> string"

text \<open>What the other contracts answer, each getter by the address it is asked at: code sizes, the factory, the
  token, the curve, the graduation manager, the custodian's deployer, the custodian and the treasury. The
  custodian's \<^verbatim>\<open>collectFees\<close> may revert or change the fee manager.\<close>

record protocol_views =
  pv_codeLength :: "string \<Rightarrow> nat"
  fa_graduationManager :: "string \<Rightarrow> string"
  fa_isToken :: "string \<Rightarrow> string \<Rightarrow> bool"
  fa_curveOf :: "string \<Rightarrow> string \<Rightarrow> string"
  fa_tokenInfo :: "string \<Rightarrow> string \<Rightarrow> string \<times> string"
  to_factory :: "string \<Rightarrow> string"
  to_creator :: "string \<Rightarrow> string"
  to_initialized :: "string \<Rightarrow> bool"
  cu_factory :: "string \<Rightarrow> string"
  cu_token :: "string \<Rightarrow> string"
  cu_creator :: "string \<Rightarrow> string"
  cu_feeManager :: "string \<Rightarrow> string"
  cu_graduationManager :: "string \<Rightarrow> string"
  gm_factory :: "string \<Rightarrow> string"
  gm_launchOf :: "string \<Rightarrow> string \<Rightarrow> string \<times> string \<times> bool \<times> bool"
  gm_settled :: "string \<Rightarrow> string \<Rightarrow> bool"
  gm_deployer :: "string \<Rightarrow> string"
  gm_feeVault :: "string \<Rightarrow> string"
  gm_canonicalUsdc :: "string \<Rightarrow> string"
  cd_custodianOf :: "string \<Rightarrow> string \<Rightarrow> string"
  cd_graduationManager :: "string \<Rightarrow> string"
  cd_factory :: "string \<Rightarrow> string"
  cd_feeVault :: "string \<Rightarrow> string"
  cd_canonicalUsdc :: "string \<Rightarrow> string"
  pc_launchToken :: "string \<Rightarrow> string"
  pc_graduationManager :: "string \<Rightarrow> string"
  pc_feeVault :: "string \<Rightarrow> string"
  pc_canonicalFactory :: "string \<Rightarrow> string"
  pc_canonicalUsdc :: "string \<Rightarrow> string"
  pc_positionRegistered :: "string \<Rightarrow> bool"
  pc_positionTokenId :: "string \<Rightarrow> int"
  pc_collectFees :: "string \<Rightarrow> fee_manager \<Rightarrow> fee_manager option"
  tr_registry :: "string \<Rightarrow> string"
  tr_launchToken :: "string \<Rightarrow> string"
  tr_controller :: "string \<Rightarrow> string"
  tr_ctoPolicyHash :: "string \<Rightarrow> string"

type_synonym 'a call = "registry_error + 'a"

definition revert_if :: "bool \<Rightarrow> registry_error \<Rightarrow> unit call" where
  "revert_if bad e = (if bad then Inl e else Inr ())"

lemma revert_if_simps [simp]: "revert_if bad e = Inr u \<longleftrightarrow> \<not> bad" "revert_if True e = Inl e" "revert_if False e = Inr ()"
  by (simp_all add: revert_if_def)

text \<open>Checked addition of unsigned integers.\<close>

definition checked_add :: "nat \<Rightarrow> int \<Rightarrow> int \<Rightarrow> int call" where
  "checked_add width a b = (if a + b \<ge> 2 ^ width then Inl ArithmeticPanic else Inr (a + b))"

subsection \<open>The checks\<close>

definition requireProposal :: "registry \<Rightarrow> string \<Rightarrow> cto_proposal call" where
  "requireProposal R i =
     (let details = rg_proposals R i in if cp_state details = 0 then Inl ProposalNotFound else Inr details)"

text \<open>\<^verbatim>\<open>keccak256("cooket-voluntary-cto-v1")\<close> is the value \<^verbatim>\<open>CTO_POLICY_HASH\<close>: the
  registry and the treasury compute it alike, so the text that is hashed stands for it.\<close>

definition CTO_POLICY_HASH :: string where
  "CTO_POLICY_HASH = ''keccak256(cooket-voluntary-cto-v1)''"

definition requireTreasury :: "protocol_views \<Rightarrow> registry \<Rightarrow> cto_proposal \<Rightarrow> unit call" where
  "requireTreasury V R details =
     (if \<not> rg_isCanonicalTreasury R (cp_token details) (cp_treasury details) \<or> pv_codeLength V (cp_treasury details) = 0
      then Inl InvalidTreasury
      else if tr_registry V (cp_treasury details) \<noteq> rg_self R \<or> tr_launchToken V (cp_treasury details) \<noteq> cp_token details
        \<or> tr_controller V (cp_treasury details) \<noteq> cp_controller details
        \<or> tr_ctoPolicyHash V (cp_treasury details) \<noteq> CTO_POLICY_HASH
      then Inl InvalidTreasury
      else Inr ())"

definition requireFactoryAndTokenRelationships ::
    "protocol_views \<Rightarrow> string \<Rightarrow> string \<Rightarrow> string \<Rightarrow> string \<Rightarrow> unit call" where
  "requireFactoryAndTokenRelationships V factory token creator curve =
     (if creator = zero_address \<or> curve = zero_address \<or> pv_codeLength V curve = 0 then Inl InvalidCanonicalRelationship
      else case fa_tokenInfo V factory token of (factoryCreator, factoryCurve) \<Rightarrow>
        revert_if (\<not> fa_isToken V factory token \<or> fa_curveOf V factory token \<noteq> curve \<or> factoryCreator \<noteq> creator
          \<or> factoryCurve \<noteq> curve \<or> to_factory V token \<noteq> factory \<or> to_creator V token \<noteq> creator
          \<or> \<not> to_initialized V token \<or> cu_factory V curve \<noteq> factory \<or> cu_token V curve \<noteq> token
          \<or> cu_creator V curve \<noteq> creator) InvalidCanonicalRelationship)"

definition canonicalRelationships ::
    "protocol_views \<Rightarrow> registry \<Rightarrow> fee_manager \<Rightarrow> string \<Rightarrow> (string \<times> string \<times> string \<times> bool) call" where
  "canonicalRelationships V R F token =
     (let factory = fm_factory F in
      try_bind (revert_if (token = zero_address \<or> pv_codeLength V token = 0 \<or> factory = zero_address
        \<or> pv_codeLength V factory = 0) InvalidCanonicalRelationship) (\<lambda>_.
      let creator = fm_creatorOf F token; curve = fm_curveOf F token in
      try_bind (requireFactoryAndTokenRelationships V factory token creator curve) (\<lambda>_.
      let manager = fa_graduationManager V factory in
      try_bind (revert_if (manager = zero_address \<or> pv_codeLength V manager = 0) InvalidCanonicalRelationship) (\<lambda>_.
      try_bind (revert_if (cu_feeManager V curve \<noteq> rg_feeManager R \<or> cu_graduationManager V curve \<noteq> manager)
        InvalidCanonicalRelationship) (\<lambda>_.
      case gm_launchOf V manager token of (launchCurve, launchCreator, registered, isGraduated) \<Rightarrow>
        if gm_factory V manager \<noteq> factory \<or> \<not> registered \<or> launchCurve \<noteq> curve \<or> launchCreator \<noteq> creator
        then Inl InvalidCanonicalRelationship
        else Inr (creator, curve, manager, isGraduated))))))"

definition collectCanonicalLPFees ::
    "protocol_views \<Rightarrow> fee_manager \<Rightarrow> string \<Rightarrow> string \<Rightarrow> string \<Rightarrow> fee_manager call" where
  "collectCanonicalLPFees V F token curve manager =
     try_bind (revert_if (\<not> gm_settled V manager token) InvalidCanonicalRelationship) (\<lambda>_.
     let deployer = gm_deployer V manager; vault = gm_feeVault V manager in
     try_bind (revert_if (deployer = zero_address \<or> pv_codeLength V deployer = 0 \<or> vault = zero_address
        \<or> pv_codeLength V vault = 0) InvalidCanonicalRelationship) (\<lambda>_.
     let custodian = cd_custodianOf V deployer token in
     try_bind (revert_if (custodian = zero_address \<or> pv_codeLength V custodian = 0) InvalidCanonicalRelationship) (\<lambda>_.
     try_bind (revert_if (cd_graduationManager V deployer \<noteq> manager \<or> cd_factory V deployer \<noteq> gm_factory V manager
        \<or> cd_feeVault V deployer \<noteq> vault \<or> cd_canonicalUsdc V deployer \<noteq> gm_canonicalUsdc V manager
        \<or> pc_launchToken V custodian \<noteq> token \<or> pc_graduationManager V custodian \<noteq> manager
        \<or> pc_feeVault V custodian \<noteq> vault \<or> pc_canonicalFactory V custodian \<noteq> gm_factory V manager
        \<or> pc_canonicalUsdc V custodian \<noteq> gm_canonicalUsdc V manager \<or> \<not> pc_positionRegistered V custodian
        \<or> pc_positionTokenId V custodian = 0 \<or> fm_curveOf F token \<noteq> curve) InvalidCanonicalRelationship) (\<lambda>_.
     case pc_collectFees V custodian F of None \<Rightarrow> Inl CollectionFailed | Some F' \<Rightarrow> Inr F'))))"

text \<open>\<^verbatim>\<open>FeeManagerV3.activateCTO\<close>, called by the registry.\<close>

definition activateCTO ::
    "protocol_views \<Rightarrow> registry \<Rightarrow> string \<Rightarrow> fee_manager \<Rightarrow> string \<Rightarrow> string \<Rightarrow> fee_manager call" where
  "activateCTO V R sender F token ctoTreasury =
     try_bind (revert_if (sender \<noteq> fm_ctoRegistry F) UnauthorizedCTORegistry) (\<lambda>_.
     try_bind (revert_if (fm_ctoActive F token) CTOAlreadyActive) (\<lambda>_.
     let previousRecipient = fm_creatorPayoutOf F token; checkpointed = fm_creatorFeesAccrued F token in
     try_bind (revert_if (previousRecipient = zero_address \<or> ctoTreasury = zero_address \<or> pv_codeLength V ctoTreasury = 0
        \<or> \<not> rg_isCanonicalTreasury R token ctoTreasury) InvalidCTOTreasury) (\<lambda>_.
     try_bind (if checkpointed = 0 then Inr F
        else try_bind (checked_add 256 (fm_checkpointedCreatorFees F token previousRecipient) checkpointed) (\<lambda>total.
          Inr (F\<lparr>fm_creatorFeesAccrued := (fm_creatorFeesAccrued F)(token := 0),
            fm_checkpointedCreatorFees := (fm_checkpointedCreatorFees F)(token :=
              (fm_checkpointedCreatorFees F token)(previousRecipient := total))\<rparr>))) (\<lambda>F1.
     Inr (F1\<lparr>fm_pendingCreatorPayoutOf := (fm_pendingCreatorPayoutOf F1)(token := zero_address),
            fm_creatorPayoutOf := (fm_creatorPayoutOf F1)(token := ctoTreasury),
            fm_ctoTreasuryOf := (fm_ctoTreasuryOf F1)(token := ctoTreasury),
            fm_ctoActive := (fm_ctoActive F1)(token := True)\<rparr>)))))"

subsection \<open>The calls\<close>

definition store_proposal :: "string \<Rightarrow> cto_proposal \<Rightarrow> registry \<Rightarrow> registry" where
  "store_proposal i details R = R\<lparr>rg_proposals := (rg_proposals R)(i := details)\<rparr>"

definition acceptCTO_registry :: "protocol_views \<Rightarrow> string \<Rightarrow> int \<Rightarrow> string \<Rightarrow> registry \<Rightarrow> registry call" where
  "acceptCTO_registry V sender now i R =
     try_bind (revert_if (rg_entered R) ReentrantCall) (\<lambda>_.
     try_bind (requireProposal R i) (\<lambda>details.
     try_bind (revert_if (cp_state details \<noteq> 1) InvalidProposalState) (\<lambda>_.
     try_bind (checked_add 64 (cp_createdAt details) ACCEPTANCE_WINDOW) (\<lambda>deadline.
     try_bind (revert_if (now > deadline) AcceptanceWindowExpired) (\<lambda>_.
     try_bind (revert_if (sender \<noteq> cp_treasury details \<or> \<not> rg_isCanonicalTreasury R (cp_token details) sender)
       UnauthorizedTreasury) (\<lambda>_.
     try_bind (requireTreasury V R details) (\<lambda>_.
     let acceptedAt = now mod 2 ^ 64 in
     try_bind (checked_add 64 acceptedAt EXECUTION_DELAY) (\<lambda>readyAt.
     try_bind (checked_add 64 readyAt EXECUTION_GRACE_PERIOD) (\<lambda>_.
       Inr (store_proposal i (details\<lparr>cp_acceptedAt := acceptedAt, cp_state := 2\<rparr>) R))))))))))"

text \<open>\<^verbatim>\<open>CTOTreasuryV3.acceptCTO\<close>: the treasury forwards its controller's call.\<close>

definition acceptCTO_treasury :: "protocol_views \<Rightarrow> string \<Rightarrow> string \<Rightarrow> int \<Rightarrow> string \<Rightarrow> registry \<Rightarrow> registry call" where
  "acceptCTO_treasury V treasury sender now i R =
     try_bind (revert_if (sender \<noteq> tr_controller V treasury) UnauthorizedController) (\<lambda>_.
       acceptCTO_registry V treasury now i R)"

definition cancelCTO_registry :: "string \<Rightarrow> string \<Rightarrow> registry \<Rightarrow> registry call" where
  "cancelCTO_registry sender i R =
     try_bind (requireProposal R i) (\<lambda>details.
     try_bind (revert_if (sender \<noteq> cp_creator details) UnauthorizedCreator) (\<lambda>_.
     try_bind (revert_if (cp_state details \<noteq> 1 \<and> cp_state details \<noteq> 2) InvalidProposalState) (\<lambda>_.
       Inr (store_proposal i (details\<lparr>cp_state := 3\<rparr>) R))))"

definition executionDeadline :: "cto_proposal \<Rightarrow> int" where
  "executionDeadline details = cp_acceptedAt details + EXECUTION_DELAY + EXECUTION_GRACE_PERIOD"

definition expireCTO_registry :: "int \<Rightarrow> string \<Rightarrow> registry \<Rightarrow> registry call" where
  "expireCTO_registry now i R =
     try_bind (requireProposal R i) (\<lambda>details.
     try_bind
       (if cp_state details = 1 then
          try_bind (checked_add 64 (cp_createdAt details) ACCEPTANCE_WINDOW) (\<lambda>deadline.
            revert_if (now \<le> deadline) InvalidProposalState)
        else if cp_state details = 2 then revert_if (now \<le> executionDeadline details) InvalidProposalState
        else Inl InvalidProposalState) (\<lambda>_.
       Inr (store_proposal i (details\<lparr>cp_state := 4\<rparr>) R)))"

definition executeCTO_registry ::
    "protocol_views \<Rightarrow> int \<Rightarrow> string \<Rightarrow> registry \<Rightarrow> fee_manager \<Rightarrow> (registry \<times> fee_manager) call" where
  "executeCTO_registry V now i R F =
     try_bind (revert_if (rg_entered R) ReentrantCall) (\<lambda>_.
     try_bind (requireProposal R i) (\<lambda>details.
     try_bind (revert_if (cp_state details \<noteq> 2) InvalidProposalState) (\<lambda>_.
     let after = cp_acceptedAt details + EXECUTION_DELAY in
     try_bind (revert_if (now < after) TimelockNotElapsed) (\<lambda>_.
     try_bind (revert_if (now > after + EXECUTION_GRACE_PERIOD) ExecutionGraceExpired) (\<lambda>_.
     try_bind (canonicalRelationships V R F (cp_token details)) (\<lambda>(_, curve, manager, graduated).
     try_bind (requireTreasury V R details) (\<lambda>_.
     try_bind (revert_if (fm_creatorPayoutOf F (cp_token details) \<noteq> cp_previousRecipient details) StaleCreatorPayout) (\<lambda>_.
     let R1 = (store_proposal i (details\<lparr>cp_state := 5\<rparr>) R)
                \<lparr>rg_activeTreasury := (rg_activeTreasury R)(cp_token details := cp_treasury details)\<rparr> in
     try_bind (if graduated then collectCanonicalLPFees V F (cp_token details) curve manager else Inr F) (\<lambda>F1.
     try_bind (activateCTO V R1 (rg_self R) F1 (cp_token details) (cp_treasury details)) (\<lambda>F2.
       Inr (R1, F2)))))))))))"

subsection \<open>When a call is accepted\<close>

definition accepted_call :: "'a call \<Rightarrow> bool" where
  "accepted_call r \<longleftrightarrow> (\<exists>a. r = Inr a)"

lemma accepted_call_simps [simp]:
  "accepted_call (Inr a)" "\<not> accepted_call (Inl e)" "accepted_call (revert_if bad e) \<longleftrightarrow> \<not> bad"
  by (simp_all add: accepted_call_def revert_if_def)

lemma accepted_bind: "accepted_call (try_bind m f) \<longleftrightarrow> (\<exists>a. m = Inr a \<and> accepted_call (f a))"
  by (auto simp: accepted_call_def try_bind_Inr_iff)

lemma requireProposal_Inr: "requireProposal R i = Inr d \<longleftrightarrow> d = rg_proposals R i \<and> cp_state d \<noteq> 0"
  by (auto simp: requireProposal_def Let_def)

lemma checked_add_Inr: "checked_add width a b = Inr s \<longleftrightarrow> a + b < 2 ^ width \<and> s = a + b"
  by (auto simp: checked_add_def)

lemma expire_accepted:
  assumes "cp_createdAt (rg_proposals R i) + ACCEPTANCE_WINDOW < 2 ^ 64"
  shows "accepted_call (expireCTO_registry now i R) \<longleftrightarrow>
    (cp_state (rg_proposals R i) = 1 \<and> cp_createdAt (rg_proposals R i) + ACCEPTANCE_WINDOW < now)
    \<or> (cp_state (rg_proposals R i) = 2 \<and> executionDeadline (rg_proposals R i) < now)"
  using assms by (auto simp: expireCTO_registry_def accepted_bind requireProposal_Inr checked_add_def)

lemma cancel_accepted:
  "accepted_call (cancelCTO_registry sender i R) \<longleftrightarrow> sender = cp_creator (rg_proposals R i)
     \<and> (cp_state (rg_proposals R i) = 1 \<or> cp_state (rg_proposals R i) = 2)"
  by (auto simp: cancelCTO_registry_def accepted_bind requireProposal_Inr)

lemma accept_accepted:
  assumes "cp_createdAt (rg_proposals R i) + ACCEPTANCE_WINDOW < 2 ^ 64"
    and "0 \<le> now" and "now + EXECUTION_DELAY + EXECUTION_GRACE_PERIOD < 2 ^ 64" and "treasury = cp_treasury (rg_proposals R i)"
  shows "accepted_call (acceptCTO_treasury V treasury sender now i R) \<longleftrightarrow> \<not> rg_entered R
    \<and> sender = tr_controller V treasury \<and> cp_state (rg_proposals R i) = 1
    \<and> now \<le> cp_createdAt (rg_proposals R i) + ACCEPTANCE_WINDOW \<and> requireTreasury V R (rg_proposals R i) = Inr ()"
proof -
  have "now mod 2 ^ 64 = now" "now + EXECUTION_DELAY < 2 ^ 64"
    using assms(2,3) by (simp_all add: EXECUTION_DELAY_def EXECUTION_GRACE_PERIOD_def)
  moreover have "rg_isCanonicalTreasury R (cp_token d) (cp_treasury d)" if "requireTreasury V R d = Inr ()" for d
    using that by (auto simp: requireTreasury_def split: if_splits)
  ultimately show ?thesis using assms
    by (auto simp: acceptCTO_treasury_def acceptCTO_registry_def accepted_bind requireProposal_Inr checked_add_Inr Let_def)
qed

text \<open>What an execution needs besides the state and the time.\<close>

definition execution_ready :: "protocol_views \<Rightarrow> registry \<Rightarrow> fee_manager \<Rightarrow> string \<Rightarrow> bool" where
  "execution_ready V R F i \<longleftrightarrow>
     (let d = rg_proposals R i;
          R1 = (store_proposal i (d\<lparr>cp_state := 5\<rparr>) R)\<lparr>rg_activeTreasury := (rg_activeTreasury R)(cp_token d := cp_treasury d)\<rparr> in
      \<not> rg_entered R \<and> requireTreasury V R d = Inr () \<and> fm_creatorPayoutOf F (cp_token d) = cp_previousRecipient d
      \<and> (\<exists>creator curve manager graduated. canonicalRelationships V R F (cp_token d) = Inr (creator, curve, manager, graduated)
          \<and> (\<exists>F1. (if graduated then collectCanonicalLPFees V F (cp_token d) curve manager else Inr F) = Inr F1
              \<and> accepted_call (activateCTO V R1 (rg_self R) F1 (cp_token d) (cp_treasury d)))))"

lemma execute_accepted:
  "accepted_call (executeCTO_registry V now i R F) \<longleftrightarrow> cp_state (rg_proposals R i) = 2
     \<and> cp_acceptedAt (rg_proposals R i) + EXECUTION_DELAY \<le> now \<and> now \<le> executionDeadline (rg_proposals R i)
     \<and> execution_ready V R F i"
proof -
  have guard: "accepted_call (try_bind (revert_if bad e) f) \<longleftrightarrow> \<not> bad \<and> accepted_call (f ())" for bad e and f :: "unit \<Rightarrow> 'x call"
    by (auto simp: accepted_bind)
  have read: "accepted_call (try_bind (requireProposal R i) f) \<longleftrightarrow>
    cp_state (rg_proposals R i) \<noteq> 0 \<and> accepted_call (f (rg_proposals R i))" for f :: "cto_proposal \<Rightarrow> 'x call"
    by (auto simp: accepted_bind requireProposal_Inr)
  have unit: "accepted_call (try_bind m f) \<longleftrightarrow> m = Inr () \<and> accepted_call (f ())" for m and f :: "unit \<Rightarrow> 'x call"
    by (auto simp: accepted_bind)
  have links: "accepted_call (try_bind m (\<lambda>(a, b, c, d). f a b c d)) \<longleftrightarrow>
    (\<exists>a b c d. m = Inr (a, b, c, d) \<and> accepted_call (f a b c d))"
    for m :: "(string \<times> string \<times> string \<times> bool) call" and f :: "_ \<Rightarrow> _ \<Rightarrow> _ \<Rightarrow> _ \<Rightarrow> 'x call"
    by (auto simp: accepted_bind)
  have done': "accepted_call (try_bind m (\<lambda>a. Inr (b, a))) \<longleftrightarrow> accepted_call m" for m :: "'x call" and b :: registry
    by (auto simp: accepted_bind) (auto simp: accepted_call_def)
  note parts = executeCTO_registry_def execution_ready_def executionDeadline_def Let_def guard read links done'
  show ?thesis
  proof (cases "canonicalRelationships V R F (cp_token (rg_proposals R i))")
    case (Inl e)
    then show ?thesis unfolding parts by simp
  next
    case (Inr x)
    obtain a b c d where "x = (a, b, c, d)" by (cases x)
    with Inr show ?thesis unfolding parts
      by (cases d) (auto simp: guard unit accepted_bind[of "collectCanonicalLPFees _ _ _ _ _"] done' not_less)
  qed
qed

end
