(* ===== verification/CtoPanel.thy ===== *)
theory CtoPanel
  imports CtoRegistry ActiveWallet DisplayFormat Realtime LockedMachine
begin

text \<open>
  The takeover panel of a token (\<^verbatim>\<open>components/token-cto.tsx\<close>): which view it renders for the
  indexed status and the chain state, which actions it offers in which view and to whom, and the
  proposal form and the workflow as a state machine with the transactions of CtoFlow as its jobs. The
  buttons are compared with what the registry contract of CtoRegistry accepts.
\<close>

subsection \<open>Numbers\<close>

text \<open>\<^verbatim>\<open>a + b\<close>, \<^verbatim>\<open>a > b\<close> and \<^verbatim>\<open>a || d\<close> on numbers.\<close>

fun num_add :: "jsnum \<Rightarrow> jsnum \<Rightarrow> jsnum" where
  "num_add (Fin a) (Fin b) = double_of (a + b)"
| "num_add NaN b = NaN"
| "num_add a NaN = NaN"
| "num_add PosInf NegInf = NaN"
| "num_add NegInf PosInf = NaN"
| "num_add PosInf b = PosInf"
| "num_add a PosInf = PosInf"
| "num_add NegInf b = NegInf"
| "num_add a NegInf = NegInf"

fun num_less :: "jsnum \<Rightarrow> jsnum \<Rightarrow> bool" where
  "num_less (Fin a) (Fin b) \<longleftrightarrow> a < b"
| "num_less NaN b \<longleftrightarrow> False"
| "num_less a NaN \<longleftrightarrow> False"
| "num_less a NegInf \<longleftrightarrow> False"
| "num_less PosInf b \<longleftrightarrow> False"
| "num_less NegInf b \<longleftrightarrow> True"
| "num_less (Fin a) PosInf \<longleftrightarrow> True"

definition num_le :: "jsnum \<Rightarrow> jsnum \<Rightarrow> bool" where
  "num_le a b \<longleftrightarrow> num_less a b \<or> (a = b \<and> a \<noteq> NaN)"

definition num_or :: "jsnum \<Rightarrow> int \<Rightarrow> jsnum" where
  "num_or a d = (if a = NaN \<or> a = Fin 0 then Fin (of_int d) else a)"

subsection \<open>The state that is shown\<close>

datatype cto_view_state = CInactive | CProposed | CAccepted | CCancelled | CExpired | CActive | CUnavailable | CChecking

fun view_state_text :: "cto_view_state \<Rightarrow> string" where
  "view_state_text CInactive = ''inactive''"
| "view_state_text CProposed = ''proposed''"
| "view_state_text CAccepted = ''accepted''"
| "view_state_text CCancelled = ''cancelled''"
| "view_state_text CExpired = ''expired''"
| "view_state_text CActive = ''active''"
| "view_state_text CUnavailable = ''unavailable''"
| "view_state_text CChecking = ''checking''"

definition state_of_number :: "int \<Rightarrow> cto_view_state" where
  "state_of_number n =
     (if n = 1 then CProposed else if n = 2 then CAccepted else if n = 3 then CCancelled
      else if n = 4 then CExpired else if n = 5 then CActive else CUnavailable)"

definition currentState :: "cto_state option \<Rightarrow> cto_view_state" where
  "currentState chainState =
     (case chainState of
        None \<Rightarrow> CInactive
      | Some s \<Rightarrow>
          (case cs_proposal s of
             None \<Rightarrow> CInactive
           | Some p \<Rightarrow> if cs_currentProposalId s = zero_hash then CInactive else state_of_number (cp_state p)))"

definition timingSensitive :: "cto_state option \<Rightarrow> bool" where
  "timingSensitive chainState \<longleftrightarrow> currentState chainState = CProposed \<or> currentState chainState = CAccepted"

definition CTO_CHAIN_REFRESH_MS :: nat where
  "CTO_CHAIN_REFRESH_MS = 20000"

text \<open>\<^verbatim>\<open>refetchInterval\<close>: how long after a read the chain state is read again.\<close>

definition refetch_interval :: "cto_state option \<Rightarrow> nat option" where
  "refetch_interval chainState = (if timingSensitive chainState then Some CTO_CHAIN_REFRESH_MS else None)"

text \<open>What the queries hold: whether the indexed status is active, the indexed proposals with their
  treasuries, and the chain state. A query that failed may still hold older data.\<close>

record indexed_proposal =
  ip_proposalId :: string
  ip_treasury :: "string option"

record cto_queries =
  cq_status :: "bool option"
  cq_statusPending :: bool
  cq_statusFailed :: bool
  cq_proposals :: "indexed_proposal list"
  cq_chain :: "cto_state option"
  cq_chainPending :: bool
  cq_chainFailed :: bool

definition effectiveState :: "cto_queries \<Rightarrow> cto_view_state" where
  "effectiveState q =
     (if cq_chainFailed q then CUnavailable
      else if cq_chainPending q then CChecking
      else currentState (cq_chain q))"

definition indexedCurrentProposal :: "cto_queries \<Rightarrow> indexed_proposal option" where
  "indexedCurrentProposal q =
     (case cq_chain q of
        None \<Rightarrow> None
      | Some s \<Rightarrow>
          if cs_currentProposalId s = [] then None
          else List.find (\<lambda>i. js_lower (ip_proposalId i) = js_lower (cs_currentProposalId s)) (cq_proposals q))"

definition status_badge :: "cto_queries \<Rightarrow> string" where
  "status_badge q =
     (if cq_statusPending q then ''Loading''
      else if cq_statusFailed q \<or> cq_chainFailed q then ''Unavailable''
      else if effectiveState q = CChecking then ''Checking''
      else (case view_state_text (effectiveState q) of [] \<Rightarrow> [] | c # cs \<Rightarrow> js_upper [c] @ cs))"

datatype cto_view =
    NoStatus | CheckingView | UnavailableView | InactiveView | WorkflowView | TerminalView | ActiveView | ActivePendingView

definition view_of :: "cto_queries \<Rightarrow> cto_view" where
  "view_of q =
     (case cq_status q of
        None \<Rightarrow> NoStatus
      | Some active \<Rightarrow>
          (case effectiveState q of
             CChecking \<Rightarrow> CheckingView
           | CUnavailable \<Rightarrow> UnavailableView
           | CInactive \<Rightarrow> InactiveView
           | CProposed \<Rightarrow> WorkflowView
           | CAccepted \<Rightarrow> WorkflowView
           | CCancelled \<Rightarrow> TerminalView
           | CExpired \<Rightarrow> TerminalView
           | CActive \<Rightarrow> if active then ActiveView else ActivePendingView))"

text \<open>\<^verbatim>\<open>invalidateCTO\<close>: the queries read again after a confirmed transaction.\<close>

definition invalidateCTO :: "string \<Rightarrow> indexed_proposal option \<Rightarrow> string list list" where
  "invalidateCTO token proposal =
     [[''cto-status'', token], [''cto-proposals'', token], [''cto-onchain'', token]]
       @ (case proposal of None \<Rightarrow> [] | Some i \<Rightarrow>
            (case truthy (ip_treasury i) of None \<Rightarrow> [] | Some t \<Rightarrow> [[''cto-treasury'', t]]))"

definition actionError :: "js_error \<Rightarrow> string" where
  "actionError reason =
     (let message = (case reason of JsError n t \<Rightarrow> t | JsOther s \<Rightarrow> ''The CTO transaction failed.'') in
      if matches_any_ci rejection_pattern message then ''The wallet request was rejected.'' else message)"

definition formatExactInteger :: "string \<Rightarrow> string" where
  "formatExactInteger v = (case js_bigint v of None \<Rightarrow> v | Some n \<Rightarrow> groupInteger (int_text n))"

subsection \<open>What is offered\<close>

record cto_wallet =
  cw_connected :: bool
  cw_hasClient :: bool
  cw_address :: "string option"
  cw_canTransact :: bool
  cw_status :: wallet_status

definition is_account :: "cto_wallet \<Rightarrow> string \<Rightarrow> bool" where
  "is_account w a \<longleftrightarrow> (case truthy (cw_address w) of None \<Rightarrow> False | Some x \<Rightarrow> js_lower x = js_lower a)"

definition acceptanceDeadline :: "cto_state \<Rightarrow> cto_proposal \<Rightarrow> jsnum" where
  "acceptanceDeadline s p =
     num_add (number_of_bigint (cp_createdAt p)) (num_or (cs_acceptanceWindow s) CTO_ACCEPTANCE_WINDOW)"

definition executeAfter :: "cto_state \<Rightarrow> cto_proposal \<Rightarrow> jsnum" where
  "executeAfter s p =
     num_add (number_of_bigint (cp_acceptedAt p)) (num_or (cs_executionDelay s) CTO_EXECUTION_DELAY)"

definition executeDeadline :: "cto_state \<Rightarrow> cto_proposal \<Rightarrow> jsnum" where
  "executeDeadline s p = num_add (executeAfter s p) (num_or (cs_executionGracePeriod s) CTO_EXECUTION_GRACE_PERIOD)"

definition canExpire :: "cto_state \<Rightarrow> cto_proposal \<Rightarrow> bool" where
  "canExpire s p \<longleftrightarrow>
     (cp_state p = 1 \<and> num_less (acceptanceDeadline s p) (cs_blockTimestamp s))
     \<or> (cp_state p = 2 \<and> num_less (executeDeadline s p) (cs_blockTimestamp s))"

definition canExecute :: "cto_state \<Rightarrow> cto_proposal \<Rightarrow> bool" where
  "canExecute s p \<longleftrightarrow> cp_state p = 2 \<and> num_le (executeAfter s p) (cs_blockTimestamp s)
     \<and> num_le (cs_blockTimestamp s) (executeDeadline s p)"

fun action_rendered :: "cto_wallet \<Rightarrow> cto_state \<Rightarrow> cto_proposal \<Rightarrow> cto_action \<Rightarrow> bool" where
  "action_rendered w s p Accept \<longleftrightarrow> cp_state p = 1 \<and> is_account w (cp_controller p)"
| "action_rendered w s p Execute \<longleftrightarrow> cp_state p = 2 \<and> canExecute s p"
| "action_rendered w s p Cancel \<longleftrightarrow> (cp_state p = 1 \<or> cp_state p = 2) \<and> is_account w (cs_creator s)"
| "action_rendered w s p Expire \<longleftrightarrow> canExpire s p"


subsection \<open>The buttons and the registry\<close>

text \<open>The proposal as the registry stores it and as the panel reads it: the client's addresses are checksummed texts,
  the registry's are equal when they are the same address.\<close>

definition stored_proposal :: "cto_proposal \<Rightarrow> cto_proposal" where
  "stored_proposal p = p\<lparr>cp_token := js_lower (cp_token p), cp_creator := js_lower (cp_creator p),
     cp_controller := js_lower (cp_controller p), cp_treasury := js_lower (cp_treasury p),
     cp_previousRecipient := js_lower (cp_previousRecipient p)\<rparr>"

definition small_time :: "int \<Rightarrow> bool" where
  "small_time i \<longleftrightarrow> 0 \<le> i \<and> i \<le> 2 ^ 50"

lemma small_number: "small_time i \<Longrightarrow> number_of_bigint i = Fin (of_int i)"
  unfolding number_of_bigint_def small_time_def by (subst double_of_int) auto

lemma small_sum:
  assumes "0 \<le> i" and "0 \<le> j" and "i + j \<le> 2 ^ 53"
  shows "num_add (Fin (of_int i)) (Fin (of_int j)) = Fin (of_int (i + j))"
proof -
  have "\<bar>i + j\<bar> \<le> 2 ^ 53" using assms by simp
  from double_of_int[OF this] show ?thesis by simp
qed

lemma num_or_small: "small_time i \<Longrightarrow> 0 < i \<Longrightarrow> num_or (number_of_bigint i) d = Fin (of_int i)"
  by (simp add: small_number num_or_def)

text \<open>C16: what the panel offers is compared with what the registry contract does at the timestamp of the chain state that
  is shown, for every proposal it stores with times up to 2^50 seconds and the registry's own three periods,
  despite floating point. Expiring is offered exactly when the registry would accept the call from anyone,
  cancelling exactly when it would accept it from the connected account; executing and expiring are never
  both offered. A call to execute is accepted exactly when its button is offered and everything else the
  registry checks holds: it is not reentered, the treasury is the canonical one, the payout is still the one
  of the proposal, the protocol's contracts name each other, and the collection of the pool fees and the
  activation succeed. A call to accept, made by the connected account through the proposal's treasury,
  whose controller is the proposal's, is accepted exactly when its button is offered, the deadline has not
  passed, the treasury is the canonical one and the registry is not reentered; its button is offered after
  the deadline too, and then the registry answers that the window has expired.\<close>

theorem offered_as_registry_accepts:
  assumes "cs_blockTimestamp s = number_of_bigint now" and "cs_acceptanceWindow s = number_of_bigint ACCEPTANCE_WINDOW"
    and "cs_executionDelay s = number_of_bigint EXECUTION_DELAY"
    and "cs_executionGracePeriod s = number_of_bigint EXECUTION_GRACE_PERIOD"
    and "small_time now" and "small_time (cp_createdAt p)" and "small_time (cp_acceptedAt p)"
    and "rg_proposals R i = stored_proposal p" and "truthy (cw_address w) = Some account"
    and "js_lower (cs_creator s) = js_lower (cp_creator p)"
    and "tr_controller V (js_lower (cp_treasury p)) = js_lower (cp_controller p)"
  shows "(action_rendered w s p Expire \<longleftrightarrow> accepted_call (expireCTO_registry now i R))
    \<and> (action_rendered w s p Cancel \<longleftrightarrow> accepted_call (cancelCTO_registry (js_lower account) i R))
    \<and> \<not> (action_rendered w s p Execute \<and> action_rendered w s p Expire)
    \<and> (accepted_call (executeCTO_registry V now i R F) \<longleftrightarrow> action_rendered w s p Execute \<and> execution_ready V R F i)
    \<and> (accepted_call (acceptCTO_treasury V (js_lower (cp_treasury p)) (js_lower account) now i R)
        \<longleftrightarrow> action_rendered w s p Accept \<and> now \<le> cp_createdAt p + ACCEPTANCE_WINDOW
            \<and> requireTreasury V R (stored_proposal p) = Inr () \<and> \<not> rg_entered R)
    \<and> (action_rendered w s p Accept \<and> now > cp_createdAt p + ACCEPTANCE_WINDOW \<and> \<not> rg_entered R
        \<longrightarrow> acceptCTO_treasury V (js_lower (cp_treasury p)) (js_lower account) now i R = Inl AcceptanceWindowExpired)"
proof -
  have periods: "small_time ACCEPTANCE_WINDOW" "small_time EXECUTION_DELAY" "small_time EXECUTION_GRACE_PERIOD"
    "0 < ACCEPTANCE_WINDOW" "0 < EXECUTION_DELAY" "0 < EXECUTION_GRACE_PERIOD"
    by (simp_all add: small_time_def ACCEPTANCE_WINDOW_def EXECUTION_DELAY_def EXECUTION_GRACE_PERIOD_def)
  have stored: "cp_state (stored_proposal p) = cp_state p" "cp_createdAt (stored_proposal p) = cp_createdAt p"
    "cp_acceptedAt (stored_proposal p) = cp_acceptedAt p" "cp_creator (stored_proposal p) = js_lower (cp_creator p)"
    "cp_treasury (stored_proposal p) = js_lower (cp_treasury p)" "executionDeadline (stored_proposal p) = executionDeadline p"
    by (simp_all add: stored_proposal_def executionDeadline_def)
  have now: "cs_blockTimestamp s = Fin (of_int now)" using assms(1,5) small_number by simp
  have bounds: "cp_createdAt p + ACCEPTANCE_WINDOW \<le> 2 ^ 53" "cp_acceptedAt p + EXECUTION_DELAY \<le> 2 ^ 53"
    "cp_acceptedAt p + EXECUTION_DELAY + EXECUTION_GRACE_PERIOD \<le> 2 ^ 53" "0 \<le> cp_createdAt p" "0 \<le> cp_acceptedAt p"
    "cp_createdAt p + ACCEPTANCE_WINDOW < 2 ^ 64" "now + EXECUTION_DELAY + EXECUTION_GRACE_PERIOD < 2 ^ 64" "0 \<le> now"
    using assms(5-7) by (simp_all add: small_time_def ACCEPTANCE_WINDOW_def EXECUTION_DELAY_def EXECUTION_GRACE_PERIOD_def)
  have a: "acceptanceDeadline s p = Fin (of_int (cp_createdAt p + ACCEPTANCE_WINDOW))"
    unfolding acceptanceDeadline_def assms(2) num_or_small[OF periods(1,4)] small_number[OF assms(6)]
    by (rule small_sum[OF bounds(4) _ bounds(1)]) (use periods(4) in simp)
  have e: "executeAfter s p = Fin (of_int (cp_acceptedAt p + EXECUTION_DELAY))"
    unfolding executeAfter_def assms(3) num_or_small[OF periods(2,5)] small_number[OF assms(7)]
    by (rule small_sum[OF bounds(5) _ bounds(2)]) (use periods(5) in simp)
  have d: "executeDeadline s p = Fin (of_int (executionDeadline p))"
    unfolding executeDeadline_def assms(4) num_or_small[OF periods(3,6)] e executionDeadline_def
    by (rule small_sum[OF _ _ bounds(3)]) (use bounds(5) periods(5,6) in simp_all)
  have less: "num_less (Fin (of_int i)) (Fin (of_int j)) \<longleftrightarrow> i < j" for i j by simp
  have le: "num_le (Fin (of_int i)) (Fin (of_int j)) \<longleftrightarrow> i \<le> j" for i j by (auto simp: num_le_def)
  have execute: "action_rendered w s p Execute \<longleftrightarrow> cp_state p = 2 \<and> cp_acceptedAt p + EXECUTION_DELAY \<le> now
    \<and> now \<le> executionDeadline p"
    unfolding action_rendered.simps canExecute_def e d now le by auto
  have expire: "action_rendered w s p Expire \<longleftrightarrow> (cp_state p = 1 \<and> cp_createdAt p + ACCEPTANCE_WINDOW < now)
    \<or> (cp_state p = 2 \<and> executionDeadline p < now)"
    unfolding action_rendered.simps canExpire_def a d now less by simp
  have cancel: "action_rendered w s p Cancel \<longleftrightarrow> (cp_state p = 1 \<or> cp_state p = 2) \<and> js_lower account = js_lower (cp_creator p)"
    using assms(9,10) by (simp add: is_account_def)
  have accept: "action_rendered w s p Accept \<longleftrightarrow> cp_state p = 1 \<and> js_lower account = js_lower (cp_controller p)"
    using assms(9) by (simp add: is_account_def)
  have late: "acceptCTO_treasury V (js_lower (cp_treasury p)) (js_lower account) now i R = Inl AcceptanceWindowExpired"
    if "action_rendered w s p Accept" "now > cp_createdAt p + ACCEPTANCE_WINDOW" "\<not> rg_entered R"
    using that accept bounds(6) assms(8,11) stored
    by (simp add: acceptCTO_treasury_def acceptCTO_registry_def requireProposal_def checked_add_def)
  have "accepted_call (acceptCTO_treasury V (js_lower (cp_treasury p)) (js_lower account) now i R)
        \<longleftrightarrow> action_rendered w s p Accept \<and> now \<le> cp_createdAt p + ACCEPTANCE_WINDOW
            \<and> requireTreasury V R (stored_proposal p) = Inr () \<and> \<not> rg_entered R"
    using accept_accepted[of R i now "js_lower (cp_treasury p)" V "js_lower account"] bounds(6-8) accept
    unfolding assms(8,11) stored by auto
  moreover have "accepted_call (executeCTO_registry V now i R F) \<longleftrightarrow> action_rendered w s p Execute \<and> execution_ready V R F i"
    using execute_accepted[of V now i R F] execute unfolding assms(8) stored by auto
  moreover have "action_rendered w s p Expire \<longleftrightarrow> accepted_call (expireCTO_registry now i R)"
    using expire_accepted[of R i now] expire bounds(6) unfolding assms(8) stored by auto
  moreover have "action_rendered w s p Cancel \<longleftrightarrow> accepted_call (cancelCTO_registry (js_lower account) i R)"
    using cancel_accepted[of "js_lower account" i R] cancel unfolding assms(8) stored by auto
  moreover have "\<not> (action_rendered w s p Execute \<and> action_rendered w s p Expire)" using execute expire by auto
  ultimately show ?thesis using late by blast
qed


subsection \<open>The proposal form and the workflow\<close>

text \<open>
  The state of the mounted view: leaving a view unmounts its component, entering one mounts a new
  component with empty state. \<^verbatim>\<open>tp_mount\<close> tells the components apart; what a running action sets
  later is only seen by the component that started it.
\<close>

record cto_panel =
  tp_token :: string
  tp_wallet :: cto_wallet
  tp_queries :: cto_queries
  tp_mount :: nat
  tp_controller :: string
  tp_metadata :: string
  tp_pending :: bool
  tp_message :: string

datatype cto_job =
    Proposing nat string string string string
  | Acting nat cto_action string string string "indexed_proposal option"

datatype cto_command = RunCto cto_job | InvalidateCto "string list list"

datatype cto_event =
    NewCtoWallet cto_wallet
  | NewCtoQueries cto_queries
  | TypeController string
  | TypeMetadata string
  | SubmitProposal
  | PressAction cto_action
  | CtoConfirmed cto_job string
  | CtoRefreshed cto_job
  | CtoFailed cto_job js_error

fun job_mount :: "cto_job \<Rightarrow> nat" where
  "job_mount (Proposing n account token controller metadata) = n"
| "job_mount (Acting n action account token proposalId indexed) = n"

definition mount_cto :: "string \<Rightarrow> cto_wallet \<Rightarrow> cto_queries \<Rightarrow> cto_panel" where
  "mount_cto token w q = \<lparr>tp_token = token, tp_wallet = w, tp_queries = q, tp_mount = 0, tp_controller = '''',
     tp_metadata = '''', tp_pending = False, tp_message = ''''\<rparr>"

definition proposal_offered :: "cto_panel \<Rightarrow> bool" where
  "proposal_offered p \<longleftrightarrow> view_of (tp_queries p) = InactiveView
     \<and> (case cq_chain (tp_queries p) of None \<Rightarrow> False | Some s \<Rightarrow> is_account (tp_wallet p) (cs_creator s))
     \<and> cw_connected (tp_wallet p) \<and> cw_status (tp_wallet p) \<noteq> WrongNetwork
     \<and> \<not> tp_pending p \<and> cw_canTransact (tp_wallet p) \<and> tp_controller p \<noteq> []"

definition action_offered :: "cto_panel \<Rightarrow> cto_action \<Rightarrow> bool" where
  "action_offered p a \<longleftrightarrow> view_of (tp_queries p) = WorkflowView \<and> \<not> tp_pending p \<and> cw_canTransact (tp_wallet p)
     \<and> (case cq_chain (tp_queries p) of None \<Rightarrow> False
        | Some s \<Rightarrow> (case cs_proposal s of None \<Rightarrow> False | Some x \<Rightarrow> action_rendered (tp_wallet p) s x a))"

text \<open>\<^verbatim>\<open>submit\<close> and \<^verbatim>\<open>run\<close> up to their transaction.\<close>

definition submitProposal :: "cto_panel \<Rightarrow> cto_panel \<times> cto_command list" where
  "submitProposal p =
     (case truthy (cw_address (tp_wallet p)) of
        None \<Rightarrow> (p, [])
      | Some account \<Rightarrow>
          if \<not> cw_hasClient (tp_wallet p) then (p, [])
          else (p\<lparr>tp_pending := True, tp_message := ''''\<rparr>,
                [RunCto (Proposing (tp_mount p) account (tp_token p) (tp_controller p) (tp_metadata p))]))"

definition runAction :: "cto_action \<Rightarrow> cto_panel \<Rightarrow> cto_panel \<times> cto_command list" where
  "runAction a p =
     (case (truthy (cw_address (tp_wallet p)), cq_chain (tp_queries p)) of
        (Some account, Some s) \<Rightarrow>
          (case cs_proposal s of
             None \<Rightarrow> (p, [])
           | Some x \<Rightarrow>
               if \<not> cw_hasClient (tp_wallet p) then (p, [])
               else (p\<lparr>tp_pending := True, tp_message := ''''\<rparr>,
                     [RunCto (Acting (tp_mount p) a account (cp_token x) (cs_currentProposalId s)
                        (indexedCurrentProposal (tp_queries p)))]))
      | _ \<Rightarrow> (p, []))"

fun run_cto_job :: "client \<Rightarrow> cto_library \<Rightarrow> cto_job \<Rightarrow> string io" where
  "run_cto_job c L (Proposing n account token controller metadata) =
     io_bind (io_result (c_getAddress c token)) (\<lambda>t. proposeCTO c L account t controller metadata)"
| "run_cto_job c L (Acting n a account token proposalId indexed) =
     io_bind (io_result (c_getAddress c token)) (\<lambda>t. cto_run c L a account t proposalId)"

text \<open>The rest of both: the message and the refreshed queries, the \<^verbatim>\<open>catch\<close> and the
  \<^verbatim>\<open>finally\<close>.\<close>

fun confirmed_text :: "cto_job \<Rightarrow> string" where
  "confirmed_text (Proposing n account token controller metadata) = ''Proposal confirmed: ''"
| "confirmed_text (Acting n a account token proposalId indexed) = ''Transaction confirmed: ''"

fun job_keys :: "string \<Rightarrow> cto_job \<Rightarrow> string list list" where
  "job_keys panelToken (Proposing n account token controller metadata) = invalidateCTO panelToken None"
| "job_keys panelToken (Acting n a account token proposalId indexed) = invalidateCTO panelToken indexed"

definition own_job :: "cto_panel \<Rightarrow> cto_job \<Rightarrow> bool" where
  "own_job p j \<longleftrightarrow> job_mount j = tp_mount p"

fun cto_handle :: "cto_event \<Rightarrow> cto_panel \<Rightarrow> cto_panel \<times> cto_command list" where
  "cto_handle (NewCtoWallet w) p = (p\<lparr>tp_wallet := w\<rparr>, [])"
| "cto_handle (NewCtoQueries q) p =
     (if view_of q = view_of (tp_queries p) then (p\<lparr>tp_queries := q\<rparr>, [])
      else (p\<lparr>tp_queries := q, tp_mount := Suc (tp_mount p), tp_controller := '''', tp_metadata := '''',
              tp_pending := False, tp_message := ''''\<rparr>, []))"
| "cto_handle (TypeController v) p = ((if view_of (tp_queries p) = InactiveView then p\<lparr>tp_controller := v\<rparr> else p), [])"
| "cto_handle (TypeMetadata v) p = ((if view_of (tp_queries p) = InactiveView then p\<lparr>tp_metadata := v\<rparr> else p), [])"
| "cto_handle SubmitProposal p = (if proposal_offered p then submitProposal p else (p, []))"
| "cto_handle (PressAction a) p = (if action_offered p a then runAction a p else (p, []))"
| "cto_handle (CtoConfirmed j h) p =
     ((if own_job p j then p\<lparr>tp_message := confirmed_text j @ h\<rparr> else p), [InvalidateCto (job_keys (tp_token p) j)])"
| "cto_handle (CtoRefreshed j) p = ((if own_job p j then p\<lparr>tp_pending := False\<rparr> else p), [])"
| "cto_handle (CtoFailed j reason) p =
     ((if own_job p j then p\<lparr>tp_message := actionError reason, tp_pending := False\<rparr> else p), [])"

abbreviation cto_move :: "cto_event \<Rightarrow> cto_panel \<Rightarrow> cto_panel" where
  "cto_move e p \<equiv> fst (cto_handle e p)"

definition cto_jobs :: "cto_event \<Rightarrow> cto_panel \<Rightarrow> cto_job list" where
  "cto_jobs e p = [j. RunCto j \<leftarrow> snd (cto_handle e p)]"

subsection \<open>One action per view\<close>

text \<open>What gives the view back: the end of an action it started, and its replacement by another view.\<close>

fun frees_view :: "cto_event \<Rightarrow> cto_panel \<Rightarrow> bool" where
  "frees_view (NewCtoQueries q) p \<longleftrightarrow> view_of q \<noteq> view_of (tp_queries p)"
| "frees_view (CtoRefreshed j) p \<longleftrightarrow> own_job p j"
| "frees_view (CtoFailed j reason) p \<longleftrightarrow> own_job p j"
| "frees_view _ p \<longleftrightarrow> False"

lemma submitProposal_cases:
  "submitProposal p = (p, []) \<or> (\<exists>account. truthy (cw_address (tp_wallet p)) = Some account \<and> cw_hasClient (tp_wallet p)
     \<and> submitProposal p = (p\<lparr>tp_pending := True, tp_message := ''''\<rparr>,
         [RunCto (Proposing (tp_mount p) account (tp_token p) (tp_controller p) (tp_metadata p))]))"
  by (auto simp: submitProposal_def split: option.split)

lemma runAction_cases:
  "runAction a p = (p, []) \<or> (\<exists>account s x. truthy (cw_address (tp_wallet p)) = Some account \<and> cw_hasClient (tp_wallet p)
     \<and> cq_chain (tp_queries p) = Some s \<and> cs_proposal s = Some x
     \<and> runAction a p = (p\<lparr>tp_pending := True, tp_message := ''''\<rparr>,
         [RunCto (Acting (tp_mount p) a account (cp_token x) (cs_currentProposalId s) (indexedCurrentProposal (tp_queries p)))]))"
  by (auto simp: runAction_def split: option.split)

lemma cto_jobs_cases:
  assumes "j \<in> set (cto_jobs e p)"
  shows "(e = SubmitProposal \<and> proposal_offered p \<and> (\<exists>account. truthy (cw_address (tp_wallet p)) = Some account
          \<and> j = Proposing (tp_mount p) account (tp_token p) (tp_controller p) (tp_metadata p)))
    \<or> (\<exists>a account s x. e = PressAction a \<and> action_offered p a \<and> truthy (cw_address (tp_wallet p)) = Some account
          \<and> cq_chain (tp_queries p) = Some s \<and> cs_proposal s = Some x
          \<and> j = Acting (tp_mount p) a account (cp_token x) (cs_currentProposalId s) (indexedCurrentProposal (tp_queries p)))"
proof (cases e)
  case SubmitProposal
  with assms submitProposal_cases[of p] show ?thesis by (auto simp: cto_jobs_def split: if_splits)
next
  case (PressAction a)
  with assms runAction_cases[of a p] show ?thesis by (auto simp: cto_jobs_def split: if_splits)
qed (use assms in \<open>auto simp: cto_jobs_def split: if_splits\<close>)

lemma cto_jobs_lock:
  assumes "cto_jobs e p \<noteq> []"
  shows "\<not> tp_pending p \<and> tp_pending (cto_move e p)"
proof -
  obtain j where j: "j \<in> set (cto_jobs e p)" using assms by (cases "cto_jobs e p") auto
  from cto_jobs_cases[OF j] consider "e = SubmitProposal" "proposal_offered p" | a where "e = PressAction a" "action_offered p a"
    by blast
  then show ?thesis
  proof cases
    case 1
    then show ?thesis using j submitProposal_cases[of p] by (auto simp: cto_jobs_def proposal_offered_def)
  next
    case (2 a)
    then show ?thesis using j runAction_cases[of a p] by (auto simp: cto_jobs_def action_offered_def)
  qed
qed

lemma pending_view_keeps:
  "tp_pending p \<Longrightarrow> \<not> frees_view e p \<Longrightarrow> tp_pending (cto_move e p)"
  by (cases e) (auto simp: proposal_offered_def action_offered_def)

interpretation cto_lock: locked_machine cto_move "\<lambda>e p. cto_jobs e p \<noteq> []" tp_pending frees_view
  by unfold_locales (use cto_jobs_lock pending_view_keeps in blast)+


text \<open>One takeover action per view: once the mounted form or workflow has started a transaction, neither
  it nor any other event starts another one, whatever happens to the wallet, the input and the queries,
  until that transaction has ended or the view has been replaced.\<close>

theorem one_action_per_view:
  assumes "cto_jobs e0 p \<noteq> []" and "\<not> released_in cto_move frees_view es (cto_move e0 p)"
  shows "cto_jobs e (run_events cto_move es (cto_move e0 p)) = []"
  using cto_lock.one_at_a_time[OF assms] by simp

text \<open>C15: what is sent is what was shown. When the workflow starts an action, its button was rendered for the
  proposal on display and the wallet could transact; and when that action returns a hash, then whatever
  happened on the chain since, the registry still named this very proposal as the token's current one, in
  a state the action allows and for an account that may take it, and the wallet was handed the one
  simulated call for this proposal, once, with its receipt a success. That call was simulated and signed
  for the very account of the wallet: the proposal's controller when accepting, the token's creator when
  cancelling, whoever is connected when expiring or executing.\<close>

theorem shown_action_is_sent:
  assumes "Acting n a account token proposalId indexed \<in> set (cto_jobs e p)"
    and "run_cto_job c L (Acting n a account token proposalId indexed) tr = (Inr h, t)"
  shows "\<exists>s x state y t1 signer target fn address. e = PressAction a
    \<and> cq_chain (tp_queries p) = Some s \<and> cs_proposal s = Some x \<and> action_rendered (tp_wallet p) s x a
    \<and> cw_canTransact (tp_wallet p) \<and> cw_address (tp_wallet p) = Some account
    \<and> proposalId = cs_currentProposalId s \<and> token = cp_token x \<and> c_getAddress c token = Inr address
    \<and> readCTOChainState c L address tr = (Inr state, t1)
    \<and> cs_currentProposalId state = cs_currentProposalId s \<and> cs_proposal state = Some y
    \<and> cp_state y \<in> states_for a \<and> allowed_for c a account state y
    \<and> call_for a state y = (target, fn) \<and> signer_for c a account signer
    \<and> (a = Accept \<longrightarrow> signer = cp_controller y) \<and> (a = Cancel \<longrightarrow> signer = cs_creator state)
    \<and> sent_once c (cto_call target fn [AText (cs_currentProposalId s)] signer) tr (Inr h) t"
proof -
  obtain s x where s: "e = PressAction a" "action_offered p a" "truthy (cw_address (tp_wallet p)) = Some account"
    "cq_chain (tp_queries p) = Some s" "cs_proposal s = Some x" "token = cp_token x" "proposalId = cs_currentProposalId s"
    using cto_jobs_cases[OF assms(1)] by auto
  obtain address where run: "c_getAddress c token = Inr address" "cto_run c L a account address proposalId tr = (Inr h, t)"
    using assms(2) by (auto simp: io_inv)
  have "action_rendered (tp_wallet p) s x a" "cw_canTransact (tp_wallet p)" using s by (simp_all add: action_offered_def)
  moreover have "cw_address (tp_wallet p) = Some account" using s(3) by (auto simp: truthy_def split: option.splits if_splits)
  moreover obtain state y t1 signer target fn where "readCTOChainState c L address tr = (Inr state, t1)"
    "cs_currentProposalId state = proposalId" "cs_proposal state = Some y" "cp_state y \<in> states_for a"
    "allowed_for c a account state y" "call_for a state y = (target, fn)" "signer_for c a account signer"
    "sent_once c (cto_call target fn [AText proposalId] signer) tr (Inr h) t"
    using cto_action_rules[OF run(2)] by blast
  moreover from this have "(a = Accept \<longrightarrow> signer = cp_controller y) \<and> (a = Cancel \<longrightarrow> signer = cs_creator state)"
    by (cases a) auto
  ultimately show ?thesis using s run(1)
    by (intro exI[of _ s] exI[of _ x] exI[of _ state] exI[of _ y] exI[of _ t1] exI[of _ signer] exI[of _ target] exI[of _ fn]
        exI[of _ address]) simp
qed

subsection \<open>After a proposal has ended\<close>

text \<open>C38: after a cancelled or expired proposal the panel offers no new one, although the client could send it.
  The registry goes on naming the ended proposal as the current one. For such a chain state the panel
  shows only that the proposal has ended, and no event but a change of the queries leads to a transaction,
  nor does any later one; but the proposal flow, called by the token's creator with a deployed controller
  while the chain is in that very state, hands its proposal to the wallet.\<close>

theorem ended_proposal_blocks_new_one:
  assumes "cq_status q = Some active" and "cq_chain q = Some s" and "\<not> cq_chainFailed q" and "\<not> cq_chainPending q"
    and "cs_proposal s = Some x" and "cs_currentProposalId s \<noteq> zero_hash" and "cp_state x = 3 \<or> cp_state x = 4"
    and "list_all (\<lambda>e. \<forall>q'. e \<noteq> NewCtoQueries q') es" and "\<And>q'. e \<noteq> NewCtoQueries q'"
    and "assertArcProtocolEconomicsReady (c_env c) (c_chain c) = Inr ()"
    and "c_getAddress c account = Inr (cs_creator s)" and "c_getAddress c token = Inr address"
    and "validateControllerAddress c L controller = Inr safe" and "resolveCTOMetadata L uri = Inr (m, mh)"
    and "c_code c tr safe = Inr code" and "requireDeployedController c L safe code = Inr safe"
    and "readCTOChainState c L address (tr @ [EvCode safe]) = (Inr s, t)"
  shows "view_of q = TerminalView \<and> cto_jobs e (run_events cto_move es (mount_cto panelToken w q)) = []
    \<and> proposeCTO c L account token controller uri tr = simulateAndSubmit c (cs_creator s)
         (cto_call (cs_registry s) ''proposeCTO'' [AText address, AText safe, AText mh, AText m] (cs_creator s)) t"
proof -
  have view: "view_of q = TerminalView"
    using assms(1-7) by (auto simp: view_of_def effectiveState_def currentState_def state_of_number_def)
  have kept: "tp_queries (cto_move e' p) = tp_queries p" if "\<And>q'. e' \<noteq> NewCtoQueries q'" for e' p
    using that by (cases e') (auto simp: submitProposal_def runAction_def split: option.split)
  have "tp_queries (run_events cto_move es p) = tp_queries p" for p
    using assms(8) by (induction es arbitrary: p) (auto simp: kept)
  then have "tp_queries (run_events cto_move es (mount_cto panelToken w q)) = q" by (simp add: mount_cto_def)
  then have none: "cto_jobs e (run_events cto_move es (mount_cto panelToken w q)) = []"
    using view assms(9) by (cases e) (simp_all add: cto_jobs_def proposal_offered_def action_offered_def)
  have "proposeCTO c L account token controller uri tr = simulateAndSubmit c (cs_creator s)
         (cto_call (cs_registry s) ''proposeCTO'' [AText address, AText safe, AText mh, AText m] (cs_creator s)) t"
    using assms(5,7,10-17) by (auto simp: proposeCTO_def gate_def io_bind_def io_result_def io_both_def getBytecode_def io_call_def
        io_throw_if_def throw_if_def)
  with view none show ?thesis by blast
qed

subsection \<open>A view that is mounted again\<close>

text \<open>A failed refresh forgets a running action. While an action waits for the wallet, let the chain state be
  read again in vain and then successfully, as the refresh every 20 seconds may do. The workflow is
  unmounted and mounted anew without its pending flag: every action it offers of the shown proposal can be
  started again, with the first one still running, and the end of the first one is not shown.\<close>

theorem refresh_forgets_running_action:
  assumes "cto_jobs (PressAction a) p = [j]" and "cq_chainFailed failed" and "cq_status failed = Some active"
    and "cq_chain (tp_queries p) = Some s" and "cs_proposal s = Some x" and "action_rendered (tp_wallet p) s x b"
  shows "let q = run_events cto_move [PressAction a, NewCtoQueries failed, NewCtoQueries (tp_queries p)] p in
    (\<exists>k. cto_jobs (PressAction b) q = [k] \<and> job_mount k \<noteq> job_mount j)
    \<and> cto_move (CtoConfirmed j h) q = q \<and> cto_move (CtoFailed j reason) q = q"
proof -
  have "j \<in> set (cto_jobs (PressAction a) p)" using assms(1) by simp
  from cto_jobs_cases[OF this] obtain account where o: "action_offered p a" "truthy (cw_address (tp_wallet p)) = Some account"
    "j = Acting (tp_mount p) a account (cp_token x) (cs_currentProposalId s) (indexedCurrentProposal (tp_queries p))"
    using assms(4,5) by auto
  have client: "cw_hasClient (tp_wallet p)"
    using assms(1) o(1) runAction_cases[of a p] by (auto simp: cto_jobs_def)
  have view: "view_of (tp_queries p) = WorkflowView" "view_of failed = UnavailableView"
    using o(1) assms(2,3) by (simp_all add: action_offered_def view_of_def effectiveState_def)
  let ?p1 = "cto_move (PressAction a) p"
  have p1: "tp_queries ?p1 = tp_queries p" "tp_wallet ?p1 = tp_wallet p" "tp_mount ?p1 = tp_mount p"
    using o(1) runAction_cases[of a p] by auto
  define q where "q = run_events cto_move [PressAction a, NewCtoQueries failed, NewCtoQueries (tp_queries p)] p"
  have q: "tp_queries q = tp_queries p" "tp_wallet q = tp_wallet p" "\<not> tp_pending q" "tp_mount q = Suc (Suc (tp_mount p))"
    using p1 view by (simp_all add: q_def)
  have "action_offered q b" using q view assms(4-6) o(1) by (simp add: action_offered_def)
  then have "cto_jobs (PressAction b) q =
      [Acting (tp_mount q) b account (cp_token x) (cs_currentProposalId s) (indexedCurrentProposal (tp_queries p))]"
    using q o(2) client assms(4,5) by (simp add: cto_jobs_def runAction_def)
  moreover have "\<not> own_job q j" using q(4) o(3) by (simp add: own_job_def)
  moreover have "job_mount (Acting (tp_mount q) b account proposal i indexed) \<noteq> job_mount j" for proposal i indexed
    using q(4) o(3) by simp
  ultimately have "\<exists>k. cto_jobs (PressAction b) q = [k] \<and> job_mount k \<noteq> job_mount j" by blast
  moreover have "cto_move (CtoConfirmed j h) q = q" "cto_move (CtoFailed j reason) q = q"
    using \<open>\<not> own_job q j\<close> by simp_all
  ultimately show ?thesis unfolding q_def[symmetric] Let_def by blast
qed


subsection \<open>A concrete takeover\<close>

definition open_state :: cto_state where
  "open_state = demo_cto_state\<lparr>cs_blockTimestamp := number_of_bigint 100\<rparr>"

definition demo_cto_wallet :: cto_wallet where
  "demo_cto_wallet = \<lparr>cw_connected = True, cw_hasClient = True, cw_address = Some ''0xa'', cw_canTransact = True,
     cw_status = WalletReady\<rparr>"

definition demo_queries :: cto_queries where
  "demo_queries = \<lparr>cq_status = Some False, cq_statusPending = False, cq_statusFailed = False, cq_proposals = [],
     cq_chain = Some open_state, cq_chainPending = False, cq_chainFailed = False\<rparr>"

abbreviation demo_cto_panel :: cto_panel where
  "demo_cto_panel \<equiv> mount_cto ''0xt'' demo_cto_wallet demo_queries"

definition ready_state :: cto_state where
  "ready_state = demo_cto_state\<lparr>cs_creator := ''0xA'', cs_blockTimestamp := number_of_bigint 300000,
     cs_acceptanceWindow := number_of_bigint ACCEPTANCE_WINDOW, cs_executionDelay := number_of_bigint EXECUTION_DELAY,
     cs_executionGracePeriod := number_of_bigint EXECUTION_GRACE_PERIOD\<rparr>"

definition demo_registry :: registry where
  "demo_registry = \<lparr>rg_self = ''0xr'', rg_feeManager = ''0xf'', rg_activeTreasury = (\<lambda>t. zero_address),
     rg_isCanonicalTreasury = (\<lambda>t y. y = ''0xy''), rg_proposals = (\<lambda>i. stored_proposal demo_proposal), rg_entered = False\<rparr>"

definition demo_fees :: fee_manager where
  "demo_fees = \<lparr>fm_factory = ''0xfa'', fm_ctoRegistry = ''0xr'', fm_curveOf = (\<lambda>t. ''0xcu''), fm_creatorOf = (\<lambda>t. ''0xa''),
     fm_creatorPayoutOf = (\<lambda>t. ''0xc''), fm_pendingCreatorPayoutOf = (\<lambda>t. zero_address), fm_creatorFeesAccrued = (\<lambda>t. 3),
     fm_checkpointedCreatorFees = (\<lambda>t r. 0), fm_ctoActive = (\<lambda>t. False), fm_ctoTreasuryOf = (\<lambda>t. zero_address)\<rparr>"

definition demo_views :: protocol_views where
  "demo_views = \<lparr>pv_codeLength = (\<lambda>a. 1), fa_graduationManager = (\<lambda>f. ''0xm''), fa_isToken = (\<lambda>f t. True),
     fa_curveOf = (\<lambda>f t. ''0xcu''), fa_tokenInfo = (\<lambda>f t. (''0xa'', ''0xcu'')), to_factory = (\<lambda>t. ''0xfa''),
     to_creator = (\<lambda>t. ''0xa''), to_initialized = (\<lambda>t. True), cu_factory = (\<lambda>c. ''0xfa''), cu_token = (\<lambda>c. ''0xt''),
     cu_creator = (\<lambda>c. ''0xa''), cu_feeManager = (\<lambda>c. ''0xf''), cu_graduationManager = (\<lambda>c. ''0xm''),
     gm_factory = (\<lambda>m. ''0xfa''), gm_launchOf = (\<lambda>m t. (''0xcu'', ''0xa'', True, True)), gm_settled = (\<lambda>m t. True),
     gm_deployer = (\<lambda>m. ''0xd''), gm_feeVault = (\<lambda>m. ''0xv''), gm_canonicalUsdc = (\<lambda>m. ''0xu''),
     cd_custodianOf = (\<lambda>d t. ''0xk''), cd_graduationManager = (\<lambda>d. ''0xm''), cd_factory = (\<lambda>d. ''0xfa''),
     cd_feeVault = (\<lambda>d. ''0xv''), cd_canonicalUsdc = (\<lambda>d. ''0xu''), pc_launchToken = (\<lambda>k. ''0xt''),
     pc_graduationManager = (\<lambda>k. ''0xm''), pc_feeVault = (\<lambda>k. ''0xv''), pc_canonicalFactory = (\<lambda>k. ''0xfa''),
     pc_canonicalUsdc = (\<lambda>k. ''0xu''), pc_positionRegistered = (\<lambda>k. True), pc_positionTokenId = (\<lambda>k. 7),
     pc_collectFees = (\<lambda>k F. Some F), tr_registry = (\<lambda>y. ''0xr''), tr_launchToken = (\<lambda>y. ''0xt''),
     tr_controller = (\<lambda>y. ''0xs''), tr_ctoPolicyHash = (\<lambda>y. CTO_POLICY_HASH)\<rparr>"

lemma demo_stored:
  "stored_proposal demo_proposal = demo_proposal" "js_lower ''0xy'' = ''0xy''" "js_lower ''0xs'' = ''0xs''" "js_lower ''0xA'' = ''0xa''"
  "js_lower ''0xa'' = ''0xa''"
proof -
  show l: "js_lower ''0xy'' = ''0xy''" "js_lower ''0xs'' = ''0xs''" "js_lower ''0xA'' = ''0xa''" "js_lower ''0xa'' = ''0xa''"
    by code_simp+
  have "js_lower ''0xt'' = ''0xt''" "js_lower ''0xc'' = ''0xc''" by code_simp+
  with l show "stored_proposal demo_proposal = demo_proposal" by (simp add: stored_proposal_def demo_proposal_def)
qed

lemma demo_ready: "execution_ready demo_views demo_registry demo_fees ''0xc''"
proof -
  have z: "zero_address \<noteq> a" if "length a \<noteq> 42" for a using that by (auto simp: zero_address_def)
  have names: "''0xa'' \<noteq> zero_address" "''0xcu'' \<noteq> zero_address" "''0xm'' \<noteq> zero_address" "''0xd'' \<noteq> zero_address"
    "''0xv'' \<noteq> zero_address" "''0xk'' \<noteq> zero_address" "''0xt'' \<noteq> zero_address" "''0xfa'' \<noteq> zero_address" "''0xc'' \<noteq> zero_address"
    "''0xy'' \<noteq> zero_address" by (rule z[symmetric], simp)+
  have p: "rg_proposals demo_registry ''0xc'' = demo_proposal" by (simp add: demo_registry_def demo_stored)
  have links: "canonicalRelationships demo_views demo_registry demo_fees ''0xt'' = Inr (''0xa'', ''0xcu'', ''0xm'', True)"
    by (simp add: canonicalRelationships_def requireFactoryAndTokenRelationships_def demo_views_def demo_registry_def
        demo_fees_def revert_if_def names Let_def)
  have collected: "collectCanonicalLPFees demo_views demo_fees ''0xt'' ''0xcu'' ''0xm'' = Inr demo_fees"
    by (simp add: collectCanonicalLPFees_def demo_views_def demo_fees_def revert_if_def names Let_def)
  have fields: "cp_token demo_proposal = ''0xt''" "cp_treasury demo_proposal = ''0xy''" "cp_previousRecipient demo_proposal = ''0xc''"
    "cp_controller demo_proposal = ''0xs''" by (simp_all add: demo_proposal_def)
  have activated: "accepted_call (activateCTO demo_views R (rg_self demo_registry) demo_fees ''0xt'' ''0xy'')"
    if "rg_isCanonicalTreasury R ''0xt'' ''0xy''" for R
    using that by (simp add: activateCTO_def demo_views_def demo_fees_def demo_registry_def revert_if_def names checked_add_def Let_def)
  have treasury: "requireTreasury demo_views demo_registry demo_proposal = Inr ()"
    by (simp add: requireTreasury_def fields demo_views_def demo_registry_def)
  have rest: "\<not> rg_entered demo_registry" "fm_creatorPayoutOf demo_fees ''0xt'' = ''0xc''"
    "rg_isCanonicalTreasury ((store_proposal i x demo_registry)\<lparr>rg_activeTreasury := f\<rparr>) ''0xt'' ''0xy''" for i x f
    by (simp_all add: demo_registry_def demo_fees_def store_proposal_def)
  show ?thesis unfolding execution_ready_def Let_def p fields links treasury
    using collected activated[OF rest(3)] rest(1,2) by auto
qed

theorem offered_as_registry_accepts_witness:
  "action_rendered demo_cto_wallet ready_state demo_proposal Execute
    \<and> accepted_call (executeCTO_registry demo_views 300000 ''0xc'' demo_registry demo_fees)
    \<and> \<not> accepted_call (executeCTO_registry demo_views 300000 ''0xc'' demo_registry (demo_fees\<lparr>fm_creatorPayoutOf := \<lambda>t. ''0xz''\<rparr>))
    \<and> \<not> accepted_call (expireCTO_registry 300000 ''0xc'' demo_registry)"
proof -
  have times: "small_time 300000" "small_time (cp_createdAt demo_proposal)" "small_time (cp_acceptedAt demo_proposal)"
    by (simp_all add: small_time_def demo_proposal_def)
  have read: "cs_blockTimestamp ready_state = number_of_bigint 300000"
    "cs_acceptanceWindow ready_state = number_of_bigint ACCEPTANCE_WINDOW"
    "cs_executionDelay ready_state = number_of_bigint EXECUTION_DELAY"
    "cs_executionGracePeriod ready_state = number_of_bigint EXECUTION_GRACE_PERIOD" by (simp_all add: ready_state_def)
  have other: "rg_proposals demo_registry ''0xc'' = stored_proposal demo_proposal" "truthy (cw_address demo_cto_wallet) = Some ''0xa''"
    "js_lower (cs_creator ready_state) = js_lower (cp_creator demo_proposal)"
    "tr_controller demo_views (js_lower (cp_treasury demo_proposal)) = js_lower (cp_controller demo_proposal)"
    by (simp_all add: demo_registry_def demo_cto_wallet_def truthy_def ready_state_def demo_proposal_def demo_views_def demo_stored)
  have p: "rg_proposals demo_registry ''0xc'' = demo_proposal" by (simp add: demo_registry_def demo_stored)
  have "accepted_call (executeCTO_registry demo_views 300000 ''0xc'' demo_registry demo_fees)"
    using demo_ready unfolding execute_accepted p
    by (simp add: demo_proposal_def executionDeadline_def EXECUTION_DELAY_def EXECUTION_GRACE_PERIOD_def)
  moreover have "\<not> execution_ready demo_views demo_registry (demo_fees\<lparr>fm_creatorPayoutOf := \<lambda>t. ''0xz''\<rparr>) ''0xc''"
    unfolding execution_ready_def Let_def p by (simp add: demo_proposal_def)
  ultimately show ?thesis
    using offered_as_registry_accepts[OF read times other, of demo_fees]
      offered_as_registry_accepts[OF read times other, of "demo_fees\<lparr>fm_creatorPayoutOf := \<lambda>t. ''0xz''\<rparr>"] by blast
qed

lemma open_execute: "action_rendered demo_cto_wallet open_state demo_proposal Execute"
proof -
  have n: "number_of_bigint 100 = Fin 100" "number_of_bigint 50 = Fin 50" "number_of_bigint 6 = Fin 6"
    using small_number[of 100] small_number[of 50] small_number[of 6] by (simp_all add: small_time_def)
  have "double_of 56 = Fin 56" "double_of 106 = Fin 106" using double_of_int[of 56] double_of_int[of 106] by simp_all
  then show ?thesis
    by (simp add: canExecute_def executeAfter_def executeDeadline_def open_state_def demo_cto_state_def demo_proposal_def n num_or_def
        num_le_def)
qed

lemma demo_acting:
  "cto_jobs (PressAction Execute) demo_cto_panel = [Acting 0 Execute ''0xa'' ''0xt'' ''0xc'' None]"
proof -
  have s: "cs_proposal open_state = Some demo_proposal" "cs_currentProposalId open_state = ''0xc''" "cp_state demo_proposal = 2"
    "cp_token demo_proposal = ''0xt''"
    by (simp_all add: open_state_def demo_cto_state_def demo_proposal_def)
  have "''0xc'' \<noteq> zero_hash" by code_simp
  then have "view_of demo_queries = WorkflowView"
    using s by (simp add: view_of_def effectiveState_def currentState_def demo_queries_def state_of_number_def)
  then have "action_offered demo_cto_panel Execute"
    using open_execute s by (simp add: action_offered_def mount_cto_def demo_queries_def demo_cto_wallet_def)
  then show ?thesis using s
    by (simp add: cto_jobs_def runAction_def mount_cto_def demo_cto_wallet_def demo_queries_def truthy_def
        indexedCurrentProposal_def)
qed

theorem one_action_per_view_witness:
  "cto_jobs (PressAction Execute) (run_events cto_move [NewCtoWallet demo_cto_wallet, TypeController ''0xs'']
     (cto_move (PressAction Execute) demo_cto_panel)) = []"
  by (rule one_action_per_view) (simp_all add: demo_acting)

theorem shown_action_is_sent_witness:
  "\<exists>target fn. sent_once demo (cto_call target fn [AText ''0xc''] ''0xa'') [] (Inr ''0xh'') demo_executed"
proof -
  have "Acting 0 Execute ''0xa'' ''0xt'' ''0xc'' None \<in> set (cto_jobs (PressAction Execute) demo_cto_panel)"
    by (simp add: demo_acting)
  moreover have "run_cto_job demo CtoFlow.demo_library (Acting 0 Execute ''0xa'' ''0xt'' ''0xc'' None) [] = (Inr ''0xh'', demo_executed)"
  proof -
    have "c_getAddress demo = Inr" by (simp add: demo_def)
    then show ?thesis using demo_execute by (simp add: io_bind_def io_result_def)
  qed
  ultimately obtain signer s target fn where "cq_chain (tp_queries demo_cto_panel) = Some s"
    "signer_for demo Execute ''0xa'' signer"
    "sent_once demo (cto_call target fn [AText (cs_currentProposalId s)] signer) [] (Inr ''0xh'') demo_executed"
    using shown_action_is_sent by meson
  then have "sent_once demo (cto_call target fn [AText ''0xc''] ''0xa'') [] (Inr ''0xh'') demo_executed"
    by (auto simp: mount_cto_def demo_queries_def open_state_def demo_cto_state_def)
  then show ?thesis by (intro exI)
qed

theorem refresh_forgets_running_action_witness:
  "\<exists>k. cto_jobs (PressAction Execute) (run_events cto_move [PressAction Execute,
       NewCtoQueries (demo_queries\<lparr>cq_chainFailed := True\<rparr>), NewCtoQueries demo_queries] demo_cto_panel) = [k] \<and> job_mount k \<noteq> 0"
proof -
  have p: "tp_queries demo_cto_panel = demo_queries" "tp_wallet demo_cto_panel = demo_cto_wallet"
    "cq_chain demo_queries = Some open_state" "cs_proposal open_state = Some demo_proposal"
    "cq_chainFailed (demo_queries\<lparr>cq_chainFailed := True\<rparr>)" "cq_status (demo_queries\<lparr>cq_chainFailed := True\<rparr>) = Some False"
    by (simp_all add: mount_cto_def demo_queries_def open_state_def demo_cto_state_def)
  have "action_rendered (tp_wallet demo_cto_panel) open_state demo_proposal Execute" unfolding p(2) by (rule open_execute)
  moreover have "cq_chain (tp_queries demo_cto_panel) = Some open_state" unfolding p(1) by (rule p(3))
  ultimately have "let q = run_events cto_move [PressAction Execute, NewCtoQueries (demo_queries\<lparr>cq_chainFailed := True\<rparr>),
        NewCtoQueries (tp_queries demo_cto_panel)] demo_cto_panel in
      (\<exists>k. cto_jobs (PressAction Execute) q = [k] \<and> job_mount k \<noteq> job_mount (Acting 0 Execute ''0xa'' ''0xt'' ''0xc'' None))
      \<and> cto_move (CtoConfirmed (Acting 0 Execute ''0xa'' ''0xt'' ''0xc'' None) ''0xh'') q = q
      \<and> cto_move (CtoFailed (Acting 0 Execute ''0xa'' ''0xt'' ''0xc'' None) (Err ''late'')) q = q"
    using refresh_forgets_running_action[OF demo_acting p(5,6) _ p(4)] by blast
  then show ?thesis unfolding p(1) Let_def job_mount.simps by blast
qed

definition ended_library :: cto_library where
  "ended_library = CtoFlow.demo_library\<lparr>cl_proposal := \<lambda>tr registry i. Inr (demo_proposal\<lparr>cp_state := 3\<rparr>)\<rparr>"

definition ended_state :: cto_state where
  "ended_state = demo_cto_state\<lparr>cs_proposal := Some (demo_proposal\<lparr>cp_state := 3\<rparr>)\<rparr>"

lemma ended_read_state:
  "readCTOChainState demo ended_library ''0xt'' tr = (Inr ended_state, tr @ demo_reads)"
proof -
  have "zero_hash \<noteq> ''0xc''" by code_simp
  then show ?thesis
    by (simp add: readCTOChainState_def configuredCTORegistry_def checkFeeManager_def readProposal_def
      normalizedProposal_def demo_def demo_contracts_def ended_library_def CtoFlow.demo_library_def demo_proposal_def demo_cto_state_def
      ended_state_def demo_reads_def truthy_def io_defs request_defs)
qed

theorem ended_proposal_blocks_new_one_witness:
  "cto_jobs SubmitProposal (mount_cto ''0xt'' demo_cto_wallet (demo_queries\<lparr>cq_chain := Some ended_state\<rparr>)) = []
   \<and> (\<exists>spec. proposeCTO demo ended_library ''0xc'' ''0xt'' ''0xs'' '''' []
        = simulateAndSubmit demo ''0xc'' spec ([EvCode ''0xs''] @ demo_reads))"
proof -
  let ?q = "demo_queries\<lparr>cq_chain := Some ended_state\<rparr>"
  have q: "cq_status ?q = Some False" "cq_chain ?q = Some ended_state" "\<not> cq_chainFailed ?q" "\<not> cq_chainPending ?q"
    by (simp_all add: demo_queries_def)
  have s: "cs_proposal ended_state = Some (demo_proposal\<lparr>cp_state := 3\<rparr>)" "cs_creator ended_state = ''0xc''"
    "cs_currentProposalId ended_state \<noteq> zero_hash"
  proof -
    have "''0xc'' \<noteq> zero_hash" by code_simp
    then show "cs_currentProposalId ended_state \<noteq> zero_hash" by (simp add: ended_state_def demo_cto_state_def)
  qed (simp_all add: ended_state_def demo_cto_state_def)
  have ready: "assertArcProtocolEconomicsReady (c_env demo) (c_chain demo) = Inr ()"
    using gate_demo[of "[]"] by (simp add: gate_def io_result_def)
  have get: "c_getAddress demo a = Inr a" for a by (simp add: demo_def)
  have "''0xs'' \<noteq> zero_address" by code_simp
  then have ctl: "validateControllerAddress demo ended_library ''0xs'' = Inr ''0xs''"
    by (simp add: validateControllerAddress_def ended_library_def CtoFlow.demo_library_def get throw_if_def)
  have code: "c_code demo [] ''0xs'' = Inr (Some ''0x60'')" by (simp add: demo_def)
  have deployed: "requireDeployedController demo ended_library ''0xs'' (Some ''0x60'') = Inr ''0xs''"
    by (simp add: requireDeployedController_def ctl no_code_def truthy_def throw_if_def)
  have "js_trim [] = []" by code_simp
  then have "\<exists>m mh. resolveCTOMetadata ended_library [] = Inr (m, mh)"
    by (simp add: resolveCTOMetadata_def throw_if_def Let_def)
  then obtain m mh where meta: "resolveCTOMetadata ended_library [] = Inr (m, mh)" by blast
  have creator: "c_getAddress demo ''0xc'' = Inr (cs_creator ended_state)" by (simp add: get s(2))
  have state: "cp_state (demo_proposal\<lparr>cp_state := 3\<rparr>) = 3 \<or> cp_state (demo_proposal\<lparr>cp_state := 3\<rparr>) = 4" by simp
  have none: "list_all (\<lambda>e. \<forall>q'. e \<noteq> NewCtoQueries q') []" by simp
  have read: "readCTOChainState demo ended_library ''0xt'' ([] @ [EvCode ''0xs'']) = (Inr ended_state, [EvCode ''0xs''] @ demo_reads)"
    using ended_read_state by simp
  from ended_proposal_blocks_new_one[OF q s(1,3) state none _ ready creator get ctl meta code deployed read,
      of SubmitProposal "''0xt''" demo_cto_wallet]
  show ?thesis by (auto simp: s(2))
qed

end
