(* ===== verification/Pagination.thy ===== *)
theory Pagination
  imports LockedMachine
begin

text \<open>
  The pages of the launch list and of the activity ledger (\<^verbatim>\<open>components/cursor-pagination.tsx\<close>, with
  the two lists that use it, \<^verbatim>\<open>discovery-marketplace.tsx\<close> and \<^verbatim>\<open>token-activity.tsx\<close>). The
  index only names the page after the one it answers, by an opaque cursor, so the client collects the
  cursors it was given and its page buttons are the pages it has a cursor for. A page number is an
  \<^verbatim>\<open>int\<close>, an array index a \<^verbatim>\<open>nat\<close>. The index is a parameter: the answers it gives are
  events of a run.
\<close>

named_theorems page_simps \<open>the cursor state and its operations\<close>

subsection \<open>The cursors\<close>

text \<open>\<^verbatim>\<open>{ cursors: string[]; index: number; terminalIndex?: number }\<close>\<close>

record cursor_state =
  cursors :: "string list"
  page_index :: nat
  terminalIndex :: "nat option"

definition cursor_start :: cursor_state where
  "cursor_start = \<lparr> cursors = [''''], page_index = 0, terminalIndex = None \<rparr>"

text \<open>\<^verbatim>\<open>!nextCursor\<close>: no cursor, or the empty one.\<close>

definition no_cursor :: "string option \<Rightarrow> bool" where
  "no_cursor n \<longleftrightarrow> n = None \<or> n = Some ''''"

definition discoverNext :: "string option \<Rightarrow> cursor_state \<Rightarrow> cursor_state" where
  "discoverNext nextCursor s =
     (let kept = take (Suc (page_index s)) (cursors s) in
      case nextCursor of
        None \<Rightarrow> \<lparr> cursors = kept, page_index = page_index s, terminalIndex = Some (page_index s) \<rparr>
      | Some n \<Rightarrow>
          if n = '''' then
            \<lparr> cursors = kept, page_index = page_index s, terminalIndex = Some (page_index s) \<rparr>
          else if Suc (page_index s) < length (cursors s) \<and> cursors s ! Suc (page_index s) = n then s
          else \<lparr> cursors = kept @ [n], page_index = page_index s, terminalIndex = None \<rparr>)"

definition goToPage :: "int \<Rightarrow> cursor_state \<Rightarrow> cursor_state" where
  "goToPage page s =
     (let i = page - 1 in
      if i < 0 \<or> int (length (cursors s)) \<le> i then s else s\<lparr>page_index := nat i\<rparr>)"

definition page_cursor :: "cursor_state \<Rightarrow> string" where
  "page_cursor s = (if page_index s < length (cursors s) then cursors s ! page_index s else '''')"

definition currentPage :: "cursor_state \<Rightarrow> int" where
  "currentPage s = int (page_index s) + 1"

definition pageCount :: "cursor_state \<Rightarrow> int" where
  "pageCount s = int (length (cursors s))"

definition hasUnknownPages :: "cursor_state \<Rightarrow> bool" where
  "hasUnknownPages s \<longleftrightarrow> terminalIndex s = None"

subsection \<open>The page numbers shown\<close>

datatype page_item = PageNo int | Ellipsis

text \<open>The loop over the sorted pages, after the page \<^verbatim>\<open>prev\<close>.\<close>

fun with_ellipses :: "int \<Rightarrow> int list \<Rightarrow> page_item list" where
  "with_ellipses prev [] = []"
| "with_ellipses prev (p # ps) =
     (if p - prev > 1 then [Ellipsis] else []) @ PageNo p # with_ellipses p ps"

definition visible_pages :: "int \<Rightarrow> int \<Rightarrow> int list" where
  "visible_pages current count =
     sort (remdups (filter (\<lambda>page. 1 \<le> page \<and> page \<le> count)
       [1, count, current - 1, current, current + 1]))"

definition paginationItems :: "int \<Rightarrow> int \<Rightarrow> page_item list" where
  "paginationItems current count =
     (if count \<le> 7 then map PageNo [1..count]
      else case visible_pages current count of
             [] \<Rightarrow> []
           | p # ps \<Rightarrow> PageNo p # with_ellipses p ps)"

text \<open>
  The bar of buttons. \<^verbatim>\<open>None\<close> is the bar that is not rendered. A press is the page the handler
  is called with, and only buttons that are not disabled can be pressed.
\<close>

record page_bar =
  previous_disabled :: bool
  bar_items :: "page_item list"
  items_disabled :: bool
  shows_unknown :: bool
  following_disabled :: bool

definition CursorPagination :: "int \<Rightarrow> int \<Rightarrow> bool \<Rightarrow> bool \<Rightarrow> page_bar option" where
  "CursorPagination current count unknown disabled =
     (if count \<le> 1 then None
      else Some \<lparr> previous_disabled = (disabled \<or> current = 1),
                  bar_items = paginationItems current count,
                  items_disabled = disabled,
                  shows_unknown = unknown,
                  following_disabled = (disabled \<or> current = count) \<rparr>)"

definition pressable :: "int \<Rightarrow> page_bar option \<Rightarrow> int \<Rightarrow> bool" where
  "pressable current bar page = (case bar of
     None \<Rightarrow> False
   | Some b \<Rightarrow> (\<not> previous_disabled b \<and> page = current - 1)
       \<or> (\<not> items_disabled b \<and> PageNo page \<in> set (bar_items b))
       \<or> (\<not> following_disabled b \<and> page = current + 1))"

definition next_enabled :: "page_bar option \<Rightarrow> bool" where
  "next_enabled bar = (case bar of None \<Rightarrow> False | Some b \<Rightarrow> \<not> following_disabled b)"

definition list_bar :: "bool \<Rightarrow> cursor_state \<Rightarrow> page_bar option" where
  "list_bar pending s = CursorPagination (currentPage s) (pageCount s) (hasUnknownPages s) pending"

subsection \<open>The lists\<close>

text \<open>
  Data for the cursor of the current page arrived, with its \<^verbatim>\<open>next_cursor\<close>, and the effect of
  the list ran; or a page was asked for. The activity ledger asks for its current page again every
  fifteen seconds, so answers repeat and change.
\<close>

datatype list_event = Answered "string option" | Pressed int

fun list_step :: "list_event \<Rightarrow> cursor_state \<Rightarrow> cursor_state" where
  "list_step (Answered n) s = discoverNext n s"
| "list_step (Pressed page) s = goToPage page s"

text \<open>The cursors the index was asked for in a run, with its answers.\<close>

fun answers_of :: "list_event list \<Rightarrow> cursor_state \<Rightarrow> (string \<times> string option) list" where
  "answers_of [] s = []"
| "answers_of (e # es) s =
     (case e of Answered n \<Rightarrow> [(page_cursor s, n)] | Pressed page \<Rightarrow> [])
     @ answers_of es (list_step e s)"

text \<open>
  Reading a list with the Next button: load the page, press Next while it is enabled.
  \<^verbatim>\<open>index c\<close> is the answer to the cursor \<^verbatim>\<open>c\<close>: the items and the next cursor.
\<close>

type_synonym 'a page_index_of = "string \<Rightarrow> 'a list \<times> string option"

fun read_list :: "'a page_index_of \<Rightarrow> nat \<Rightarrow> cursor_state \<Rightarrow> 'a list \<times> cursor_state" where
  "read_list index 0 s = ([], s)"
| "read_list index (Suc n) s =
     (let (items, following) = index (page_cursor s);
          s1 = discoverNext following s in
      if next_enabled (list_bar False s1)
      then (let (rest, s2) = read_list index n (goToPage (currentPage s1 + 1) s1) in (items @ rest, s2))
      else (items, s1))"

subsection \<open>The page numbers against their reference\<close>

text \<open>
  The reference goes through all the pages in order: a page near an end or near the current page is
  shown, and of each run of hidden pages the first one stands for the run.
\<close>

definition page_shown :: "int \<Rightarrow> int \<Rightarrow> int \<Rightarrow> bool" where
  "page_shown current count p \<longleftrightarrow> p = 1 \<or> p = count \<or> \<bar>p - current\<bar> \<le> 1"

definition render_page :: "(int \<Rightarrow> bool) \<Rightarrow> int \<Rightarrow> page_item list" where
  "render_page shown p =
     (if shown p then [PageNo p] else if shown (p - 1) then [Ellipsis] else [])"

definition all_pages :: "(int \<Rightarrow> bool) \<Rightarrow> int list \<Rightarrow> page_item list" where
  "all_pages shown ps = concat (map (render_page shown) ps)"

lemma all_pages_append: "all_pages shown (ps @ qs) = all_pages shown ps @ all_pages shown qs"
  by (simp add: all_pages_def)

lemma hidden_run:
  assumes "shown prev" and "\<And>x. prev < x \<Longrightarrow> x < p \<Longrightarrow> \<not> shown x"
  shows "all_pages shown [prev + 1..p - 1] = (if p - prev > 1 then [Ellipsis] else [])"
proof (cases "p - prev > 1")
  case True
  then have "[prev + 1..p - 1] = (prev + 1) # [prev + 2..p - 1]"
    by (simp add: upto_rec1 add.commute)
  moreover have "all_pages shown [prev + 2..p - 1] = []"
    using assms(2) by (auto simp: all_pages_def render_page_def)
  ultimately show ?thesis
    using True assms by (simp add: all_pages_def render_page_def)
qed (simp add: all_pages_def)

lemma with_ellipses_all:
  assumes "sorted_wrt (<) (prev # ps)" and "\<And>x. prev \<le> x \<Longrightarrow> x \<le> last (prev # ps) \<Longrightarrow> shown x \<longleftrightarrow> x \<in> set (prev # ps)"
  shows "with_ellipses prev ps = all_pages shown [prev + 1..last (prev # ps)]"
  using assms
proof (induction ps arbitrary: prev)
  case (Cons p ps)
  have le: "p \<le> last (p # ps)"
    using Cons.prems(1) by (cases ps) (auto intro: less_imp_le)
  have lt: "prev < p" using Cons.prems(1) by simp
  have shown: "shown prev" "shown p"
    using Cons.prems(2) lt le by auto
  have hidden: "\<not> shown x" if "prev < x" "x < p" for x
    using Cons.prems that le by force
  have split: "[prev + 1..last (p # ps)] = [prev + 1..p - 1] @ p # [p + 1..last (p # ps)]"
    using lt le upto_split3[of "prev + 1" p "last (p # ps)"] by simp
  have rest: "with_ellipses p ps = all_pages shown [p + 1..last (p # ps)]"
  proof (rule Cons.IH)
    show "sorted_wrt (<) (p # ps)" using Cons.prems(1) by simp
  next
    fix x assume "p \<le> x" "x \<le> last (p # ps)"
    then show "shown x \<longleftrightarrow> x \<in> set (p # ps)"
      using Cons.prems(2)[of x] lt by auto
  qed
  have "all_pages shown [prev + 1..last (prev # p # ps)]
      = all_pages shown [prev + 1..p - 1] @ PageNo p # all_pages shown [p + 1..last (p # ps)]"
    using split shown(2) by (simp add: all_pages_append) (simp add: all_pages_def render_page_def)
  then show ?case
    using hidden_run[of shown prev p] shown(1) hidden rest by simp
qed (simp add: all_pages_def)

lemma set_visible_pages:
  "set (visible_pages current count) = {p. 1 \<le> p \<and> p \<le> count \<and> page_shown current count p}"
  by (auto simp: visible_pages_def page_shown_def)

lemma sorted_visible_pages: "sorted_wrt (<) (visible_pages current count)"
  by (simp add: visible_pages_def strict_sorted_iff)

lemma visible_pages_ends:
  assumes "1 \<le> count"
  obtains ps where "visible_pages current count = 1 # ps" and "last (1 # ps) = count"
proof -
  let ?v = "visible_pages current count"
  have mem: "1 \<in> set ?v" "count \<in> set ?v"
    using assms by (auto simp: set_visible_pages page_shown_def)
  then obtain p ps where v: "?v = p # ps" by (cases ?v) auto
  have bounds: "\<forall>x\<in>set ?v. 1 \<le> x \<and> x \<le> count" by (simp add: set_visible_pages)
  have srt: "sorted ?v" by (simp add: visible_pages_def)
  have "p \<le> 1" using mem(1) srt v by auto
  then have "p = 1" using bounds v by force
  moreover have "last ?v = count"
  proof (rule antisym)
    show "last ?v \<le> count" using bounds v by (metis last_in_set list.discI)
    obtain i where i: "i < length ?v" "?v ! i = count" using mem(2) by (auto simp: in_set_conv_nth)
    then have "?v ! i \<le> ?v ! (length ?v - 1)"
      by (intro sorted_nth_mono[OF srt]) auto
    then show "count \<le> last ?v" using i v by (metis last_conv_nth list.discI)
  qed
  ultimately show ?thesis using that v by metis
qed

text \<open>C25: The page numbers of the bar are those of the reference: up to seven pages are all shown;
  of more, the first, the last and the pages next to the current one are shown in order, and every run
  of hidden pages between them is one ellipsis, with none where no page is hidden.\<close>

theorem paginationItems_reference:
  assumes "1 \<le> current" and "current \<le> count"
  shows "paginationItems current count
    = all_pages (if count \<le> 7 then (\<lambda>p. True) else page_shown current count) [1..count]"
proof (cases "count \<le> 7")
  case True
  have "concat (map (render_page (\<lambda>p. True)) ps) = map PageNo ps" for ps
    by (induction ps) (auto simp: render_page_def)
  then show ?thesis using True
    by (simp add: paginationItems_def all_pages_def)
next
  case False
  then obtain ps where ps: "visible_pages current count = 1 # ps" "last (1 # ps) = count"
    by (metis linear order_trans visible_pages_ends one_le_numeral)
  have "with_ellipses 1 ps = all_pages (page_shown current count) [1 + 1..last (1 # ps)]"
    using sorted_visible_pages[of current count] set_visible_pages[of current count] ps
    by (intro with_ellipses_all) auto
  moreover have "[1..count] = 1 # [1 + 1..count]"
    using False by (simp add: upto_rec1)
  ultimately show ?thesis using False ps
    by (simp add: paginationItems_def) (simp add: all_pages_def render_page_def page_shown_def)
qed

theorem paginationItems_reference_witness:
  "paginationItems 5 10 = all_pages (page_shown 5 10) [1..10]
   \<and> paginationItems 5 10
     = [PageNo 1, Ellipsis, PageNo 4, PageNo 5, PageNo 6, Ellipsis, PageNo 10]"
proof
  show "paginationItems 5 10 = all_pages (page_shown 5 10) [1..10]"
    using paginationItems_reference[of 5 10] by simp
  show "paginationItems 5 10
     = [PageNo 1, Ellipsis, PageNo 4, PageNo 5, PageNo 6, Ellipsis, PageNo 10]"
    by code_simp
qed

subsection \<open>The cursors are the index's own\<close>

text \<open>
  Every cursor after the first was given by the index as the one that follows the cursor before it, the
  current page is one of them, and where the list is known to end the index said so for its last page.
\<close>

definition follows_index :: "(string \<times> string option) list \<Rightarrow> cursor_state \<Rightarrow> bool" where
  "follows_index given s \<longleftrightarrow>
     cursors s \<noteq> [] \<and> cursors s ! 0 = '''' \<and> page_index s < length (cursors s)
     \<and> (\<forall>k. Suc k < length (cursors s) \<longrightarrow> cursors s ! Suc k \<noteq> ''''
          \<and> (cursors s ! k, Some (cursors s ! Suc k)) \<in> set given)
     \<and> (\<forall>t. terminalIndex s = Some t \<longrightarrow> Suc t = length (cursors s)
          \<and> (\<exists>n. no_cursor n \<and> (cursors s ! t, n) \<in> set given))"

lemma follows_index_start: "follows_index [] cursor_start"
  by (simp add: follows_index_def cursor_start_def)

lemma follows_index_mono: "follows_index given s \<Longrightarrow> set given \<subseteq> set wider \<Longrightarrow> follows_index wider s"
  unfolding follows_index_def by blast

lemma discoverNext_cases:
  obtains (ended) "no_cursor n"
      "discoverNext n s = \<lparr> cursors = take (Suc (page_index s)) (cursors s),
         page_index = page_index s, terminalIndex = Some (page_index s) \<rparr>"
  | (known) c where "n = Some c" "c \<noteq> ''''" "Suc (page_index s) < length (cursors s)"
      "cursors s ! Suc (page_index s) = c" "discoverNext n s = s"
  | (found) c where "n = Some c" "c \<noteq> ''''"
      "discoverNext n s = \<lparr> cursors = take (Suc (page_index s)) (cursors s) @ [c],
         page_index = page_index s, terminalIndex = None \<rparr>"
proof (cases n)
  case None
  then show ?thesis using ended by (simp add: discoverNext_def no_cursor_def)
next
  case (Some c)
  then show ?thesis using ended known found
    by (cases "c = ''''"; cases "Suc (page_index s) < length (cursors s) \<and> cursors s ! Suc (page_index s) = c")
      (auto simp: discoverNext_def no_cursor_def Let_def)
qed

lemma follows_index_discoverNext:
  assumes inv: "follows_index given s" and given: "(page_cursor s, n) \<in> set given"
  shows "follows_index given (discoverNext n s)"
proof -
  have at: "page_index s < length (cursors s)" using inv by (simp add: follows_index_def)
  have cur: "page_cursor s = cursors s ! page_index s" using at by (simp add: page_cursor_def)
  show ?thesis
  proof (cases n s rule: discoverNext_cases)
    case ended
    then show ?thesis using inv at given cur
      by (auto simp: follows_index_def)
  next
    case (known c)
    then show ?thesis using inv by simp
  next
    case (found c)
    have "Suc k < length (take (Suc (page_index s)) (cursors s) @ [c]) \<Longrightarrow>
        k < page_index s \<or> k = page_index s" for k using at by auto
    then show ?thesis using found inv at given cur
      by (auto simp: follows_index_def nth_append)
  qed
qed

lemma goToPage_cases:
  obtains (refused) "\<not> (1 \<le> page \<and> page \<le> pageCount s)" "goToPage page s = s"
  | (moved) "1 \<le> page" "page \<le> pageCount s" "goToPage page s = s\<lparr>page_index := nat (page - 1)\<rparr>"
  by (cases "1 \<le> page \<and> page \<le> pageCount s") (auto simp: goToPage_def pageCount_def)

lemma follows_index_goToPage:
  assumes "follows_index given s"
  shows "follows_index given (goToPage page s)"
  using assms
  by (cases page s rule: goToPage_cases) (auto simp: follows_index_def pageCount_def)

lemma follows_index_run:
  "follows_index given s \<Longrightarrow>
    follows_index (given @ answers_of es s) (run_events list_step es s)"
proof (induction es arbitrary: given s)
  case (Cons e es)
  have "follows_index (given @ answers_of [e] s) (list_step e s)"
  proof (cases e)
    case (Answered n)
    then show ?thesis
      using follows_index_discoverNext[OF follows_index_mono[OF Cons.prems], of "given @ answers_of [e] s" n]
      by auto
  next
    case (Pressed page)
    then show ?thesis using follows_index_goToPage[OF Cons.prems] by simp
  qed
  from Cons.IH[OF this] show ?case by simp
qed simp

text \<open>The pages of a run that starts with the list.\<close>

abbreviation list_after :: "list_event list \<Rightarrow> cursor_state" where
  "list_after es \<equiv> run_events list_step es cursor_start"

lemma list_after_follows: "follows_index (answers_of es cursor_start) (list_after es)"
  using follows_index_run[OF follows_index_start] by simp

lemma paginationItems_in_range:
  "PageNo p \<in> set (paginationItems current count) \<Longrightarrow> 1 \<le> p \<and> p \<le> count"
proof -
  have ell: "PageNo p \<in> set (with_ellipses prev ps) \<Longrightarrow> p \<in> set ps" for prev ps
    by (induction ps arbitrary: prev) (auto split: if_splits)
  assume "PageNo p \<in> set (paginationItems current count)"
  then have "p \<in> set [1..count] \<or> p \<in> set (visible_pages current count)"
    by (cases "visible_pages current count")
      (auto simp: paginationItems_def split: if_splits dest: ell)
  then show ?thesis by (auto simp: set_visible_pages)
qed

lemma pressable_in_range:
  assumes "follows_index given s" and "pressable (currentPage s) (list_bar pending s) page"
  shows "1 \<le> page \<and> page \<le> pageCount s"
  using assms
  by (auto simp: pressable_def list_bar_def CursorPagination_def currentPage_def pageCount_def
      follows_index_def dest: paginationItems_in_range split: if_splits)

lemma goToPage_in_range:
  assumes "1 \<le> page" and "page \<le> pageCount s"
  shows "currentPage (goToPage page s) = page"
    and "page_cursor (goToPage page s) = cursors s ! nat (page - 1)"
    and "cursors (goToPage page s) = cursors s"
  using assms
  by (cases page s rule: goToPage_cases; simp add: currentPage_def page_cursor_def pageCount_def; linarith)+

text \<open>C22: Whatever the index answers, and however often the answers change while the list is read:
  a button that can be pressed leads to the page it names, and the cursor of that page is either the
  start of the list or one the index gave as the one after the page before it.\<close>

theorem pressed_page_is_shown:
  assumes "s = list_after es" and "pressable (currentPage s) (list_bar pending s) page"
  shows "currentPage (goToPage page s) = page \<and> cursors (goToPage page s) = cursors s
    \<and> (if page = 1 then page_cursor (goToPage page s) = ''''
       else page_cursor (goToPage page s) \<noteq> '''' \<and>
         (page_cursor (goToPage (page - 1) s), Some (page_cursor (goToPage page s)))
           \<in> set (answers_of es cursor_start))"
proof -
  have inv: "follows_index (answers_of es cursor_start) s"
    using assms(1) list_after_follows by simp
  have range: "1 \<le> page" "page \<le> pageCount s" using pressable_in_range[OF inv assms(2)] by auto
  note here = goToPage_in_range[OF range]
  show ?thesis
  proof (cases "page = 1")
    case True
    then show ?thesis using here inv by (simp add: follows_index_def)
  next
    case False
    then obtain k where k: "page = int k + 2"
      using range by (metis add.commute le_less zle_iff_zadd one_add_one zless_iff_Suc_zadd of_nat_Suc add.assoc)
    have before: "page_cursor (goToPage (page - 1) s) = cursors s ! k"
      using goToPage_in_range(2)[of "page - 1" s] range k by simp
    have "cursors s ! nat (page - 1) = cursors s ! Suc k" using k by (simp add: nat_add_distrib)
    then show ?thesis using here before inv range k by (auto simp: follows_index_def pageCount_def)
  qed
qed

text \<open>The three dots after the last page go away only when the index answered the last page
  without a next cursor, and as long as they stay away the collected pages are all there are.\<close>

theorem list_end_is_answered:
  assumes "s = list_after es" and "\<not> hasUnknownPages s"
  shows "\<exists>n. no_cursor n
    \<and> (page_cursor (goToPage (pageCount s) s), n) \<in> set (answers_of es cursor_start)"
proof -
  have inv: "follows_index (answers_of es cursor_start) s"
    using assms(1) list_after_follows by simp
  obtain t where t: "terminalIndex s = Some t" using assms(2) by (auto simp: hasUnknownPages_def)
  then have "length (cursors s) = Suc t" using inv by (simp add: follows_index_def)
  then have "page_cursor (goToPage (pageCount s) s) = cursors s ! t"
    using goToPage_in_range(2)[of "pageCount s" s] by (simp add: pageCount_def)
  then show ?thesis using inv t by (simp add: follows_index_def)
qed

theorem pressed_page_is_shown_witness:
  "pressable 1 (list_bar False (list_after [Answered (Some ''c'')])) 2
   \<and> currentPage (goToPage 2 (list_after [Answered (Some ''c'')])) = 2
   \<and> page_cursor (goToPage 2 (list_after [Answered (Some ''c'')])) = ''c''"
proof -
  let ?s = "list_after [Answered (Some ''c'')]"
  have s: "?s = \<lparr> cursors = ['''', ''c''], page_index = 0, terminalIndex = None \<rparr>"
    by (simp add: cursor_start_def discoverNext_def Let_def)
  have one: "currentPage ?s = 1" by (simp add: currentPage_def cursor_start_def discoverNext_def)
  have bar: "pressable 1 (list_bar False ?s) 2"
    unfolding s by (simp add: pressable_def list_bar_def CursorPagination_def currentPage_def pageCount_def)
  show ?thesis
    using pressed_page_is_shown[OF refl, of "[Answered (Some ''c'')]" False 2] one bar
    unfolding s by (simp add: page_cursor_def goToPage_def Let_def)
qed

subsection \<open>Reading a list to its end\<close>

text \<open>
  The index has the pages \<^verbatim>\<open>pages\<close>: the page \<^verbatim>\<open>k\<close> is the answer to the cursor
  \<^verbatim>\<open>cur k\<close>, the first one to no cursor, and every answer but the last names the cursor of the
  page after it.
\<close>

definition serves :: "'a page_index_of \<Rightarrow> (nat \<Rightarrow> string) \<Rightarrow> 'a list list \<Rightarrow> bool" where
  "serves index cur pages \<longleftrightarrow> cur 0 = ''''
     \<and> (\<forall>k. 0 < k \<longrightarrow> k < length pages \<longrightarrow> cur k \<noteq> '''')
     \<and> (\<forall>k < length pages.
          index (cur k) = (pages ! k, if Suc k < length pages then Some (cur (Suc k)) else None))"

text \<open>The cursors of the first \<^verbatim>\<open>k + 1\<close> pages are known, whatever stale ones follow.\<close>

definition reached :: "(nat \<Rightarrow> string) \<Rightarrow> nat \<Rightarrow> cursor_state \<Rightarrow> bool" where
  "reached cur k s \<longleftrightarrow> page_index s = k \<and> take (Suc k) (cursors s) = map cur [0..<Suc k]"

lemma reached_facts:
  assumes "reached cur k s"
  shows "k < length (cursors s)" and "page_cursor s = cur k"
proof -
  have t: "take (Suc k) (cursors s) = map cur [0..<Suc k]" using assms by (simp add: reached_def)
  from arg_cong[where f = length, OF t] show len: "k < length (cursors s)" by simp
  have "take (Suc k) (cursors s) ! k = map cur [0..<Suc k] ! k" using t by simp
  then have "cursors s ! k = cur k" by (simp del: upt_Suc)
  then show "page_cursor s = cur k" using assms len by (simp add: page_cursor_def reached_def)
qed

lemma reached_discoverNext:
  assumes at: "reached cur k s" and "cur (Suc k) \<noteq> ''''"
  shows "next_enabled (list_bar False (discoverNext (Some (cur (Suc k))) s))"
    and "reached cur (Suc k) (goToPage (currentPage (discoverNext (Some (cur (Suc k))) s) + 1)
           (discoverNext (Some (cur (Suc k))) s))"
proof -
  let ?s = "discoverNext (Some (cur (Suc k))) s"
  note len = reached_facts(1)[OF at]
  have pre: "page_index ?s = k" "Suc k < length (cursors ?s)"
      "take (Suc (Suc k)) (cursors ?s) = map cur [0..<Suc (Suc k)]"
  proof -
    have "page_index ?s = k \<and> Suc k < length (cursors ?s)
        \<and> take (Suc k) (cursors ?s) = map cur [0..<Suc k] \<and> cursors ?s ! Suc k = cur (Suc k)"
      using at assms(2) len
      by (cases "Some (cur (Suc k))" s rule: discoverNext_cases)
        (auto simp: reached_def no_cursor_def nth_append simp del: upt_Suc)
    then show "page_index ?s = k" "Suc k < length (cursors ?s)"
      "take (Suc (Suc k)) (cursors ?s) = map cur [0..<Suc (Suc k)]"
      by (auto simp: take_Suc_conv_app_nth[of "Suc k"] simp del: upt_Suc) simp
  qed
  show "next_enabled (list_bar False ?s)" using pre
    by (simp add: next_enabled_def list_bar_def CursorPagination_def currentPage_def pageCount_def)
  have "goToPage (currentPage ?s + 1) ?s = ?s\<lparr>page_index := Suc k\<rparr>"
    using pre by (simp add: goToPage_def currentPage_def Let_def nat_add_distrib)
  then show "reached cur (Suc k) (goToPage (currentPage ?s + 1) ?s)"
    using pre by (simp add: reached_def del: upt_Suc)
qed

lemma read_list_reached:
  assumes srv: "serves index cur pages"
  shows "k + Suc n = length pages \<Longrightarrow> reached cur k s \<Longrightarrow>
    read_list index (Suc n) s
      = (concat (drop k pages), \<lparr> cursors = map cur [0..<length pages],
          page_index = length pages - 1, terminalIndex = Some (length pages - 1) \<rparr>)"
proof (induction n arbitrary: k s)
  case 0
  have ix: "index (page_cursor s) = (pages ! k, None)"
    using srv 0 reached_facts(2)[OF 0(2)] by (simp add: serves_def)
  have "discoverNext None s = \<lparr> cursors = map cur [0..<length pages],
          page_index = length pages - 1, terminalIndex = Some (length pages - 1) \<rparr>"
    using 0 by (auto simp: discoverNext_def reached_def simp del: upt_Suc)
  moreover have "\<not> next_enabled (list_bar False \<lparr> cursors = map cur [0..<length pages],
          page_index = length pages - 1, terminalIndex = Some (length pages - 1) \<rparr>)"
    using 0(1)
    by (auto simp: next_enabled_def list_bar_def CursorPagination_def currentPage_def pageCount_def)
  moreover have "drop k pages = [pages ! k]"
    using 0(1) by (simp add: Cons_nth_drop_Suc[symmetric])
  ultimately show ?case using ix by simp
next
  case (Suc n)
  have ix: "index (page_cursor s) = (pages ! k, Some (cur (Suc k)))"
    using srv Suc.prems(1) reached_facts(2)[OF Suc.prems(2)] by (simp add: serves_def)
  have ne: "cur (Suc k) \<noteq> ''''" using srv Suc.prems(1) by (simp add: serves_def)
  note step = reached_discoverNext[OF Suc.prems(2) ne]
  have "drop k pages = pages ! k # drop (Suc k) pages"
    using Suc.prems(1) by (simp add: Cons_nth_drop_Suc)
  then show ?case
    using Suc.IH[OF _ step(2)] Suc.prems(1) step(1) ix
    by (simp add: read_list.simps(2)[of index "Suc n"] del: read_list.simps)
qed

lemma first_page_reached:
  assumes "follows_index given s" and "cur 0 = ''''"
  shows "reached cur 0 (goToPage 1 s)"
  using assms by (cases "cursors s") (auto simp: reached_def goToPage_def follows_index_def)

text \<open>C23: After anything that happened before, going to the first page and pressing Next until it is
  disabled shows every item of the list once and in its order, whatever cursors were collected before:
  the reading takes one load per page, ends on the last page, and there the bar shows all the pages and
  no sign of further ones.\<close>

theorem next_reads_the_whole_list:
  assumes "serves index cur pages" and "pages \<noteq> []"
  shows "\<exists>s. read_list index (length pages) (goToPage 1 (list_after es)) = (concat pages, s)
    \<and> cursors s = map cur [0..<length pages] \<and> currentPage s = int (length pages)
    \<and> \<not> hasUnknownPages s \<and> \<not> next_enabled (list_bar False s)"
proof -
  have first: "reached cur 0 (goToPage 1 (list_after es))"
    using assms(1) by (intro first_page_reached[OF list_after_follows]) (simp add: serves_def)
  obtain n where "length pages = Suc n" using assms(2) by (cases pages) auto
  then show ?thesis
    using read_list_reached[OF assms(1) _ first, of n]
    by (simp add: hasUnknownPages_def next_enabled_def list_bar_def CursorPagination_def
        currentPage_def pageCount_def del: upt_Suc read_list.simps)
qed

definition demo_index :: "int page_index_of" where
  "demo_index c =
     (if c = '''' then ([5, 4], Some ''b'') else if c = ''b'' then ([3], Some ''c'') else ([2, 1], None))"

definition demo_cursor :: "nat \<Rightarrow> string" where
  "demo_cursor k = [''''::string, ''b'', ''c''] ! k"

lemma demo_index_serves: "serves demo_index demo_cursor [[5, 4], [3], [2, 1]]"
  unfolding serves_def
  by (auto simp: demo_index_def demo_cursor_def less_Suc_eq numeral_3_eq_3)

text \<open>A stale answer first, then the list is read from its start.\<close>

theorem next_reads_the_whole_list_witness:
  "fst (read_list demo_index 3 (goToPage 1 (list_after [Answered (Some ''x''), Pressed 2])))
    = [5, 4, 3, 2, 1]"
  using next_reads_the_whole_list[OF demo_index_serves, of "[Answered (Some ''x''), Pressed 2]"]
  by (auto simp: numeral_3_eq_3 simp del: read_list.simps run_events.simps)

end
