(* ===== verification/Sharing.thy ===== *)
theory Sharing
  imports TokenLaunch
begin

text \<open>
  How a token page presents itself to other sites (\<^verbatim>\<open>lib/token-sharing.ts\<close>): its canonical link,
  the metadata of the page, and the image a crawler fetches, with the route of the app that answers for
  tokens without a usable image (\<^verbatim>\<open>app/api/tokens/[address]/og-image/route.ts\<close>). The parser
  \<^verbatim>\<open>new URL(input, base)\<close>, the answers of the API and the file of the logo are parameters.
\<close>

subsection \<open>Links and images\<close>

definition COOKET_ORIGIN :: string where
  "COOKET_ORIGIN = ''https://cooket.fun''"

definition PUBLIC_API_ORIGIN :: string where
  "PUBLIC_API_ORIGIN = ''https://api.cooket.fun''"

definition canonicalTokenURL :: "string \<Rightarrow> string" where
  "canonicalTokenURL address = COOKET_ORIGIN @ ''/token/'' @ encodeURIComponent address"

type_synonym url_parser = "string \<Rightarrow> string \<Rightarrow> url option"

definition tokenSocialImageURL :: "url_parser \<Rightarrow> string option \<Rightarrow> string option" where
  "tokenSocialImageURL parseURL imageURL =
     (case imageURL of
        None \<Rightarrow> None
      | Some path \<Rightarrow>
          if js_trim path = '''' then None
          else (case parseURL path PUBLIC_API_ORIGIN of
                  None \<Rightarrow> None
                | Some img \<Rightarrow> if url_protocol img = ''https:'' then Some (url_href img) else None))"

definition fallback_path :: "string \<Rightarrow> string" where
  "fallback_path address = ''/api/tokens/'' @ encodeURIComponent address @ ''/og-image''"

definition fallbackTokenImageURL :: "url_parser \<Rightarrow> string \<Rightarrow> string result" where
  "fallbackTokenImageURL parseURL address =
     (case parseURL (fallback_path address) COOKET_ORIGIN of
        None \<Rightarrow> Inl (JsError ''TypeError'' ''Invalid URL'')
      | Some img \<Rightarrow> Inr (url_href img))"

subsection \<open>The metadata of a token page\<close>

record shared_token =
  st_address :: string
  st_name :: string
  st_symbol :: string
  st_description :: "string option"
  st_image_url :: "string option"

record shared_metadata =
  sm_title :: string
  sm_description :: string
  sm_canonical :: string
  og_title :: "string option"
  og_description :: "string option"
  og_url :: string
  og_images :: "(string \<times> string) list"
  twitter_title :: "string option"
  twitter_description :: "string option"
  twitter_images :: "string list"

text \<open>\<^verbatim>\<open>a || b\<close> on an optional text: the empty one counts as none.\<close>

definition usable :: "string option \<Rightarrow> string option" where
  "usable s = (if s = Some '''' then None else s)"

definition tokenMetadata :: "url_parser \<Rightarrow> shared_token \<Rightarrow> shared_metadata result" where
  "tokenMetadata parseURL token =
     (let url = canonicalTokenURL (st_address token);
          named = st_name token @ '' ('' @ st_symbol token @ '')'';
          title = named @ '' | Cooket'';
          description = trimmed_or (st_description token) (named @ '' is a token on Cooket.'') in
      try_bind (case usable (tokenSocialImageURL parseURL (st_image_url token)) of
                  Some img \<Rightarrow> Inr img
                | None \<Rightarrow> fallbackTokenImageURL parseURL (st_address token)) (\<lambda>img.
        Inr \<lparr> sm_title = title, sm_description = description, sm_canonical = url,
              og_title = Some title, og_description = Some description, og_url = url,
              og_images = [(img, named)],
              twitter_title = Some title, twitter_description = Some description,
              twitter_images = [img] \<rparr>))"

text \<open>\<^verbatim>\<open>generateMetadata\<close> of the page is this function at the address of the route.\<close>

definition fetchTokenMetadata ::
    "url_parser \<Rightarrow> (string \<Rightarrow> api_failure + shared_token) \<Rightarrow> string \<Rightarrow> shared_metadata result" where
  "fetchTokenMetadata parseURL answer address =
     (let fallback = try_bind (fallbackTokenImageURL parseURL address) (\<lambda>img.
            Inr \<lparr> sm_title = ''Cooket token'', sm_description = ''View this token on Cooket.'',
                  sm_canonical = canonicalTokenURL address,
                  og_title = None, og_description = None, og_url = canonicalTokenURL address,
                  og_images = [(img, ''Cooket token'')],
                  twitter_title = None, twitter_description = None,
                  twitter_images = [img] \<rparr>) in
      case answer address of
        Inl e \<Rightarrow> fallback
      | Inr token \<Rightarrow> (case tokenMetadata parseURL token of Inl e \<Rightarrow> fallback | Inr m \<Rightarrow> Inr m))"

text \<open>The route of the fallback image: its status and body.\<close>

record og_response =
  og_status :: int
  og_body :: "string option"

definition og_image_GET :: "url_parser \<Rightarrow> string result \<Rightarrow> api_failure + shared_token \<Rightarrow> og_response result" where
  "og_image_GET parseURL logo answered =
     (if (case answered of
            Inl e \<Rightarrow> False
          | Inr token \<Rightarrow> usable (tokenSocialImageURL parseURL (st_image_url token)) \<noteq> None)
      then Inr \<lparr> og_status = 404, og_body = None \<rparr>
      else try_bind logo (\<lambda>img. Inr \<lparr> og_status = 200, og_body = Some img \<rparr>))"

subsection \<open>Links\<close>

text \<open>\<^verbatim>\<open>decodeURIComponent\<close>, as the router reads a segment of the path.\<close>

fun decode_component :: "string \<Rightarrow> string" where
  "decode_component [] = []"
| "decode_component [c] = [c]"
| "decode_component [c, a] = [c, a]"
| "decode_component (c # a # b # s) =
     (if c = CHR ''%'' then char_of (16 * hex_value a + hex_value b) # decode_component s
      else c # decode_component (a # b # s))"

lemma char_halves: "code_of c div 16 < (16::nat)" "code_of c mod 16 < (16::nat)"
  using nat_of_char_less_256[of c] by linarith+

lemma hex_value_hex_upper: "n < 16 \<Longrightarrow> hex_value (hex_upper n) = n"
  by (auto simp: hex_value_def hex_upper_def digit_char_def is_digit_def)

lemma uri_kept_not_percent: "uri_kept c \<Longrightarrow> c \<noteq> CHR ''%''"
  by (auto simp: uri_kept_def is_alpha_def is_digit_def)

lemma encode_Cons:
  "encodeURIComponent (c # s) =
     (if uri_kept c then [c] else [CHR ''%'', hex_upper (code_of c div 16), hex_upper (code_of c mod 16)])
     @ encodeURIComponent s"
  by (simp add: encodeURIComponent_def)

lemma decode_component_kept: "c \<noteq> CHR ''%'' \<Longrightarrow> decode_component (c # s) = c # decode_component s"
  by (cases s rule: decode_component.cases) auto

lemma decode_encode: "decode_component (encodeURIComponent s) = s"
proof (induction s)
  case Nil
  then show ?case by (simp add: encodeURIComponent_def)
next
  case (Cons c s)
  show ?case
    using Cons decode_component_kept[OF uri_kept_not_percent]
    by (auto simp: encode_Cons hex_value_hex_upper char_halves)
qed

lemma uri_kept_hex_upper: "n < 16 \<Longrightarrow> uri_kept (hex_upper n)"
  by (auto simp: uri_kept_def hex_upper_def is_alpha_def)

lemma encode_chars: "c \<in> set (encodeURIComponent s) \<Longrightarrow> uri_kept c \<or> c = CHR ''%''"
proof (induction s)
  case (Cons d s)
  then show ?case
    by (auto simp: encode_Cons uri_kept_hex_upper char_halves split: if_splits)
qed (simp add: encodeURIComponent_def)

text \<open>C26: The shared link of a token keeps its address whole: whatever the text of the address, it is
  one segment of the path under the token pages, with no character that ends a segment or starts a
  query or a fragment, and decoding that segment gives the address back.\<close>

theorem canonical_link_roundtrip:
  "\<exists>segment. canonicalTokenURL address = ''https://cooket.fun/token/'' @ segment
     \<and> decode_component segment = address
     \<and> set segment \<inter> set ''/?#&= '' = {}"
proof (intro exI conjI)
  show "canonicalTokenURL address = ''https://cooket.fun/token/'' @ encodeURIComponent address"
    by (simp add: canonicalTokenURL_def COOKET_ORIGIN_def)
  show "decode_component (encodeURIComponent address) = address" by (rule decode_encode)
  have "\<not> uri_kept c" if "c \<in> set ''/?#&= ''" for c
    using that by (auto simp: uri_kept_def is_alpha_def is_digit_def)
  moreover have "CHR ''%'' \<notin> set ''/?#&= ''" by simp
  ultimately show "set (encodeURIComponent address) \<inter> set ''/?#&= '' = {}"
    using encode_chars by blast
qed

subsection \<open>The image of a page\<close>

text \<open>Every path of the fallback route is a valid URL under the site.\<close>

definition parses_fallbacks :: "url_parser \<Rightarrow> bool" where
  "parses_fallbacks parseURL \<longleftrightarrow> (\<forall>a. parseURL (fallback_path a) COOKET_ORIGIN \<noteq> None)"

lemma fallback_ok:
  assumes "parses_fallbacks parseURL"
  obtains img where "fallbackTokenImageURL parseURL address = Inr img"
proof -
  obtain u where "parseURL (fallback_path address) COOKET_ORIGIN = Some u"
    using assms by (auto simp: parses_fallbacks_def)
  then show ?thesis using that by (simp add: fallbackTokenImageURL_def)
qed

lemma social_image_https:
  "tokenSocialImageURL parseURL img = Some address \<Longrightarrow>
    \<exists>path u. img = Some path \<and> parseURL path PUBLIC_API_ORIGIN = Some u
      \<and> url_protocol u = ''https:'' \<and> address = url_href u"
  by (auto simp: tokenSocialImageURL_def split: option.splits if_splits)

lemma usable_Some: "usable s = Some t \<longleftrightarrow> s = Some t \<and> t \<noteq> ''''"
  by (auto simp: usable_def)

text \<open>C24: The page of a token always has metadata with one image, the same for both cards. The image is the
  token's own one, at an address with the protocol https, exactly when the API answered the page with a
  token that has such an image; otherwise it is the fallback route of the token's address, or of the
  page's when the API gave no token. A crawler that follows the fallback makes a request of its own: it
  gets the logo, unless the API, asked again by the route, then answers with a token that has an image
  of its own, in which case it gets status 404.\<close>

theorem shared_image_is_served:
  assumes "parses_fallbacks parseURL"
  shows "\<exists>m img alt. fetchTokenMetadata parseURL answer address = Inr m
    \<and> og_images m = [(img, alt)] \<and> twitter_images m = [img]
    \<and> (case answer address of
         Inr t \<Rightarrow> (case usable (tokenSocialImageURL parseURL (st_image_url t)) of
              Some own \<Rightarrow> img = own \<and> (\<exists>path u. st_image_url t = Some path
                \<and> parseURL path PUBLIC_API_ORIGIN = Some u \<and> url_protocol u = ''https:'' \<and> own = url_href u)
            | None \<Rightarrow> fallbackTokenImageURL parseURL (st_address t) = Inr img)
       | Inl e \<Rightarrow> fallbackTokenImageURL parseURL address = Inr img)
    \<and> (\<forall>asked_again. og_image_GET parseURL (Inr logo) asked_again =
         (case asked_again of
            Inl e \<Rightarrow> Inr \<lparr> og_status = 200, og_body = Some logo \<rparr>
          | Inr t \<Rightarrow> if usable (tokenSocialImageURL parseURL (st_image_url t)) = None
              then Inr \<lparr> og_status = 200, og_body = Some logo \<rparr>
              else Inr \<lparr> og_status = 404, og_body = None \<rparr>))"
proof -
  have route: "\<forall>asked_again. og_image_GET parseURL (Inr logo) asked_again =
         (case asked_again of
            Inl e \<Rightarrow> Inr \<lparr> og_status = 200, og_body = Some logo \<rparr>
          | Inr t \<Rightarrow> if usable (tokenSocialImageURL parseURL (st_image_url t)) = None
              then Inr \<lparr> og_status = 200, og_body = Some logo \<rparr>
              else Inr \<lparr> og_status = 404, og_body = None \<rparr>)"
    by (auto simp: og_image_GET_def split: sum.split)
  show ?thesis
  proof (cases "answer address")
    case (Inl e)
    obtain img where "fallbackTokenImageURL parseURL address = Inr img"
      using fallback_ok[OF assms] by blast
    then show ?thesis using Inl route by (simp add: fetchTokenMetadata_def Let_def)
  next
    case (Inr t)
    show ?thesis
    proof (cases "usable (tokenSocialImageURL parseURL (st_image_url t))")
      case None
      obtain img where "fallbackTokenImageURL parseURL (st_address t) = Inr img"
        using fallback_ok[OF assms] by blast
      then show ?thesis using None Inr route by (simp add: fetchTokenMetadata_def tokenMetadata_def Let_def)
    next
      case (Some img)
      then have "tokenSocialImageURL parseURL (st_image_url t) = Some img" by (simp add: usable_Some)
      from social_image_https[OF this] show ?thesis using Some Inr route
        by (simp add: fetchTokenMetadata_def tokenMetadata_def Let_def)
    qed
  qed
qed

definition demo_parse :: url_parser where
  "demo_parse input base =
     (if starts_with ''/'' input then
        Some \<lparr> url_protocol = ''https:'', url_username = '''', url_password = '''', url_hostname = drop 8 base,
               url_origin = base, url_href = base @ input \<rparr>
      else if starts_with ''http://'' input then
        Some \<lparr> url_protocol = ''http:'', url_username = '''', url_password = '''', url_hostname = drop 7 input,
               url_origin = input, url_href = input \<rparr>
      else None)"

definition demo_shared :: "string option \<Rightarrow> string \<Rightarrow> api_failure + shared_token" where
  "demo_shared img a = Inr \<lparr> st_address = a, st_name = ''Cookie'', st_symbol = ''C'',
     st_description = None, st_image_url = img \<rparr>"

lemma demo_parse_fallbacks: "parses_fallbacks demo_parse"
  by (simp add: parses_fallbacks_def demo_parse_def fallback_path_def starts_with_def)

theorem shared_image_is_served_witness:
  "\<exists>m. fetchTokenMetadata demo_parse (demo_shared (Some ''http://x'')) ''0xt'' = Inr m
     \<and> twitter_images m = [''https://cooket.fun/api/tokens/0xt/og-image'']
     \<and> og_image_GET demo_parse (Inr ''png'') (demo_shared (Some ''http://x'') ''0xt'')
         = Inr \<lparr> og_status = 200, og_body = Some ''png'' \<rparr>
     \<and> og_image_GET demo_parse (Inr ''png'') (demo_shared (Some ''/y'') ''0xt'')
         = Inr \<lparr> og_status = 404, og_body = None \<rparr>"
proof -
  have none: "usable (tokenSocialImageURL demo_parse (Some ''http://x'')) = None"
    and some: "usable (tokenSocialImageURL demo_parse (Some ''/y'')) \<noteq> None"
    and route: "fallbackTokenImageURL demo_parse ''0xt'' = Inr ''https://cooket.fun/api/tokens/0xt/og-image''"
    by code_simp+
  show ?thesis
    using shared_image_is_served[OF demo_parse_fallbacks, of "demo_shared (Some ''http://x'')" "''0xt''" "''png''"]
      none some route
    by (auto simp: demo_shared_def)
qed

text \<open>
  An outage of the API while the page is made is kept: its metadata names the fallback route, and once
  the API answers again with a usable image the route refuses the crawler.
\<close>

theorem outage_image_is_refused:
  assumes "parses_fallbacks parseURL"
    and "answer address = Inl e"
    and "usable (tokenSocialImageURL parseURL (st_image_url token)) = Some own"
  shows "\<exists>m img. fetchTokenMetadata parseURL answer address = Inr m
    \<and> og_images m = [(img, ''Cooket token'')] \<and> fallbackTokenImageURL parseURL address = Inr img
    \<and> og_image_GET parseURL logo (Inr token) = Inr \<lparr> og_status = 404, og_body = None \<rparr>"
proof -
  obtain img where "fallbackTokenImageURL parseURL address = Inr img"
    using fallback_ok[OF assms(1)] by blast
  then show ?thesis using assms(2,3)
    by (auto simp: fetchTokenMetadata_def Let_def og_image_GET_def)
qed

end
