(* ===== verification/Spec2Isabelle.thy ===== *)
theory Spec2Isabelle
  imports CreateForm SwapPanel ChartView CtoPanel Pagination Sharing
begin

text \<open>
  A model of the Cooket web client (\<^verbatim>\<open>src/apps/web/src\<close> and \<^verbatim>\<open>src/packages\<close>): the
  code that decides what a user's wallet is asked to sign, what is believed about the chain
  afterwards, and what a token page shows.

  \<^bold>\<open>The program.\<close> A token is launched from the create page, traded on its bonding curve from
  the token page until it graduates, then swapped on its canonical Uniswap pool; its community can
  take over the fees of its creator. The browser reads the chain over an RPC node, asks an external
  wallet for signatures, and remembers a trade it cannot yet account for in \<^verbatim>\<open>localStorage\<close>.

  \<^bold>\<open>Values.\<close> JsBase, JsNumber, JsDouble and JsCollections hold the JavaScript values and
  library functions the client computes with: strings as UTF-8 bytes, \<^verbatim>\<open>bigint\<close> as
  \<^verbatim>\<open>int\<close>, \<^verbatim>\<open>number\<close> as a rational with the three special values, rounding to
  binary64 (\<^verbatim>\<open>double_of\<close>), stable \<^verbatim>\<open>sort\<close>, insertion-ordered \<^verbatim>\<open>Map\<close>, thrown
  errors as the left of a sum. They also hold the laws every other theory uses: a decimal text and
  its value, bounds of rounding, \<^verbatim>\<open>Math.floor\<close> of a quotient.

  \<^bold>\<open>Effects.\<close> JsIO models asynchronous code as a computation on the trace of all requests made
  so far; ClientEnv collects the outside (node, wallet, clock, configuration) in one record whose
  functions see that trace. A theorem for all such records holds for every behaviour of the node and
  the wallet, and an awaited answer may change between two calls. \<^verbatim>\<open>signed_flow\<close> in ClientEnv is
  the interface of a flow that makes signed writes; every flow of CurveTrading and the swap of
  UniswapSwap is an interpretation of it.

  \<^bold>\<open>State machines.\<close> The forms of the client are state machines: a function handles one event
  (input, a button, new props, an answer, the end of a running job), a second one adds the effects React
  runs after the render, and a run is any list of events. LockedMachine holds the contract they share,
  \<^verbatim>\<open>locked_machine\<close>: what starts a job, the guard that is to keep a second one out, and what gives the
  guard back. The trading panel (with the stored trade as its guard), the swap panel, the launch form and
  the takeover panel are interpretations of it.

  \<^bold>\<open>Components.\<close>
  \<^item> TradeMath: slippage bounds, minimum outputs, amount presets
    (\<^verbatim>\<open>packages/contracts-sdk/src/index.ts\<close>, \<^verbatim>\<open>lib/trade-amount-presets.ts\<close>).
  \<^item> ChainGate: chain choice and the release gate (\<^verbatim>\<open>lib/chain.ts\<close>, \<^verbatim>\<open>lib/arc-safety.ts\<close>).
  \<^item> ActiveWallet: whether the wallet may transact (\<^verbatim>\<open>lib/wallet.ts\<close>,
    \<^verbatim>\<open>providers/active-wallet-provider.tsx\<close>).
  \<^item> SdkReceipts: hash derivations and receipt parsing (\<^verbatim>\<open>packages/contracts-sdk\<close>).
  \<^item> CurveTrading, CurveAvailability, TradeConfirmation: \<^verbatim>\<open>lib/contracts.ts\<close>, in the order
    reading and submitting, checking a curve, and settling a hash, with the scan for replaced
    transactions.
  \<^item> PendingTrades: the stored record of an unsettled trade (\<^verbatim>\<open>lib/transactions.ts\<close>); its
    operations are an interpretation of \<^verbatim>\<open>trade_store\<close>, whose facts the panel rests on.
  \<^item> TransactionModal and TradePanel: the dialog and the buy and sell panel
    (\<^verbatim>\<open>components/token-trade-panel.tsx\<close>) as a state machine: \<^verbatim>\<open>handle\<close> is one handler,
    answer or report, \<^verbatim>\<open>committed\<close> the effects React runs after it, \<^verbatim>\<open>panel_run\<close> any
    interleaving.
  \<^item> TradeExecution: what the trading screen (\<^verbatim>\<open>components/token-trading.tsx\<close>) runs for the
    panel, and the two composed: the reports an execution makes are the events the panel sees.
  \<^item> CreateInput and TokenLaunch: the create page, its first buy and its metadata
    (\<^verbatim>\<open>app/create/page.tsx\<close>, \<^verbatim>\<open>lib/dev-buy.ts\<close>, \<^verbatim>\<open>lib/metadata-finalization.ts\<close>).
  \<^item> UniswapSwap and SwapPanel: pool validation, quotes and the swap (\<^verbatim>\<open>lib/uniswap-v3.ts\<close>),
    and the swap panel (\<^verbatim>\<open>components/graduated-token-swap.tsx\<close>) as a state machine of the same
    form: \<^verbatim>\<open>swap_handle\<close>, \<^verbatim>\<open>swap_committed\<close>, \<^verbatim>\<open>swap_run\<close>.
  \<^item> CreateForm: the launch form (\<^verbatim>\<open>components/create-token-form.tsx\<close>), \<^verbatim>\<open>form_handle\<close> with
    \<^verbatim>\<open>form_committed\<close>, and what the page runs for it; editing, review, launch, retry of a failed
    first buy, images that are read and loaded.
  \<^item> CtoFlow: community takeovers (\<^verbatim>\<open>lib/cto-transactions.ts\<close>).
  \<^item> CtoRegistry: the contract side of a takeover, \<^verbatim>\<open>acceptCTO\<close>, \<^verbatim>\<open>cancelCTO\<close>,
    \<^verbatim>\<open>expireCTO\<close> and \<^verbatim>\<open>executeCTO\<close> of \<^verbatim>\<open>contracts/src/v3/CTORegistryV3.sol\<close>
    with all their guards, and the activation in \<^verbatim>\<open>FeeManagerV3.sol\<close>.
  \<^item> CtoPanel: the takeover panel (\<^verbatim>\<open>components/token-cto.tsx\<close>): its views, the actions they offer,
    compared with what CtoRegistry accepts, and \<^verbatim>\<open>cto_handle\<close>, in which replacing a view replaces its
    component.
  \<^item> Realtime and Datafeed: streamed provisional trades, their overlay on metrics and candles, and
    the chart's datafeed (\<^verbatim>\<open>lib/token-realtime.ts\<close>, \<^verbatim>\<open>lib/tradingview-datafeed.ts\<close>).
  \<^item> DisplayFormat: the texts of amounts, prices, shares and ages (\<^verbatim>\<open>lib/format.ts\<close>,
    \<^verbatim>\<open>lib/relative-time.ts\<close>), read back to the numbers they stand for.
  \<^item> ChartView: the candle chart (\<^verbatim>\<open>components/token-chart.tsx\<close>), its first view, its following
    of new bars and the numbers it hands to the chart library.
  \<^item> Pagination: the cursors, page numbers and buttons of the launch list and the activity ledger
    (\<^verbatim>\<open>components/cursor-pagination.tsx\<close>), \<^verbatim>\<open>list_step\<close>.
  \<^item> Sharing: the link, metadata and image of a token page (\<^verbatim>\<open>lib/token-sharing.ts\<close> and the
    route of the fallback image).

  \<^bold>\<open>What is shown.\<close> For every flow that signs: what was sent, in which order, after which
  checks, and what a returned or thrown result says about it. For the panel: a trade that was started
  while no other execution of its token and wallet was running blocks every further one until it is
  resolved, through any events whose results come from the calls that are running (\<^verbatim>\<open>timely\<close>),
  and a buy that may have been sent is not forgotten; a sell can be, and so can a trade whose record the
  late result of an older execution, or a check of the hash of an older trade, removes. For the swap
  panel: one swap at a time, and what runs is what was reviewed, except that a late quote may be reviewed
  under the other side; a swap is confirmed by the receipt the node answers with, also the one of a
  replacing transaction. For the first buy of a launch: which outcomes offer a retry. For takeovers: which
  buttons are offered, against the registry's own guards, and that what is shown is what is sent, signed
  for the right account. For receipts and pools: exactly what is accepted. For storage: histories and
  round trips. For streamed trades: bounds, deduplication and conservation of volume. For the datafeed: refinement of the automaton
  of what its listeners may be sent. For arithmetic: exact bounds, also where the code computes in
  floating point. For lists: buttons lead to the pages they name, and Next reads a whole list in order.
  For shared pages: links that decode to their address, and when the linked image is served.

  \<^bold>\<open>Bounds.\<close> Loops are structural: allowance polls go over the five delays of the code, a
  replacement scan reads at most its batch of blocks, retries have the limits of the code. Only the
  search for a provider error's code can run forever, and it is a partial function whose divergence
  is a lemma. No fuel is used, but \<^verbatim>\<open>read_list\<close> counts the pages it may load, and the number of
  pages is enough.

  \<^bold>\<open>Not modelled.\<close> Rendering and styling; texts produced by \<^verbatim>\<open>Intl\<close> and \<^verbatim>\<open>Date\<close>; the
  hooks of wagmi, react-query and AppKit; zod's schemas; the chart library; ABI tables and viem's
  encoders, hashes and address checks, which are parameters; the contracts, but for the calls of the takeover registry on a stored proposal (whose getters of the
  other contracts are parameters), the indexer and the API server, which are not part of the client; the token page, navigation and cards, which render.
\<close>

end
